(* ===== verification/Go_Prelude.thy ===== *)
theory Go_Prelude
  imports Complex_Main "HOL-Library.Word" "HOL-Library.Sublist" "HOL-Library.AList"
begin

unbundle bit_operations_syntax

text \<open>
  Shared vocabulary of the development: Go's results (value, error, run-time
  panic), byte slices and machine words, the big-endian codecs of
  \<open>encoding/binary\<close>, hexadecimal text, the functions of package \<open>strings\<close>
  that the program calls, and values of Go's type \<open>any\<close> as \<open>encoding/json\<close>
  produces them. Everything here is the language and its standard library; the
  program itself starts in theory \<open>Proto_Bytes\<close>.
\<close>

section \<open>Results of Go functions\<close>

text \<open>
  A Go function that returns \<open>(value, error)\<close> either returns a value, or a
  non-nil error, or the run-time stops the goroutine (a slice expression out of
  range). The three outcomes are kept apart.
\<close>

datatype go_error = Errorf string | Wrapf string go_error

datatype 'a go = Ok 'a | Err go_error | Panic

primrec go_bind :: "'a go \<Rightarrow> ('a \<Rightarrow> 'b go) \<Rightarrow> 'b go" where
  "go_bind (Ok x) f = f x"
| "go_bind (Err e) f = Err e"
| "go_bind Panic f = Panic"

definition go_guard :: "bool \<Rightarrow> go_error \<Rightarrow> unit go" where
  "go_guard b e = (if b then Err e else Ok ())"

definition of_opt :: "go_error \<Rightarrow> 'a option \<Rightarrow> 'a go" where
  "of_opt e x = (case x of Some v \<Rightarrow> Ok v | None \<Rightarrow> Err e)"

lemma go_bind_Ok_iff: "go_bind m f = Ok y \<longleftrightarrow> (\<exists>x. m = Ok x \<and> f x = Ok y)"
  by (cases m) auto

lemma go_bind_Panic_iff: "go_bind m f = Panic \<longleftrightarrow> m = Panic \<or> (\<exists>x. m = Ok x \<and> f x = Panic)"
  by (cases m) auto

lemma go_bind_assoc: "go_bind (go_bind m f) g = go_bind m (\<lambda>x. go_bind (f x) g)"
  by (cases m) auto

lemma go_bind_cong [fundef_cong]:
  "m = m' \<Longrightarrow> (\<And>x. m' = Ok x \<Longrightarrow> f x = f' x) \<Longrightarrow> go_bind m f = go_bind m' f'"
  by (cases m') auto

lemma go_guard_simps [simp]:
  "go_guard True e = Err e" "go_guard False e = Ok ()"
  by (simp_all add: go_guard_def)

lemma go_guard_Ok_iff [simp]: "go_guard b e = Ok u \<longleftrightarrow> \<not> b"
  by (simp add: go_guard_def)

lemma go_guard_no_panic [simp]: "go_guard b e \<noteq> Panic"
  by (simp add: go_guard_def)

lemma of_opt_simps [simp]:
  "of_opt e (Some x) = Ok x" "of_opt e None = Err e"
  by (simp_all add: of_opt_def)

lemma of_opt_Ok_iff [simp]: "of_opt e x = Ok y \<longleftrightarrow> x = Some y"
  by (cases x) simp_all

lemma of_opt_no_panic [simp]: "of_opt e x \<noteq> Panic"
  by (cases x) simp_all

fun is_ok :: "'a go \<Rightarrow> bool" where
  "is_ok (Ok _) = True"
| "is_ok _ = False"

section \<open>Bytes, words and slices\<close>

type_synonym byte = "8 word"
type_synonym bytes = "8 word list"
type_synonym u16 = "16 word"
type_synonym u32 = "32 word"
type_synonym u64 = "64 word"

definition slice :: "'a list \<Rightarrow> nat \<Rightarrow> nat \<Rightarrow> 'a list" where
  "slice xs i j = take (j - i) (drop i xs)"

lemma length_slice [simp]: "length (slice xs i j) = min (j - i) (length xs - i)"
  by (simp add: slice_def min.commute)

lemma slice_append_mid: "slice (pre @ xs @ suf) (length pre) (length pre + length xs) = xs"
  by (simp add: slice_def)

lemma slice_full [simp]: "slice xs 0 (length xs) = xs"
  by (simp add: slice_def)

lemma slice_append_prefix:
  "i \<le> j \<Longrightarrow> slice (pre @ xs) (length pre + i) (length pre + j) = slice xs i j"
  by (simp add: slice_def)

lemma slice_split: "i \<le> j \<Longrightarrow> j \<le> k \<Longrightarrow> slice xs i k = slice xs i j @ slice xs j k"
  using take_add [of "j - i" "k - j" "drop i xs"] by (simp add: slice_def)

lemma slice_one: "i < length xs \<Longrightarrow> slice xs i (i + 1) = [xs ! i]"
  by (simp add: slice_def take_Suc_conv_app_nth)

lemma slice_shift: "slice (pre @ d) (length pre + i) (length pre + j) = slice d i j"
  by (simp add: slice_def)

lemma take_slice_drop: "i \<le> j \<Longrightarrow> take i xs @ slice xs i j @ drop j xs = xs"
  by (metis append_take_drop_id drop_drop le_add_diff_inverse2 slice_def)

lemma nth_append_pre: "(pre @ x # suf) ! length pre = x"
  by simp

text \<open>\<open>bytes_of\<close> is Go's conversion \<open>[]byte(s)\<close>, \<open>string_of\<close> is \<open>string(b)\<close>.\<close>

definition bytes_of :: "string \<Rightarrow> bytes" where
  "bytes_of s = map of_char s"

definition string_of :: "bytes \<Rightarrow> string" where
  "string_of b = map (\<lambda>x. char_of (unat x)) b"

lemma length_bytes_of [simp]: "length (bytes_of s) = length s"
  by (simp add: bytes_of_def)

lemma length_string_of [simp]: "length (string_of b) = length b"
  by (simp add: string_of_def)

lemma unat_byte_less: "unat (x :: byte) < 256"
  using unsigned_less[of x] by simp

lemma unat_of_nat_small:
  "n < 2 ^ 8 \<Longrightarrow> unat (word_of_nat n :: byte) = n"
  "n < 2 ^ 16 \<Longrightarrow> unat (word_of_nat n :: u16) = n"
  "n < 2 ^ 32 \<Longrightarrow> unat (word_of_nat n :: u32) = n"
  "n < 2 ^ 64 \<Longrightarrow> unat (word_of_nat n :: u64) = n"
  by (simp_all add: unat_of_nat)

lemma bit_byte_ge: "8 \<le> n \<Longrightarrow> \<not> bit (x :: byte) n"
  by (auto dest: bit_imp_le_length)

lemma of_char_word: "(of_char c :: byte) = word_of_nat (of_char c)"
  by (metis of_nat_of_char)

lemma string_of_bytes_of [simp]: "string_of (bytes_of s) = s"
proof -
  have "char_of (unat (of_char c :: byte)) = c" for c :: char
  proof -
    have "(of_char c :: nat) < 256" by simp
    then have "unat (of_char c :: byte) = of_char c"
      by (subst of_char_word, subst unat_of_nat) simp
    then show ?thesis by simp
  qed
  then show ?thesis by (simp add: string_of_def bytes_of_def comp_def)
qed

lemma bytes_of_string_of [simp]: "bytes_of (string_of b) = b"
proof -
  have "(of_char (char_of (unat x)) :: byte) = x" for x :: byte
  proof -
    have "(of_char (char_of (unat x)) :: nat) = unat x"
      using unat_byte_less [of x] by (simp add: of_char_of)
    then show ?thesis by (subst of_char_word) simp
  qed
  then show ?thesis by (simp add: string_of_def bytes_of_def comp_def map_idI)
qed

section \<open>Package encoding/binary: big-endian integers\<close>

definition be16 :: "u16 \<Rightarrow> bytes" where
  "be16 w = [ucast (drop_bit 8 w), ucast w]"

definition be32 :: "u32 \<Rightarrow> bytes" where
  "be32 w = [ucast (drop_bit 24 w), ucast (drop_bit 16 w), ucast (drop_bit 8 w), ucast w]"

definition be64 :: "u64 \<Rightarrow> bytes" where
  "be64 w = [ucast (drop_bit 56 w), ucast (drop_bit 48 w), ucast (drop_bit 40 w),
     ucast (drop_bit 32 w), ucast (drop_bit 24 w), ucast (drop_bit 16 w),
     ucast (drop_bit 8 w), ucast w]"

definition get16 :: "bytes \<Rightarrow> u16" where
  "get16 b = push_bit 8 (ucast (b ! 0)) OR ucast (b ! 1)"

definition get32 :: "bytes \<Rightarrow> u32" where
  "get32 b = push_bit 24 (ucast (b ! 0)) OR push_bit 16 (ucast (b ! 1))
     OR push_bit 8 (ucast (b ! 2)) OR ucast (b ! 3)"

lemma length_be [simp]: "length (be16 a) = 2" "length (be32 b) = 4" "length (be64 c) = 8"
  by (simp_all add: be16_def be32_def be64_def)

lemma get16_be16 [simp]: "get16 (be16 a) = a"
  by (rule bit_word_eqI) (auto simp: get16_def be16_def bit_simps)

lemma get32_be32 [simp]: "get32 (be32 a) = a"
proof (rule bit_word_eqI)
  fix n assume "n < LENGTH(32)"
  then have "n < 8 \<or> 8 \<le> n \<and> n < 16 \<or> 16 \<le> n \<and> n < 24 \<or> 24 \<le> n \<and> n < 32"
    by auto
  then show "bit (get32 (be32 a)) n = bit a n"
    by (elim disjE) (auto simp: get32_def be32_def bit_simps)
qed

lemma be64_inj: "be64 a = be64 b \<longleftrightarrow> a = b"
proof
  assume eq: "be64 a = be64 b"
  have part: "bit a n = bit b n"
    if "(ucast (drop_bit k a) :: byte) = ucast (drop_bit k b)" "k \<le> n" "n < k + 8" for k n
  proof -
    from that(1) have "bit (ucast (drop_bit k a) :: byte) (n - k) = bit (ucast (drop_bit k b) :: byte) (n - k)"
      by simp
    moreover from that(3) \<open>k \<le> n\<close> have "n - k < 8" by arith
    ultimately show ?thesis using \<open>k \<le> n\<close> by (simp add: bit_simps)
  qed
  show "a = b"
  proof (rule bit_word_eqI)
    fix n assume "n < LENGTH(64)"
    then have "n < 8 \<or> 8 \<le> n \<and> n < 16 \<or> 16 \<le> n \<and> n < 24 \<or> 24 \<le> n \<and> n < 32
      \<or> 32 \<le> n \<and> n < 40 \<or> 40 \<le> n \<and> n < 48 \<or> 48 \<le> n \<and> n < 56 \<or> 56 \<le> n \<and> n < 64"
      by auto
    with eq show "bit a n = bit b n"
      using part[of 0 n] part[of 8 n] part[of 16 n] part[of 24 n] part[of 32 n] part[of 40 n]
        part[of 48 n] part[of 56 n]
      by (auto simp: be64_def)
  qed
qed simp

lemma be16_get16: "length b = 2 \<Longrightarrow> be16 (get16 b) = b"
proof -
  assume "length b = 2"
  then obtain x y where b: "b = [x, y]"
    by (auto simp: length_Suc_conv numeral_2_eq_2)
  have "(ucast (drop_bit 8 (get16 b)) :: byte) = x" "(ucast (get16 b) :: byte) = y"
    by (auto intro!: bit_word_eqI simp: b get16_def bit_simps bit_byte_ge)
  then show ?thesis by (simp add: be16_def b)
qed

lemma be32_get32: "length b = 4 \<Longrightarrow> be32 (get32 b) = b"
proof -
  assume "length b = 4"
  then obtain x y z w where b: "b = [x, y, z, w]"
    by (auto simp: length_Suc_conv eval_nat_numeral)
  have "(ucast (drop_bit 24 (get32 b)) :: byte) = x" "(ucast (drop_bit 16 (get32 b)) :: byte) = y"
    "(ucast (drop_bit 8 (get32 b)) :: byte) = z" "(ucast (get32 b) :: byte) = w"
    by (auto intro!: bit_word_eqI simp: b get32_def bit_simps bit_byte_ge)
  then show ?thesis by (simp add: be32_def b)
qed

end
