(* ===== verification/Proto_Bytes.thy ===== *)
theory Proto_Bytes
  imports Go_Prelude
begin

unbundle bit_operations_syntax

text \<open>
  Model of \<open>internal/protocol/bytes.go\<close>: protobuf varints, the tag/value writer
  and reader, and the LZ4 block codec.
\<close>

section \<open>Varints\<close>

function varint :: "u64 \<Rightarrow> bytes" where
  "varint n =
     (let b = (ucast (n AND 0x7f) :: byte); n' = drop_bit 7 n in
      if n' \<noteq> 0 then (b OR 0x80) # varint n' else [b])"
  by pat_completeness auto
termination
proof (relation "measure unat")
  show "wf (measure (unat :: u64 \<Rightarrow> nat))" by simp
next
  fix n x :: u64 and xa :: u64
  assume "xa = drop_bit 7 n" "xa \<noteq> 0"
  moreover from this have "unat (drop_bit 7 n) \<noteq> 0"
    by (simp only: unat_eq_0) simp
  ultimately show "(xa, n) \<in> measure unat"
    by (simp add: unat_drop_bit_eq drop_bit_eq_div [where 'a = nat] del: drop_bit_eq_div)
qed

declare varint.simps [simp del]

function readVarint_loop :: "bytes \<Rightarrow> nat \<Rightarrow> u64 \<Rightarrow> nat \<Rightarrow> (u64 \<times> nat) go" where
  "readVarint_loop data i n shift =
     (if i < length data then
        let b = data ! i; i' = i + 1;
            n' = n OR push_bit shift (ucast (b AND 0x7f)) in
        if b AND 0x80 = 0 then Ok (n', i')
        else if shift + 7 > 63 then Err (Errorf ''varint overflow'')
        else readVarint_loop data i' n' (shift + 7)
      else Err (Errorf ''truncated varint''))"
  by pat_completeness auto
termination
  by (relation "measure (\<lambda>(data, i, n, shift). length data - i)") auto

declare readVarint_loop.simps [simp del]

definition readVarint :: "bytes \<Rightarrow> nat \<Rightarrow> (u64 \<times> nat) go" where
  "readVarint data i = readVarint_loop data i 0 0"

lemma readVarint_loop_no_panic: "readVarint_loop data i n s \<noteq> Panic"
  by (induction data i n s rule: readVarint_loop.induct)
     (subst readVarint_loop.simps, auto simp: Let_def)

lemma readVarint_loop_bounds:
  "readVarint_loop data i n s = Ok (v, j) \<Longrightarrow> i < j \<and> j \<le> length data"
proof (induction data i n s rule: readVarint_loop.induct)
  case (1 data i n s)
  from "1.prems" show ?case
    by (subst (asm) readVarint_loop.simps)
       (auto simp: Let_def split: if_splits dest: "1.IH"[OF _ refl refl refl])
qed

lemma mask7: "(0x7f :: 'a :: len word) = mask 7"
  by (simp add: mask_eq_exp_minus_1)

lemma and_0x80: "(b :: byte) AND 0x80 = 0 \<longleftrightarrow> \<not> bit b 7"
  using and_exp_eq_0_iff_not_bit [of b 7] by simp

lemma bit_0x80: "bit (0x80 :: byte) n \<longleftrightarrow> n = 7"
  using bit_exp_iff [where 'a = "8 word", of 7 n] by auto

lemma bit_128_int: "bit (128 :: int) n \<longleftrightarrow> n = 7"
  using bit_exp_iff [where 'a = int, of 7 n] by auto

lemma varint_last_byte:
  fixes n :: u64
  shows "(ucast (n AND 0x7f) :: byte) AND 0x80 = 0"
    and "ucast ((ucast (n AND 0x7f) :: byte) AND 0x7f) = n AND 0x7f"
  by (auto simp: and_0x80 mask7 bit_simps intro!: bit_word_eqI)

lemma varint_more_byte:
  fixes n :: u64
  shows "((ucast (n AND 0x7f) :: byte) OR 0x80) AND 0x80 \<noteq> 0"
    and "ucast (((ucast (n AND 0x7f) :: byte) OR 0x80) AND 0x7f) = n AND 0x7f"
  by (auto simp: and_0x80 mask7 bit_simps bit_0x80 bit_128_int intro!: bit_word_eqI)

lemma varint_split:
  fixes n :: u64
  shows "push_bit s (n AND 0x7f) OR push_bit (s + 7) (drop_bit 7 n) = push_bit s n"
proof (rule bit_word_eqI)
  fix k assume "k < LENGTH(64)"
  moreover have "7 + (k - (s + 7)) = k - s" if "s + 7 \<le> k" using that by simp
  ultimately show "bit (push_bit s (n AND 0x7f) OR push_bit (s + 7) (drop_bit 7 n)) k
      = bit (push_bit s n) k"
    by (cases "s + 7 \<le> k") (auto simp: mask7 bit_simps)
qed

lemma drop7_0: "drop_bit 7 n = 0 \<Longrightarrow> n AND 0x7f = (n :: u64)"
  using bits_ident [of 7 n] by (simp only: mask7 take_bit_eq_mask push_bit_of_0) simp

lemma varint_length_pos [simp]: "varint n \<noteq> []"
  by (subst varint.simps) (simp add: Let_def)

lemma drop_bit_less:
  assumes "unat n < 2 ^ (64 - s)" "drop_bit 7 (n :: u64) \<noteq> 0" "s \<le> 63"
  shows "s + 7 \<le> 63" "unat (drop_bit 7 n) < 2 ^ (64 - (s + 7))"
proof -
  have eq: "unat (drop_bit 7 n) = unat n div 128"
    by (simp only: unat_drop_bit_eq) (simp add: drop_bit_eq_div)
  with assms(2) have "unat n div 128 \<noteq> 0" by (simp flip: eq add: unat_eq_0)
  then have ge: "128 \<le> unat n" by (simp add: div_eq_0_iff)
  show 1: "s + 7 \<le> 63"
  proof (rule ccontr)
    assume "\<not> s + 7 \<le> 63"
    then have "64 - s \<le> 7" by simp
    then have "(2::nat) ^ (64 - s) \<le> 2 ^ 7" by (rule power_increasing) simp
    with ge assms(1) show False by simp
  qed
  have "(2::nat) ^ (64 - s) = 2 ^ (64 - (s + 7)) * 128"
  proof -
    from 1 have "64 - s = (64 - (s + 7)) + 7" by arith
    then have "(2::nat) ^ (64 - s) = 2 ^ ((64 - (s + 7)) + 7)" by (rule arg_cong)
    then show ?thesis by (simp only: power_add) simp
  qed
  with assms(1) show "unat (drop_bit 7 n) < 2 ^ (64 - (s + 7))"
    by (simp add: eq less_mult_imp_div_less)
qed

lemma length_varint_bound: "unat n < 2 ^ (64 - s) \<Longrightarrow> s \<le> 63 \<Longrightarrow> 7 * length (varint n) + s \<le> 70"
proof (induction n arbitrary: s rule: varint.induct)
  case (1 n)
  show ?case
  proof (cases "drop_bit 7 n = 0")
    case True
    then have "length (varint n) = 1" by (subst varint.simps) (simp add: Let_def)
    with "1.prems" show ?thesis by simp
  next
    case False
    then have "length (varint n) = Suc (length (varint (drop_bit 7 n)))"
      by (subst varint.simps) (simp add: Let_def)
    then show ?thesis
      using "1.IH" [OF refl refl False, of "s + 7"] drop_bit_less [OF "1.prems"(1) False "1.prems"(2)]
      by simp
  qed
qed

lemma length_varint: "length (varint n) \<le> 10"
  using length_varint_bound [of n 0] unsigned_less [of n] by simp

lemma readVarint_loop_varint:
  "unat n < 2 ^ (64 - s) \<Longrightarrow> s \<le> 63 \<Longrightarrow>
   readVarint_loop (pre @ varint n @ suf) (length pre) acc s =
     Ok (acc OR push_bit s n, length pre + length (varint n))"
proof (induction n arbitrary: pre acc s rule: varint.induct)
  case (1 n)
  show ?case
  proof (cases "drop_bit 7 n = 0")
    case True
    then have v: "varint n = [ucast (n AND 0x7f)]" by (subst varint.simps) (simp only: Let_def simp_thms if_False)
    have last: "ucast ((ucast (n AND 0x7f) :: byte) AND 0x7f) = n"
      by (subst varint_last_byte(2)) (rule drop7_0 [OF True])
    show ?thesis
      unfolding v by (subst readVarint_loop.simps)
         (simp add: Let_def last varint_last_byte(1))
  next
    case False
    let ?b = "(ucast (n AND 0x7f) :: byte) OR 0x80"
    from False have v: "varint n = ?b # varint (drop_bit 7 n)" by (subst varint.simps) simp
    note less = drop_bit_less [OF "1.prems"(1) False "1.prems"(2)]
    have "readVarint_loop ((pre @ [?b]) @ varint (drop_bit 7 n) @ suf) (length (pre @ [?b]))
        (acc OR push_bit s (n AND 0x7f)) (s + 7) =
      Ok ((acc OR push_bit s (n AND 0x7f)) OR push_bit (s + 7) (drop_bit 7 n),
          length (pre @ [?b]) + length (varint (drop_bit 7 n)))"
      by (rule "1.IH" [OF refl refl False less(2,1)])
    then show ?thesis
      using less(1)
      by (subst readVarint_loop.simps)
         (simp add: v varint_more_byte or.assoc varint_split del: push_bit_and)
  qed
qed

lemma readVarint_varint:
  "readVarint (pre @ varint n @ suf) (length pre) = Ok (n, length pre + length (varint n))"
  using readVarint_loop_varint [of n 0 pre suf 0] unsigned_less [of n]
  by (simp add: readVarint_def)

lemmas readVarint_varint0 = readVarint_varint [of "[]", simplified]


lemma readVarint_no_panic [simp]: "readVarint data i \<noteq> Panic"
  by (simp add: readVarint_def readVarint_loop_no_panic)

lemma readVarint_bounds: "readVarint data i = Ok (v, j) \<Longrightarrow> i < j \<and> j \<le> length data"
  by (auto simp: readVarint_def dest: readVarint_loop_bounds)

section \<open>Protobuf messages\<close>

definition tag_byte :: "nat \<Rightarrow> byte \<Rightarrow> byte" where
  "tag_byte field wt = push_bit 3 (word_of_nat field) OR wt"

definition pbLen :: "nat \<Rightarrow> bytes \<Rightarrow> bytes" where
  "pbLen field data =
     [tag_byte field 2] @ varint (word_of_nat (length data)) @ data"

definition pbVar :: "nat \<Rightarrow> u64 \<Rightarrow> bytes" where
  "pbVar field n = [tag_byte field 0] @ varint n"

text \<open>
  The values of Go's \<open>map[int]any\<close> that \<open>pbParse\<close> builds: an \<open>int64\<close> (kept as its
  64 bits) or a \<open>[]byte\<close>. The map is an association list with distinct keys.
\<close>

datatype pbval = PInt u64 | PBytes bytes

type_synonym pbmap = "(nat \<times> pbval) list"

text \<open>
  \<open>int(ln)\<close> reinterprets 64 bits as a signed integer and \<open>i+int(ln)\<close> wraps around.
  \<open>slice_end i l\<close> is that sum; the slice expression \<open>data[i:i+int(ln)]\<close> panics
  when it is below \<open>i\<close>.
\<close>

definition slice_end :: "nat \<Rightarrow> u64 \<Rightarrow> int" where
  "slice_end i l = sint (word_of_nat i + l)"

function pbParse_loop :: "bytes \<Rightarrow> nat \<Rightarrow> pbmap \<Rightarrow> pbmap go" where
  "pbParse_loop data i out =
     (if i < length data then
        (case readVarint data i of
           Ok (tag, ni) \<Rightarrow>
             (let fn = unat (drop_bit 3 tag); wt = tag AND 7 in
              if wt = 0 then
                (case readVarint data ni of
                   Ok (v, ni') \<Rightarrow> pbParse_loop data ni' (AList.update fn (PInt v) out)
                 | _ \<Rightarrow> Ok out)
              else if wt = 2 then
                (case readVarint data ni of
                   Ok (l, ni') \<Rightarrow>
                     (let e = slice_end ni' l in
                      if e > int (length data) then Ok out
                      else if e < int ni' then Panic
                      else pbParse_loop data (nat e)
                             (AList.update fn (PBytes (slice data ni' (nat e))) out))
                 | _ \<Rightarrow> Ok out)
              else Ok out)
         | _ \<Rightarrow> Ok out)
      else Ok out)"
  by pat_completeness auto
termination
  by (relation "measure (\<lambda>(data, i, out). length data - i)")
     (auto dest!: readVarint_bounds)

declare pbParse_loop.simps [simp del]

definition pbParse :: "bytes \<Rightarrow> pbmap go" where
  "pbParse data = pbParse_loop data 0 []"

text \<open>
  A message as a list of fields: what the writer functions are given, and the map that
  the reader has to return for it. Tags are written as a single byte, so the writer is
  only meant for field numbers below 16.
\<close>

datatype field = FVar nat u64 | FLen nat bytes

fun enc_field :: "field \<Rightarrow> bytes" where
  "enc_field (FVar f n) = pbVar f n"
| "enc_field (FLen f b) = pbLen f b"

fun put_field :: "field \<Rightarrow> pbmap \<Rightarrow> pbmap" where
  "put_field (FVar f n) m = AList.update f (PInt n) m"
| "put_field (FLen f b) m = AList.update f (PBytes b) m"

fun field_ok :: "field \<Rightarrow> bool" where
  "field_ok (FVar f n) = (f < 16)"
| "field_ok (FLen f b) = (f < 16 \<and> length b < 2 ^ 62)"

definition enc_fields :: "field list \<Rightarrow> bytes" where
  "enc_fields fs = concat (map enc_field fs)"

lemma tag_byte_facts:
  assumes "f < 16" "w = 0 \<or> w = 2"
  shows "tag_byte f w AND 0x80 = 0"
    and "unat (drop_bit 3 (ucast (tag_byte f w AND 0x7f) :: u64)) = f"
    and "(ucast (tag_byte f w AND 0x7f) :: u64) AND 7 = ucast w"
proof -
  from assms(1) have "f \<in> {0, 1, 2, 3, 4, 5, 6, 7, 8, 9, 10, 11, 12, 13, 14, 15}"
    by (simp only: insert_iff empty_iff) arith
  with assms(2) show "tag_byte f w AND 0x80 = 0"
    and "unat (drop_bit 3 (ucast (tag_byte f w AND 0x7f) :: u64)) = f"
    and "(ucast (tag_byte f w AND 0x7f) :: u64) AND 7 = ucast w"
    by (auto simp: tag_byte_def)
qed

lemma readVarint_tag:
  assumes "f < 16" "w = 0 \<or> w = 2"
  shows "readVarint (pre @ tag_byte f w # suf) (length pre) =
     Ok (ucast (tag_byte f w AND 0x7f), Suc (length pre))"
  by (simp add: readVarint_def readVarint_loop.simps tag_byte_facts(1) [OF assms])

lemma slice_end_exact:
  assumes "i + unat l < 2 ^ 63"
  shows "slice_end i l = int (i + unat l)"
proof -
  have l: "l = word_of_nat (unat l)" by simp
  have "word_of_nat i + l = (word_of_nat (i + unat l) :: u64)"
    by (subst l) (simp only: of_nat_add)
  moreover have "int (i + unat l) < int (2 ^ 63)"
    using assms by (simp only: of_nat_less_iff)
  then have "signed_take_bit 63 (int (i + unat l)) = int (i + unat l)"
    using order_trans [of "- (2 ^ 63)" 0 "int (i + unat l)"]
    by (intro signed_take_bit_int_eq_self) simp_all
  then have "sint (word_of_nat (i + unat l) :: u64) = int (i + unat l)"
    by (simp only: signed_of_nat) simp
  ultimately show ?thesis by (simp add: slice_end_def)
qed

lemma pbParse_loop_end: "pbParse_loop data (length data) out = Ok out"
  by (subst pbParse_loop.simps) simp

lemma pbParse_loop_var:
  assumes "i < length data" "readVarint data i = Ok (tag, ni)" "tag AND 7 = 0"
    "readVarint data ni = Ok (v, ni')"
  shows "pbParse_loop data i out =
    pbParse_loop data ni' (AList.update (unat (drop_bit 3 tag)) (PInt v) out)"
  using assms by (subst pbParse_loop.simps) (simp add: Let_def)

lemma pbParse_loop_len:
  assumes "i < length data" "readVarint data i = Ok (tag, ni)" "tag AND 7 = 2"
    "readVarint data ni = Ok (l, ni')" "ni' + unat l \<le> length data" "length data < 2 ^ 63"
  shows "pbParse_loop data i out = pbParse_loop data (ni' + unat l)
    (AList.update (unat (drop_bit 3 tag)) (PBytes (slice data ni' (ni' + unat l))) out)"
proof -
  have e: "slice_end ni' l = int (ni' + unat l)"
    using assms(5,6) by (intro slice_end_exact) simp
  have "\<not> int (length data) < slice_end ni' l" "\<not> slice_end ni' l < int ni'"
    "nat (slice_end ni' l) = ni' + unat l"
    using assms(5) unfolding e by (simp_all only: of_nat_less_iff nat_int)
  then show ?thesis
    using assms(1-4) by (subst pbParse_loop.simps) (simp add: Let_def)
qed

lemma pbParse_loop_enc:
  assumes "\<forall>f \<in> set fs. field_ok f" "length pre + length (enc_fields fs) < 2 ^ 62"
  shows "pbParse_loop (pre @ enc_fields fs) (length pre) out = Ok (fold put_field fs out)"
  using assms
proof (induction fs arbitrary: pre out)
  case Nil
  then show ?case by (subst pbParse_loop.simps) (simp add: enc_fields_def)
next
  case (Cons fd fs)
  have rest: "enc_fields (fd # fs) = enc_field fd @ enc_fields fs"
    by (simp add: enc_fields_def)
  have IH: "pbParse_loop (pre @ enc_field fd @ enc_fields fs) (length pre + length (enc_field fd)) out'
      = Ok (fold put_field fs out')" for out'
    using Cons.IH [of "pre @ enc_field fd" out'] Cons.prems by (simp add: rest)
  show ?case
  proof (cases fd)
    case (FVar f n)
    with Cons.prems have "f < 16" by simp
    note tag = readVarint_tag [OF this disjI1 [OF refl], of pre]
      and facts = tag_byte_facts [OF this disjI1 [OF refl]]
    have eq: "enc_fields (fd # fs) = tag_byte f 0 # varint n @ enc_fields fs"
      by (simp add: rest) (simp add: FVar pbVar_def)
    have "pbParse_loop (pre @ enc_fields (fd # fs)) (length pre) out =
        pbParse_loop (pre @ enc_fields (fd # fs)) (Suc (length pre) + length (varint n))
          (AList.update f (PInt n) out)"
      using readVarint_varint [of "pre @ [tag_byte f 0]" n "enc_fields fs"]
      unfolding eq by (subst pbParse_loop_var [OF _ tag]) (simp_all add: facts)
    then show ?thesis
      using IH [of "AList.update f (PInt n) out"] by (simp add: eq [unfolded FVar] FVar pbVar_def)
  next
    case (FLen f b)
    with Cons.prems have "f < 16" and len: "length b < 2 ^ 62" by simp_all
    note tag = readVarint_tag [OF \<open>f < 16\<close> disjI2 [OF refl], of pre]
      and facts = tag_byte_facts [OF \<open>f < 16\<close> disjI2 [OF refl]]
    let ?l = "word_of_nat (length b) :: u64"
    have ul: "unat ?l = length b" using len by (simp add: unat_of_nat)
    have eq: "enc_fields (fd # fs) = tag_byte f 2 # varint ?l @ b @ enc_fields fs"
      by (simp add: rest) (simp add: FLen pbLen_def)
    define n where "n = Suc (length pre) + length (varint ?l)"
    have v: "readVarint (pre @ enc_fields (fd # fs)) (Suc (length pre)) = Ok (?l, n)"
      using readVarint_varint [of "pre @ [tag_byte f 2]" ?l "b @ enc_fields fs"]
      by (simp add: eq n_def)
    have sl: "slice (pre @ enc_fields (fd # fs)) n (n + length b) = b"
      using slice_append_mid [of "pre @ tag_byte f 2 # varint ?l" b "enc_fields fs"]
      by (simp add: eq n_def)
    have "pbParse_loop (pre @ enc_fields (fd # fs)) (length pre) out =
        pbParse_loop (pre @ enc_fields (fd # fs)) (n + length b) (AList.update f (PBytes b) out)"
      using sl Cons.prems(2) unfolding eq
      by (subst pbParse_loop_len [OF _ tag _ v [unfolded eq]]) (simp_all add: facts ul n_def)
    then show ?thesis
      using IH [of "AList.update f (PBytes b) out"] by (simp add: eq [unfolded FLen] FLen pbLen_def n_def ac_simps)
  qed
qed

lemma pbParse_fields:
  assumes "\<forall>f \<in> set fs. field_ok f" "length (enc_fields fs) < 2 ^ 62"
  shows "pbParse (enc_fields fs) = Ok (fold put_field fs [])"
  using pbParse_loop_enc [of fs "[]"] assms by (simp add: pbParse_def)


lemma map_of_put_field:
  "map_of (put_field fd m) =
     (case fd of FVar f n \<Rightarrow> (map_of m)(f \<mapsto> PInt n) | FLen f b \<Rightarrow> (map_of m)(f \<mapsto> PBytes b))"
  by (cases fd) (simp_all add: update_conv')

text \<open>
  A length of \<open>2^63\<close> or more becomes negative under \<open>int(ln)\<close>: it passes the bound
  check and the slice expression panics.
\<close>

lemma slice_end_negative:
  assumes "2 ^ 63 \<le> unat l" "i < 2 ^ 62"
  shows "slice_end i l = int i + int (unat l) - 2 ^ 64"
proof -
  let ?z = "int i + int (unat l) - 2 ^ 64"
  have w: "(word_of_int ?z :: u64) = word_of_nat i + l"
    by (simp add: word_of_int_2p_len)
  have s: "sint (word_of_int ?z :: u64) = ?z"
  proof -
    have "unat l < 18446744073709551616" using unsigned_less [of l] by simp
    moreover have "9223372036854775808 \<le> unat l" "i < 4611686018427387904"
      using assms by simp_all
    ultimately have "- 9223372036854775808 \<le> int i + int (unat l) - 18446744073709551616"
      "int i + int (unat l) - 18446744073709551616 < 9223372036854775808"
      by linarith+
    then have "- (2 ^ 63) \<le> ?z" "?z < 2 ^ 63" by simp_all
    then have "signed_take_bit 63 ?z = ?z" by (rule signed_take_bit_int_eq_self)
    then show ?thesis by (simp only: signed_of_int) simp
  qed
  show ?thesis unfolding slice_end_def w [symmetric] by (rule s)
qed

text \<open>A field as a pair: the reader keeps the last pair of every number.\<close>

fun field_kv :: "field \<Rightarrow> nat \<times> pbval" where
  "field_kv (FVar f n) = (f, PInt n)"
| "field_kv (FLen f b) = (f, PBytes b)"

lemma map_of_fold_put_field:
  "map_of (fold put_field fs m) = map_of m ++ map_of (rev (map field_kv fs))"
proof (induction fs arbitrary: m)
  case (Cons f fs)
  have "map_of (put_field f m) = map_of m ++ map_of [field_kv f]"
    by (cases f) (simp_all add: map_of_put_field update_conv')
  then show ?case unfolding fold_Cons o_apply Cons.IH by (simp only: list.map rev.simps map_of_append map_add_assoc)
qed simp

text \<open>
  Reading a message that the writer functions wrote gives back its fields: under every
  number the value that was written last.
\<close>

theorem pbParse_encode:
  assumes "\<forall>f \<in> set fs. field_ok f" "length (enc_fields fs) < 2 ^ 62"
  shows "\<exists>m. pbParse (enc_fields fs) = Ok m \<and> map_of m = map_of (rev (map field_kv fs))"
  using pbParse_fields [OF assms] map_of_fold_put_field [of fs "[]"] by auto

theorem pbParse_encode_witness:
  "\<exists>m. pbParse (enc_fields [FVar 1 300, FLen 2 [7], FVar 1 5]) = Ok m \<and> map_of m 1 = Some (PInt 5)"
proof -
  have "length (enc_fields [FVar 1 300, FLen 2 [7], FVar 1 5]) < 100" by code_simp
  then show ?thesis using pbParse_encode [of "[FVar 1 300, FLen 2 [7], FVar 1 5]"] by auto
qed

text \<open>
  C40: A length prefix of \<open>2^63\<close> or more makes the reader panic: converted to \<open>int\<close> it is
  negative, passes the bound check, and the slice expression fails.
\<close>

theorem pbParse_negative_length_panics:
  assumes "f < 16" "2 ^ 63 \<le> unat l"
  shows "pbParse (tag_byte f 2 # varint l @ rest) = Panic"
proof -
  let ?data = "tag_byte f 2 # varint l @ rest" and ?ni = "Suc (length (varint l))"
  note tag = readVarint_tag [OF assms(1) disjI2 [OF refl], of "[]", simplified]
    and facts = tag_byte_facts [OF assms(1) disjI2 [OF refl]]
  have v: "readVarint ?data (Suc 0) = Ok (l, ?ni)"
    using readVarint_varint [of "[tag_byte f 2]" l rest] by simp
  have ni: "?ni < 2 ^ 62" using length_varint [of l] by simp
  have "unat l < 18446744073709551616" using unsigned_less [of l] by simp
  moreover have "slice_end ?ni l = int ?ni + int (unat l) - 18446744073709551616"
    using slice_end_negative [OF assms(2) ni] by simp
  ultimately have "slice_end ?ni l < int ?ni" by linarith
  moreover from this have "\<not> int (length ?data) < slice_end ?ni l" by simp
  ultimately show ?thesis
    by (simp add: pbParse_def pbParse_loop.simps [of ?data] tag facts v Let_def)
qed

theorem pbParse_negative_length_panics_witness:
  "pbParse (tag_byte 1 2 # varint 0xFFFFFFFFFFFFFFFF) = Panic"
  using pbParse_negative_length_panics [of 1 "0xFFFFFFFFFFFFFFFF" "[]"] by simp

section \<open>The LZ4 block format\<close>

fun lz4_length_ext :: "nat \<Rightarrow> bytes" where
  "lz4_length_ext rem =
     (if rem \<ge> 255 then 255 # lz4_length_ext (rem - 255) else [word_of_nat rem])"

declare lz4_length_ext.simps [simp del]

definition lz4AllLiteral :: "bytes \<Rightarrow> bytes" where
  "lz4AllLiteral data =
     (let n = length data in
      if n < 15 then [push_bit 4 (word_of_nat n)] @ data
      else [0xf0] @ lz4_length_ext (n - 15) @ data)"

text \<open>
  The inner loop that both lengths share: add 255 while the next byte is 255, then the
  byte after them, which has to exist.
\<close>

function lz4_read_ext :: "bytes \<Rightarrow> nat \<Rightarrow> nat \<Rightarrow> go_error \<Rightarrow> (nat \<times> nat) go" where
  "lz4_read_ext data i acc e =
     (if i < length data \<and> data ! i = 255 then lz4_read_ext data (i + 1) (acc + 255) e
      else if i \<ge> length data then Err e
      else Ok (acc + unat (data ! i), i + 1))"
  by pat_completeness auto
termination
  by (relation "measure (\<lambda>(data, i, acc, e). length data - i)") auto

declare lz4_read_ext.simps [simp del]

fun lz4_copy :: "nat \<Rightarrow> nat \<Rightarrow> bytes \<Rightarrow> bytes" where
  "lz4_copy start 0 out = out"
| "lz4_copy start (Suc m) out = lz4_copy (start + 1) m (out @ [out ! start])"

lemma lz4_read_ext_bounds:
  "lz4_read_ext data i acc e = Ok (n, j) \<Longrightarrow>
     i < j \<and> j \<le> length data \<and> acc \<le> n \<and> n + 255 * i \<le> acc + 255 * j"
proof (induction data i acc e rule: lz4_read_ext.induct)
  case (1 data i acc e)
  have "unat (data ! i) \<le> 255" using unat_byte_less [of "data ! i"] by linarith
  with "1.IH" "1.prems" lz4_read_ext.simps [of data i acc e] show ?case
    by (auto split: if_splits)
qed

lemma lz4_read_ext_no_panic: "lz4_read_ext data i acc e \<noteq> Panic"
  by (induction data i acc e rule: lz4_read_ext.induct)
     (subst lz4_read_ext.simps, simp)

definition lz4_lit_len :: "bytes \<Rightarrow> byte \<Rightarrow> nat \<Rightarrow> (nat \<times> nat) go" where
  "lz4_lit_len data tok i =
     (let litLen = unat (drop_bit 4 tok) in
      if litLen = 15 then lz4_read_ext data i litLen (Errorf ''truncated lz4 literal length'')
      else Ok (litLen, i))"

definition lz4_match_len :: "bytes \<Rightarrow> byte \<Rightarrow> nat \<Rightarrow> (nat \<times> nat) go" where
  "lz4_match_len data tok i =
     (let matchLen = unat (tok AND 0x0f) + 4 in
      if tok AND 0x0f = 15
      then lz4_read_ext data i matchLen (Errorf ''truncated lz4 match length'')
      else Ok (matchLen, i))"

lemma lz4_lit_len_bounds:
  "lz4_lit_len data tok i = Ok (n, j) \<Longrightarrow> i \<le> j \<and> n + 255 * i \<le> 15 + 255 * j"
proof -
  have "unat (drop_bit 4 tok) \<le> 15"
    using unat_byte_less [of tok] by (simp only: unat_drop_bit_eq) (simp add: drop_bit_eq_div)
  then show "lz4_lit_len data tok i = Ok (n, j) \<Longrightarrow> i \<le> j \<and> n + 255 * i \<le> 15 + 255 * j"
    by (auto simp: lz4_lit_len_def Let_def split: if_splits dest!: lz4_read_ext_bounds)
qed

lemma lz4_match_len_bounds:
  "lz4_match_len data tok i = Ok (n, j) \<Longrightarrow> i \<le> j \<and> n + 255 * i \<le> 19 + 255 * j"
proof -
  have "tok AND 0x0f \<le> 0x0f" by (rule word_and_le1)
  then have "unat (tok AND 0x0f) \<le> 15" by (simp add: word_le_nat_alt)
  then show "lz4_match_len data tok i = Ok (n, j) \<Longrightarrow> i \<le> j \<and> n + 255 * i \<le> 19 + 255 * j"
    by (auto simp: lz4_match_len_def Let_def split: if_splits dest!: lz4_read_ext_bounds)
qed

function lz4_loop :: "bytes \<Rightarrow> nat \<Rightarrow> bytes \<Rightarrow> bytes go" where
  "lz4_loop data i out =
     (if i < length data then
        (let tok = data ! i in
         go_bind (lz4_lit_len data tok (i + 1)) (\<lambda>(litLen, i).
         if i + litLen > length data then Err (Errorf ''truncated lz4 literals'')
         else
           let out = out @ slice data i (i + litLen); i = i + litLen in
           if i \<ge> length data then Ok out
           else if i + 2 > length data then Err (Errorf ''truncated lz4 offset'')
           else
             let off = unat (data ! i) + 256 * unat (data ! (i + 1)); i = i + 2 in
             if off = 0 \<or> off > length out then Err (Errorf ''invalid lz4 offset'')
             else
               go_bind (lz4_match_len data tok i) (\<lambda>(matchLen, i).
               lz4_loop data i (lz4_copy (length out - off) matchLen out))))
      else Ok out)"
  by pat_completeness auto
termination
proof (relation "measure (\<lambda>(data, i, out). length data - i)", goal_cases)
  case 1 show ?case by simp
next
  case (2 data i out x xa xaa y xb xc xd xe xf xaaa ya)
  then show ?case
    by (auto dest!: lz4_lit_len_bounds lz4_match_len_bounds)
qed

declare lz4_loop.simps [simp del]

definition lz4Decompress :: "bytes \<Rightarrow> bytes go" where
  "lz4Decompress data = lz4_loop data 0 []"


text \<open>
  The copy of a match may overlap its own output: it extends the last
  \<open>length out - start\<close> bytes periodically.
\<close>

lemma lz4_copy_periodic:
  "start < length out \<Longrightarrow>
   lz4_copy start m out = out @ map (\<lambda>j. out ! (start + j mod (length out - start))) [0..<m]"
proof (induction m arbitrary: start out)
  case 0
  then show ?case by simp
next
  case (Suc m)
  let ?off = "length out - start"
  have idx: "(out @ [out ! start]) ! (Suc start + j mod ?off) = out ! (start + Suc j mod ?off)" for j
  proof (cases "Suc (j mod ?off) = ?off")
    case True
    then have "Suc start + j mod ?off = length out" "Suc j mod ?off = 0"
      using Suc.prems by (simp_all add: mod_Suc)
    then show ?thesis by simp
  next
    case False
    moreover have "j mod ?off < ?off" using Suc.prems by simp
    ultimately have "Suc start + j mod ?off < length out" "Suc j mod ?off = Suc (j mod ?off)"
      by (simp_all add: mod_Suc)
    then show ?thesis by (simp add: nth_append)
  qed
  have "lz4_copy start (Suc m) out =
      (out @ [out ! start]) @ map (\<lambda>j. (out @ [out ! start]) ! (Suc start + j mod ?off)) [0..<m]"
    using Suc.IH [of "Suc start" "out @ [out ! start]"] Suc.prems by simp
  also have "\<dots> = out @ (out ! start) # map (\<lambda>j. out ! (start + Suc j mod ?off)) [0..<m]"
    by (simp add: idx [simplified add_Suc])
  also have "\<dots> = out @ map (\<lambda>j. out ! (start + j mod ?off)) [0..<Suc m]"
    by (simp add: upt_conv_Cons map_Suc_upt [symmetric] del: upt_Suc)
  finally show ?case .
qed

lemma length_lz4_copy [simp]: "length (lz4_copy start m out) = length out + m"
  by (induction m arbitrary: start out) simp_all

lemma lz4_lit_len_no_panic [simp]: "lz4_lit_len data tok i \<noteq> Panic"
  by (simp add: lz4_lit_len_def Let_def lz4_read_ext_no_panic)

lemma lz4_match_len_no_panic [simp]: "lz4_match_len data tok i \<noteq> Panic"
  by (simp add: lz4_match_len_def Let_def lz4_read_ext_no_panic)

lemma lz4_loop_size:
  "lz4_loop data i out = Ok r \<Longrightarrow> i \<le> length data \<Longrightarrow>
     length r + 255 * i \<le> length out + 255 * length data"
proof (induction data i out arbitrary: r rule: lz4_loop.induct)
  case (1 data i out)
  show ?case
  proof (cases "i < length data")
    case False
    with "1.prems" show ?thesis by (subst (asm) lz4_loop.simps) simp
  next
    case True
    with "1.prems" obtain n j where lit: "lz4_lit_len data (data ! i) (i + 1) = Ok (n, j)"
      by (subst (asm) lz4_loop.simps) (auto simp: Let_def go_bind_Ok_iff)
    note b1 = lz4_lit_len_bounds [OF lit]
    let ?out = "out @ slice data j (j + n)"
    let ?off = "unat (data ! (j + n)) + 256 * unat (data ! (j + n + 1))"
    from "1.prems" True lit have n: "j + n \<le> length data"
      by (subst (asm) lz4_loop.simps) (auto simp: Let_def split: if_splits)
    show ?thesis
    proof (cases "j + n = length data")
      case True
      with "1.prems" \<open>i < length data\<close> lit n have "r = ?out"
        by (subst (asm) lz4_loop.simps) (auto simp: Let_def)
      with b1 n show ?thesis by simp
    next
      case False
      with "1.prems" \<open>i < length data\<close> lit n
      obtain m k where mat: "lz4_match_len data (data ! i) (j + n + 2) = Ok (m, k)"
        and off: "?off \<noteq> 0" "?off \<le> length ?out" "j + n + 2 \<le> length data"
        and rec: "lz4_loop data k (lz4_copy (length ?out - ?off) m ?out) = Ok r"
        by (subst (asm) lz4_loop.simps) (auto simp: Let_def go_bind_Ok_iff split: if_splits)
      note b2 = lz4_match_len_bounds [OF mat]
      have k: "k \<le> length data"
        using mat off(3)
        by (auto simp: lz4_match_len_def Let_def split: if_splits dest!: lz4_read_ext_bounds)
      have "length r + 255 * k \<le> length (lz4_copy (length ?out - ?off) m ?out) + 255 * length data"
        using \<open>i < length data\<close> False n off rec k
        by (intro "1.IH" [OF _ refl lit refl _ refl refl _ _ refl refl _ mat refl]) auto
      then show ?thesis using b1 b2 n by simp
    qed
  qed
qed

lemma lz4Decompress_size:
  assumes "lz4Decompress data = Ok out"
  shows "length out \<le> 255 * length data"
  using lz4_loop_size [of data 0 "[]" out] assms by (simp add: lz4Decompress_def)

lemma lz4_read_ext_length:
  "lz4_read_ext (pre @ lz4_length_ext n @ suf) (length pre) acc e =
     Ok (acc + n, length pre + length (lz4_length_ext n))"
proof (induction n arbitrary: pre acc rule: lz4_length_ext.induct)
  case (1 n)
  show ?case
  proof (cases "n \<ge> 255")
    case True
    then have eq: "lz4_length_ext n = 255 # lz4_length_ext (n - 255)"
      by (subst lz4_length_ext.simps) simp
    show ?thesis
      using "1.IH" [OF True, of "pre @ [255]" "acc + 255"] True
      unfolding eq by (subst lz4_read_ext.simps) simp
  next
    case False
    then have eq: "lz4_length_ext n = [word_of_nat n]"
      by (subst lz4_length_ext.simps) simp
    have un: "unat (word_of_nat n :: byte) = n" using False by (simp add: unat_of_nat)
    then have "(word_of_nat n :: byte) \<noteq> 255" using False by auto
    then show ?thesis
      unfolding eq by (subst lz4_read_ext.simps) (simp add: un)
  qed
qed

lemma lz4_decompress_literal: "lz4Decompress (lz4AllLiteral data) = Ok data"
proof (cases "length data < 15")
  case True
  let ?tok = "push_bit 4 (word_of_nat (length data)) :: byte"
  from True have "length data \<in> {0,1,2,3,4,5,6,7,8,9,10,11,12,13,14}"
    by (simp only: insert_iff empty_iff) arith
  then have "unat (drop_bit 4 ?tok) = length data" by auto
  then have "lz4_lit_len (?tok # data) ?tok (Suc 0) = Ok (length data, Suc 0)"
    using True by (simp add: lz4_lit_len_def Let_def)
  then show ?thesis
    using True by (simp add: lz4Decompress_def lz4AllLiteral_def lz4_loop.simps slice_def Let_def)
next
  case False
  let ?ext = "lz4_length_ext (length data - 15)"
  let ?m = "0xf0 # ?ext @ data"
  have "lz4_lit_len ?m 0xf0 (Suc 0) = Ok (length data, Suc (length ?ext))"
    using lz4_read_ext_length [of "[0xf0]" "length data - 15" data 15] False
    by (simp add: lz4_lit_len_def Let_def)
  moreover have "slice ?m (Suc (length ?ext)) (Suc (length ?ext) + length data) = data"
    using slice_append_mid [of "0xf0 # ?ext" data "[]"] by simp
  ultimately show ?thesis
    using False by (simp add: lz4Decompress_def lz4AllLiteral_def lz4_loop.simps Let_def)
qed

text \<open>
  C38: Data packed by \<open>lz4AllLiteral\<close> is unpacked to itself; unpacking never panics, and its
  output is at most 255 times as long as its input.
\<close>

theorem lz4_correct:
  "lz4Decompress (lz4AllLiteral d) = Ok d \<and>
   (\<forall>out. lz4Decompress data = Ok out \<longrightarrow> length out \<le> 255 * length data)"
  using lz4_decompress_literal lz4Decompress_size by blast

theorem lz4_correct_witness: "length [1 :: byte, 2, 3] \<le> 255 * length (lz4AllLiteral [1, 2, 3])"
  using lz4_correct [of "[1, 2, 3]" "lz4AllLiteral [1, 2, 3]"] by blast

end
