(* ===== verification/Mmtls_Protocol.thy ===== *)
theory Mmtls_Protocol
  imports Proto_Bytes
begin

unbundle bit_operations_syntax

text \<open>
  Model of \<open>internal/protocol/mmtls_protocol.go\<close>: the record layer, handshake
  messages, session tickets and ShortLink packets of MMTLS.
\<close>

definition recordVersion :: u16 where "recordVersion = 0xf103"

definition ctAlert :: byte where "ctAlert = 0x15"
definition ctHandshake :: byte where "ctHandshake = 0x16"
definition ctAppData :: byte where "ctAppData = 0x17"
definition ctPSKHandshake :: byte where "ctPSKHandshake = 0x19"

definition hsClientHello :: byte where "hsClientHello = 0x01"
definition hsServerHello :: byte where "hsServerHello = 0x02"
definition hsNewSessionTicket :: byte where "hsNewSessionTicket = 0x04"
definition hsCertVerify :: byte where "hsCertVerify = 0x0f"
definition hsFinished :: byte where "hsFinished = 0x14"

definition cipherECDHE :: u16 where "cipherECDHE = 0xc02b"
definition cipherPSK :: u16 where "cipherPSK = 0x00a8"

definition extKeyShare :: byte where "extKeyShare = 0x01"
definition groupSecP256R1 :: u32 where "groupSecP256R1 = 0x01"
definition group2 :: u32 where "group2 = 0x02"
definition keyLen :: nat where "keyLen = 65"

definition shortlinkMagic :: u16 where "shortlinkMagic = 0x1110"
definition defaultVer :: u16 where "defaultVer = 0x076d"
definition cmdManualAuth :: u32 where "cmdManualAuth = 0x0d7d"

lemmas ct_defs = ctAlert_def ctHandshake_def ctAppData_def ctPSKHandshake_def
lemmas hs_defs = hsClientHello_def hsServerHello_def hsNewSessionTicket_def hsCertVerify_def
  hsFinished_def

section \<open>Records\<close>

record mmrecord =
  ContentType :: byte
  Payload :: bytes

definition knownContentType :: "byte \<Rightarrow> bool" where
  "knownContentType ct \<longleftrightarrow>
     ct = ctAlert \<or> ct = ctHandshake \<or> ct = ctAppData \<or> ct = ctPSKHandshake \<or> ct = 0x14"

definition buildRecord :: "byte \<Rightarrow> bytes \<Rightarrow> bytes go" where
  "buildRecord contentType payload =
     (if length payload > 0xffff then Err (Errorf ''record payload too long: %d'')
      else Ok ([contentType] @ be16 recordVersion @ be16 (word_of_nat (length payload)) @ payload))"

function parseRecords_loop :: "bytes \<Rightarrow> nat \<Rightarrow> mmrecord list \<Rightarrow> mmrecord list \<times> nat" where
  "parseRecords_loop data off recs =
     (if off + 5 \<le> length data then
        (let ct = data ! off;
             ver = get16 (slice data (off + 1) (off + 3));
             l = unat (get16 (slice data (off + 3) (off + 5))) in
         if ver \<noteq> recordVersion \<or> \<not> knownContentType ct then (recs, off)
         else
           let e = off + 5 + l in
           if e > length data then (recs, off)
           else parseRecords_loop data e
                  (recs @ [\<lparr>ContentType = ct, Payload = slice data (off + 5) e\<rparr>]))
      else (recs, off))"
  by pat_completeness auto
termination
  by (relation "measure (\<lambda>(data, off, recs). length data - off)") auto

declare parseRecords_loop.simps [simp del]

definition parseRecords :: "bytes \<Rightarrow> mmrecord list \<times> nat" where
  "parseRecords data = parseRecords_loop data 0 []"

text \<open>
  Specification: the bytes of one record, and which records can be on the wire.
\<close>

definition record_bytes :: "mmrecord \<Rightarrow> bytes" where
  "record_bytes r =
     [ContentType r] @ be16 recordVersion @ be16 (word_of_nat (length (Payload r))) @ Payload r"

definition wire_record :: "mmrecord \<Rightarrow> bool" where
  "wire_record r \<longleftrightarrow> knownContentType (ContentType r) \<and> length (Payload r) \<le> 0xffff"

lemma buildRecord_eq:
  "buildRecord ct p = Ok b \<longleftrightarrow> length p \<le> 0xffff \<and> b = record_bytes \<lparr>ContentType = ct, Payload = p\<rparr>"
  by (auto simp: buildRecord_def record_bytes_def)

lemma length_record_bytes [simp]: "length (record_bytes r) = 5 + length (Payload r)"
  by (simp add: record_bytes_def)

definition next_record :: "bytes \<Rightarrow> nat \<Rightarrow> (mmrecord \<times> nat) option" where
  "next_record d off =
     (let e = off + 5 + unat (get16 (slice d (off + 3) (off + 5))) in
      if off + 5 \<le> length d \<and> get16 (slice d (off + 1) (off + 3)) = recordVersion
         \<and> knownContentType (d ! off) \<and> e \<le> length d
      then Some (\<lparr>ContentType = d ! off, Payload = slice d (off + 5) e\<rparr>, e) else None)"

lemma parseRecords_loop_step:
  "parseRecords_loop d off recs =
     (case next_record d off of None \<Rightarrow> (recs, off) | Some (r, e) \<Rightarrow> parseRecords_loop d e (recs @ [r]))"
  by (subst parseRecords_loop.simps) (auto simp: next_record_def Let_def)

lemma next_record_bounds: "next_record d off = Some (r, e) \<Longrightarrow> off + 5 \<le> e \<and> e \<le> length d"
  by (auto simp: next_record_def Let_def split: if_splits)

lemma next_record_SomeD:
  assumes "next_record d off = Some (r, e)"
  shows "wire_record r" "slice d off e = record_bytes r" "e = off + length (record_bytes r)"
proof -
  let ?l = "get16 (slice d (off + 3) (off + 5))"
  from assms have a: "off + 5 \<le> length d" "get16 (slice d (off + 1) (off + 3)) = recordVersion"
    "knownContentType (d ! off)" "e \<le> length d" and e: "e = off + 5 + unat ?l"
    and r: "r = \<lparr>ContentType = d ! off, Payload = slice d (off + 5) e\<rparr>"
    by (auto simp: next_record_def Let_def split: if_splits)
  have len: "length (Payload r) = unat ?l" using r e a by simp
  have "unat ?l < 65536" using unsigned_less [of ?l] by simp
  then show "wire_record r" using a len r by (simp add: wire_record_def)
  show "e = off + length (record_bytes r)" using e len by simp
  have v: "be16 recordVersion = slice d (off + 1) (off + 3)"
    using be16_get16 [of "slice d (off + 1) (off + 3)"] a by simp
  have l: "be16 (word_of_nat (length (Payload r))) = slice d (off + 3) (off + 5)"
    using be16_get16 [of "slice d (off + 3) (off + 5)"] a len by simp
  have "slice d off e = d ! off # slice d (off + 1) (off + 3) @ slice d (off + 3) (off + 5) @ slice d (off + 5) e"
    using e a slice_split [of off "off + 1" e d] slice_split [of "off + 1" "off + 3" e d]
      slice_split [of "off + 3" "off + 5" e d] slice_one [of off d] by simp
  then show "slice d off e = record_bytes r"
    using v l r by (simp add: record_bytes_def)
qed

lemma next_record_bytes:
  assumes "wire_record r"
  shows "next_record (pre @ record_bytes r @ suf) (length pre) =
     Some (r, length pre + length (record_bytes r))"
proof -
  let ?d = "pre @ record_bytes r @ suf"
  have l: "unat (word_of_nat (length (Payload r)) :: u16) = length (Payload r)"
    using assms by (simp add: wire_record_def unat_of_nat)
  have "?d ! length pre = ContentType r" by (simp add: record_bytes_def)
  moreover have "slice ?d (length pre + 1) (length pre + 3) = be16 recordVersion"
    using slice_append_mid [of "pre @ [ContentType r]" "be16 recordVersion"
        "be16 (word_of_nat (length (Payload r))) @ Payload r @ suf"]
    by (simp add: record_bytes_def numeral_3_eq_3)
  moreover have "slice ?d (length pre + 3) (length pre + 5) = be16 (word_of_nat (length (Payload r)))"
    using slice_append_mid [of "pre @ [ContentType r] @ be16 recordVersion"
        "be16 (word_of_nat (length (Payload r)))" "Payload r @ suf"]
    by (simp add: record_bytes_def eval_nat_numeral)
  moreover have "slice ?d (length pre + 5) (length pre + 5 + length (Payload r)) = Payload r"
    using slice_append_mid [of "pre @ [ContentType r] @ be16 recordVersion
        @ be16 (word_of_nat (length (Payload r)))" "Payload r" suf]
    by (simp add: record_bytes_def eval_nat_numeral)
  ultimately show ?thesis
    using assms by (simp add: next_record_def Let_def l wire_record_def)
qed

lemma next_record_shift:
  "next_record (pre @ d) (length pre + off) =
     map_option (\<lambda>(r, e). (r, length pre + e)) (next_record d off)"
  unfolding next_record_def Let_def add.assoc slice_shift
  by (auto simp: nth_append)

lemma parse_induct [case_names step]:
  assumes "\<And>off. (\<And>r e. next_record d off = Some (r, e) \<Longrightarrow> P e) \<Longrightarrow> P off"
  shows "P off"
proof (induction "length d - off" arbitrary: off rule: less_induct)
  case less
  show ?case
  proof (rule assms)
    fix r e assume "next_record d off = Some (r, e)"
    then have "off + 5 \<le> e \<and> e \<le> length d" by (rule next_record_bounds)
    then have "length d - e < length d - off" by linarith
    then show "P e" by (rule less)
  qed
qed

lemma parseRecords_loop_acc:
  "parseRecords_loop d off (recs @ recs') =
     (recs @ fst (parseRecords_loop d off recs'), snd (parseRecords_loop d off recs'))"
proof (induction off arbitrary: recs' rule: parse_induct [where d = d])
  case (step off)
  then show ?case
    by (subst (1 2 3) parseRecords_loop_step) (auto split: option.split)
qed

lemma parseRecords_loop_sound:
  "parseRecords_loop d off recs = (rs, c) \<Longrightarrow> off \<le> length d \<Longrightarrow>
   \<exists>new. rs = recs @ new \<and> (\<forall>r \<in> set new. wire_record r) \<and> off \<le> c \<and> c \<le> length d
     \<and> slice d off c = concat (map record_bytes new) \<and> next_record d c = None"
proof (induction off arbitrary: recs rule: parse_induct [where d = d])
  case (step off)
  show ?case
  proof (cases "next_record d off")
    case None
    with step.prems show ?thesis
      by (subst (asm) parseRecords_loop_step) (auto simp: slice_def)
  next
    case (Some re)
    then obtain r e where re: "next_record d off = Some (r, e)" by (cases re) auto
    note b = next_record_bounds [OF re] and s = next_record_SomeD [OF re]
    from step.prems re have "parseRecords_loop d e (recs @ [r]) = (rs, c)"
      by (subst (asm) parseRecords_loop_step) simp
    from step.IH [OF re this] b obtain new where n: "rs = (recs @ [r]) @ new"
      "\<forall>r \<in> set new. wire_record r" "e \<le> c" "c \<le> length d"
      "slice d e c = concat (map record_bytes new)" "next_record d c = None" by blast
    have "slice d off c = slice d off e @ slice d e c"
      using b n(3) take_add [of "e - off" "c - e" "drop off d"] by (simp add: slice_def)
    with n s b show ?thesis by (intro exI [of _ "r # new"]) simp
  qed
qed

lemma parseRecords_facts:
  assumes "parseRecords data = (rs, c)"
  shows "c \<le> length data \<and> take c data = concat (map record_bytes rs)
    \<and> (\<forall>r \<in> set rs. wire_record r)"
  using parseRecords_loop_sound [of data 0 "[]" rs c] assms
  by (auto simp: parseRecords_def slice_def)

lemma parseRecords_loop_build:
  "\<forall>r \<in> set rs. wire_record r \<Longrightarrow>
   parseRecords_loop (pre @ concat (map record_bytes rs) @ rest) (length pre) recs =
     parseRecords_loop (pre @ concat (map record_bytes rs) @ rest)
       (length pre + length (concat (map record_bytes rs))) (recs @ rs)"
proof (induction rs arbitrary: pre recs)
  case Nil
  then show ?case by simp
next
  case (Cons r rs)
  have "next_record (pre @ record_bytes r @ (concat (map record_bytes rs) @ rest)) (length pre)
      = Some (r, length pre + length (record_bytes r))"
    using Cons.prems by (intro next_record_bytes) simp
  then have "parseRecords_loop (pre @ concat (map record_bytes (r # rs)) @ rest) (length pre) recs =
      parseRecords_loop (pre @ concat (map record_bytes (r # rs)) @ rest)
        (length pre + length (record_bytes r)) (recs @ [r])"
    by (subst parseRecords_loop_step) simp
  also have "\<dots> = parseRecords_loop (pre @ concat (map record_bytes (r # rs)) @ rest)
      (length pre + length (concat (map record_bytes (r # rs)))) (recs @ r # rs)"
    using Cons.IH [of "pre @ record_bytes r" "recs @ [r]"] Cons.prems by (simp add: add.assoc)
  finally show ?case .
qed

lemma parseRecords_loop_shift:
  "parseRecords_loop (pre @ d) (length pre + off) recs =
     apsnd ((+) (length pre)) (parseRecords_loop d off recs)"
proof (induction off arbitrary: recs rule: parse_induct [where d = d])
  case (step off)
  show ?case
  proof (cases "next_record d off")
    case None
    then show ?thesis
      by (subst (1 2) parseRecords_loop_step) (simp add: next_record_shift)
  next
    case (Some re)
    then obtain r e where re: "next_record d off = Some (r, e)" by (cases re) auto
    then show ?thesis
      using step.IH [OF re]
      by (subst (1 2) parseRecords_loop_step) (simp add: next_record_shift)
  qed
qed

lemma parseRecords_append:
  assumes "\<forall>r \<in> set rs. wire_record r" "parseRecords rest = (rs', c)"
  shows "parseRecords (concat (map record_bytes rs) @ rest) =
    (rs @ rs', length (concat (map record_bytes rs)) + c)"
  using parseRecords_loop_build [OF assms(1), of "[]" rest "[]"]
    parseRecords_loop_shift [of "concat (map record_bytes rs)" rest 0 rs]
    parseRecords_loop_acc [of rest 0 rs "[]"] assms(2)
  by (simp add: parseRecords_def apsnd_def map_prod_def split: prod.splits)

text \<open>
  Feeding the record parser in two pieces, the unconsumed tail first, gives the same
  records as feeding it at once.
\<close>

theorem parseRecords_stream:
  assumes "parseRecords d = (r1, c1)" "parseRecords (drop c1 d @ e) = (r2, c2)"
  shows "parseRecords (d @ e) = (r1 @ r2, c1 + c2)"
proof -
  from parseRecords_facts [OF assms(1)]
  have s: "c1 \<le> length d" "take c1 d = concat (map record_bytes r1)" "\<forall>r \<in> set r1. wire_record r"
    by auto
  have "d @ e = concat (map record_bytes r1) @ (drop c1 d @ e)"
    by (metis append.assoc append_take_drop_id s(2))
  moreover have "length (concat (map record_bytes r1)) = c1"
    using s by (metis length_take min.absorb2)
  ultimately show ?thesis
    using parseRecords_append [OF s(3) assms(2)] by metis
qed

theorem parseRecords_stream_witness:
  "fst (parseRecords ([0x16, 0xf1, 0x03, 0, 1] @ [7])) = fst (parseRecords [0x16, 0xf1, 0x03, 0, 1, 7])
   \<and> length (fst (parseRecords ([0x16, 0xf1, 0x03, 0, 1] @ [7]))) = 1"
proof -
  have "parseRecords [0x16, 0xf1, 0x03, 0, 1] = ([], 0)"
    "parseRecords (drop 0 [0x16, 0xf1, 0x03, 0, 1] @ [7]) = ([\<lparr>ContentType = 0x16, Payload = [7]\<rparr>], 6)"
    by code_simp+
  from parseRecords_stream [OF this] show ?thesis by simp
qed

section \<open>Handshake messages\<close>

definition buildHandshake :: "byte \<Rightarrow> bytes \<Rightarrow> bytes" where
  "buildHandshake msgType body =
     be32 (word_of_nat (1 + length body)) @ [msgType] @ body"

definition splitHandshake :: "bytes \<Rightarrow> (byte \<times> bytes) go" where
  "splitHandshake payload =
     (if length payload < 5 then Err (Errorf ''handshake payload too short'')
      else
        let total = unat (get32 (take 4 payload)) in
        if total \<le> 0 \<or> 4 + total > length payload then Err (Errorf ''invalid handshake length'')
        else
          let inner = slice payload 4 (4 + total) in
          Ok (inner ! 0, drop 1 inner))"

lemma splitHandshake_build:
  assumes "length body < 2 ^ 32 - 1"
  shows "splitHandshake (buildHandshake t body @ trailing) = Ok (t, body)"
proof -
  obtain w :: u32 where w: "word_of_nat (1 + length body) = w" "unat w = Suc (length body)"
    using assms unat_of_nat_small(3) [of "1 + length body"] by simp
  have p: "buildHandshake t body @ trailing = be32 w @ t # body @ trailing"
    by (simp only: buildHandshake_def w) simp
  have "take 4 (be32 w @ t # body @ trailing) = be32 w" by (simp add: be32_def)
  moreover have "slice (be32 w @ t # body @ trailing) 4 (5 + length body) = t # body"
    using slice_append_mid [of "be32 w" "t # body" trailing] by simp
  ultimately show ?thesis
    unfolding p by (simp add: splitHandshake_def Let_def w(2))
qed

lemma splitHandshake_no_panic [simp]: "splitHandshake p \<noteq> Panic"
  by (simp add: splitHandshake_def Let_def)

definition key_offer :: "u32 \<Rightarrow> bytes \<Rightarrow> bytes" where
  "key_offer grp pub =
     (let one = be32 grp @ be16 (word_of_nat keyLen) @ pub in
      be32 (word_of_nat (length one)) @ one)"

definition buildClientHello :: "bytes \<Rightarrow> u32 \<Rightarrow> bytes \<Rightarrow> bytes \<Rightarrow> bytes go" where
  "buildClientHello clientRandom timestamp g1Pub g2Pub =
     (if length clientRandom \<noteq> 32 \<or> length g1Pub \<noteq> keyLen \<or> length g2Pub \<noteq> keyLen
      then Err (Errorf ''invalid ClientHello key/random length'')
      else
        let body = [0x03, 0xf1] @ [1] @ be16 cipherECDHE @ clientRandom @ be32 timestamp;
            ks = [0x00, 0x10, 2]
                 @ concat (map (\<lambda>(g, pub). key_offer g pub)
                     [(groupSecP256R1, g1Pub), (group2, g2Pub)])
                 @ [0, 0, 0, 1];
            ext = [extKeyShare] @ be32 (word_of_nat (length ks)) @ ks;
            body = body @ be32 (word_of_nat (length ext)) @ ext in
        Ok (buildHandshake hsClientHello body))"

definition buildPSKClientHello :: "bytes \<Rightarrow> u32 \<Rightarrow> bytes \<Rightarrow> bytes go" where
  "buildPSKClientHello clientRandom timestamp ticketEntry =
     (if length clientRandom \<noteq> 32 then Err (Errorf ''client random must be 32 bytes'')
      else
        let body = [0x03, 0xf1, 1] @ be16 cipherPSK @ clientRandom @ be32 timestamp;
            extData = [0x00, 0x0f, 1] @ be32 (word_of_nat (length ticketEntry)) @ ticketEntry;
            ext = [extKeyShare] @ be32 (word_of_nat (length extData)) @ extData;
            body = body @ be32 (word_of_nat (length ext)) @ ext in
        Ok (buildHandshake hsClientHello body))"

record serverHello =
  ServerRandom :: bytes
  Cipher :: u16
  ServerGroup :: u32
  ServerPubKey :: bytes

function extractKeyShares :: "bytes \<Rightarrow> nat \<Rightarrow> bytes list" where
  "extractKeyShares blob i =
     (if i + 67 \<le> length blob then
        if blob ! i = 0x00 \<and> blob ! (i + 1) = 0x41 \<and> blob ! (i + 2) = 0x04
        then slice blob (i + 2) (i + 2 + 65) # extractKeyShares blob (i + 67)
        else extractKeyShares blob (i + 1)
      else [])"
  by pat_completeness auto
termination
  by (relation "measure (\<lambda>(blob, i). length blob - i)") auto

declare extractKeyShares.simps [simp del]

definition parseServerHello :: "bytes \<Rightarrow> serverHello go" where
  "parseServerHello body =
     (if length body < 2 + 2 + 32 + 4 then Err (Errorf ''ServerHello too short'')
      else
        let o1 = 2;
            cipher = get16 (slice body o1 (o1 + 2)); o1 = o1 + 2;
            random = slice body o1 (o1 + 32); o1 = o1 + 32;
            extLen = unat (get32 (slice body o1 (o1 + 4))); o1 = o1 + 4 in
        if o1 + extLen > length body then Err (Errorf ''ServerHello extension truncated'')
        else
          let ext = slice body o1 (o1 + extLen);
              out = \<lparr>ServerRandom = random, Cipher = cipher, ServerGroup = groupSecP256R1,
                     ServerPubKey = []\<rparr> in
          if length ext > 0 \<and> ext ! 0 = extKeyShare then
            let eo = 1 in
            if eo + 4 > length ext then Err (Errorf ''ServerKeyShare truncated'')
            else
              let eo = eo + 4; eo = eo + 2 in
              if eo + 4 + 2 > length ext then Err (Errorf ''ServerKeyShare truncated'')
              else
                let grp = get32 (slice ext eo (eo + 4)); eo = eo + 4;
                    klen = unat (get16 (slice ext eo (eo + 2))); eo = eo + 2 in
                if eo + klen > length ext then Err (Errorf ''ServerKeyShare key truncated'')
                else Ok (out\<lparr>ServerGroup := grp, ServerPubKey := slice ext eo (eo + klen)\<rparr>)
          else
            case extractKeyShares ext 0 of
              [] \<Rightarrow> Ok out
            | k # _ \<Rightarrow> Ok (out\<lparr>ServerPubKey := k\<rparr>))"

definition buildFinished :: "bytes \<Rightarrow> bytes go" where
  "buildFinished verifyData =
     (if length verifyData \<noteq> 32 then Err (Errorf ''verify_data must be 32 bytes'')
      else Ok (buildHandshake hsFinished (be16 (word_of_nat (length verifyData)) @ verifyData)))"

definition parseFinished :: "bytes \<Rightarrow> bytes go" where
  "parseFinished body =
     (if length body < 2 then Err (Errorf ''Finished too short'')
      else
        let n = unat (get16 (take 2 body)) in
        if 2 + n > length body then Err (Errorf ''Finished truncated'')
        else Ok (slice body 2 (2 + n)))"

lemma parseFinished_build:
  assumes "length vd = 32"
  shows "\<exists>msg. buildFinished vd = Ok msg \<and>
    go_bind (splitHandshake msg) (\<lambda>(t, body). if t = hsFinished then parseFinished body else Err e) = Ok vd"
proof -
  let ?body = "be16 (word_of_nat (length vd)) @ vd"
  have "take 2 ?body = be16 (word_of_nat (length vd))" by (simp add: be16_def)
  moreover have "slice ?body 2 (2 + 32) = vd"
    using slice_append_mid [of "be16 (word_of_nat (length vd))" vd "[]"] assms by simp
  ultimately have "parseFinished ?body = Ok vd"
    using assms by (simp add: parseFinished_def Let_def)
  moreover have "splitHandshake (buildHandshake hsFinished ?body) = Ok (hsFinished, ?body)"
    using splitHandshake_build [of ?body hsFinished "[]"] assms by simp
  ultimately show ?thesis using assms by (simp add: buildFinished_def)
qed

section \<open>Session tickets\<close>

record pskTicket =
  PSKType :: int
  Lifetime :: int
  TicketEntry :: bytes

fun parseTickets_loop :: "nat \<Rightarrow> bytes \<Rightarrow> nat \<Rightarrow> pskTicket list" where
  "parseTickets_loop 0 body off = []"
| "parseTickets_loop (Suc k) body off =
     (if off + 4 \<le> length body then
        (let elen = unat (get32 (slice body off (off + 4))); off = off + 4 in
         if off + elen > length body \<or> elen < 5 then []
         else
           let entry = slice body off (off + elen) in
           \<lparr>PSKType = uint (entry ! 0), Lifetime = uint (get32 (slice entry 1 5)),
            TicketEntry = entry\<rparr> # parseTickets_loop k body (off + elen))
      else [])"

definition parseNewSessionTicket :: "bytes \<Rightarrow> pskTicket list" where
  "parseNewSessionTicket body =
     (if length body = 0 then [] else parseTickets_loop (unat (body ! 0)) body 1)"

text \<open>A ticket entry as the server writes it: a type byte, a lifetime, opaque bytes.\<close>

definition ticket_entry_ok :: "bytes \<Rightarrow> bool" where
  "ticket_entry_ok e \<longleftrightarrow> 5 \<le> length e \<and> length e < 2 ^ 32"

definition ticket_of :: "bytes \<Rightarrow> pskTicket" where
  "ticket_of e = \<lparr>PSKType = uint (e ! 0), Lifetime = uint (get32 (slice e 1 5)), TicketEntry = e\<rparr>"

definition enc_ticket :: "bytes \<Rightarrow> bytes" where
  "enc_ticket e = be32 (word_of_nat (length e)) @ e"

lemma length_enc_ticket [simp]: "length (enc_ticket e) = 4 + length e"
  by (simp add: enc_ticket_def)

lemma parseTickets_loop_enc:
  "\<forall>e \<in> set es. ticket_entry_ok e \<Longrightarrow> length es \<le> n \<Longrightarrow>
   parseTickets_loop n (pre @ concat (map enc_ticket es)) (length pre) = map ticket_of es"
proof (induction es arbitrary: n pre)
  case Nil
  then show ?case by (cases n) simp_all
next
  case (Cons e es)
  then obtain k where n: "n = Suc k" by (cases n) auto
  let ?d = "pre @ concat (map enc_ticket (e # es))"
  from Cons.prems have e: "5 \<le> length e" "length e < 2 ^ 32" by (simp_all add: ticket_entry_ok_def)
  have l: "unat (word_of_nat (length e) :: u32) = length e" using e by (simp add: unat_of_nat)
  have "slice ?d (length pre) (length pre + 4) = be32 (word_of_nat (length e))"
    using slice_append_mid [of pre "be32 (word_of_nat (length e))" "e @ concat (map enc_ticket es)"]
    by (simp add: enc_ticket_def)
  moreover have "slice ?d (length pre + 4) (length pre + 4 + length e) = e"
    using slice_append_mid [of "pre @ be32 (word_of_nat (length e))" e "concat (map enc_ticket es)"]
    by (simp add: enc_ticket_def)
  moreover have "parseTickets_loop k ?d (length pre + 4 + length e) = map ticket_of es"
    using Cons.IH [of k "pre @ enc_ticket e"] Cons.prems n by (simp add: add.assoc)
  ultimately show ?case
    using e by (simp add: n Let_def l ticket_of_def)
qed

lemma parseTickets_enc:
  assumes "\<forall>e \<in> set es. ticket_entry_ok e" "length es < 256"
  shows "parseNewSessionTicket (word_of_nat (length es) # concat (map enc_ticket es)) = map ticket_of es"
  using parseTickets_loop_enc [of es "length es" "[word_of_nat (length es)]"] assms
  by (simp add: parseNewSessionTicket_def unat_of_nat)

section \<open>ShortLink packets\<close>

definition buildShortlink :: "u32 \<Rightarrow> u32 \<Rightarrow> bytes \<Rightarrow> u16 \<Rightarrow> bytes" where
  "buildShortlink cmd seq body ver =
     (let ver = (if ver = 0 then defaultVer else ver); total = 16 + length body in
      be32 (word_of_nat total) @ be16 shortlinkMagic @ be16 ver @ be32 cmd @ be32 seq @ body)"

record shortlinkPacket =
  TotalLen :: nat
  Magic :: u16
  Ver :: u16
  Cmd :: u32
  Seq :: u32
  Body :: bytes

text \<open>\<open>pkt[16:total]\<close> panics when \<open>total\<close> is below 16.\<close>

definition parseShortlink :: "bytes \<Rightarrow> shortlinkPacket go" where
  "parseShortlink pkt =
     (if length pkt < 16 then Err (Errorf ''shortlink packet too short'')
      else
        let total = unat (get32 (take 4 pkt)) in
        if total > length pkt then Err (Errorf ''shortlink packet truncated'')
        else if total < 16 then Panic
        else Ok \<lparr>TotalLen = total, Magic = get16 (slice pkt 4 6), Ver = get16 (slice pkt 6 8),
                 Cmd = get32 (slice pkt 8 12), Seq = get32 (slice pkt 12 16),
                 Body = slice pkt 16 total\<rparr>)"

lemma parseShortlink_build:
  assumes "length body < 2 ^ 32 - 16"
  shows "parseShortlink (buildShortlink cmd seq body ver @ trailing) =
    Ok \<lparr>TotalLen = 16 + length body, Magic = shortlinkMagic,
        Ver = (if ver = 0 then defaultVer else ver), Cmd = cmd, Seq = seq, Body = body\<rparr>"
proof -
  let ?v = "if ver = 0 then defaultVer else ver"
  let ?p = "buildShortlink cmd seq body ver @ trailing"
  let ?t = "be32 (word_of_nat (16 + length body))"
  have n: "unat (word_of_nat (16 + length body) :: u32) = 16 + length body"
    using assms by (intro unat_of_nat_small) simp
  have p: "?p = ?t @ be16 shortlinkMagic @ be16 ?v @ be32 cmd @ be32 seq @ body @ trailing"
    by (simp add: buildShortlink_def Let_def)
  have "take 4 ?p = ?t" "slice ?p 4 6 = be16 shortlinkMagic" "slice ?p 6 8 = be16 ?v"
    "slice ?p 8 12 = be32 cmd" "slice ?p 12 16 = be32 seq"
    unfolding p by (simp_all add: slice_def be32_def be16_def)
  moreover have "slice ?p 16 (16 + length body) = body"
    using slice_append_mid [of "?t @ be16 shortlinkMagic @ be16 ?v @ be32 cmd @ be32 seq" body trailing]
    unfolding p by simp
  moreover have "16 + length body \<le> length ?p" unfolding p by simp
  ultimately show ?thesis
    using n by (simp add: parseShortlink_def Let_def)
qed

text \<open>A packet that declares a total length below its own header makes the reader panic.\<close>

theorem parseShortlink_short_total_panics:
  assumes "16 \<le> length pkt" "unat (get32 (take 4 pkt)) < 16"
  shows "parseShortlink pkt = Panic"
  using assms by (simp add: parseShortlink_def Let_def)

theorem parseShortlink_short_total_panics_witness:
  "parseShortlink (be32 15 @ replicate 12 0) = Panic"
proof (rule parseShortlink_short_total_panics)
  show "16 \<le> length (be32 15 @ replicate 12 (0 :: byte))" by simp
  show "unat (get32 (take 4 (be32 15 @ replicate 12 0))) < 16" by code_simp
qed

text \<open>
  A session-ticket message is read as the server wrote it: every entry with its type, its
  lifetime and its bytes, in order.
\<close>

theorem parseNewSessionTicket_encoded:
  assumes "\<forall>e \<in> set es. ticket_entry_ok e" "length es < 256"
  shows "parseNewSessionTicket (word_of_nat (length es) # concat (map enc_ticket es)) = map ticket_of es"
  by (rule parseTickets_enc [OF assms])

theorem parseNewSessionTicket_encoded_witness:
  "map TicketEntry (parseNewSessionTicket (2 # enc_ticket [1, 0, 0, 0, 9] @ enc_ticket [2, 0, 0, 0, 8, 7]))
     = [[1, 0, 0, 0, 9], [2, 0, 0, 0, 8, 7]]"
  using parseNewSessionTicket_encoded [of "[[1, 0, 0, 0, 9], [2, 0, 0, 0, 8, 7]]"]
  by (simp add: ticket_entry_ok_def ticket_of_def)

end
