(* ===== verification/Go_Crypto.thy ===== *)
theory Go_Crypto
  imports Go_Prelude
begin

unbundle bit_operations_syntax

text \<open>
  The cryptographic functions of Go's standard library that the program calls: SHA-256,
  HMAC-SHA-256, MD5, AES in Galois/counter mode and ECDH over P-256, as executable
  definitions following FIPS 180-4, RFC 2104, RFC 1321, FIPS 197, NIST SP 800-38D and
  SEC 1.
  What the program relies on is stated as two interfaces, the locales \<open>mac32\<close> and
  \<open>aead\<close>, interpreted by these definitions.
\<close>

section \<open>SHA-256 and HMAC\<close>

text \<open>The 64 round constants, eight to a number.\<close>

definition sha_k :: "u32 list" where
  "sha_k = concat (map (\<lambda>n. map (\<lambda>i. word_of_int (n div 2 ^ (32 * (7 - i)))) [0..<8])
    [0x428a2f9871374491b5c0fbcfe9b5dba53956c25b59f111f1923f82a4ab1c5ed5,
     0xd807aa9812835b01243185be550c7dc372be5d7480deb1fe9bdc06a7c19bf174,
     0xe49b69c1efbe47860fc19dc6240ca1cc2de92c6f4a7484aa5cb0a9dc76f988da,
     0x983e5152a831c66db00327c8bf597fc7c6e00bf3d5a7914706ca635114292967,
     0x27b70a852e1b21384d2c6dfc53380d13650a7354766a0abb81c2c92e92722c85,
     0xa2bfe8a1a81a664bc24b8b70c76c51a3d192e819d6990624f40e3585106aa070,
     0x19a4c1161e376c082748774c34b0bcb5391c0cb34ed8aa4a5b9cca4f682e6ff3,
     0x748f82ee78a5636f84c878148cc7020890befffaa4506cebbef9a3f7c67178f2])"

type_synonym sha_state = "u32 \<times> u32 \<times> u32 \<times> u32 \<times> u32 \<times> u32 \<times> u32 \<times> u32"

definition sha_init :: sha_state where
  "sha_init = (0x6a09e667, 0xbb67ae85, 0x3c6ef372, 0xa54ff53a, 0x510e527f, 0x9b05688c, 0x1f83d9ab, 0x5be0cd19)"

definition sha_pad :: "bytes \<Rightarrow> bytes" where
  "sha_pad m =
     m @ [0x80] @ replicate ((119 - length m mod 64) mod 64) 0 @ be64 (word_of_nat (8 * length m))"

fun be_words :: "bytes \<Rightarrow> u32 list" where
  "be_words (a # b # c # d # s) = get32 [a, b, c, d] # be_words s"
| "be_words _ = []"

definition sha_s0 :: "u32 \<Rightarrow> u32" where
  "sha_s0 x = word_rotr 7 x XOR word_rotr 18 x XOR drop_bit 3 x"

definition sha_s1 :: "u32 \<Rightarrow> u32" where
  "sha_s1 x = word_rotr 17 x XOR word_rotr 19 x XOR drop_bit 10 x"

fun sha_schedule :: "nat \<Rightarrow> u32 list \<Rightarrow> u32 list" where
  "sha_schedule 0 w = w"
| "sha_schedule (Suc k) w =
     (let t = length w in
      sha_schedule k (w @ [sha_s1 (w ! (t - 2)) + w ! (t - 7) + sha_s0 (w ! (t - 15)) + w ! (t - 16)]))"

fun sha_round :: "u32 \<times> u32 \<Rightarrow> sha_state \<Rightarrow> sha_state" where
  "sha_round (k, w) (a, b, c, d, e, f, g, h) =
     (let t1 = h + (word_rotr 6 e XOR word_rotr 11 e XOR word_rotr 25 e)
               + ((e AND f) XOR (NOT e AND g)) + k + w;
          t2 = (word_rotr 2 a XOR word_rotr 13 a XOR word_rotr 22 a)
               + ((a AND b) XOR (a AND c) XOR (b AND c)) in
      (t1 + t2, a, b, c, d + t1, e, f, g))"

fun sha_add :: "sha_state \<Rightarrow> sha_state \<Rightarrow> sha_state" where
  "sha_add (a, b, c, d, e, f, g, h) (a', b', c', d', e', f', g', h') =
     (a + a', b + b', c + c', d + d', e + e', f + f', g + g', h + h')"

definition sha_block :: "sha_state \<Rightarrow> bytes \<Rightarrow> sha_state" where
  "sha_block s blk = sha_add s (fold sha_round (zip sha_k (sha_schedule 48 (be_words blk))) s)"

fun sha_blocks :: "sha_state \<Rightarrow> bytes \<Rightarrow> sha_state" where
  "sha_blocks s m =
     (if length m < 64 then s else sha_blocks (sha_block s (take 64 m)) (drop 64 m))"

declare sha_blocks.simps [simp del]

fun sha_out :: "sha_state \<Rightarrow> bytes" where
  "sha_out (a, b, c, d, e, f, g, h) =
     be32 a @ be32 b @ be32 c @ be32 d @ be32 e @ be32 f @ be32 g @ be32 h"

definition sha256 :: "bytes \<Rightarrow> bytes" where
  "sha256 m = sha_out (sha_blocks sha_init (sha_pad m))"

lemma length_sha_out: "length (sha_out s) = 32"
  by (induction s rule: sha_out.induct) simp

lemma length_sha256 [simp]: "length (sha256 m) = 32"
  by (simp add: sha256_def length_sha_out)

lemma sha256_nonempty [simp]: "sha256 m \<noteq> []"
  using length_sha256 [of m] by force

definition hmac_key :: "bytes \<Rightarrow> bytes" where
  "hmac_key k = (let k = (if length k > 64 then sha256 k else k) in k @ replicate (64 - length k) 0)"

definition hmac :: "bytes \<Rightarrow> bytes \<Rightarrow> bytes" where
  "hmac k m =
     (let k0 = hmac_key k in
      sha256 (map (\<lambda>b. b XOR 0x5c) k0 @ sha256 (map (\<lambda>b. b XOR 0x36) k0 @ m)))"

locale mac32 =
  fixes mac :: "bytes \<Rightarrow> bytes \<Rightarrow> bytes"
  assumes length_mac: "length (mac k m) = 32"
begin

lemma mac_nonempty: "mac k m \<noteq> []"
  using length_mac [of k m] by force

lemma take_mac: "n \<le> 32 \<Longrightarrow> length (take n (mac k m)) = n"
  by (simp add: length_mac)

end

interpretation hmac: mac32 hmac
  by unfold_locales (simp add: hmac_def Let_def)

lemmas length_hmac [simp] = hmac.length_mac

section \<open>AES\<close>

definition aes_sbox :: "byte list" where
  "aes_sbox = [
    0x63, 0x7c, 0x77, 0x7b, 0xf2, 0x6b, 0x6f, 0xc5, 0x30, 0x01, 0x67, 0x2b,
    0xfe, 0xd7, 0xab, 0x76, 0xca, 0x82, 0xc9, 0x7d, 0xfa, 0x59, 0x47, 0xf0,
    0xad, 0xd4, 0xa2, 0xaf, 0x9c, 0xa4, 0x72, 0xc0, 0xb7, 0xfd, 0x93, 0x26,
    0x36, 0x3f, 0xf7, 0xcc, 0x34, 0xa5, 0xe5, 0xf1, 0x71, 0xd8, 0x31, 0x15,
    0x04, 0xc7, 0x23, 0xc3, 0x18, 0x96, 0x05, 0x9a, 0x07, 0x12, 0x80, 0xe2,
    0xeb, 0x27, 0xb2, 0x75, 0x09, 0x83, 0x2c, 0x1a, 0x1b, 0x6e, 0x5a, 0xa0,
    0x52, 0x3b, 0xd6, 0xb3, 0x29, 0xe3, 0x2f, 0x84, 0x53, 0xd1, 0x00, 0xed,
    0x20, 0xfc, 0xb1, 0x5b, 0x6a, 0xcb, 0xbe, 0x39, 0x4a, 0x4c, 0x58, 0xcf,
    0xd0, 0xef, 0xaa, 0xfb, 0x43, 0x4d, 0x33, 0x85, 0x45, 0xf9, 0x02, 0x7f,
    0x50, 0x3c, 0x9f, 0xa8, 0x51, 0xa3, 0x40, 0x8f, 0x92, 0x9d, 0x38, 0xf5,
    0xbc, 0xb6, 0xda, 0x21, 0x10, 0xff, 0xf3, 0xd2, 0xcd, 0x0c, 0x13, 0xec,
    0x5f, 0x97, 0x44, 0x17, 0xc4, 0xa7, 0x7e, 0x3d, 0x64, 0x5d, 0x19, 0x73,
    0x60, 0x81, 0x4f, 0xdc, 0x22, 0x2a, 0x90, 0x88, 0x46, 0xee, 0xb8, 0x14,
    0xde, 0x5e, 0x0b, 0xdb, 0xe0, 0x32, 0x3a, 0x0a, 0x49, 0x06, 0x24, 0x5c,
    0xc2, 0xd3, 0xac, 0x62, 0x91, 0x95, 0xe4, 0x79, 0xe7, 0xc8, 0x37, 0x6d,
    0x8d, 0xd5, 0x4e, 0xa9, 0x6c, 0x56, 0xf4, 0xea, 0x65, 0x7a, 0xae, 0x08,
    0xba, 0x78, 0x25, 0x2e, 0x1c, 0xa6, 0xb4, 0xc6, 0xe8, 0xdd, 0x74, 0x1f,
    0x4b, 0xbd, 0x8b, 0x8a, 0x70, 0x3e, 0xb5, 0x66, 0x48, 0x03, 0xf6, 0x0e,
    0x61, 0x35, 0x57, 0xb9, 0x86, 0xc1, 0x1d, 0x9e, 0xe1, 0xf8, 0x98, 0x11,
    0x69, 0xd9, 0x8e, 0x94, 0x9b, 0x1e, 0x87, 0xe9, 0xce, 0x55, 0x28, 0xdf,
    0x8c, 0xa1, 0x89, 0x0d, 0xbf, 0xe6, 0x42, 0x68, 0x41, 0x99, 0x2d, 0x0f,
    0xb0, 0x54, 0xbb, 0x16]"

definition sub_byte :: "byte \<Rightarrow> byte" where
  "sub_byte b = aes_sbox ! unat b"

definition xtime :: "byte \<Rightarrow> byte" where
  "xtime b = (if bit b 7 then push_bit 1 b XOR 0x1b else push_bit 1 b)"

definition xor_bytes :: "bytes \<Rightarrow> bytes \<Rightarrow> bytes" where
  "xor_bytes xs ys = map2 (XOR) xs ys"

text \<open>The key schedule: words of four bytes; \<open>nk\<close> is 4, 6 or 8.\<close>

fun aes_expand :: "nat \<Rightarrow> nat \<Rightarrow> byte \<Rightarrow> bytes list \<Rightarrow> bytes list" where
  "aes_expand 0 nk rc w = w"
| "aes_expand (Suc k) nk rc w =
     (let i = length w; prev = w ! (i - 1) in
      if i mod nk = 0 then
        aes_expand k nk (xtime rc)
          (w @ [xor_bytes (w ! (i - nk))
                  (xor_bytes (map sub_byte (rotate1 prev)) [rc, 0, 0, 0])])
      else if nk > 6 \<and> i mod nk = 4 then
        aes_expand k nk rc (w @ [xor_bytes (w ! (i - nk)) (map sub_byte prev)])
      else aes_expand k nk rc (w @ [xor_bytes (w ! (i - nk)) prev]))"

fun chunks :: "nat \<Rightarrow> 'a list \<Rightarrow> 'a list list" where
  "chunks n xs = (if n = 0 \<or> xs = [] then [] else take n xs # chunks n (drop n xs))"

declare chunks.simps [simp del]

definition aes_round_keys :: "bytes \<Rightarrow> bytes list" where
  "aes_round_keys key =
     (let nk = length key div 4; n = 4 * (nk + 7) in
      chunks 16 (concat (aes_expand (n - nk) nk 1 (chunks 4 key))))"

definition shift_rows :: "bytes \<Rightarrow> bytes" where
  "shift_rows s = map (\<lambda>i. s ! ((i + 4 * (i mod 4)) mod 16)) [0..<16]"

fun mix_columns :: "bytes \<Rightarrow> bytes" where
  "mix_columns (a # b # c # d # s) =
     (let m3 = (\<lambda>x. xtime x XOR x) in
      [xtime a XOR m3 b XOR c XOR d, a XOR xtime b XOR m3 c XOR d,
       a XOR b XOR xtime c XOR m3 d, m3 a XOR b XOR c XOR xtime d]) @ mix_columns s"
| "mix_columns _ = []"

fun aes_rounds :: "bytes list \<Rightarrow> bytes \<Rightarrow> bytes" where
  "aes_rounds [] s = s"
| "aes_rounds [k] s = xor_bytes (shift_rows (map sub_byte s)) k"
| "aes_rounds (k # ks) s = aes_rounds ks (xor_bytes (mix_columns (shift_rows (map sub_byte s))) k)"

definition aes_block :: "bytes \<Rightarrow> bytes \<Rightarrow> bytes" where
  "aes_block key blk =
     (let ks = aes_round_keys key in aes_rounds (tl ks) (xor_bytes blk (hd ks)))"

definition aes_key_ok :: "bytes \<Rightarrow> bool" where
  "aes_key_ok key = (length key = 16 \<or> length key = 24 \<or> length key = 32)"

section \<open>MD5\<close>

definition md5_k :: "u32 list" where
  "md5_k = [
    0xd76aa478, 0xe8c7b756, 0x242070db, 0xc1bdceee, 0xf57c0faf, 0x4787c62a,
    0xa8304613, 0xfd469501, 0x698098d8, 0x8b44f7af, 0xffff5bb1, 0x895cd7be,
    0x6b901122, 0xfd987193, 0xa679438e, 0x49b40821, 0xf61e2562, 0xc040b340,
    0x265e5a51, 0xe9b6c7aa, 0xd62f105d, 0x02441453, 0xd8a1e681, 0xe7d3fbc8,
    0x21e1cde6, 0xc33707d6, 0xf4d50d87, 0x455a14ed, 0xa9e3e905, 0xfcefa3f8,
    0x676f02d9, 0x8d2a4c8a, 0xfffa3942, 0x8771f681, 0x6d9d6122, 0xfde5380c,
    0xa4beea44, 0x4bdecfa9, 0xf6bb4b60, 0xbebfbc70, 0x289b7ec6, 0xeaa127fa,
    0xd4ef3085, 0x04881d05, 0xd9d4d039, 0xe6db99e5, 0x1fa27cf8, 0xc4ac5665,
    0xf4292244, 0x432aff97, 0xab9423a7, 0xfc93a039, 0x655b59c3, 0x8f0ccc92,
    0xffeff47d, 0x85845dd1, 0x6fa87e4f, 0xfe2ce6e0, 0xa3014314, 0x4e0811a1,
    0xf7537e82, 0xbd3af235, 0x2ad7d2bb, 0xeb86d391]"

definition md5_r :: "nat list" where
  "md5_r = concat (replicate 4 [7, 12, 17, 22]) @ concat (replicate 4 [5, 9, 14, 20])
     @ concat (replicate 4 [4, 11, 16, 23]) @ concat (replicate 4 [6, 10, 15, 21])"

type_synonym md5_state = "u32 \<times> u32 \<times> u32 \<times> u32"

definition le32 :: "u32 \<Rightarrow> bytes" where
  "le32 w = rev (be32 w)"

definition md5_pad :: "bytes \<Rightarrow> bytes" where
  "md5_pad m =
     m @ [0x80] @ replicate ((119 - length m mod 64) mod 64) 0 @ rev (be64 (word_of_nat (8 * length m)))"

fun md5_round :: "u32 list \<Rightarrow> nat \<Rightarrow> md5_state \<Rightarrow> md5_state" where
  "md5_round w i (a, b, c, d) =
     (let (f, g) =
        (if i < 16 then ((b AND c) OR (NOT b AND d), i)
         else if i < 32 then ((d AND b) OR (NOT d AND c), (5 * i + 1) mod 16)
         else if i < 48 then (b XOR c XOR d, (3 * i + 5) mod 16)
         else (c XOR (b OR NOT d), 7 * i mod 16)) in
      (d, b + word_rotl (md5_r ! i) (a + f + md5_k ! i + w ! g), b, c))"

fun md5_add :: "md5_state \<Rightarrow> md5_state \<Rightarrow> md5_state" where
  "md5_add (a, b, c, d) (a', b', c', d') = (a + a', b + b', c + c', d + d')"

definition md5_block :: "md5_state \<Rightarrow> bytes \<Rightarrow> md5_state" where
  "md5_block s blk =
     (let w = map (\<lambda>x. get32 (rev x)) (chunks 4 blk) in md5_add s (fold (md5_round w) [0..<64] s))"

fun md5_out :: "md5_state \<Rightarrow> bytes" where
  "md5_out (a, b, c, d) = le32 a @ le32 b @ le32 c @ le32 d"

definition md5 :: "bytes \<Rightarrow> bytes" where
  "md5 m = md5_out (fold (\<lambda>blk s. md5_block s blk) (chunks 64 (md5_pad m))
     (0x67452301, 0xefcdab89, 0x98badcfe, 0x10325476))"

lemma length_md5_out: "length (md5_out s) = 16"
  by (induction s rule: md5_out.induct) (simp add: le32_def)

lemma length_md5 [simp]: "length (md5 m) = 16"
  by (simp add: md5_def length_md5_out)

section \<open>Galois/counter mode\<close>

type_synonym u128 = "128 word"

definition to128 :: "bytes \<Rightarrow> u128" where
  "to128 b = foldl (\<lambda>a x. push_bit 8 a OR ucast x) 0 (take 16 (b @ replicate 16 0))"

definition of128 :: "u128 \<Rightarrow> bytes" where
  "of128 w = map (\<lambda>i. ucast (drop_bit (120 - 8 * i) w)) [0..<16]"

fun gf_mul_loop :: "nat \<Rightarrow> u128 \<Rightarrow> u128 \<Rightarrow> u128 \<Rightarrow> u128" where
  "gf_mul_loop 0 x z v = z"
| "gf_mul_loop (Suc k) x z v =
     gf_mul_loop k x (if bit x k then z XOR v else z)
       (if bit v 0 then drop_bit 1 v XOR 0xe1000000000000000000000000000000 else drop_bit 1 v)"

definition gf_mul :: "u128 \<Rightarrow> u128 \<Rightarrow> u128" where
  "gf_mul x y = gf_mul_loop 128 x 0 y"

definition ghash :: "u128 \<Rightarrow> bytes \<Rightarrow> bytes \<Rightarrow> u128" where
  "ghash h aad c =
     (let blocks = map to128 (chunks 16 aad) @ map to128 (chunks 16 c)
        @ [to128 (be64 (word_of_nat (8 * length aad)) @ be64 (word_of_nat (8 * length c)))] in
      foldl (\<lambda>y b. gf_mul (y XOR b) h) 0 blocks)"

definition gcm_stream :: "bytes \<Rightarrow> bytes \<Rightarrow> nat \<Rightarrow> bytes" where
  "gcm_stream key nonce n =
     take n (concat (map (\<lambda>i. aes_block key (nonce @ be32 (word_of_nat (2 + i)))) [0..<n div 16 + 1]))"

definition gcm_crypt :: "bytes \<Rightarrow> bytes \<Rightarrow> bytes \<Rightarrow> bytes" where
  "gcm_crypt key nonce x = map2 (XOR) x (gcm_stream key nonce (length x) @ replicate (length x) 0)"

definition gcm_tag :: "bytes \<Rightarrow> bytes \<Rightarrow> bytes \<Rightarrow> bytes \<Rightarrow> bytes" where
  "gcm_tag key nonce c aad =
     of128 (ghash (to128 (aes_block key (replicate 16 0))) aad c
       XOR to128 (aes_block key (nonce @ be32 1)))"

text \<open>
  \<open>cipher.AEAD\<close>: \<open>Seal(nil, nonce, plaintext, aad)\<close> and \<open>Open(nil, nonce, ciphertext, aad)\<close>.
\<close>

definition gcm_seal :: "bytes \<Rightarrow> bytes \<Rightarrow> bytes \<Rightarrow> bytes \<Rightarrow> bytes" where
  "gcm_seal key nonce p aad =
     (let c = gcm_crypt key nonce p in c @ gcm_tag key nonce c aad)"

definition gcm_open :: "bytes \<Rightarrow> bytes \<Rightarrow> bytes \<Rightarrow> bytes \<Rightarrow> bytes option" where
  "gcm_open key nonce ct aad =
     (if length ct < 16 then None
      else
        let c = take (length ct - 16) ct; tag = drop (length ct - 16) ct in
        if tag = gcm_tag key nonce c aad then Some (gcm_crypt key nonce c) else None)"

lemma length_gcm_crypt [simp]: "length (gcm_crypt key nonce x) = length x"
  by (simp add: gcm_crypt_def)

lemma length_gcm_tag [simp]: "length (gcm_tag key nonce c aad) = 16"
  by (simp add: gcm_tag_def of128_def)

lemma xor_twice: "length ys \<ge> length xs \<Longrightarrow> map2 (XOR) (map2 (XOR) xs ys) ys = (xs :: bytes)"
proof (induction xs arbitrary: ys)
  case (Cons x xs)
  then show ?case by (cases ys) (simp_all add: xor.assoc)
qed simp

lemma gcm_crypt_twice [simp]: "gcm_crypt key nonce (gcm_crypt key nonce x) = x"
  using xor_twice [of x "gcm_stream key nonce (length x) @ replicate (length x) 0"]
  by (simp add: gcm_crypt_def)

text \<open>
  The contract of an authenticated cipher: what \<open>seal\<close> writes, \<open>open\<close> accepts; and
  \<open>open\<close> accepts nothing else.
\<close>

locale aead =
  fixes seal :: "bytes \<Rightarrow> bytes \<Rightarrow> bytes \<Rightarrow> bytes \<Rightarrow> bytes"
    and unseal :: "bytes \<Rightarrow> bytes \<Rightarrow> bytes \<Rightarrow> bytes \<Rightarrow> bytes option"
    and tag_len :: nat
  assumes unseal_seal: "unseal k n (seal k n p a) a = Some p"
    and seal_unseal: "unseal k n c a = Some p \<Longrightarrow> c = seal k n p a"
    and length_seal: "length (seal k n p a) = length p + tag_len"
begin

lemma unseal_iff: "unseal k n c a = Some p \<longleftrightarrow> c = seal k n p a"
  using unseal_seal seal_unseal by metis

lemma unseal_short: "length c < tag_len \<Longrightarrow> unseal k n c a = None"
  using seal_unseal [of k n c a] length_seal [of k n _ a] by (cases "unseal k n c a") auto

lemma seal_inject: "seal k n p a = seal k n p' a \<longleftrightarrow> p = p'"
  using unseal_seal by (metis option.inject)

text \<open>Moving the tag behind another field of the message does not lose anything.\<close>

lemma relayout:
  assumes "ct = seal k n p a"
  shows "unseal k n (take (length ct - tag_len) ct @ drop (length ct - tag_len) ct) a = Some p"
    and "length (take (length ct - tag_len) ct) = length p"
    and "length (drop (length ct - tag_len) ct) = tag_len"
  using assms by (simp_all add: unseal_seal length_seal)

end

interpretation gcm: aead gcm_seal gcm_open 16
proof
  fix k n p a :: bytes
  show "gcm_open k n (gcm_seal k n p a) a = Some p"
    by (simp add: gcm_seal_def gcm_open_def Let_def)
  show "length (gcm_seal k n p a) = length p + 16"
    by (simp add: gcm_seal_def Let_def)
next
  fix k n c a p
  assume o: "gcm_open k n c a = Some p"
  let ?c = "take (length c - 16) c"
  from o have "p = gcm_crypt k n ?c" "drop (length c - 16) c = gcm_tag k n ?c a"
    by (auto simp: gcm_open_def Let_def split: if_splits)
  then show "c = gcm_seal k n p a"
    using append_take_drop_id [of "length c - 16" c] by (simp add: gcm_seal_def Let_def)
qed

section \<open>ECDH over P-256\<close>

definition p256_p :: int where
  "p256_p = 2 ^ 256 - 2 ^ 224 + 2 ^ 192 + 2 ^ 96 - 1"

definition p256_n :: int where
  "p256_n = 0xffffffff00000000ffffffffffffffffbce6faada7179e84f3b9cac2fc632551"

definition p256_b :: int where
  "p256_b = 0x5ac635d8aa3a93e7b3ebbd55769886bc651d06b0cc53b0f63bce3c3e27d2604b"

definition p256_g :: "int \<times> int" where
  "p256_g = (0x6b17d1f2e12c4247f8bce6e563a440f277037d812deb33a0f4a13945d898c296,
             0x4fe342e2fe1a7f9b8ee7eb4a7c0f9e162bce33576b315ececbb6406837bf51f5)"

function pow_mod :: "int \<Rightarrow> nat \<Rightarrow> int \<Rightarrow> int" where
  "pow_mod b e m =
     (if e = 0 then 1 mod m
      else let r = pow_mod (b * b mod m) (e div 2) m in if odd e then r * b mod m else r)"
  by pat_completeness auto
termination
  by (relation "measure (\<lambda>(b, e, m). e)") auto

declare pow_mod.simps [simp del]

definition p256_inv :: "int \<Rightarrow> int" where
  "p256_inv x = pow_mod (x mod p256_p) (nat (p256_p - 2)) p256_p"

type_synonym point = "(int \<times> int) option" \<comment> \<open>None is the point at infinity\<close>

fun p256_add :: "point \<Rightarrow> point \<Rightarrow> point" where
  "p256_add None q = q"
| "p256_add p None = p"
| "p256_add (Some (x1, y1)) (Some (x2, y2)) =
     (if x1 = x2 \<and> (y1 + y2) mod p256_p = 0 then None
      else
        let l = (if x1 = x2 then (3 * x1 * x1 - 3) * p256_inv (2 * y1)
                 else (y2 - y1) * p256_inv (x2 - x1)) mod p256_p;
            x3 = (l * l - x1 - x2) mod p256_p in
        Some (x3, (l * (x1 - x3) - y1) mod p256_p))"

function p256_mul :: "nat \<Rightarrow> point \<Rightarrow> point" where
  "p256_mul k p =
     (if k = 0 then None
      else let q = p256_mul (k div 2) (p256_add p p) in if odd k then p256_add q p else q)"
  by pat_completeness auto
termination
  by (relation "measure fst") auto

declare p256_mul.simps [simp del]

definition int_bytes :: "nat \<Rightarrow> int \<Rightarrow> bytes" where
  "int_bytes n v = map (\<lambda>i. word_of_int (v div 256 ^ (n - 1 - i))) [0..<n]"

definition bytes_int :: "bytes \<Rightarrow> int" where
  "bytes_int b = foldl (\<lambda>a x. 256 * a + uint x) 0 b"

text \<open>\<open>ecdh.P256().NewPublicKey\<close>: an uncompressed point on the curve.\<close>

definition newPublicKey :: "bytes \<Rightarrow> (int \<times> int) option" where
  "newPublicKey b =
     (if length b = 65 \<and> b ! 0 = 4 then
        let x = bytes_int (slice b 1 33); y = bytes_int (slice b 33 65) in
        if x < p256_p \<and> y < p256_p \<and> (y * y - (x * x * x - 3 * x + p256_b)) mod p256_p = 0
        then Some (x, y) else None
      else None)"

text \<open>
  A private key is its scalar \<open>d\<close> with \<open>0 < d < p256_n\<close>; \<open>publicKey\<close> is
  \<open>PublicKey().Bytes()\<close> and \<open>ecdh\<close> the x-coordinate that \<open>ECDH\<close> returns.
\<close>

definition publicKey :: "nat \<Rightarrow> bytes" where
  "publicKey d =
     (case p256_mul d (Some p256_g) of
        Some (x, y) \<Rightarrow> [4] @ int_bytes 32 x @ int_bytes 32 y
      | None \<Rightarrow> [0])"

definition ecdh :: "nat \<Rightarrow> int \<times> int \<Rightarrow> bytes option" where
  "ecdh d q = map_option (\<lambda>(x, y). int_bytes 32 x) (p256_mul d (Some q))"

lemma p256_mul_1: "p256_mul 1 (Some q) = Some q"
  by (subst p256_mul.simps, subst p256_mul.simps) simp

lemma length_int_bytes [simp]: "length (int_bytes n v) = n"
  by (simp add: int_bytes_def)

lemma length_publicKey_1: "length (publicKey 1) = 65"
  unfolding publicKey_def p256_mul_1 by (simp add: p256_g_def)

lemma newPublicKey_1: "newPublicKey (publicKey 1) = Some p256_g"
  unfolding publicKey_def p256_mul_1 by code_simp

end
