(* ===== verification/Mmtls_Crypto.thy ===== *)
theory Mmtls_Crypto
  imports Mmtls_Protocol Go_Crypto
begin

unbundle bit_operations_syntax

text \<open>
  Model of \<open>internal/protocol/mmtls_crypto.go\<close>: HKDF, the nonce and the additional data
  of an encrypted record, the key derivations of the handshake and of the pre-shared
  keys, and the layout that keeps the nonce between ciphertext and tag. Random bytes
  that the code draws are arguments.
\<close>

definition aesKeyLen :: nat where "aesKeyLen = 16"
definition aesIVLen :: nat where "aesIVLen = 12"
definition gcmTagLen :: nat where "gcmTagLen = 16"

definition labelExpandedSecret :: bytes where
  "labelExpandedSecret = bytes_of ''expanded secret''"
definition labelHandshakeKeys :: bytes where
  "labelHandshakeKeys = bytes_of ''handshake key expansion''"
definition labelAppDataKeys :: bytes where
  "labelAppDataKeys = bytes_of ''application data key expansion''"
definition labelEarlyKeys :: bytes where
  "labelEarlyKeys = bytes_of ''early data key expansion''"
definition labelClientFinished :: bytes where
  "labelClientFinished = bytes_of ''client finished''"
definition labelServerFinished :: bytes where
  "labelServerFinished = bytes_of ''server finished''"
definition labelPSKAccess :: bytes where "labelPSKAccess = bytes_of ''PSK_ACCESS''"
definition labelPSKRefresh :: bytes where "labelPSKRefresh = bytes_of ''PSK_REFRESH''"
definition ilinkHKDFSalt :: bytes where "ilinkHKDFSalt = bytes_of ''security hdkf expand''"

section \<open>HKDF\<close>

function hkdfExpand_loop :: "bytes \<Rightarrow> bytes \<Rightarrow> nat \<Rightarrow> byte \<Rightarrow> bytes \<Rightarrow> bytes \<Rightarrow> bytes" where
  "hkdfExpand_loop prk info l counter out t =
     (if length out < l then
        let t = hmac prk (t @ info @ [counter]) in
        hkdfExpand_loop prk info l (counter + 1) (out @ t) t
      else take l out)"
  by pat_completeness auto
termination
  by (relation "measure (\<lambda>(prk, info, l, counter, out, t). l - length out)") auto

declare hkdfExpand_loop.simps [simp del]

definition hkdfExpand :: "bytes \<Rightarrow> bytes \<Rightarrow> nat \<Rightarrow> bytes" where
  "hkdfExpand prk info l = hkdfExpand_loop prk info l 1 [] []"

definition hkdfExtract :: "bytes \<Rightarrow> bytes \<Rightarrow> bytes" where
  "hkdfExtract salt ikm = hmac salt ikm"

definition expandLabel :: "bytes \<Rightarrow> bytes \<Rightarrow> bytes \<Rightarrow> nat \<Rightarrow> bytes" where
  "expandLabel secret label context l = hkdfExpand secret (label @ context) l"

text \<open>
  Specification (RFC 5869): \<open>T(0)\<close> is empty, \<open>T(i + 1) = HMAC(prk, T(i) | info | i + 1)\<close>.
\<close>

fun hkdf_T :: "bytes \<Rightarrow> bytes \<Rightarrow> nat \<Rightarrow> bytes" where
  "hkdf_T prk info 0 = []"
| "hkdf_T prk info (Suc i) = hmac prk (hkdf_T prk info i @ info @ [word_of_nat (Suc i)])"

definition hkdf_okm :: "bytes \<Rightarrow> bytes \<Rightarrow> nat \<Rightarrow> bytes" where
  "hkdf_okm prk info n = concat (map (hkdf_T prk info) [1..<Suc n])"

lemma length_hkdf_T: "length (hkdf_T prk info (Suc i)) = 32"
  by simp

lemma length_hkdf_okm [simp]: "length (hkdf_okm prk info n) = 32 * n"
  by (induction n) (simp_all add: hkdf_okm_def)

lemma hkdf_okm_Suc: "hkdf_okm prk info (Suc n) = hkdf_okm prk info n @ hkdf_T prk info (Suc n)"
  by (simp add: hkdf_okm_def)

lemma take_hkdf_okm:
  "m \<le> n \<Longrightarrow> take (32 * m) (hkdf_okm prk info n) = hkdf_okm prk info m"
proof (induction n)
  case (Suc n)
  then show ?case by (cases "m = Suc n") (simp_all add: hkdf_okm_Suc length_hkdf_T del: hkdf_T.simps)
qed (simp add: hkdf_okm_def)

lemma hkdfExpand_loop_okm:
  "i \<le> n \<Longrightarrow> l \<le> 32 * n \<Longrightarrow>
   hkdfExpand_loop prk info l (word_of_nat (Suc i)) (hkdf_okm prk info i) (hkdf_T prk info i)
     = take l (hkdf_okm prk info n)"
proof (induction "n - i" arbitrary: i)
  case 0
  then show ?case by (subst hkdfExpand_loop.simps) simp
next
  case (Suc d)
  show ?case
  proof (cases "32 * i < l")
    case True
    with Suc.prems have "Suc i \<le> n" by simp
    moreover from Suc.hyps(2) have "d = n - Suc i" by simp
    ultimately have ih: "hkdfExpand_loop prk info l (word_of_nat (Suc (Suc i)))
        (hkdf_okm prk info (Suc i)) (hkdf_T prk info (Suc i)) = take l (hkdf_okm prk info n)"
      using Suc.hyps(1) Suc.prems(2) by blast
    have c: "(word_of_nat (Suc i) :: byte) + 1 = word_of_nat (Suc (Suc i))" by simp
    from True show ?thesis
      using ih by (subst hkdfExpand_loop.simps)
        (simp only: length_hkdf_okm if_True Let_def c hkdf_okm_Suc hkdf_T.simps)
  next
    case False
    then have "l \<le> 32 * i" by simp
    then have "take l (hkdf_okm prk info n) = take l (take (32 * i) (hkdf_okm prk info n))"
      by (simp add: min_absorb1)
    with False Suc.prems show ?thesis
      by (subst hkdfExpand_loop.simps) (simp add: take_hkdf_okm)
  qed
qed

lemma hkdfExpand_okm: "l \<le> 32 * n \<Longrightarrow> hkdfExpand prk info l = take l (hkdf_okm prk info n)"
  using hkdfExpand_loop_okm [of 0 n l prk info] by (simp add: hkdfExpand_def hkdf_okm_def)

lemma length_hkdfExpand [simp]: "length (hkdfExpand prk info l) = l"
  using hkdfExpand_okm [of l l prk info] by simp

lemma length_expandLabel [simp]: "length (expandLabel s label ctx l) = l"
  by (simp add: expandLabel_def)

section \<open>ECDH\<close>

text \<open>\<open>generateECDH\<close> for the drawn scalar \<open>d\<close>.\<close>

definition generateECDH :: "nat \<Rightarrow> (nat \<times> bytes) go" where
  "generateECDH d = Ok (d, publicKey d)"

definition ecdh_err :: go_error where "ecdh_err = Errorf ''crypto/ecdh: invalid public key''"

definition mmtlsSecret :: "nat \<Rightarrow> bytes \<Rightarrow> bytes go" where
  "mmtlsSecret priv peerPub =
     go_bind (of_opt ecdh_err (newPublicKey peerPub)) (\<lambda>peer.
     go_bind (of_opt ecdh_err (ecdh priv peer)) (\<lambda>shared.
     Ok (sha256 shared)))"

section \<open>Records under encryption\<close>

text \<open>The last eight bytes are combined with the sequence number; a shorter value panics.\<close>

definition nonce :: "bytes \<Rightarrow> u64 \<Rightarrow> bytes go" where
  "nonce iv seq =
     (if length iv < 8 then Panic
      else Ok (take (length iv - 8) iv @ map2 (XOR) (drop (length iv - 8) iv) (be64 seq)))"

text \<open>\<open>aes.NewCipher\<close> accepts three key sizes; GCM panics on a nonce that is not 12 bytes.\<close>

definition aes_err :: go_error where "aes_err = Errorf ''crypto/aes: invalid key size %d''"
definition gcm_err :: go_error where "gcm_err = Errorf ''cipher: message authentication failed''"

definition gcm_Seal :: "bytes \<Rightarrow> bytes \<Rightarrow> bytes \<Rightarrow> bytes \<Rightarrow> bytes go" where
  "gcm_Seal key n plaintext aad =
     (if length n \<noteq> 12 then Panic else Ok (gcm_seal key n plaintext aad))"

definition gcm_Open :: "bytes \<Rightarrow> bytes \<Rightarrow> bytes \<Rightarrow> bytes \<Rightarrow> bytes go" where
  "gcm_Open key n ciphertext aad =
     (if length n \<noteq> 12 then Panic else of_opt gcm_err (gcm_open key n ciphertext aad))"

definition gcmEncrypt :: "bytes \<Rightarrow> bytes \<Rightarrow> u64 \<Rightarrow> bytes \<Rightarrow> bytes \<Rightarrow> bytes go" where
  "gcmEncrypt key iv seq plaintext aad =
     go_bind (go_guard (\<not> aes_key_ok key) aes_err) (\<lambda>_.
     go_bind (nonce iv seq) (\<lambda>n. gcm_Seal key n plaintext aad))"

definition gcmDecrypt :: "bytes \<Rightarrow> bytes \<Rightarrow> u64 \<Rightarrow> bytes \<Rightarrow> bytes \<Rightarrow> bytes go" where
  "gcmDecrypt key iv seq ciphertext aad =
     go_bind (go_guard (\<not> aes_key_ok key) aes_err) (\<lambda>_.
     go_bind (nonce iv seq) (\<lambda>n. gcm_Open key n ciphertext aad))"

definition buildRecordAAD :: "u64 \<Rightarrow> byte \<Rightarrow> nat \<Rightarrow> bytes" where
  "buildRecordAAD seq contentType cipherLen =
     be64 seq @ [contentType, 0xf1, 0x03] @ be16 (word_of_nat cipherLen)"

definition encryptRecordPayload :: "bytes \<Rightarrow> bytes \<Rightarrow> u64 \<Rightarrow> byte \<Rightarrow> bytes \<Rightarrow> bytes go" where
  "encryptRecordPayload key iv seq contentType plaintext =
     (let aad = buildRecordAAD seq contentType (length plaintext + gcmTagLen) in
      gcmEncrypt key iv seq plaintext aad)"

definition decryptRecordPayload :: "bytes \<Rightarrow> bytes \<Rightarrow> u64 \<Rightarrow> byte \<Rightarrow> bytes \<Rightarrow> bytes go" where
  "decryptRecordPayload key iv seq contentType ct =
     (let aad = buildRecordAAD seq contentType (length ct) in
      gcmDecrypt key iv seq ct aad)"

lemma nonce_Ok: "length iv = 12 \<Longrightarrow> \<exists>n. nonce iv seq = Ok n \<and> length n = 12"
  by (simp add: nonce_def)

lemma xor_right_cancel:
  "length xs = length ys \<Longrightarrow> length ys = length (zs :: bytes) \<Longrightarrow>
   map2 (XOR) xs ys = map2 (XOR) xs zs \<longleftrightarrow> ys = zs"
proof (induction xs ys zs rule: list_induct3)
  case (Cons x xs y ys z zs)
  have "x XOR y = x XOR z \<longleftrightarrow> y = z"
    by (metis xor.assoc xor.left_neutral xor_self_eq)
  with Cons.IH show ?case by simp
qed simp

lemma nonce_inject_lemma:
  assumes "nonce iv s = Ok n" "nonce iv s' = Ok n"
  shows "s = s'"
proof -
  from assms have l: "8 \<le> length iv"
    and e: "map2 (XOR) (drop (length iv - 8) iv) (be64 s) = map2 (XOR) (drop (length iv - 8) iv) (be64 s')"
    by (auto simp: nonce_def split: if_splits)
  from e l have "be64 s = be64 s'" by (subst (asm) xor_right_cancel) simp_all
  then show ?thesis by (simp add: be64_inj)
qed

text \<open>The record keys are an AES key and a 12-byte nonce: encryption then cannot fail.\<close>

definition record_key :: "bytes \<Rightarrow> bytes \<Rightarrow> bool" where
  "record_key key iv \<longleftrightarrow> aes_key_ok key \<and> length iv = 12"

lemma encryptRecordPayload_eq:
  assumes "record_key key iv"
  obtains n where "nonce iv seq = Ok n"
    and "\<And>ct p. encryptRecordPayload key iv seq ct p =
      Ok (gcm_seal key n p (buildRecordAAD seq ct (length p + 16)))"
    and "\<And>ct c. decryptRecordPayload key iv seq ct c =
      of_opt gcm_err (gcm_open key n c (buildRecordAAD seq ct (length c)))"
proof -
  from assms obtain n where "nonce iv seq = Ok n" "length n = 12"
    using nonce_Ok [of iv seq] by (auto simp: record_key_def)
  with assms that show ?thesis
    by (simp add: encryptRecordPayload_def decryptRecordPayload_def gcmEncrypt_def gcmDecrypt_def
        gcm_Seal_def gcm_Open_def record_key_def gcmTagLen_def Let_def)
qed

lemma encryptRecordPayload_Ok:
  assumes "record_key key iv"
  shows "\<exists>c. encryptRecordPayload key iv seq ct p = Ok c \<and> length c = length p + 16"
proof -
  from assms obtain n where "encryptRecordPayload key iv seq ct p =
      Ok (gcm_seal key n p (buildRecordAAD seq ct (length p + 16)))"
    by (rule encryptRecordPayload_eq [of key iv seq]) blast
  then show ?thesis by (simp add: gcm.length_seal)
qed

text \<open>
  A record is accepted exactly when it was sealed with the same key, sequence number and
  content type.
\<close>

lemma decryptRecordPayload_iff_lemma:
  assumes "record_key key iv"
  shows "decryptRecordPayload key iv seq ct c = Ok p \<longleftrightarrow> encryptRecordPayload key iv seq ct p = Ok c"
proof -
  from assms obtain n where n: "encryptRecordPayload key iv seq ct p =
      Ok (gcm_seal key n p (buildRecordAAD seq ct (length p + 16)))"
    "decryptRecordPayload key iv seq ct c =
      of_opt gcm_err (gcm_open key n c (buildRecordAAD seq ct (length c)))"
    by (rule encryptRecordPayload_eq [of key iv seq]) blast
  have "decryptRecordPayload key iv seq ct c = Ok p
      \<longleftrightarrow> c = gcm_seal key n p (buildRecordAAD seq ct (length c))"
    by (simp only: n(2) of_opt_Ok_iff gcm.unseal_iff)
  also have "\<dots> \<longleftrightarrow> gcm_seal key n p (buildRecordAAD seq ct (length p + 16)) = c"
    by (metis gcm.length_seal)
  finally show ?thesis by (simp only: n(1) go.inject)
qed

lemma decryptRecordPayload_no_panic:
  assumes "record_key key iv"
  shows "decryptRecordPayload key iv seq ct c \<noteq> Panic"
  using assms by (rule encryptRecordPayload_eq [of key iv seq]) simp

section \<open>Traffic keys\<close>

record trafficKeys =
  ClientKey :: bytes
  ServerKey :: bytes
  ClientIV :: bytes
  ServerIV :: bytes
  TKey :: bytes
  TIV :: bytes

definition deriveMaster :: "bytes \<Rightarrow> bytes \<Rightarrow> bytes" where
  "deriveMaster secret hsHash = expandLabel secret labelExpandedSecret hsHash 32"

definition splitBiKeys :: "bytes \<Rightarrow> trafficKeys" where
  "splitBiKeys kb =
     \<lparr>ClientKey = slice kb 0 16, ServerKey = slice kb 16 32, ClientIV = slice kb 32 44,
      ServerIV = slice kb 44 56, TKey = [], TIV = []\<rparr>"

definition deriveHandshakeKeys :: "bytes \<Rightarrow> bytes \<Rightarrow> trafficKeys" where
  "deriveHandshakeKeys secret hsHash =
     (let kb = expandLabel secret labelHandshakeKeys hsHash 56 in splitBiKeys kb)"

definition deriveAppKeys :: "bytes \<Rightarrow> bytes \<Rightarrow> trafficKeys" where
  "deriveAppKeys master hsHash =
     (let kb = expandLabel master labelAppDataKeys hsHash 56 in splitBiKeys kb)"

definition finishedVerifyData :: "bytes \<Rightarrow> bool \<Rightarrow> bytes \<Rightarrow> bytes" where
  "finishedVerifyData secret isClient hsHash =
     (let label = (if isClient then labelClientFinished else labelServerFinished);
          key = expandLabel secret label [] 32 in
      hmac key hsHash)"

definition derivePSK :: "bytes \<Rightarrow> bytes \<Rightarrow> int \<Rightarrow> bytes" where
  "derivePSK secret hCertV pskType =
     (let label = (if pskType = 1 then labelPSKAccess else labelPSKRefresh) in
      expandLabel secret label hCertV 32)"

definition derivePSKOneWayKeys :: "bytes \<Rightarrow> bytes \<Rightarrow> bytes \<Rightarrow> trafficKeys" where
  "derivePSKOneWayKeys psk label hsHash =
     (let kb = expandLabel psk label hsHash 28 in
      \<lparr>ClientKey = [], ServerKey = [], ClientIV = [], ServerIV = [],
       TKey = slice kb 0 16, TIV = slice kb 16 28\<rparr>)"

lemma splitBiKeys_record_keys:
  assumes "length kb = 56"
  shows "record_key (ClientKey (splitBiKeys kb)) (ClientIV (splitBiKeys kb))"
    and "record_key (ServerKey (splitBiKeys kb)) (ServerIV (splitBiKeys kb))"
  using assms by (simp_all add: splitBiKeys_def record_key_def aes_key_ok_def)

lemma derived_record_keys [simp]:
  "record_key (ClientKey (deriveHandshakeKeys s h)) (ClientIV (deriveHandshakeKeys s h))"
  "record_key (ServerKey (deriveHandshakeKeys s h)) (ServerIV (deriveHandshakeKeys s h))"
  "record_key (ClientKey (deriveAppKeys m h)) (ClientIV (deriveAppKeys m h))"
  "record_key (ServerKey (deriveAppKeys m h)) (ServerIV (deriveAppKeys m h))"
  "record_key (TKey (derivePSKOneWayKeys p l h)) (TIV (derivePSKOneWayKeys p l h))"
  by (simp_all add: deriveHandshakeKeys_def deriveAppKeys_def splitBiKeys_record_keys Let_def
      derivePSKOneWayKeys_def record_key_def [of "TKey x" for x] record_key_def [of "slice x y z" for x y z]
      aes_key_ok_def)

text \<open>The four pieces of a key block are disjoint and cover it.\<close>

lemma splitBiKeys_cover:
  assumes "length kb = 56"
  shows "ClientKey (splitBiKeys kb) @ ServerKey (splitBiKeys kb) @ ClientIV (splitBiKeys kb)
    @ ServerIV (splitBiKeys kb) = kb"
  using assms slice_split [of 0 16 32 kb] slice_split [of 0 32 44 kb] slice_split [of 0 44 56 kb]
    slice_full [of kb]
  by (simp add: splitBiKeys_def)

section \<open>The layout with the nonce inside\<close>

definition aesGCMEncryptLayout :: "bytes \<Rightarrow> bytes \<Rightarrow> bytes \<Rightarrow> bytes \<Rightarrow> bytes go" where
  "aesGCMEncryptLayout iv key aad plaintext =
     go_bind (go_guard (\<not> aes_key_ok key) aes_err) (\<lambda>_.
     go_bind (gcm_Seal key iv plaintext aad) (\<lambda>ct.
       let tag = drop (length ct - gcmTagLen) ct;
           body = take (length ct - gcmTagLen) ct in
       Ok (body @ iv @ tag)))"

definition aesGCMDecryptLayout :: "bytes \<Rightarrow> bytes \<Rightarrow> bytes \<Rightarrow> bytes go" where
  "aesGCMDecryptLayout key aad blob =
     (if length blob < 28 then Err (Errorf ''GCM blob too short'')
      else
        let ct = take (length blob - 28) blob;
            iv = slice blob (length blob - 28) (length blob - 16);
            tag = drop (length blob - 16) blob;
            wire = ct @ tag in
        go_bind (go_guard (\<not> aes_key_ok key) aes_err) (\<lambda>_.
        gcm_Open key iv wire aad))"

lemma layout_parts:
  assumes "length iv = 12" "length tag = 16"
  shows "take (length (ct @ iv @ tag) - 28) (ct @ iv @ tag) = ct"
    and "slice (ct @ iv @ tag) (length (ct @ iv @ tag) - 28) (length (ct @ iv @ tag) - 16) = iv"
    and "drop (length (ct @ iv @ tag) - 16) (ct @ iv @ tag) = tag"
  using assms by (simp_all add: slice_def)

lemma aesGCMEncryptLayout_length:
  assumes "aesGCMEncryptLayout iv key aad p = Ok blob"
  shows "length blob = length p + 28"
  using assms by (auto simp: aesGCMEncryptLayout_def go_bind_Ok_iff gcm_Seal_def Let_def gcmTagLen_def
      gcm.length_seal split: if_splits)

lemma aesGCMDecryptLayout_iff_lemma:
  "aesGCMDecryptLayout key aad blob = Ok p \<longleftrightarrow>
   (\<exists>iv. length iv = 12 \<and> aesGCMEncryptLayout iv key aad p = Ok blob)"
proof
  assume d: "aesGCMDecryptLayout key aad blob = Ok p"
  let ?ct = "take (length blob - 28) blob" and ?tag = "drop (length blob - 16) blob"
  let ?iv = "slice blob (length blob - 28) (length blob - 16)"
  from d have l: "28 \<le> length blob" and k: "aes_key_ok key"
    and o: "gcm_open key ?iv (?ct @ ?tag) aad = Some p"
    by (auto simp: aesGCMDecryptLayout_def Let_def go_bind_Ok_iff gcm_Open_def split: if_splits)
  from o have s: "?ct @ ?tag = gcm_seal key ?iv p aad" by (simp only: gcm.unseal_iff)
  have iv: "length ?iv = 12" using l by simp
  have "aesGCMEncryptLayout ?iv key aad p = Ok (?ct @ ?iv @ ?tag)"
    using k l by (simp add: aesGCMEncryptLayout_def gcm_Seal_def gcmTagLen_def s [symmetric])
  moreover have "?ct @ ?iv @ ?tag = blob" using l by (intro take_slice_drop) simp
  ultimately have "aesGCMEncryptLayout ?iv key aad p = Ok blob" by (simp only:)
  with iv show "\<exists>iv. length iv = 12 \<and> aesGCMEncryptLayout iv key aad p = Ok blob" by blast
next
  assume "\<exists>iv. length iv = 12 \<and> aesGCMEncryptLayout iv key aad p = Ok blob"
  then obtain iv where iv: "length iv = 12" and e: "aesGCMEncryptLayout iv key aad p = Ok blob"
    by blast
  let ?s = "gcm_seal key iv p aad"
  let ?body = "take (length ?s - 16) ?s" and ?tag = "drop (length ?s - 16) ?s"
  from e iv have k: "aes_key_ok key" and b: "blob = ?body @ iv @ ?tag"
    by (auto simp: aesGCMEncryptLayout_def go_bind_Ok_iff gcm_Seal_def gcmTagLen_def Let_def)
  note r = gcm.relayout [of ?s key iv p aad, OF refl]
  have l: "28 \<le> length blob" using b iv r(3) by simp
  show "aesGCMDecryptLayout key aad blob = Ok p"
    using l k iv r(1) layout_parts [OF iv r(3), of ?body, folded b]
    by (simp add: aesGCMDecryptLayout_def Let_def gcm_Open_def)
qed

lemma aesGCM_layout_roundtrip:
  assumes "aesGCMEncryptLayout iv key aad p = Ok blob" "length iv = 12"
  shows "aesGCMDecryptLayout key aad blob = Ok p"
  using assms aesGCMDecryptLayout_iff_lemma by blast

lemma aesGCMDecryptLayout_no_panic [simp]: "aesGCMDecryptLayout key aad blob \<noteq> Panic"
  by (auto simp: aesGCMDecryptLayout_def Let_def go_bind_Panic_iff gcm_Open_def)

text \<open>C39: Key derivation is HKDF-Expand of RFC 5869: the first bytes of \<open>T(1) | T(2) | ...\<close>.\<close>

theorem hkdfExpand_rfc5869:
  assumes "l \<le> 32 * n"
  shows "hkdfExpand prk info l = take l (hkdf_okm prk info n)"
  by (rule hkdfExpand_okm [OF assms])

theorem hkdfExpand_rfc5869_witness: "hkdfExpand [1] [2] 56 = take 56 (hkdf_okm [1] [2] 2)"
  by (rule hkdfExpand_rfc5869) simp

text \<open>
  With keys of the right size a record can always be sealed, and a record is accepted
  exactly when it was sealed from that plaintext with the same key, sequence number and
  content type.
\<close>

theorem record_protection:
  assumes "record_key key iv"
  shows "(\<exists>c. encryptRecordPayload key iv seq ct p = Ok c \<and> length c = length p + 16)
    \<and> (decryptRecordPayload key iv seq ct c = Ok p \<longleftrightarrow> encryptRecordPayload key iv seq ct p = Ok c)"
  using encryptRecordPayload_Ok [OF assms] decryptRecordPayload_iff_lemma [OF assms] by blast

theorem record_protection_witness:
  "\<exists>c. encryptRecordPayload (replicate 16 1) (replicate 12 2) 3 ctAppData [7] = Ok c
     \<and> decryptRecordPayload (replicate 16 1) (replicate 12 2) 3 ctAppData c = Ok [7]"
proof -
  have "record_key (replicate 16 1) (replicate 12 2)" by (simp add: record_key_def aes_key_ok_def)
  from record_protection [OF this] show ?thesis by blast
qed

end
