(* ===== verification/Go_State.thy ===== *)
theory Go_State
  imports Go_Prelude
begin

text \<open>
  Methods of Go that change their receiver: an action takes the state and returns the
  result together with the state it leaves, on every outcome. A small calculus of
  triples (precondition, action, postcondition for a value, postcondition for an error
  or a panic) carries invariants through a composed action.
\<close>

type_synonym ('s, 'a) act = "'s \<Rightarrow> 'a go \<times> 's"

definition act_ret :: "'a \<Rightarrow> ('s, 'a) act" where
  "act_ret x s = (Ok x, s)"

definition act_lift :: "'a go \<Rightarrow> ('s, 'a) act" where
  "act_lift g s = (g, s)"

definition act_get :: "('s \<Rightarrow> 'a) \<Rightarrow> ('s, 'a) act" where
  "act_get f s = (Ok (f s), s)"

definition act_mod :: "('s \<Rightarrow> 's) \<Rightarrow> ('s, unit) act" where
  "act_mod f s = (Ok (), f s)"

fun act_then :: "'a go \<times> 's \<Rightarrow> ('a \<Rightarrow> ('s, 'b) act) \<Rightarrow> 'b go \<times> 's" where
  "act_then (Ok x, s) k = k x s"
| "act_then (Err e, s) k = (Err e, s)"
| "act_then (Panic, s) k = (Panic, s)"

definition act_bind :: "('s, 'a) act \<Rightarrow> ('a \<Rightarrow> ('s, 'b) act) \<Rightarrow> ('s, 'b) act" where
  "act_bind m k s = act_then (m s) k"

lemma act_simps [simp]:
  "act_ret x s = (Ok x, s)" "act_lift g s = (g, s)" "act_get f s = (Ok (f s), s)"
  "act_mod h s = (Ok (), h s)"
  by (simp_all add: act_ret_def act_lift_def act_get_def act_mod_def)

lemma act_bind_Ok [simp]: "m s = (Ok x, t) \<Longrightarrow> act_bind m k s = k x t"
  by (simp add: act_bind_def)

lemma act_bind_Err [simp]: "m s = (Err e, t) \<Longrightarrow> act_bind m k s = (Err e, t)"
  by (simp add: act_bind_def)

lemma act_bind_Panic [simp]: "m s = (Panic, t) \<Longrightarrow> act_bind m k s = (Panic, t)"
  by (simp add: act_bind_def)

lemma act_bind_OkE:
  assumes "act_bind m k s = (Ok y, u)"
  obtains x t where "m s = (Ok x, t)" "k x t = (Ok y, u)"
  using assms by (cases "m s"; cases "fst (m s)") (auto simp: act_bind_def)

lemma act_bind_lift [simp]:
  "act_bind (act_lift (Ok x)) k s = k x s"
  "act_bind (act_lift (Err e)) k s = (Err e, s)"
  "act_bind (act_lift Panic) k s = (Panic, s)"
  "act_bind (act_get f) h s = h (f s) s"
  "act_bind (act_mod g) u s = u () (g s)"
  by (simp_all add: act_bind_def)

lemma act_bind_cong [fundef_cong]:
  assumes "m s = m' s'" "\<And>x t. m' s' = (Ok x, t) \<Longrightarrow> k x t = k' x t"
  shows "act_bind m k s = act_bind m' k' s'"
  using assms by (cases "m' s'"; cases "fst (m' s')") (auto simp: act_bind_def)

section \<open>Triples\<close>

named_theorems hoare_intros

definition hoare :: "('s \<Rightarrow> bool) \<Rightarrow> ('s, 'a) act \<Rightarrow> ('a \<Rightarrow> 's \<Rightarrow> bool) \<Rightarrow> ('s \<Rightarrow> bool) \<Rightarrow> bool" where
  "hoare P m Q E \<longleftrightarrow>
     (\<forall>s. P s \<longrightarrow> (case m s of (Ok x, t) \<Rightarrow> Q x t | (_, t) \<Rightarrow> E t))"

abbreviation keeps :: "('s \<Rightarrow> bool) \<Rightarrow> ('s, 'a) act \<Rightarrow> bool" where
  "keeps I m \<equiv> hoare I m (\<lambda>_. I) I"

lemma hoareI:
  assumes "\<And>s x t. P s \<Longrightarrow> m s = (Ok x, t) \<Longrightarrow> Q x t"
    and "\<And>s e t. P s \<Longrightarrow> m s = (Err e, t) \<Longrightarrow> E t"
    and "\<And>s t. P s \<Longrightarrow> m s = (Panic, t) \<Longrightarrow> E t"
  shows "hoare P m Q E"
  unfolding hoare_def
proof (intro allI impI)
  fix s assume "P s"
  then show "case m s of (Ok x, t) \<Rightarrow> Q x t | (_, t) \<Rightarrow> E t"
    using assms by (cases "m s"; cases "fst (m s)") auto
qed

lemma hoareD: "hoare P m Q E \<Longrightarrow> P s \<Longrightarrow> m s = (Ok x, t) \<Longrightarrow> Q x t"
  unfolding hoare_def by fastforce

lemma hoareD_fail: "hoare P m Q E \<Longrightarrow> P s \<Longrightarrow> m s = (g, t) \<Longrightarrow> \<not> is_ok g \<Longrightarrow> E t"
  unfolding hoare_def by (cases g) fastforce+

lemma keepsD: "keeps I m \<Longrightarrow> I s \<Longrightarrow> m s = (g, t) \<Longrightarrow> I t"
  unfolding hoare_def by (cases g) fastforce+

lemma hoare_bind [hoare_intros]:
  assumes "hoare P m R E" "\<And>x. hoare (R x) (k x) Q E"
  shows "hoare P (act_bind m k) Q E"
  unfolding hoare_def
proof (intro allI impI)
  fix s assume "P s"
  with assms show "case act_bind m k s of (Ok x, t) \<Rightarrow> Q x t | (_, t) \<Rightarrow> E t"
    unfolding hoare_def act_bind_def by (cases "m s"; cases "fst (m s)") fastforce+
qed

lemma hoare_ret [hoare_intros]: "(\<And>s. P s \<Longrightarrow> Q x s) \<Longrightarrow> hoare P (act_ret x) Q E"
  by (simp add: hoare_def)

lemma hoare_lift [hoare_intros]:
  "(\<And>s x. P s \<Longrightarrow> g = Ok x \<Longrightarrow> Q x s) \<Longrightarrow> (\<And>s. P s \<Longrightarrow> \<not> is_ok g \<Longrightarrow> E s) \<Longrightarrow> hoare P (act_lift g) Q E"
  by (cases g) (simp_all add: hoare_def)

lemma hoare_get [hoare_intros]: "(\<And>s. P s \<Longrightarrow> Q (f s) s) \<Longrightarrow> hoare P (act_get f) Q E"
  by (simp add: hoare_def)

lemma hoare_mod [hoare_intros]: "(\<And>s. P s \<Longrightarrow> Q () (f s)) \<Longrightarrow> hoare P (act_mod f) Q E"
  by (simp add: hoare_def)

lemma hoare_if [hoare_intros]:
  "(b \<Longrightarrow> hoare P m Q E) \<Longrightarrow> (\<not> b \<Longrightarrow> hoare P n Q E) \<Longrightarrow> hoare P (if b then m else n) Q E"
  by simp

lemma hoare_case_prod [hoare_intros]:
  "(\<And>a b. x = (a, b) \<Longrightarrow> hoare P (f a b) Q E) \<Longrightarrow> hoare P (case x of (a, b) \<Rightarrow> f a b) Q E"
  by (cases x) simp

lemma hoare_weaken:
  "hoare P' m Q' E' \<Longrightarrow> (\<And>s. P s \<Longrightarrow> P' s) \<Longrightarrow> (\<And>x s. Q' x s \<Longrightarrow> Q x s) \<Longrightarrow> (\<And>s. E' s \<Longrightarrow> E s) \<Longrightarrow>
   hoare P m Q E"
proof (rule hoareI)
  assume w: "hoare P' m Q' E'" and a: "\<And>s. P s \<Longrightarrow> P' s" "\<And>x s. Q' x s \<Longrightarrow> Q x s" "\<And>s. E' s \<Longrightarrow> E s"
  show "Q x t" if "P s" "m s = (Ok x, t)" for s x t using hoareD [OF w a(1) that(2)] that(1) a(2) by blast
  show "E t" if "P s" "m s = (Err e, t)" for s e t
    using hoareD_fail [OF w a(1) that(2)] that(1) a(3) by simp
  show "E t" if "P s" "m s = (Panic, t)" for s t
    using hoareD_fail [OF w a(1) that(2)] that(1) a(3) by simp
qed

text \<open>\<open>defer\<close>: \<open>f\<close> runs however \<open>m\<close> ends.\<close>

definition deferred :: "('s, 'a) act \<Rightarrow> ('s \<Rightarrow> 's) \<Rightarrow> ('s, 'a) act" where
  "deferred m f s = (case m s of (g, t) \<Rightarrow> (g, f t))"

lemma hoare_deferred:
  assumes "hoare P m (\<lambda>x s. Q x (f s)) (\<lambda>s. E (f s))"
  shows "hoare P (deferred m f) Q E"
  using assms unfolding hoare_def deferred_def by (fastforce split: go.splits prod.splits)

lemma hoare_option:
  "(x = None \<Longrightarrow> hoare P m Q E) \<Longrightarrow> (\<And>y. x = Some y \<Longrightarrow> hoare P (f y) Q E) \<Longrightarrow>
   hoare P (case x of None \<Rightarrow> m | Some y \<Rightarrow> f y) Q E"
  by (cases x) simp_all

text \<open>Invariants of a whole action: one rule for each way to build it.\<close>

lemma keeps_bind [hoare_intros]: "keeps I m \<Longrightarrow> (\<And>x. keeps I (k x)) \<Longrightarrow> keeps I (act_bind m k)"
  by (rule hoare_bind)

lemma keeps_basic [hoare_intros]:
  "keeps I (act_ret x)" "keeps I (act_lift g)" "keeps I (act_get f)"
  by (auto simp: hoare_def split: go.splits)

lemma keeps_mod [hoare_intros]: "(\<And>s. I s \<Longrightarrow> I (f s)) \<Longrightarrow> keeps I (act_mod f)"
  by (simp add: hoare_def)

lemmas keeps_intros = keeps_bind keeps_basic keeps_mod hoare_if hoare_case_prod hoare_option

end
