(* ===== verification/Go_Net.thy ===== *)
theory Go_Net
  imports Go_State
begin

text \<open>
  A \<open>net.Conn\<close> as the code sees it. What the peer and the network will do is a script
  inside the connection: the chunks (or errors) that successive reads find, and whether
  successive writes succeed. What was written is kept, one entry per \<open>Write\<close>. The end of
  the script of reads is end-of-file; deadlines show up as errors in the scripts.
\<close>

datatype read_ev = RData bytes | RFail go_error

record conn =
  inbox :: "read_ev list"
  wok :: "bool list"
  sent :: "bytes list"
  closed :: bool

definition io_EOF :: go_error where "io_EOF = Errorf ''EOF''"
definition io_UnexpectedEOF :: go_error where "io_UnexpectedEOF = Errorf ''unexpected EOF''"
definition write_err :: go_error where "write_err = Errorf ''write failed''"

fun ev_size :: "read_ev \<Rightarrow> nat" where
  "ev_size (RData b) = Suc (length b)"
| "ev_size (RFail e) = 1"

definition inbox_size :: "read_ev list \<Rightarrow> nat" where
  "inbox_size es = sum_list (map ev_size es)"

lemma inbox_size_simps [simp]:
  "inbox_size [] = 0" "inbox_size (e # es) = ev_size e + inbox_size es"
  by (simp_all add: inbox_size_def)

text \<open>\<open>conn.Read(buf)\<close> with a buffer of \<open>n\<close> bytes.\<close>

fun take_chunk :: "nat \<Rightarrow> read_ev list \<Rightarrow> bytes go \<times> read_ev list" where
  "take_chunk n [] = (Err io_EOF, [])"
| "take_chunk n (RFail e # r) = (Err e, r)"
| "take_chunk n (RData b # r) =
     (Ok (take n b), if length b > n then RData (drop n b) # r else r)"

definition conn_Read :: "nat \<Rightarrow> (conn, bytes) act" where
  "conn_Read n c = (let (g, r) = take_chunk n (inbox c) in (g, c\<lparr>inbox := r\<rparr>))"

definition conn_Write :: "bytes \<Rightarrow> (conn, unit) act" where
  "conn_Write data c =
     (case wok c of
        True # w \<Rightarrow> (Ok (), c\<lparr>wok := w, sent := sent c @ [data]\<rparr>)
      | _ # w \<Rightarrow> (Err write_err, c\<lparr>wok := w\<rparr>)
      | [] \<Rightarrow> (Err write_err, c))"

definition conn_Close :: "conn \<Rightarrow> conn" where
  "conn_Close c = c\<lparr>closed := True\<rparr>"

lemma take_chunk_size:
  assumes "take_chunk n es = (Ok b, r)" "b \<noteq> []"
  shows "inbox_size r + length b \<le> inbox_size es" and "0 < length b"
  using assms by (induction n es rule: take_chunk.induct) auto

lemma take_chunk_less:
  "(Ok b, r) = take_chunk n es \<Longrightarrow> 0 < n \<Longrightarrow> inbox_size r < inbox_size es"
  by (induction n es rule: take_chunk.induct) (auto split: if_splits)

lemma conn_Read_frame:
  "conn_Read n c = (g, c') \<Longrightarrow> wok c' = wok c \<and> sent c' = sent c \<and> closed c' = closed c"
  by (auto simp: conn_Read_def split: prod.splits)

lemma conn_Write_frame:
  "conn_Write d c = (g, c') \<Longrightarrow> inbox c' = inbox c \<and> closed c' = closed c
     \<and> (g = Ok () \<and> sent c' = sent c @ [d] \<or> (\<exists>e. g = Err e) \<and> sent c' = sent c)"
  by (auto simp: conn_Write_def split: list.splits bool.splits)

text \<open>The bytes still to come when no read fails.\<close>

fun inbox_bytes :: "read_ev list \<Rightarrow> bytes" where
  "inbox_bytes [] = []"
| "inbox_bytes (RData b # r) = b @ inbox_bytes r"
| "inbox_bytes (RFail e # r) = []"

definition good_inbox :: "read_ev list \<Rightarrow> bool" where
  "good_inbox es \<longleftrightarrow> (\<forall>e \<in> set es. \<exists>b. e = RData b \<and> b \<noteq> [])"

lemma good_inbox_simps [simp]:
  "good_inbox []" "good_inbox (RData b # es) \<longleftrightarrow> b \<noteq> [] \<and> good_inbox es"
  "\<not> good_inbox (RFail e # es)"
  by (auto simp: good_inbox_def)

lemma take_chunk_good:
  assumes "good_inbox es" "es \<noteq> []" "0 < n"
  obtains b r where "take_chunk n es = (Ok b, r)" "b \<noteq> []" "good_inbox r"
    "inbox_bytes es = b @ inbox_bytes r"
proof -
  from assms(1,2) obtain b es' where es: "es = RData b # es'" "b \<noteq> []" "good_inbox es'"
    by (cases es; cases "hd es") auto
  show ?thesis
  proof (cases "length b > n")
    case True
    then show ?thesis
      using that [of "take n b" "RData (drop n b) # es'"] es assms(3) by auto
  next
    case False
    then show ?thesis using that [of b es'] es by simp
  qed
qed

text \<open>\<open>io.ReadFull\<close> and \<open>io.ReadAll\<close> on a connection.\<close>

function readFull_loop :: "nat \<Rightarrow> bytes \<Rightarrow> read_ev list \<Rightarrow> bytes go \<times> read_ev list" where
  "readFull_loop n acc es =
     (if length acc \<ge> n then (Ok acc, es)
      else case take_chunk (n - length acc) es of
        (Ok b, r) \<Rightarrow> readFull_loop n (acc @ b) r
      | (Err e, r) \<Rightarrow> (Err (if e = io_EOF \<and> acc \<noteq> [] then io_UnexpectedEOF else e), r)
      | (Panic, r) \<Rightarrow> (Panic, r))"
  by pat_completeness auto
termination
  by (relation "measure (\<lambda>(n, acc, es). inbox_size es)") (auto dest!: take_chunk_less)

declare readFull_loop.simps [simp del]

definition io_ReadFull :: "nat \<Rightarrow> (conn, bytes) act" where
  "io_ReadFull n c = (let (g, r) = readFull_loop n [] (inbox c) in (g, c\<lparr>inbox := r\<rparr>))"

fun readAll :: "bytes \<Rightarrow> read_ev list \<Rightarrow> bytes go" where
  "readAll acc [] = Ok acc"
| "readAll acc (RData b # r) = readAll (acc @ b) r"
| "readAll acc (RFail e # r) = (if e = io_EOF then Ok acc else Err e)"

definition io_ReadAll :: "(conn, bytes) act" where
  "io_ReadAll c = (readAll [] (inbox c), c\<lparr>inbox := []\<rparr>)"

lemma readAll_good: "good_inbox es \<Longrightarrow> readAll acc es = Ok (acc @ inbox_bytes es)"
  by (induction acc es rule: readAll.induct) auto

lemma readFull_loop_good:
  assumes "good_inbox es" "n \<le> length (acc @ inbox_bytes es)" "length acc \<le> n"
  shows "\<exists>r. readFull_loop n acc es = (Ok (take n (acc @ inbox_bytes es)), r) \<and> good_inbox r
    \<and> inbox_bytes r = drop n (acc @ inbox_bytes es)"
  using assms
proof (induction n acc es rule: readFull_loop.induct)
  case (1 n acc es)
  show ?case
  proof (cases "length acc \<ge> n")
    case True
    with "1.prems" show ?thesis by (subst readFull_loop.simps) auto
  next
    case False
    with "1.prems" have "es \<noteq> []" "0 < n - length acc" by auto
    then obtain b r where b: "take_chunk (n - length acc) es = (Ok b, r)" "b \<noteq> []" "good_inbox r"
      "inbox_bytes es = b @ inbox_bytes r"
      using take_chunk_good [OF "1.prems"(1)] by metis
    have "length b \<le> n - length acc"
      using b(1) by (cases es; cases "hd es") auto
    with False have "length (acc @ b) \<le> n" by simp
    moreover have "n \<le> length ((acc @ b) @ inbox_bytes r)" using "1.prems"(2) b(4) by simp
    ultimately have "\<exists>r'. readFull_loop n (acc @ b) r = (Ok (take n ((acc @ b) @ inbox_bytes r)), r')
        \<and> good_inbox r' \<and> inbox_bytes r' = drop n ((acc @ b) @ inbox_bytes r)"
      using "1.IH" [OF False b(1) [symmetric] refl] b(3) by auto
    with False b show ?thesis by (subst readFull_loop.simps) simp
  qed
qed

lemma io_ReadFull_good:
  assumes "good_inbox (inbox c)" "n \<le> length (inbox_bytes (inbox c))"
  obtains r where "io_ReadFull n c = (Ok (take n (inbox_bytes (inbox c))), c\<lparr>inbox := r\<rparr>)"
    "good_inbox r" "inbox_bytes r = drop n (inbox_bytes (inbox c))"
  using readFull_loop_good [of "inbox c" n "[]"] assms by (auto simp: io_ReadFull_def)

end
