(* ===== verification/Go_Strings.thy ===== *)
theory Go_Strings
  imports Go_Prelude
begin

unbundle bit_operations_syntax

text \<open>
  The functions of packages \<open>strings\<close>, \<open>strconv\<close>, \<open>encoding/hex\<close>,
  \<open>encoding/base64\<close> and \<open>unicode/utf8\<close> that the program uses. A Go string is its
  sequence of bytes, one \<open>char\<close> each.
\<close>

section \<open>Package strings\<close>

text \<open>The UTF-8 encodings of the runes for which \<open>unicode.IsSpace\<close> holds.\<close>

definition space_encodings :: "string list" where
  "space_encodings =
     map (\<lambda>n. [char_of (n :: nat)]) [9, 10, 11, 12, 13, 32]
     @ map (map char_of)
        ([[0xC2, 0x85], [0xC2, 0xA0], [0xE1, 0x9A, 0x80],
          [0xE2, 0x80, 0xA8], [0xE2, 0x80, 0xA9], [0xE2, 0x80, 0xAF],
          [0xE2, 0x81, 0x9F], [0xE3, 0x80, 0x80]]
         @ map (\<lambda>n. [0xE2, 0x80, n]) [0x80 ..< 0x8B :: nat])"

definition strip_one :: "string list \<Rightarrow> string \<Rightarrow> string option" where
  "strip_one sp s =
     map_option (\<lambda>p. drop (length p) s) (find (\<lambda>p. p \<noteq> [] \<and> prefix p s) sp)"

lemma strip_one_shorter: "strip_one sp s = Some s' \<Longrightarrow> length s' < length s"
  by (auto simp: strip_one_def find_Some_iff prefix_def)

function trim_left :: "string list \<Rightarrow> string \<Rightarrow> string" where
  "trim_left sp s = (case strip_one sp s of None \<Rightarrow> s | Some s' \<Rightarrow> trim_left sp s')"
  by pat_completeness auto
termination
  by (relation "measure (length \<circ> snd)") (auto dest: strip_one_shorter)

declare trim_left.simps [simp del]

definition trim_right :: "string list \<Rightarrow> string \<Rightarrow> string" where
  "trim_right sp s = rev (trim_left (map rev sp) (rev s))"

definition trimSpace :: "string \<Rightarrow> string" where
  "trimSpace s = trim_right space_encodings (trim_left space_encodings s)"

lemma strip_one_trim_left: "strip_one sp (trim_left sp s) = None"
  by (induction sp s rule: trim_left.induct)
     (subst trim_left.simps, simp split: option.split)

lemma trim_left_suffix: "\<exists>p. s = p @ trim_left sp s"
proof (induction sp s rule: trim_left.induct)
  case (1 sp s)
  show ?case
  proof (cases "strip_one sp s")
    case None
    then show ?thesis by (subst trim_left.simps) simp
  next
    case (Some s')
    from Some obtain q where "s = q @ s'"
      by (auto simp: strip_one_def find_Some_iff prefix_def)
    moreover from "1.IH" [OF Some] obtain p where "s' = p @ trim_left sp s'" ..
    ultimately have "s = (q @ p) @ trim_left sp s'" by simp
    moreover from Some have "trim_left sp s = trim_left sp s'" by (subst trim_left.simps) simp
    ultimately show ?thesis by metis
  qed
qed

lemma trim_left_id: "strip_one sp s = None \<Longrightarrow> trim_left sp s = s"
  by (subst trim_left.simps) simp

lemma strip_one_prefix_None:
  "strip_one sp (s @ t) = None \<Longrightarrow> strip_one sp s = None"
  by (auto simp: strip_one_def find_None_iff prefix_def)

lemma trim_right_prefix: "\<exists>p. s = trim_right sp s @ p"
proof -
  obtain p where "rev s = p @ trim_left (map rev sp) (rev s)"
    using trim_left_suffix by blast
  then have "s = trim_right sp s @ rev p"
    by (metis rev_append rev_rev_ident trim_right_def)
  then show ?thesis ..
qed

lemma trimSpace_left_clean: "strip_one space_encodings (trimSpace s) = None"
proof -
  let ?t = "trim_left space_encodings s"
  obtain p where "?t = trimSpace s @ p"
    using trim_right_prefix [of ?t space_encodings] unfolding trimSpace_def by blast
  then show ?thesis
    using strip_one_trim_left [of space_encodings s] strip_one_prefix_None by metis
qed

lemma trimSpace_idem [simp]: "trimSpace (trimSpace s) = trimSpace s"
proof -
  let ?sp = space_encodings
  have l: "trim_left ?sp (trimSpace s) = trimSpace s"
    by (rule trim_left_id) (rule trimSpace_left_clean)
  have "trim_right ?sp (trimSpace s) = trimSpace s"
    by (simp add: trimSpace_def trim_right_def trim_left_id strip_one_trim_left)
  with l show ?thesis by (subst trimSpace_def) simp
qed

text \<open>A text whose first and last characters are visible ASCII is not trimmed.\<close>

lemma strip_one_nil: "strip_one sp [] = None"
  by (auto simp: strip_one_def find_None_iff)

lemma space_codes:
  "e \<in> set space_encodings \<Longrightarrow> ((32 :: nat) \<in> set (map of_char e) \<longrightarrow> map of_char e = [32 :: nat])
    \<and> (\<forall>c r. e = c # r \<longrightarrow> (of_char c :: nat) \<le> 32 \<or> 128 \<le> (of_char c :: nat))"
  by (auto simp: space_encodings_def)

lemma space_end: "e \<in> set space_encodings \<Longrightarrow> e \<noteq> [] \<Longrightarrow> (of_char (last e) :: nat) \<le> 32 \<or> 128 \<le> (of_char (last e) :: nat)"
  by (auto simp: space_encodings_def)

lemma trimSpace_solid:
  assumes "32 < (of_char (hd s) :: nat)" "of_char (hd s) < (128 :: nat)"
    and "32 < (of_char (last s) :: nat)" "of_char (last s) < (128 :: nat)"
  shows "trimSpace s = s"
proof -
  have "\<not> prefix e s" if e: "e \<in> set space_encodings" "e \<noteq> []" for e
  proof
    assume "prefix e s"
    with e(2) obtain c r where c: "e = c # r" "hd s = c" by (cases e) (auto simp: prefix_def)
    then have "(of_char c :: nat) \<le> 32 \<or> 128 \<le> (of_char c :: nat)" using space_codes [OF e(1)] by blast
    with assms(1,2) [unfolded c(2)] show False by linarith
  qed
  then have l: "strip_one space_encodings s = None" by (auto simp: strip_one_def find_None_iff)
  have "\<not> prefix (rev e) (rev s)" if e: "e \<in> set space_encodings" "e \<noteq> []" for e
  proof
    assume "prefix (rev e) (rev s)"
    then have "suffix e s" by (simp add: suffix_to_prefix)
    with e(2) have "last s = last e" by (auto simp: suffix_def)
    with space_end [OF e] assms(3,4) show False by (simp only: not_less [symmetric] simp_thms)
  qed
  then have "strip_one (map rev space_encodings) (rev s) = None" by (auto simp: strip_one_def find_None_iff)
  with l show ?thesis by (simp add: trimSpace_def trim_right_def trim_left_id)
qed

lemma trimSpace_nil [simp]: "trimSpace [] = []"
  by (simp add: trimSpace_def trim_right_def trim_left_id strip_one_nil)

definition contains :: "string \<Rightarrow> string \<Rightarrow> bool" where
  "contains s sub = list_ex (prefix sub) (suffixes s)"

fun str_index :: "'a list \<Rightarrow> 'a list \<Rightarrow> nat option" where
  "str_index [] sub = (if sub = [] then Some 0 else None)"
| "str_index (c # s) sub =
     (if prefix sub (c # s) then Some 0 else map_option Suc (str_index s sub))"

fun split_on :: "char \<Rightarrow> string \<Rightarrow> string list" where
  "split_on c [] = [[]]"
| "split_on c (x # xs) =
     (if x = c then [] # split_on c xs
      else case split_on c xs of [] \<Rightarrow> [[x]] | y # ys \<Rightarrow> (x # y) # ys)"

definition trimPrefix :: "string \<Rightarrow> string \<Rightarrow> string" where
  "trimPrefix p s = (if prefix p s then drop (length p) s else s)"

definition trimSuffix :: "string \<Rightarrow> string \<Rightarrow> string" where
  "trimSuffix p s = (if suffix p s then take (length s - length p) s else s)"

text \<open>
  \<open>strings.Fields\<close>: the maximal runs of bytes between white space.
\<close>

function fields_loop :: "string \<Rightarrow> string \<Rightarrow> string list" where
  "fields_loop cur s =
     (case strip_one space_encodings s of
        Some s' \<Rightarrow> (if cur = [] then fields_loop [] s' else cur # fields_loop [] s')
      | None \<Rightarrow>
          (case s of
             [] \<Rightarrow> if cur = [] then [] else [cur]
           | c # s' \<Rightarrow> fields_loop (cur @ [c]) s'))"
  by pat_completeness auto
termination
  by (relation "measure (length \<circ> snd)") (auto dest: strip_one_shorter)

declare fields_loop.simps [simp del]

definition str_fields :: "string \<Rightarrow> string list" where
  "str_fields s = fields_loop [] s"

text \<open>
  Lower case, as far as ASCII letters come of it: the Kelvin sign gives a k, a capital I with a
  dot gives an i in \<open>strings.ToLower\<close>, a long s is an s for \<open>strings.EqualFold\<close>. The bytes
  of other runes are kept, so the model is exact when the result is compared with, or
  searched for, text of ASCII or of letters without case.
\<close>

definition lower_char :: "char \<Rightarrow> char" where
  "lower_char c =
     (let n = (of_char c :: nat) in if 65 \<le> n \<and> n \<le> 90 then char_of (n + 32) else c)"

fun map_runes :: "(string \<times> char) list \<Rightarrow> string \<Rightarrow> string" where
  "map_runes sp [] = []"
| "map_runes sp (c # s) =
     (case find (\<lambda>(e, r). prefix e (c # s)) sp of
        Some (e, r) \<Rightarrow> r # map_runes sp (drop (length e - 1) s)
      | None \<Rightarrow> lower_char c # map_runes sp s)"

definition kelvin_sign :: "string \<times> char" where "kelvin_sign = (map char_of [0xE2 :: nat, 0x84, 0xAA], CHR ''k'')"
definition dotted_I :: "string \<times> char" where "dotted_I = (map char_of [0xC4 :: nat, 0xB0], CHR ''i'')"
definition long_s :: "string \<times> char" where "long_s = (map char_of [0xC5 :: nat, 0xBF], CHR ''s'')"

definition toLower :: "string \<Rightarrow> string" where
  "toLower s = map_runes [kelvin_sign, dotted_I] s"

definition equalFold :: "string \<Rightarrow> string \<Rightarrow> bool" where
  "equalFold s t = (map_runes [kelvin_sign, long_s] s = map_runes [kelvin_sign, long_s] t)"

lemma char_of_high: "(of_char c :: nat) < 128 \<Longrightarrow> 128 \<le> n \<Longrightarrow> n < (256 :: nat) \<Longrightarrow> char_of n \<noteq> c"
  by (auto simp: of_char_of)

lemma map_runes_ascii:
  "(of_char c :: nat) < 128 \<Longrightarrow> map_runes [kelvin_sign, dotted_I] (c # s) = lower_char c # map_runes [kelvin_sign, dotted_I] s"
  "(of_char c :: nat) < 128 \<Longrightarrow> map_runes [kelvin_sign, long_s] (c # s) = lower_char c # map_runes [kelvin_sign, long_s] s"
  by (simp_all add: kelvin_sign_def dotted_I_def long_s_def char_of_high)

lemma toLower_ascii: "list_all (\<lambda>c. (of_char c :: nat) < 128) s \<Longrightarrow> toLower s = map lower_char s"
  by (induction s) (simp_all add: toLower_def map_runes_ascii del: map_runes.simps(2))

section \<open>Package strconv\<close>

definition digit_val :: "char \<Rightarrow> nat option" where
  "digit_val c = (let n = (of_char c :: nat) in if 48 \<le> n \<and> n \<le> 57 then Some (n - 48) else None)"

definition isDigitChar :: "char \<Rightarrow> bool" where
  "isDigitChar c = (digit_val c \<noteq> None)"

definition digits_value :: "string \<Rightarrow> nat" where
  "digits_value s = foldl (\<lambda>a c. 10 * a + (case digit_val c of Some d \<Rightarrow> d | None \<Rightarrow> 0)) 0 s"

definition max_int64 :: int where "max_int64 = 2 ^ 63 - 1"
definition min_int64 :: int where "min_int64 = - (2 ^ 63)"

text \<open>
  \<open>strconv.ParseInt(s, 10, 64)\<close> (and \<open>Atoi\<close>): the value and whether an error comes
  with it. Out of range, the value is the nearest bound; on a syntax error it is 0.
\<close>

definition parseInt :: "string \<Rightarrow> int \<times> bool" where
  "parseInt s =
     (let (neg, ds) = (case s of
          [] \<Rightarrow> (False, [])
        | c # cs \<Rightarrow> if c = CHR ''-'' then (True, cs)
                    else if c = CHR ''+'' then (False, cs) else (False, s)) in
      if ds = [] \<or> \<not> list_all isDigitChar ds then (0, True)
      else
        let v = (if neg then - int (digits_value ds) else int (digits_value ds)) in
        if v > max_int64 then (max_int64, True)
        else if v < min_int64 then (min_int64, True)
        else (v, False))"

definition atoi :: "string \<Rightarrow> int option" where
  "atoi s = (case parseInt s of (v, err) \<Rightarrow> if err then None else Some v)"

fun nat_digits :: "nat \<Rightarrow> string" where
  "nat_digits n =
     (if n < 10 then [char_of (48 + n)] else nat_digits (n div 10) @ [char_of (48 + n mod 10)])"

declare nat_digits.simps [simp del]

definition itoa :: "int \<Rightarrow> string" where
  "itoa v = (if v < 0 then CHR ''-'' # nat_digits (nat (- v)) else nat_digits (nat v))"

lemma digit_val_char_of: "d < 10 \<Longrightarrow> digit_val (char_of (48 + d)) = Some d"
  by (simp add: digit_val_def Let_def)

lemma isDigitChar_digit: "(d :: nat) < 10 \<Longrightarrow> isDigitChar (char_of (48 + d))"
  by (simp add: isDigitChar_def digit_val_char_of)

lemma nat_digits_digits: "list_all isDigitChar (nat_digits n)"
proof (induction n rule: nat_digits.induct)
  case (1 n)
  then show ?case
    by (subst nat_digits.simps) (cases "n < 10", simp_all add: isDigitChar_digit)
qed

lemma nat_digits_nonempty [simp]: "nat_digits n \<noteq> []"
  by (subst nat_digits.simps) simp

lemma digits_value_nat_digits: "digits_value (nat_digits n) = n"
proof (induction n rule: nat_digits.induct)
  case (1 n)
  then show ?case
    by (subst nat_digits.simps) (auto simp: digits_value_def digit_val_char_of)
qed

lemma nat_digits_hd: "hd (nat_digits n) \<noteq> CHR ''-''" "hd (nat_digits n) \<noteq> CHR ''+''"
proof -
  have "isDigitChar (hd (nat_digits n))"
    using nat_digits_digits [of n] by (cases "nat_digits n") (auto dest: arg_cong [of _ _ set])
  then show "hd (nat_digits n) \<noteq> CHR ''-''" "hd (nat_digits n) \<noteq> CHR ''+''"
    by (auto simp: isDigitChar_def digit_val_def Let_def)
qed

lemma parseInt_itoa:
  assumes "min_int64 \<le> v" "v \<le> max_int64"
  shows "parseInt (itoa v) = (v, False)"
proof (cases "v < 0")
  case True
  then show ?thesis
    using assms by (simp add: parseInt_def itoa_def nat_digits_digits digits_value_nat_digits)
next
  case False
  then obtain c cs where c: "nat_digits (nat v) = c # cs" by (cases "nat_digits (nat v)") auto
  with nat_digits_hd [of "nat v"] have "c \<noteq> CHR ''-''" "c \<noteq> CHR ''+''" by simp_all
  with False assms c nat_digits_digits [of "nat v"] digits_value_nat_digits [of "nat v"]
  show ?thesis by (simp add: parseInt_def itoa_def)
qed

section \<open>Packages encoding/hex and encoding/base64\<close>

definition hex_char :: "nat \<Rightarrow> char" where
  "hex_char n = (if n < 10 then char_of (48 + n) else char_of (87 + n))"

definition hex_val :: "char \<Rightarrow> nat option" where
  "hex_val c =
     (let n = (of_char c :: nat) in
      if 48 \<le> n \<and> n \<le> 57 then Some (n - 48)
      else if 97 \<le> n \<and> n \<le> 102 then Some (n - 87)
      else if 65 \<le> n \<and> n \<le> 70 then Some (n - 55) else None)"

definition hexEncode :: "bytes \<Rightarrow> string" where
  "hexEncode b = concat (map (\<lambda>x. [hex_char (unat x div 16), hex_char (unat x mod 16)]) b)"

text \<open>\<open>hex.DecodeString\<close>: the bytes before the first error, and whether there is one.\<close>

fun hexDecode :: "string \<Rightarrow> bytes \<times> bool" where
  "hexDecode [] = ([], False)"
| "hexDecode [c] = ([], True)"
| "hexDecode (c # d # s) =
     (case (hex_val c, hex_val d) of
        (Some x, Some y) \<Rightarrow>
          (case hexDecode s of (b, e) \<Rightarrow> (word_of_nat (16 * x + y) # b, e))
      | _ \<Rightarrow> ([], True))"

lemma hex_val_hex_char: "n < 16 \<Longrightarrow> hex_val (hex_char n) = Some n"
  by (simp add: hex_val_def hex_char_def Let_def)

lemma hexDecode_hexEncode [simp]: "hexDecode (hexEncode b) = (b, False)"
proof (induction b)
  case Nil
  then show ?case by (simp add: hexEncode_def)
next
  case (Cons x b)
  have "unat x div 16 < 16" "unat x mod 16 < 16"
    using unat_byte_less [of x] by simp_all
  then have "hexDecode (hexEncode (x # b)) = (word_of_nat (16 * (unat x div 16) + unat x mod 16) # b, False)"
    using Cons by (simp add: hexEncode_def hex_val_hex_char)
  then show ?case by simp
qed

definition b64_val :: "char \<Rightarrow> nat option" where
  "b64_val c =
     (let n = (of_char c :: nat) in
      if 65 \<le> n \<and> n \<le> 90 then Some (n - 65)
      else if 97 \<le> n \<and> n \<le> 122 then Some (n - 71)
      else if 48 \<le> n \<and> n \<le> 57 then Some (n + 4)
      else if c = CHR ''+'' then Some 62 else if c = CHR ''/'' then Some 63 else None)"

definition b64_bytes :: "nat \<Rightarrow> nat \<Rightarrow> nat \<Rightarrow> nat \<Rightarrow> bytes" where
  "b64_bytes a b c d =
     (let v = ((a * 64 + b) * 64 + c) * 64 + d in
      [word_of_nat (v div 65536), word_of_nat (v div 256 mod 256), word_of_nat (v mod 256)])"

fun b64_quads :: "string \<Rightarrow> bytes option" where
  "b64_quads [] = Some []"
| "b64_quads [a, b, c, d] =
     (case (b64_val a, b64_val b, b64_val c, b64_val d) of
        (Some x, Some y, Some z, Some w) \<Rightarrow> Some (b64_bytes x y z w)
      | (Some x, Some y, Some z, None) \<Rightarrow>
          if d = CHR ''='' then Some (take 2 (b64_bytes x y z 0)) else None
      | (Some x, Some y, None, None) \<Rightarrow>
          if c = CHR ''='' \<and> d = CHR ''='' then Some (take 1 (b64_bytes x y 0 0)) else None
      | _ \<Rightarrow> None)"
| "b64_quads (a # b # c # d # s) =
     (case (b64_val a, b64_val b, b64_val c, b64_val d) of
        (Some x, Some y, Some z, Some w) \<Rightarrow> map_option ((@) (b64_bytes x y z w)) (b64_quads s)
      | _ \<Rightarrow> None)"
| "b64_quads _ = None"

text \<open>\<open>base64.StdEncoding.DecodeString\<close> skips carriage returns and line feeds.\<close>

definition b64Decode :: "string \<Rightarrow> bytes option" where
  "b64Decode s = b64_quads (filter (\<lambda>c. of_char c \<noteq> (10 :: nat) \<and> of_char c \<noteq> (13 :: nat)) s)"

section \<open>Package unicode/utf8\<close>

definition cont_byte :: "byte \<Rightarrow> bool" where
  "cont_byte b = (0x80 \<le> b \<and> b \<le> 0xBF)"

fun utf8_valid :: "bytes \<Rightarrow> bool" where
  "utf8_valid [] = True"
| "utf8_valid (a # s) =
     (if a < 0x80 then utf8_valid s
      else case s of
        [] \<Rightarrow> False
      | b # s1 \<Rightarrow>
        if 0xC2 \<le> a \<and> a \<le> 0xDF then cont_byte b \<and> utf8_valid s1
        else case s1 of
          [] \<Rightarrow> False
        | c # s2 \<Rightarrow>
          if 0xE0 \<le> a \<and> a \<le> 0xEF
          then cont_byte b \<and> cont_byte c \<and> (a = 0xE0 \<longrightarrow> 0xA0 \<le> b) \<and> (a = 0xED \<longrightarrow> b \<le> 0x9F)
               \<and> utf8_valid s2
          else case s2 of
            [] \<Rightarrow> False
          | d # s3 \<Rightarrow>
            0xF0 \<le> a \<and> a \<le> 0xF4 \<and> cont_byte b \<and> cont_byte c \<and> cont_byte d
            \<and> (a = 0xF0 \<longrightarrow> 0x90 \<le> b) \<and> (a = 0xF4 \<longrightarrow> b \<le> 0x8F) \<and> utf8_valid s3)"

end
