(* ===== verification/Mmtls_Client.thy ===== *)
theory Mmtls_Client
  imports Mmtls_Crypto Go_Net Go_Strings
begin

text \<open>
  Model of \<open>internal/protocol/mmtls_client.go\<close>: the client of the MMTLS handshake. The
  fields of the struct carry the prefix \<open>m_\<close>. Values that the code draws (scalars,
  random bytes, the clock) are arguments; the byte slices that the code compares with nil
  are options.
\<close>

record pskEntry =
  e_PSKType :: int
  e_PreSharedKey :: string
  e_TicketEntry :: string
  e_Lifetime :: int
  e_ExpiredAt :: int

record mmtlsClient =
  m_conn :: conn
  m_g1Priv :: nat
  m_g1Pub :: bytes
  m_g2Pub :: bytes
  m_clientHello :: bytes
  m_serverPub :: bytes
  m_secret :: "bytes option"
  m_master :: bytes
  m_transcript :: bytes
  m_hCertV :: "bytes option"
  m_hFinal :: "bytes option"
  m_nstEntries :: "pskTicket list"
  m_hsCKey :: bytes
  m_hsCIV :: bytes
  m_hsSKey :: bytes
  m_hsSIV :: bytes
  m_appCKey :: bytes
  m_appCIV :: bytes
  m_appSKey :: bytes
  m_appSIV :: bytes
  m_txSeq :: u64
  m_rxSeq :: u64
  m_appSeq :: u32
  m_rxbuf :: bytes
  m_recq :: "mmrecord list"

definition newMmtlsClient :: "conn \<Rightarrow> mmtlsClient" where
  "newMmtlsClient c =
     \<lparr>m_conn = c, m_g1Priv = 0, m_g1Pub = [], m_g2Pub = [], m_clientHello = [], m_serverPub = [],
      m_secret = None, m_master = [], m_transcript = [], m_hCertV = None, m_hFinal = None,
      m_nstEntries = [], m_hsCKey = [], m_hsCIV = [], m_hsSKey = [], m_hsSIV = [],
      m_appCKey = [], m_appCIV = [], m_appSKey = [], m_appSIV = [], m_txSeq = 0, m_rxSeq = 0,
      m_appSeq = 0, m_rxbuf = [], m_recq = []\<rparr>"

text \<open>A nil slice reads as the empty one.\<close>

definition nil_bytes :: "bytes option \<Rightarrow> bytes" where
  "nil_bytes x = (case x of Some b \<Rightarrow> b | None \<Rightarrow> [])"

lemma nil_bytes_Some [simp]: "nil_bytes (Some b) = b"
  by (simp add: nil_bytes_def)

definition mc_close :: "mmtlsClient \<Rightarrow> mmtlsClient" where
  "mc_close m = m\<lparr>m_conn := conn_Close (m_conn m)\<rparr>"

definition feed :: "bytes \<Rightarrow> mmtlsClient \<Rightarrow> mmtlsClient" where
  "feed payload m = m\<lparr>m_transcript := m_transcript m @ payload\<rparr>"

definition transcriptHash :: "mmtlsClient \<Rightarrow> bytes" where
  "transcriptHash m = sha256 (m_transcript m)"

section \<open>Records on the connection\<close>

function nextRecord :: "mmtlsClient \<Rightarrow> mmrecord go \<times> mmtlsClient" where
  "nextRecord m =
     (case m_recq m of
        r # q \<Rightarrow> (Ok r, m\<lparr>m_recq := q\<rparr>)
      | [] \<Rightarrow>
          (case parseRecords (m_rxbuf m) of
             (r # q, consumed) \<Rightarrow> (Ok r, m\<lparr>m_recq := q, m_rxbuf := drop consumed (m_rxbuf m)\<rparr>)
           | ([], consumed) \<Rightarrow>
               (case take_chunk 65536 (inbox (m_conn m)) of
                  (Ok b, rest) \<Rightarrow>
                    (let m = m\<lparr>m_conn := (m_conn m)\<lparr>inbox := rest\<rparr>\<rparr> in
                     if b = [] then (Err io_EOF, m)
                     else nextRecord (m\<lparr>m_rxbuf := m_rxbuf m @ b\<rparr>))
                | (Err e, rest) \<Rightarrow> (Err e, m\<lparr>m_conn := (m_conn m)\<lparr>inbox := rest\<rparr>\<rparr>)
                | (Panic, rest) \<Rightarrow> (Panic, m))))"
  by pat_completeness auto
termination
  by (relation "measure (\<lambda>m. inbox_size (inbox (m_conn m)))") (auto dest!: take_chunk_less)

declare nextRecord.simps [simp del]

definition sendRaw :: "bytes \<Rightarrow> (mmtlsClient, unit) act" where
  "sendRaw data m =
     (let (g, c) = conn_Write data (m_conn m) in (g, m\<lparr>m_conn := c\<rparr>))"

definition sendPlain :: "byte \<Rightarrow> bytes \<Rightarrow> (mmtlsClient, unit) act" where
  "sendPlain contentType payload =
     act_bind (act_lift (buildRecord contentType payload)) (\<lambda>rec.
     act_bind (sendRaw rec) (\<lambda>_.
     act_mod (\<lambda>m. m\<lparr>m_txSeq := m_txSeq m + 1\<rparr>)))"

definition sendEncrypted :: "byte \<Rightarrow> bytes \<Rightarrow> bytes \<Rightarrow> bytes \<Rightarrow> (mmtlsClient, unit) act" where
  "sendEncrypted contentType plaintext key iv =
     act_bind (act_get m_txSeq) (\<lambda>seq.
     act_bind (act_lift (encryptRecordPayload key iv seq contentType plaintext)) (\<lambda>ct.
     act_bind (act_lift (buildRecord contentType ct)) (\<lambda>rec.
     act_bind (sendRaw rec) (\<lambda>_.
     act_mod (\<lambda>m. m\<lparr>m_txSeq := m_txSeq m + 1\<rparr>)))))"

definition recvPlain :: "(mmtlsClient, byte \<times> bytes) act" where
  "recvPlain =
     act_bind nextRecord (\<lambda>r.
     act_bind (act_mod (\<lambda>m. m\<lparr>m_rxSeq := m_rxSeq m + 1\<rparr>)) (\<lambda>_.
     act_ret (ContentType r, Payload r)))"

definition recvDecrypt :: "bytes \<Rightarrow> bytes \<Rightarrow> (mmtlsClient, byte \<times> bytes) act" where
  "recvDecrypt key iv =
     act_bind nextRecord (\<lambda>r.
     act_bind (act_get m_rxSeq) (\<lambda>seq.
     act_bind (act_lift (decryptRecordPayload key iv seq (ContentType r) (Payload r))) (\<lambda>pt.
     act_bind (act_mod (\<lambda>m. m\<lparr>m_rxSeq := m_rxSeq m + 1\<rparr>)) (\<lambda>_.
     act_ret (ContentType r, pt)))))"

text \<open>
  Every record that is handed out uses up input: the measure behind the loop that
  receives the server's flight.
\<close>

definition input_left :: "mmtlsClient \<Rightarrow> nat" where
  "input_left m = inbox_size (inbox (m_conn m)) + length (m_rxbuf m) + length (m_recq m)"

lemma length_concat_records: "5 * length rs \<le> length (concat (map record_bytes rs))"
  by (induction rs) simp_all

lemma parseRecords_progress:
  assumes "parseRecords d = (rs, c)"
  shows "5 * length rs \<le> c" and "c \<le> length d"
proof -
  from parseRecords_facts [OF assms] have "c \<le> length d" "take c d = concat (map record_bytes rs)"
    by auto
  then show "5 * length rs \<le> c" "c \<le> length d"
    using length_concat_records [of rs] by (metis length_take min.absorb2, simp)
qed

lemma nextRecord_less: "nextRecord m = (Ok r, m') \<Longrightarrow> input_left m' < input_left m"
proof (induction m arbitrary: r m' rule: nextRecord.induct)
  case (1 m)
  show ?case
  proof (cases "m_recq m")
    case Cons
    with "1.prems" show ?thesis by (subst (asm) nextRecord.simps) (auto simp: input_left_def)
  next
    case Nil
    obtain rs c where p: "parseRecords (m_rxbuf m) = (rs, c)" by fastforce
    show ?thesis
    proof (cases rs)
      case (Cons r0 q)
      with "1.prems" Nil p have "m' = m\<lparr>m_recq := q, m_rxbuf := drop c (m_rxbuf m)\<rparr>"
        by (subst (asm) nextRecord.simps) simp
      with parseRecords_progress [OF p] Cons Nil show ?thesis by (simp add: input_left_def)
    next
      case [simp]: Nil
      from "1.prems" \<open>m_recq m = []\<close> p obtain b rest where t:
        "take_chunk 65536 (inbox (m_conn m)) = (Ok b, rest)" "b \<noteq> []"
        "nextRecord (m\<lparr>m_conn := (m_conn m)\<lparr>inbox := rest\<rparr>, m_rxbuf := m_rxbuf m @ b\<rparr>) = (Ok r, m')"
        by (subst (asm) nextRecord.simps) (auto simp: Let_def split: prod.splits go.splits if_splits)
      have "input_left m' < input_left (m\<lparr>m_conn := (m_conn m)\<lparr>inbox := rest\<rparr>, m_rxbuf := m_rxbuf m @ b\<rparr>)"
        using "1.IH" [OF \<open>m_recq m = []\<close> p [symmetric] _ t(1) [symmetric] _ refl] t by simp
      with take_chunk_size [OF t(1,2)] show ?thesis by (simp add: input_left_def)
    qed
  qed
qed

section \<open>The handshake\<close>

text \<open>The two scalars, the random bytes and the clock that \<open>buildClientHello\<close> draws.\<close>

record hello_rand =
  h_g1 :: nat
  h_g2 :: nat
  h_random :: bytes
  h_time :: u32

definition m_buildClientHello :: "hello_rand \<Rightarrow> (mmtlsClient, bytes) act" where
  "m_buildClientHello rnd =
     act_bind (act_lift (generateECDH (h_g1 rnd))) (\<lambda>(priv, g1).
     act_bind (act_lift (generateECDH (h_g2 rnd))) (\<lambda>(_, g2).
     act_bind (act_lift (buildClientHello (h_random rnd) (h_time rnd) g1 g2)) (\<lambda>ch.
     act_bind (act_mod (\<lambda>m. m\<lparr>m_g1Priv := priv, m_g1Pub := g1, m_g2Pub := g2,
                              m_clientHello := ch\<rparr>)) (\<lambda>_.
     act_ret ch))))"

definition sendClientHello :: "hello_rand \<Rightarrow> (mmtlsClient, unit) act" where
  "sendClientHello rnd =
     act_bind (m_buildClientHello rnd) (\<lambda>ch.
     act_bind (act_mod (feed ch)) (\<lambda>_.
     sendPlain ctHandshake ch))"

text \<open>The first message of \<open>recvServerFlight\<close>, up to the handshake keys.\<close>

definition recvServerHello :: "(mmtlsClient, unit) act" where
  "recvServerHello =
     act_bind recvPlain (\<lambda>(_, payload).
     act_bind (act_lift (splitHandshake payload)) (\<lambda>(mt, body).
     if mt \<noteq> hsServerHello then act_lift (Err (Errorf ''expected ServerHello, got 0x%02x''))
     else
       act_bind (act_mod (feed payload)) (\<lambda>_.
       act_bind (act_lift (parseServerHello body)) (\<lambda>sh.
       if ServerGroup sh \<noteq> groupSecP256R1
       then act_lift (Err (Errorf ''server group %d is not P-256''))
       else
         act_bind (act_mod (\<lambda>m. m\<lparr>m_serverPub := ServerPubKey sh\<rparr>)) (\<lambda>_.
         act_bind (act_get m_g1Priv) (\<lambda>priv.
         act_bind (act_lift (mmtlsSecret priv (ServerPubKey sh))) (\<lambda>secret.
         act_mod (\<lambda>m.
           let m = m\<lparr>m_secret := Some secret\<rparr>;
               hChSh = transcriptHash m;
               hk = deriveHandshakeKeys secret hChSh in
           m\<lparr>m_hsCKey := ClientKey hk, m_hsCIV := ClientIV hk,
             m_hsSKey := ServerKey hk, m_hsSIV := ServerIV hk\<rparr>))))))))"

text \<open>One turn of the loop of \<open>recvServerFlight\<close>; the result tells whether it returned.\<close>

definition install_app_keys :: "mmtlsClient \<Rightarrow> mmtlsClient" where
  "install_app_keys m =
     (let h = transcriptHash m;
          ma = deriveMaster (nil_bytes (m_secret m)) h;
          ak = deriveAppKeys ma h in
      m\<lparr>m_hFinal := Some h, m_master := ma, m_appCKey := ClientKey ak, m_appCIV := ClientIV ak,
        m_appSKey := ServerKey ak, m_appSIV := ServerIV ak\<rparr>)"

definition serverFinished_want :: "mmtlsClient \<Rightarrow> bytes" where
  "serverFinished_want m = finishedVerifyData (nil_bytes (m_secret m)) False (nil_bytes (m_hFinal m))"

definition serverFlight_step :: "(mmtlsClient, bool) act" where
  "serverFlight_step =
     act_bind (act_get (\<lambda>m. (m_hsSKey m, m_hsSIV m))) (\<lambda>(key, iv).
     act_bind (recvDecrypt key iv) (\<lambda>(_, pt).
     act_bind (act_lift (splitHandshake pt)) (\<lambda>(mt, mbody).
     if mt = hsFinished then
       act_bind (act_mod install_app_keys) (\<lambda>_.
       act_bind (act_lift (parseFinished mbody)) (\<lambda>got.
       act_bind (act_get serverFinished_want) (\<lambda>want.
       if got \<noteq> want then act_lift (Err (Errorf ''ServerFinished verification failed''))
       else act_bind (act_mod (feed pt)) (\<lambda>_. act_ret True))))
     else
       act_bind (act_mod (feed pt)) (\<lambda>_.
       if mt = hsCertVerify then
         act_bind (act_mod (\<lambda>m. m\<lparr>m_hCertV := Some (transcriptHash m)\<rparr>)) (\<lambda>_. act_ret False)
       else if mt = hsNewSessionTicket then
         act_bind (act_mod (\<lambda>m. m\<lparr>m_nstEntries := parseNewSessionTicket mbody\<rparr>)) (\<lambda>_. act_ret False)
       else act_ret False))))"

lemma recvDecrypt_less:
  "recvDecrypt key iv m = (Ok x, m') \<Longrightarrow> input_left m' < input_left m"
  unfolding recvDecrypt_def
  by (auto elim!: act_bind_OkE simp: input_left_def [of "m_rxSeq_update f n" for f n] dest!: nextRecord_less)
     (simp add: input_left_def)

lemma input_left_frame [simp]:
  "input_left (feed p m) = input_left m"
  "input_left (install_app_keys m) = input_left m"
  "input_left (m\<lparr>m_hCertV := c\<rparr>) = input_left m"
  "input_left (m\<lparr>m_nstEntries := n\<rparr>) = input_left m"
  by (simp_all add: input_left_def feed_def install_app_keys_def Let_def)

lemma serverFlight_step_less:
  "serverFlight_step m = (Ok d, m') \<Longrightarrow> input_left m' < input_left m"
  unfolding serverFlight_step_def
  by (auto elim!: act_bind_OkE split: if_splits dest!: recvDecrypt_less)

function serverFlight_loop :: "mmtlsClient \<Rightarrow> unit go \<times> mmtlsClient" where
  "serverFlight_loop m =
     (case serverFlight_step m of
        (Ok done, m') \<Rightarrow> if done then (Ok (), m') else serverFlight_loop m'
      | (Err e, m') \<Rightarrow> (Err e, m')
      | (Panic, m') \<Rightarrow> (Panic, m'))"
  by pat_completeness auto
termination
  by (relation "measure input_left") (auto dest!: sym [of "(_, _)"] serverFlight_step_less)

declare serverFlight_loop.simps [simp del]

definition recvServerFlight :: "(mmtlsClient, unit) act" where
  "recvServerFlight = act_bind recvServerHello (\<lambda>_. serverFlight_loop)"

definition sendClientFinished :: "(mmtlsClient, unit) act" where
  "sendClientFinished =
     act_bind (act_get (\<lambda>m. m)) (\<lambda>m.
     if m_hFinal m = None then act_lift (Err (Errorf ''H_final is not ready''))
     else
       let vd = finishedVerifyData (nil_bytes (m_secret m)) True (nil_bytes (m_hFinal m)) in
       act_bind (act_lift (buildFinished vd)) (\<lambda>msg.
       sendEncrypted ctHandshake msg (m_hsCKey m) (m_hsCIV m)))"

definition doHandshake :: "hello_rand \<Rightarrow> (mmtlsClient, unit) act" where
  "doHandshake rnd =
     act_bind (sendClientHello rnd) (\<lambda>_.
     act_bind recvServerFlight (\<lambda>_.
     sendClientFinished))"

section \<open>Pre-shared keys and application data\<close>

definition extractPSKs :: "int \<Rightarrow> mmtlsClient \<Rightarrow> pskEntry list go" where
  "extractPSKs now m =
     (case (m_secret m, m_hCertV m) of
        (Some secret, Some hCertV) \<Rightarrow>
          Ok (map (\<lambda>e.
                \<lparr>e_PSKType = PSKType e,
                 e_PreSharedKey = hexEncode (derivePSK secret hCertV (PSKType e)),
                 e_TicketEntry = hexEncode (TicketEntry e),
                 e_Lifetime = Lifetime e,
                 e_ExpiredAt = now + Lifetime e\<rparr>) (m_nstEntries m))
      | _ \<Rightarrow> Err (Errorf ''handshake secret/h_certv not ready''))"

fun pickAccessPSK :: "int \<Rightarrow> pskEntry list \<Rightarrow> pskEntry option" where
  "pickAccessPSK now [] = None"
| "pickAccessPSK now (e # es) =
     (if e_PSKType e = 1 \<and> e_ExpiredAt e > now then Some e else pickAccessPSK now es)"

definition sendApp :: "u32 \<Rightarrow> bytes \<Rightarrow> (mmtlsClient, unit) act" where
  "sendApp cmd body =
     act_bind (act_get (\<lambda>m. buildShortlink cmd (m_appSeq m) body defaultVer)) (\<lambda>pkt.
     act_bind (act_mod (\<lambda>m. m\<lparr>m_appSeq := m_appSeq m + 1\<rparr>)) (\<lambda>_.
     act_bind (act_get (\<lambda>m. (m_appCKey m, m_appCIV m))) (\<lambda>(key, iv).
     sendEncrypted ctAppData pkt key iv)))"

definition recvApp :: "(mmtlsClient, shortlinkPacket) act" where
  "recvApp =
     act_bind (act_get (\<lambda>m. (m_appSKey m, m_appSIV m))) (\<lambda>(key, iv).
     act_bind (recvDecrypt key iv) (\<lambda>(ct, pt).
     if ct \<noteq> ctAppData then act_lift (Err (Errorf ''expected AppData, got 0x%02x''))
     else act_lift (parseShortlink pt)))"

text \<open>\<open>connectMmtls\<close> after \<open>dialTCP\<close> has returned \<open>dialed\<close>.\<close>

definition connectMmtls :: "conn go \<Rightarrow> hello_rand \<Rightarrow> mmtlsClient go \<times> conn option" where
  "connectMmtls dialed rnd =
     (case dialed of
        Ok c \<Rightarrow>
          (case doHandshake rnd (newMmtlsClient c) of
             (Ok _, mc) \<Rightarrow> (Ok mc, Some (m_conn mc))
           | (Err e, mc) \<Rightarrow> (Err e, Some (m_conn (mc_close mc)))
           | (Panic, mc) \<Rightarrow> (Panic, Some (m_conn mc)))
      | Err e \<Rightarrow> (Err e, None)
      | Panic \<Rightarrow> (Panic, None))"

section \<open>Reading does not depend on how the stream is cut\<close>

text \<open>
  The client is waiting for the records \<open>rs\<close>: some are parsed already, the rest is in the
  buffer and in the chunks to come.
\<close>

definition awaiting :: "mmtlsClient \<Rightarrow> mmrecord list \<Rightarrow> bool" where
  "awaiting m rs \<longleftrightarrow> good_inbox (inbox (m_conn m)) \<and>
     (\<exists>rs2. rs = m_recq m @ rs2 \<and> (\<forall>r \<in> set rs2. wire_record r) \<and>
        m_rxbuf m @ inbox_bytes (inbox (m_conn m)) = concat (map record_bytes rs2))"

text \<open>What receiving leaves alone.\<close>

definition rx_core :: "mmtlsClient \<Rightarrow> mmtlsClient" where
  "rx_core m = m\<lparr>m_conn := (m_conn m)\<lparr>inbox := []\<rparr>, m_rxSeq := 0, m_rxbuf := [], m_recq := []\<rparr>"

lemma rx_core_eqD:
  assumes "rx_core a = rx_core b"
  shows "m_transcript a = m_transcript b" "m_secret a = m_secret b" "m_hFinal a = m_hFinal b"
    "m_hsCKey a = m_hsCKey b" "m_hsCIV a = m_hsCIV b" "m_hsSKey a = m_hsSKey b"
    "m_hsSIV a = m_hsSIV b" "m_appCKey a = m_appCKey b" "m_appCIV a = m_appCIV b"
    "m_appSKey a = m_appSKey b" "m_appSIV a = m_appSIV b" "m_txSeq a = m_txSeq b"
    "sent (m_conn a) = sent (m_conn b)" "wok (m_conn a) = wok (m_conn b)" "m_g1Priv a = m_g1Priv b"
    "m_hCertV a = m_hCertV b" "m_nstEntries a = m_nstEntries b"
proof -
  obtain ca cb where c: "m_conn a = ca" "m_conn b = cb" by simp
  show "m_transcript a = m_transcript b" "m_secret a = m_secret b" "m_hFinal a = m_hFinal b"
    "m_hsCKey a = m_hsCKey b" "m_hsCIV a = m_hsCIV b" "m_hsSKey a = m_hsSKey b"
    "m_hsSIV a = m_hsSIV b" "m_appCKey a = m_appCKey b" "m_appCIV a = m_appCIV b"
    "m_appSKey a = m_appSKey b" "m_appSIV a = m_appSIV b" "m_txSeq a = m_txSeq b"
    "sent (m_conn a) = sent (m_conn b)" "wok (m_conn a) = wok (m_conn b)" "m_g1Priv a = m_g1Priv b"
    "m_hCertV a = m_hCertV b" "m_nstEntries a = m_nstEntries b"
    using assms c by (cases a; cases b; cases ca; cases cb; simp add: rx_core_def)+
qed

lemma parseRecords_all:
  "\<forall>r \<in> set rs. wire_record r \<Longrightarrow>
   parseRecords (concat (map record_bytes rs)) = (rs, length (concat (map record_bytes rs)))"
  using parseRecords_append [of rs "[]" "[]" 0]
  by (simp add: parseRecords_def parseRecords_loop.simps [of "[]"])

lemma parseRecords_prefix:
  assumes "d @ e = concat (map record_bytes rs)" "\<forall>r \<in> set rs. wire_record r"
    and p: "parseRecords d = (r1, c)"
  obtains r2 where "rs = r1 @ r2" "drop c d @ e = concat (map record_bytes r2)"
proof -
  obtain r2 c2 where q: "parseRecords (drop c d @ e) = (r2, c2)" by fastforce
  have f: "c \<le> length d" "take c d = concat (map record_bytes r1)" "\<forall>r \<in> set r1. wire_record r"
    using parseRecords_facts [OF p] by auto
  have de: "d @ e = concat (map record_bytes r1) @ drop c d @ e"
    by (metis append.assoc append_take_drop_id f(2))
  then have "parseRecords (d @ e) = (r1 @ r2, length (concat (map record_bytes r1)) + c2)"
    using parseRecords_append [OF f(3) q] by metis
  moreover have "parseRecords (d @ e) = (rs, length (d @ e))"
    using parseRecords_all [OF assms(2)] assms(1) by simp
  ultimately have rs: "rs = r1 @ r2" by simp
  have "concat (map record_bytes r1) @ drop c d @ e = concat (map record_bytes r1) @ concat (map record_bytes r2)"
    using assms(1) rs de by simp
  then show ?thesis using that rs by simp
qed

lemma nextRecord_awaiting:
  "awaiting m (r # rs) \<Longrightarrow>
   \<exists>m'. nextRecord m = (Ok r, m') \<and> awaiting m' rs \<and> m_rxSeq m' = m_rxSeq m \<and> rx_core m' = rx_core m"
proof (induction m rule: nextRecord.induct)
  case (1 m)
  from "1.prems" obtain rs2 where a: "good_inbox (inbox (m_conn m))" "r # rs = m_recq m @ rs2"
    "\<forall>r \<in> set rs2. wire_record r"
    "m_rxbuf m @ inbox_bytes (inbox (m_conn m)) = concat (map record_bytes rs2)"
    by (auto simp: awaiting_def)
  show ?case
  proof (cases "m_recq m")
    case (Cons r0 q)
    with a have "nextRecord m = (Ok r, m\<lparr>m_recq := q\<rparr>)" "rs = q @ rs2"
      by (simp_all add: nextRecord.simps [of m])
    with a show ?thesis by (auto simp: awaiting_def rx_core_def)
  next
    case q: Nil
    obtain r1 c where p: "parseRecords (m_rxbuf m) = (r1, c)" by fastforce
    obtain r2 where r2: "rs2 = r1 @ r2"
      "drop c (m_rxbuf m) @ inbox_bytes (inbox (m_conn m)) = concat (map record_bytes r2)"
      using parseRecords_prefix [OF a(4,3) p] .
    show ?thesis
    proof (cases r1)
      case (Cons r0 q')
      with a q p r2 have "nextRecord m = (Ok r, m\<lparr>m_recq := q', m_rxbuf := drop c (m_rxbuf m)\<rparr>)"
        "rs = q' @ r2" by (simp_all add: nextRecord.simps [of m])
      with a r2 show ?thesis by (auto simp: awaiting_def rx_core_def)
    next
      case r1: Nil
      have "inbox (m_conn m) \<noteq> []"
      proof
        assume "inbox (m_conn m) = []"
        with a(4) parseRecords_all [OF a(3)] p r1 q a(2) show False by simp
      qed
      then obtain b rest where t: "take_chunk 65536 (inbox (m_conn m)) = (Ok b, rest)" "b \<noteq> []"
        "good_inbox rest" "inbox_bytes (inbox (m_conn m)) = b @ inbox_bytes rest"
        using take_chunk_good [OF a(1)] by (metis zero_less_numeral)
      let ?m = "m\<lparr>m_conn := (m_conn m)\<lparr>inbox := rest\<rparr>, m_rxbuf := m_rxbuf m @ b\<rparr>"
      have "awaiting ?m (r # rs)" using a q t by (auto simp: awaiting_def)
      then obtain m' where "nextRecord ?m = (Ok r, m')" "awaiting m' rs" "m_rxSeq m' = m_rxSeq ?m"
        "rx_core m' = rx_core ?m"
        using "1.IH" [OF q p [symmetric] r1 t(1) [symmetric] refl] t(2) by auto
      moreover have "nextRecord m = nextRecord ?m"
        using q p r1 t(1,2) by (simp add: nextRecord.simps [of m])
      ultimately show ?thesis by (simp add: rx_core_def)
    qed
  qed
qed

primrec recvRecords :: "nat \<Rightarrow> (mmtlsClient, mmrecord list) act" where
  "recvRecords 0 = act_ret []"
| "recvRecords (Suc n) =
     act_bind nextRecord (\<lambda>r. act_bind (recvRecords n) (\<lambda>rs. act_ret (r # rs)))"

lemma recvRecords_awaiting:
  "awaiting m (rs @ ms) \<Longrightarrow> \<exists>m'. recvRecords (length rs) m = (Ok rs, m') \<and> awaiting m' ms"
proof (induction rs arbitrary: m)
  case (Cons r rs)
  then obtain m1 where m1: "nextRecord m = (Ok r, m1)" "awaiting m1 (rs @ ms)"
    using nextRecord_awaiting [of m r "rs @ ms"] by auto
  from Cons.IH [OF m1(2)] obtain m2 where "recvRecords (length rs) m1 = (Ok rs, m2)" "awaiting m2 ms"
    by blast
  with m1(1) show ?case by simp
qed simp

lemma good_inbox_chunks: "\<forall>c \<in> set cs. c \<noteq> [] \<Longrightarrow> good_inbox (map RData cs)"
  by (auto simp: good_inbox_def)

lemma inbox_bytes_chunks: "inbox_bytes (map RData cs) = concat cs"
  by (induction cs) simp_all

lemma awaiting_new:
  assumes "\<forall>r \<in> set rs. wire_record r" "\<forall>c \<in> set cs. c \<noteq> []"
    and "concat cs = concat (map record_bytes rs)" "inbox c = map RData cs"
  shows "awaiting (newMmtlsClient c) rs"
  using assms by (simp add: awaiting_def newMmtlsClient_def good_inbox_chunks inbox_bytes_chunks)

text \<open>C22: However the network cuts the stream into chunks, the client sees the same records.\<close>

theorem recvRecords_any_chunking:
  assumes "\<forall>r \<in> set rs. wire_record r" "\<forall>c \<in> set cs. c \<noteq> []"
    and "concat cs = concat (map record_bytes rs)" "inbox c = map RData cs"
  shows "\<exists>m'. recvRecords (length rs) (newMmtlsClient c) = (Ok rs, m')"
  using recvRecords_awaiting [of _ rs "[]"] awaiting_new [OF assms] by fastforce

theorem recvRecords_any_chunking_witness:
  "\<exists>m'. recvRecords 1 (newMmtlsClient \<lparr>inbox = [RData [0x16, 0xf1], RData [0x03, 0, 1, 7]], wok = [],
      sent = [], closed = False\<rparr>) = (Ok [\<lparr>ContentType = 0x16, Payload = [7]\<rparr>], m')"
  using recvRecords_any_chunking [of "[\<lparr>ContentType = 0x16, Payload = [7]\<rparr>]" "[[0x16, 0xf1], [0x03, 0, 1, 7]]"
      "\<lparr>inbox = [RData [0x16, 0xf1], RData [0x03, 0, 1, 7]], wok = [], sent = [], closed = False\<rparr>"]
  by (simp add: wire_record_def knownContentType_def record_bytes_def ctHandshake_def be16_def recordVersion_def)

end
