(* ===== verification/Mmtls_Handshake.thy ===== *)
theory Mmtls_Handshake
  imports Mmtls_Client
begin

text \<open>
  What the MMTLS client of theory \<open>Mmtls_Client\<close> guarantees: the sequence number of a
  record is its position on the connection, so no nonce is used twice; the handshake
  succeeds only when the server has proved that it knows the handshake secret; and it does
  succeed against a server that follows the protocol.
\<close>

section \<open>Sequence numbers\<close>

definition seq_inv :: "mmtlsClient \<Rightarrow> bool" where
  "seq_inv m \<longleftrightarrow> m_txSeq m = word_of_nat (length (sent (m_conn m)))"

lemma seq_inv_frame:
  "m_txSeq m' = m_txSeq m \<Longrightarrow> sent (m_conn m') = sent (m_conn m) \<Longrightarrow> seq_inv m' = seq_inv m"
  by (simp add: seq_inv_def)

lemma nextRecord_frame:
  "nextRecord m = (g, m') \<Longrightarrow> rx_core m' = rx_core m \<and> m_rxSeq m' = m_rxSeq m"
proof (induction m arbitrary: g m' rule: nextRecord.induct)
  case (1 m)
  show ?case
  proof (cases "m_recq m")
    case Cons
    with "1.prems" show ?thesis by (auto simp: nextRecord.simps [of m] rx_core_def)
  next
    case q: Nil
    obtain rs c where p: "parseRecords (m_rxbuf m) = (rs, c)" by fastforce
    obtain g' rest where t: "take_chunk 65536 (inbox (m_conn m)) = (g', rest)" by fastforce
    show ?thesis
    proof (cases "\<exists>b. rs = [] \<and> g' = Ok b \<and> b \<noteq> []")
      case True
      then obtain b where b: "rs = []" "g' = Ok b" "b \<noteq> []" by blast
      let ?m = "m\<lparr>m_conn := (m_conn m)\<lparr>inbox := rest\<rparr>, m_rxbuf := m_rxbuf m @ b\<rparr>"
      have "nextRecord ?m = (g, m')"
        using "1.prems" q p t b by (simp add: nextRecord.simps [of m])
      then have "rx_core m' = rx_core ?m \<and> m_rxSeq m' = m_rxSeq ?m"
        using "1.IH" [OF q p [symmetric] b(1) t [unfolded b(2), symmetric] refl] b(3) by auto
      then show ?thesis by (simp add: rx_core_def)
    next
      case False
      with "1.prems" q p t show ?thesis
        by (cases rs; cases g') (auto simp: nextRecord.simps [of m] rx_core_def Let_def split: if_splits)
    qed
  qed
qed

lemma rx_core_seq_inv: "rx_core m' = rx_core m \<Longrightarrow> seq_inv m' = seq_inv m"
  by (rule seq_inv_frame) (auto dest: rx_core_eqD)

lemma keeps_nextRecord [hoare_intros]: "keeps seq_inv nextRecord"
  by (rule hoareI) (auto dest!: nextRecord_frame dest: rx_core_seq_inv)

lemma seq_inv_updates [simp]:
  "seq_inv (m\<lparr>m_rxSeq := r\<rparr>) = seq_inv m"
  "seq_inv (m\<lparr>m_appSeq := a\<rparr>) = seq_inv m"
  "seq_inv (m\<lparr>m_serverPub := b\<rparr>) = seq_inv m"
  "seq_inv (m\<lparr>m_hCertV := c\<rparr>) = seq_inv m"
  "seq_inv (m\<lparr>m_nstEntries := n\<rparr>) = seq_inv m"
  "seq_inv (m\<lparr>m_secret := c\<rparr>) = seq_inv m"
  "seq_inv (m\<lparr>m_g1Priv := p, m_g1Pub := b, m_g2Pub := b', m_clientHello := ch\<rparr>) = seq_inv m"
  "seq_inv (m\<lparr>m_hsCKey := k1, m_hsCIV := k2, m_hsSKey := k3, m_hsSIV := k4\<rparr>) = seq_inv m"
  "seq_inv (feed p' m) = seq_inv m"
  "seq_inv (install_app_keys m) = seq_inv m"
  by (simp_all add: seq_inv_def feed_def install_app_keys_def Let_def)

lemma sendRaw_then_count: "hoare seq_inv (act_bind (sendRaw rec) (\<lambda>_. act_mod (\<lambda>m. m\<lparr>m_txSeq := m_txSeq m + 1\<rparr>)))
    (\<lambda>_. seq_inv) seq_inv"
  by (rule hoareI)
     (auto simp: sendRaw_def seq_inv_def conn_Write_def act_bind_def
       split: prod.splits list.splits bool.splits)

lemma keeps_sendPlain [hoare_intros]: "keeps seq_inv (sendPlain ct p)"
  unfolding sendPlain_def by (intro hoare_bind [of _ _ "\<lambda>_. seq_inv"] hoare_lift sendRaw_then_count)

lemma keeps_sendEncrypted [hoare_intros]: "keeps seq_inv (sendEncrypted ct p key iv)"
  unfolding sendEncrypted_def
  by (intro hoare_bind [of _ _ "\<lambda>_. seq_inv"] hoare_lift hoare_get sendRaw_then_count)

lemma keeps_recv:
  "keeps seq_inv recvPlain" "keeps seq_inv (recvDecrypt key iv)"
  unfolding recvPlain_def recvDecrypt_def by (intro keeps_intros keeps_nextRecord; simp)+

lemma keeps_serverHello: "keeps seq_inv recvServerHello"
  unfolding recvServerHello_def by (intro keeps_intros keeps_recv) (simp_all add: Let_def)

lemma keeps_serverFlight_step: "keeps seq_inv serverFlight_step"
  unfolding serverFlight_step_def by (intro keeps_intros keeps_recv) simp_all

text \<open>The rule for the loop: an invariant that every turn keeps.\<close>

lemma hoare_serverFlight_loop:
  assumes "hoare I serverFlight_step (\<lambda>done m. if done then Q () m else I m) E"
  shows "hoare I serverFlight_loop Q E"
proof -
  have "I m \<Longrightarrow> case serverFlight_loop m of (Ok x, t) \<Rightarrow> Q x t | (_, t) \<Rightarrow> E t" for m
  proof (induction m rule: serverFlight_loop.induct)
    case (1 m)
    obtain g t where st: "serverFlight_step m = (g, t)" by fastforce
    from assms "1.prems" st
    have "case g of Ok d \<Rightarrow> if d then Q () t else I t | _ \<Rightarrow> E t"
      unfolding hoare_def by (fastforce split: go.splits)
    with "1.IH" [OF st [symmetric]] st show ?case
      by (cases g) (auto simp: serverFlight_loop.simps [of m] split: if_splits)
  qed
  then show ?thesis by (simp add: hoare_def)
qed

lemma keeps_flight: "keeps seq_inv recvServerFlight"
  unfolding recvServerFlight_def
  by (intro keeps_bind keeps_serverHello hoare_serverFlight_loop
      hoare_weaken [OF keeps_serverFlight_step]) auto

lemma keeps_doHandshake: "keeps seq_inv (doHandshake rnd)"
  unfolding doHandshake_def sendClientHello_def m_buildClientHello_def sendClientFinished_def Let_def
  by (intro keeps_intros keeps_flight keeps_sendPlain keeps_sendEncrypted) simp_all

lemma keeps_sendApp: "keeps seq_inv (sendApp cmd body)"
  unfolding sendApp_def by (intro keeps_intros keeps_sendEncrypted) simp_all

lemma keeps_recvApp: "keeps seq_inv recvApp"
  unfolding recvApp_def by (intro keeps_intros keeps_recv) 

text \<open>The life of a client: the operations that \<open>connectMmtls\<close> and the pool perform on it.\<close>

inductive client_step :: "mmtlsClient \<Rightarrow> mmtlsClient \<Rightarrow> bool" where
  handshake: "doHandshake rnd m = (g, m') \<Longrightarrow> client_step m m'"
| send_app: "sendApp cmd body m = (g, m') \<Longrightarrow> client_step m m'"
| recv_app: "recvApp m = (g, m') \<Longrightarrow> client_step m m'"

inductive_cases client_stepE: "client_step m m'"

lemma client_step_seq_inv: "client_step m m' \<Longrightarrow> seq_inv m \<Longrightarrow> seq_inv m'"
  by (erule client_stepE) (auto dest: keepsD [OF keeps_doHandshake] keepsD [OF keeps_sendApp]
      keepsD [OF keeps_recvApp])

lemma client_steps_seq_inv: "client_step\<^sup>*\<^sup>* m m' \<Longrightarrow> seq_inv m \<Longrightarrow> seq_inv m'"
  by (induction rule: rtranclp_induct) (auto dest: client_step_seq_inv)

definition client_reachable :: "mmtlsClient \<Rightarrow> bool" where
  "client_reachable m \<longleftrightarrow> (\<exists>c. sent c = [] \<and> client_step\<^sup>*\<^sup>* (newMmtlsClient c) m)"

lemma client_reachable_seq_inv: "client_reachable m \<Longrightarrow> seq_inv m"
proof -
  assume "client_reachable m"
  then obtain c where "sent c = []" "client_step\<^sup>*\<^sup>* (newMmtlsClient c) m"
    by (auto simp: client_reachable_def)
  then show ?thesis
    using client_steps_seq_inv [of "newMmtlsClient c" m] by (simp add: seq_inv_def newMmtlsClient_def)
qed

lemma sendEncrypted_OkD:
  assumes "sendEncrypted ct p key iv m = (Ok u, m')"
  obtains c where "encryptRecordPayload key iv (m_txSeq m) ct p = Ok c"
    "buildRecord ct c = Ok (record_bytes \<lparr>ContentType = ct, Payload = c\<rparr>)"
    "sent (m_conn m') = sent (m_conn m) @ [record_bytes \<lparr>ContentType = ct, Payload = c\<rparr>]"
    "m_txSeq m' = m_txSeq m + 1"
proof -
  from assms obtain c where c: "encryptRecordPayload key iv (m_txSeq m) ct p = Ok c"
    and r: "act_bind (act_lift (buildRecord ct c)) (\<lambda>rec. act_bind (sendRaw rec) (\<lambda>_.
      act_mod (\<lambda>m. m\<lparr>m_txSeq := m_txSeq m + 1\<rparr>))) m = (Ok u, m')"
    unfolding sendEncrypted_def by (auto elim!: act_bind_OkE)
  from r obtain b where b: "buildRecord ct c = Ok b"
    and w: "act_bind (sendRaw b) (\<lambda>_. act_mod (\<lambda>m. m\<lparr>m_txSeq := m_txSeq m + 1\<rparr>)) m = (Ok u, m')"
    by (auto elim!: act_bind_OkE)
  from b have b': "b = record_bytes \<lparr>ContentType = ct, Payload = c\<rparr>" by (simp add: buildRecord_eq)
  have "sent (m_conn m') = sent (m_conn m) @ [b]" "m_txSeq m' = m_txSeq m + 1"
    using w by (auto simp: sendRaw_def conn_Write_def act_bind_def
        split: prod.splits list.splits bool.splits)
  with c b b' that show ?thesis by blast
qed

text \<open>C21: For a client in any reachable state, an encrypted record that is sent carries its
  position on the connection as its sequence number: it is sealed under exactly that number
  and appended to what was sent before.\<close>

theorem sendEncrypted_sequence:
  assumes "client_reachable m" "sendEncrypted ct p key iv m = (Ok u, m')"
  shows "\<exists>c. encryptRecordPayload key iv (word_of_nat (length (sent (m_conn m)))) ct p = Ok c
    \<and> sent (m_conn m') = sent (m_conn m) @ [record_bytes \<lparr>ContentType = ct, Payload = c\<rparr>]"
  using sendEncrypted_OkD [OF assms(2)] client_reachable_seq_inv [OF assms(1)]
  by (metis seq_inv_def)


section \<open>The server is authenticated\<close>

text \<open>
  What holds when the server's Finished was accepted: the last message of the transcript is
  a Finished whose data is the MAC of the transcript before it under a key derived from the
  handshake secret, and the application keys are derived from the same secret and hash.
\<close>

definition authenticated :: "mmtlsClient \<Rightarrow> bool" where
  "authenticated m \<longleftrightarrow> (\<exists>s pre pt b. m_secret m = Some s \<and> m_transcript m = pre @ pt \<and>
     m_hFinal m = Some (sha256 pre) \<and>
     splitHandshake pt = Ok (hsFinished, b) \<and>
     parseFinished b = Ok (finishedVerifyData s False (sha256 pre)) \<and>
     (let ak = deriveAppKeys (deriveMaster s (sha256 pre)) (sha256 pre) in
      m_appCKey m = ClientKey ak \<and> m_appCIV m = ClientIV ak \<and>
      m_appSKey m = ServerKey ak \<and> m_appSIV m = ServerIV ak))"

definition has_secret :: "mmtlsClient \<Rightarrow> bool" where
  "has_secret m \<longleftrightarrow> m_secret m \<noteq> None"

lemma recvDecrypt_rx_core: "recvDecrypt key iv m = (g, m') \<Longrightarrow> rx_core m' = rx_core m"
proof -
  assume r: "recvDecrypt key iv m = (g, m')"
  obtain gr m1 where n: "nextRecord m = (gr, m1)" by fastforce
  note f = nextRecord_frame [OF n]
  show ?thesis
  proof (cases gr)
    case (Ok rec)
    have "rx_core (m1\<lparr>m_rxSeq := x\<rparr>) = rx_core m1" for x by (simp add: rx_core_def)
    with r n Ok f show ?thesis
      by (cases "decryptRecordPayload key iv (m_rxSeq m1) (ContentType rec) (Payload rec)")
        (auto simp: recvDecrypt_def act_bind_def)
  qed (use r n f in \<open>auto simp: recvDecrypt_def act_bind_def\<close>)
qed

lemma finished_step_auth:
  assumes "m_secret m = Some s" "splitHandshake pt = Ok (hsFinished, b)"
    and "parseFinished b = Ok (serverFinished_want (install_app_keys m))"
  shows "authenticated (feed pt (install_app_keys m))"
  using assms unfolding authenticated_def
  by (intro exI [of _ s] exI [of _ "m_transcript m"] exI [of _ pt] exI [of _ b])
     (simp add: feed_def install_app_keys_def serverFinished_want_def transcriptHash_def Let_def)

lemma serverFlight_step_auth:
  "hoare has_secret serverFlight_step (\<lambda>d m. if d then authenticated m else has_secret m) (\<lambda>_. True)"
proof (rule hoareI)
  fix m d m' assume sec: "has_secret m" and st: "serverFlight_step m = (Ok d, m')"
  from st obtain ct pt m1 where r: "recvDecrypt (m_hsSKey m) (m_hsSIV m) m = (Ok (ct, pt), m1)"
    and k: "act_bind (act_lift (splitHandshake pt)) (\<lambda>(mt, mbody).
      if mt = hsFinished then
        act_bind (act_mod install_app_keys) (\<lambda>_.
        act_bind (act_lift (parseFinished mbody)) (\<lambda>got.
        act_bind (act_get serverFinished_want) (\<lambda>want.
        if got \<noteq> want then act_lift (Err (Errorf ''ServerFinished verification failed''))
        else act_bind (act_mod (feed pt)) (\<lambda>_. act_ret True))))
      else
        act_bind (act_mod (feed pt)) (\<lambda>_.
        if mt = hsCertVerify then
          act_bind (act_mod (\<lambda>m. m\<lparr>m_hCertV := Some (transcriptHash m)\<rparr>)) (\<lambda>_. act_ret False)
        else if mt = hsNewSessionTicket then
          act_bind (act_mod (\<lambda>m. m\<lparr>m_nstEntries := parseNewSessionTicket mbody\<rparr>)) (\<lambda>_. act_ret False)
        else act_ret False)) m1 = (Ok d, m')"
    unfolding serverFlight_step_def by (auto elim!: act_bind_OkE)
  from rx_core_eqD(2) [OF recvDecrypt_rx_core [OF r]] sec obtain s where s: "m_secret m1 = Some s"
    by (auto simp: has_secret_def)
  from k obtain mt b where sp: "splitHandshake pt = Ok (mt, b)"
    by (auto elim!: act_bind_OkE)
  show "if d then authenticated m' else has_secret m'"
  proof (cases "mt = hsFinished")
    case True
    with k sp obtain got where got: "parseFinished b = Ok got"
      by (cases "parseFinished b") auto
    with k sp True have "got = serverFinished_want (install_app_keys m1)" "d = True"
      "m' = feed pt (install_app_keys m1)"
      by (auto split: if_splits)
    with finished_step_auth [OF s] sp True got show ?thesis by simp
  next
    case False
    with k sp s have "d = False" "m_secret m' = Some s"
      by (auto split: if_splits simp: feed_def)
    then show ?thesis by (simp add: has_secret_def)
  qed
qed auto

lemma recvServerHello_secret: "hoare (\<lambda>_. True) recvServerHello (\<lambda>_. has_secret) (\<lambda>_. True)"
  unfolding recvServerHello_def
  by (rule hoareI) (auto elim!: act_bind_OkE split: if_splits simp: has_secret_def Let_def)

lemma recvServerFlight_auth: "hoare (\<lambda>_. True) recvServerFlight (\<lambda>_. authenticated) (\<lambda>_. True)"
  unfolding recvServerFlight_def
  by (rule hoare_bind [OF recvServerHello_secret])
     (rule hoare_serverFlight_loop [OF hoare_weaken [OF serverFlight_step_auth]]; simp)

lemma authenticated_frame [simp]:
  "authenticated (m\<lparr>m_conn := c, m_txSeq := t\<rparr>) = authenticated m"
  by (simp add: authenticated_def)

lemma sendEncrypted_auth:
  "sendEncrypted ct p key iv m = (Ok u, m') \<Longrightarrow> authenticated m' = authenticated m"
  unfolding sendEncrypted_def
  by (auto elim!: act_bind_OkE simp: sendRaw_def split: prod.splits)

text \<open>C6: A handshake that returns without error has authenticated the server.\<close>

theorem doHandshake_authenticates:
  assumes "doHandshake rnd m = (Ok u, m')"
  shows "authenticated m'"
proof -
  from assms obtain m1 m2 where f: "recvServerFlight m1 = (Ok (), m2)"
    and c: "sendClientFinished m2 = (Ok u, m')"
    unfolding doHandshake_def by (auto elim!: act_bind_OkE)
  from hoareD [OF recvServerFlight_auth _ f] have "authenticated m2" by simp
  moreover from c have "authenticated m' = authenticated m2"
    unfolding sendClientFinished_def
    by (auto elim!: act_bind_OkE split: if_splits simp: Let_def dest!: sendEncrypted_auth)
  ultimately show ?thesis by simp
qed

section \<open>A server that follows the protocol is accepted\<close>

text \<open>
  The server's side of the encrypted flight: every handshake message is sealed under the
  server's key with the next sequence number.
\<close>

fun seal_flight :: "bytes \<Rightarrow> bytes \<Rightarrow> u64 \<Rightarrow> bytes list \<Rightarrow> mmrecord list" where
  "seal_flight key iv seq [] = []"
| "seal_flight key iv seq (p # ps) =
     (case encryptRecordPayload key iv seq ctHandshake p of
        Ok c \<Rightarrow> \<lparr>ContentType = ctHandshake, Payload = c\<rparr> # seal_flight key iv (seq + 1) ps
      | _ \<Rightarrow> [])"

definition server_message :: "byte \<times> bytes \<Rightarrow> bytes" where
  "server_message = (\<lambda>(t, body). buildHandshake t body)"

definition finished_message :: "bytes \<Rightarrow> bytes \<Rightarrow> bytes" where
  "finished_message secret h =
     buildHandshake hsFinished (be16 32 @ finishedVerifyData secret False h)"

lemma recvDecrypt_awaiting:
  assumes "awaiting m (r # rs)"
    and "decryptRecordPayload key iv (m_rxSeq m) (ContentType r) (Payload r) = Ok pt"
  shows "\<exists>m'. recvDecrypt key iv m = (Ok (ContentType r, pt), m') \<and> awaiting m' rs
    \<and> m_rxSeq m' = m_rxSeq m + 1 \<and> rx_core m' = rx_core m"
proof -
  from nextRecord_awaiting [OF assms(1)] obtain m' where m': "nextRecord m = (Ok r, m')"
    "awaiting m' rs" "m_rxSeq m' = m_rxSeq m" "rx_core m' = rx_core m" by blast
  have "awaiting (m'\<lparr>m_rxSeq := x\<rparr>) rs" "rx_core (m'\<lparr>m_rxSeq := x\<rparr>) = rx_core m'" for x
    using m'(2) by (simp_all add: awaiting_def rx_core_def)
  with m' assms(2) show ?thesis by (simp add: recvDecrypt_def)
qed

text \<open>The state of the client while it waits for the rest of the flight.\<close>

definition in_flight :: "mmtlsClient \<Rightarrow> bytes \<Rightarrow> bytes \<Rightarrow> mmrecord list \<Rightarrow> bool" where
  "in_flight m s tr rs \<longleftrightarrow> awaiting m rs \<and> m_secret m = Some s \<and> m_transcript m = tr
     \<and> record_key (m_hsSKey m) (m_hsSIV m) \<and> record_key (m_hsCKey m) (m_hsCIV m)"

definition flight_frame :: "mmtlsClient \<Rightarrow> mmtlsClient \<Rightarrow> bool" where
  "flight_frame m m' \<longleftrightarrow> m_txSeq m' = m_txSeq m \<and> wok (m_conn m') = wok (m_conn m)
     \<and> m_hsSKey m' = m_hsSKey m \<and> m_hsSIV m' = m_hsSIV m
     \<and> m_hsCKey m' = m_hsCKey m \<and> m_hsCIV m' = m_hsCIV m"

lemma flight_recv:
  assumes "in_flight m s tr (r # rs)" "ContentType r = ctHandshake"
    and "encryptRecordPayload (m_hsSKey m) (m_hsSIV m) (m_rxSeq m) ctHandshake pt = Ok (Payload r)"
  obtains m1 where "recvDecrypt (m_hsSKey m) (m_hsSIV m) m = (Ok (ctHandshake, pt), m1)"
    "in_flight m1 s tr rs" "m_rxSeq m1 = m_rxSeq m + 1" "flight_frame m m1"
proof -
  have "decryptRecordPayload (m_hsSKey m) (m_hsSIV m) (m_rxSeq m) (ContentType r) (Payload r) = Ok pt"
    using assms by (subst decryptRecordPayload_iff_lemma) (simp_all add: in_flight_def)
  moreover have "awaiting m (r # rs)" using assms(1) by (simp add: in_flight_def)
  ultimately obtain m1 where m1: "recvDecrypt (m_hsSKey m) (m_hsSIV m) m = (Ok (ContentType r, pt), m1)"
    "awaiting m1 rs" "m_rxSeq m1 = m_rxSeq m + 1" "rx_core m1 = rx_core m"
    using recvDecrypt_awaiting by blast
  have "in_flight m1 s tr rs" "flight_frame m m1"
    using assms(1) m1(2) rx_core_eqD [OF m1(4)] by (simp_all add: in_flight_def flight_frame_def)
  with m1 assms(2) that show ?thesis by simp
qed

lemma in_flight_feed:
  "in_flight m s tr rs \<Longrightarrow> in_flight (feed p m) s (tr @ p) rs"
  "in_flight (m\<lparr>m_hCertV := cv\<rparr>) s tr rs = in_flight m s tr rs"
  "in_flight (m\<lparr>m_nstEntries := n\<rparr>) s tr rs = in_flight m s tr rs"
  "m_rxSeq (feed p m) = m_rxSeq m" "flight_frame m1 (feed p m) = flight_frame m1 m"
  "flight_frame m1 (m\<lparr>m_hCertV := cv\<rparr>) = flight_frame m1 m"
  "flight_frame m1 (m\<lparr>m_nstEntries := n\<rparr>) = flight_frame m1 m"
  by (auto simp: in_flight_def awaiting_def feed_def flight_frame_def)

lemma flight_step_message:
  assumes "in_flight m s tr (r # rs)" "ContentType r = ctHandshake"
    and "encryptRecordPayload (m_hsSKey m) (m_hsSIV m) (m_rxSeq m) ctHandshake
      (server_message (t, body)) = Ok (Payload r)"
    and "t \<noteq> hsFinished" "length body < 2 ^ 32 - 1"
  obtains m' where "serverFlight_step m = (Ok False, m')"
    "in_flight m' s (tr @ server_message (t, body)) rs"
    "m_rxSeq m' = m_rxSeq m + 1" "flight_frame m m'"
proof -
  let ?pt = "server_message (t, body)"
  obtain m1 where m1: "recvDecrypt (m_hsSKey m) (m_hsSIV m) m = (Ok (ctHandshake, ?pt), m1)"
    "in_flight m1 s tr rs" "m_rxSeq m1 = m_rxSeq m + 1" "flight_frame m m1"
    using flight_recv [OF assms(1-3)] .
  have sp: "splitHandshake ?pt = Ok (t, body)"
    using splitHandshake_build [OF assms(5), of t "[]"] by (simp add: server_message_def)
  note f = in_flight_feed
  let ?f = "feed ?pt m1"
  consider "t = hsCertVerify" | "t \<noteq> hsCertVerify" "t = hsNewSessionTicket"
    | "t \<noteq> hsCertVerify" "t \<noteq> hsNewSessionTicket" by blast
  then show ?thesis
  proof cases
    case 1
    with m1(1) sp assms(4)
    have "serverFlight_step m = (Ok False, ?f\<lparr>m_hCertV := Some (transcriptHash ?f)\<rparr>)"
      by (simp add: serverFlight_step_def)
    then show ?thesis by (rule that) (use m1(2-4) in \<open>simp_all add: f\<close>)
  next
    case 2
    with m1(1) sp assms(4)
    have "serverFlight_step m = (Ok False, ?f\<lparr>m_nstEntries := parseNewSessionTicket body\<rparr>)"
      by (simp add: serverFlight_step_def)
    then show ?thesis by (rule that) (use m1(2-4) in \<open>simp_all add: f\<close>)
  next
    case 3
    with m1(1) sp assms(4) have "serverFlight_step m = (Ok False, ?f)"
      by (simp add: serverFlight_step_def)
    then show ?thesis by (rule that) (use m1(2-4) in \<open>simp_all add: f\<close>)
  qed
qed

lemma flight_step_finished:
  assumes "in_flight m s tr (r # rs)" "ContentType r = ctHandshake"
    and "encryptRecordPayload (m_hsSKey m) (m_hsSIV m) (m_rxSeq m) ctHandshake
      (finished_message s (sha256 tr)) = Ok (Payload r)"
  obtains m' where "serverFlight_step m = (Ok True, m')" "m_hFinal m' = Some (sha256 tr)"
    "m_secret m' = Some s" "flight_frame m m'" "awaiting m' rs"
proof -
  let ?vd = "finishedVerifyData s False (sha256 tr)"
  let ?pt = "finished_message s (sha256 tr)"
  obtain m1 where m1: "recvDecrypt (m_hsSKey m) (m_hsSIV m) m = (Ok (ctHandshake, ?pt), m1)"
    "in_flight m1 s tr rs" "flight_frame m m1"
    using flight_recv [OF assms] by metis
  have l: "length ?vd = 32" by (simp add: finishedVerifyData_def Let_def)
  have sp: "splitHandshake ?pt = Ok (hsFinished, be16 32 @ ?vd)"
    using splitHandshake_build [of "be16 32 @ ?vd" hsFinished "[]"] l
    by (simp add: finished_message_def)
  have "parseFinished (be16 32 @ ?vd) = Ok ?vd"
    using l slice_append_mid [of "be16 32" ?vd "[]"]
    by (simp add: parseFinished_def Let_def)
  moreover have w: "serverFinished_want (install_app_keys m1) = ?vd"
    using m1(2) by (simp add: serverFinished_want_def install_app_keys_def Let_def in_flight_def
        transcriptHash_def)
  ultimately have "serverFlight_step m = (Ok True, feed ?pt (install_app_keys m1))"
    using m1(1) sp by (simp add: serverFlight_step_def)
  moreover have "flight_frame m (feed ?pt (install_app_keys m1))" "awaiting (feed ?pt (install_app_keys m1)) rs"
    using m1(2,3) by (simp_all add: flight_frame_def feed_def install_app_keys_def Let_def in_flight_def
        awaiting_def)
  moreover have "m_hFinal (feed ?pt (install_app_keys m1)) = Some (sha256 tr)"
    "m_secret (feed ?pt (install_app_keys m1)) = Some s"
    using m1(2) by (simp_all add: feed_def install_app_keys_def Let_def in_flight_def transcriptHash_def)
  ultimately show ?thesis using that by blast
qed

definition flight_ok :: "(byte \<times> bytes) list \<Rightarrow> bool" where
  "flight_ok msgs \<longleftrightarrow> (\<forall>(t, body) \<in> set msgs. t \<noteq> hsFinished \<and> length body < 0xff00)"

lemma serverFlight_loop_completes:
  assumes "in_flight m s tr (seal_flight (m_hsSKey m) (m_hsSIV m) (m_rxSeq m)
      (map server_message msgs @ [finished_message s (sha256 (tr @ concat (map server_message msgs)))]))"
    and "flight_ok msgs"
  shows "\<exists>m'. serverFlight_loop m = (Ok (), m') \<and> m_secret m' = Some s \<and> flight_frame m m'
    \<and> m_hFinal m' = Some (sha256 (tr @ concat (map server_message msgs)))"
  using assms
proof (induction msgs arbitrary: m tr)
  case Nil
  have k: "record_key (m_hsSKey m) (m_hsSIV m)" using Nil.prems(1) by (simp add: in_flight_def)
  obtain c where c: "encryptRecordPayload (m_hsSKey m) (m_hsSIV m) (m_rxSeq m) ctHandshake
      (finished_message s (sha256 tr)) = Ok c"
    using encryptRecordPayload_Ok [OF k] by blast
  with Nil.prems(1) have "in_flight m s tr [\<lparr>ContentType = ctHandshake, Payload = c\<rparr>]" by simp
  from flight_step_finished [OF this] c obtain m' where "serverFlight_step m = (Ok True, m')"
    "m_hFinal m' = Some (sha256 tr)" "m_secret m' = Some s" "flight_frame m m'"
    by auto
  then show ?case by (simp add: serverFlight_loop.simps [of m])
next
  case (Cons tb msgs)
  obtain t body where tb: "tb = (t, body)" by fastforce
  have k: "record_key (m_hsSKey m) (m_hsSIV m)" using Cons.prems(1) by (simp add: in_flight_def)
  have ok: "t \<noteq> hsFinished" "length body < 2 ^ 32 - 1" "flight_ok msgs"
    using Cons.prems(2) tb by (auto simp: flight_ok_def)
  let ?pt = "server_message tb"
  let ?rest = "map server_message msgs
    @ [finished_message s (sha256 ((tr @ ?pt) @ concat (map server_message msgs)))]"
  obtain c where c: "encryptRecordPayload (m_hsSKey m) (m_hsSIV m) (m_rxSeq m) ctHandshake ?pt = Ok c"
    using encryptRecordPayload_Ok [OF k] by blast
  with Cons.prems(1) have fl: "in_flight m s tr (\<lparr>ContentType = ctHandshake, Payload = c\<rparr> #
      seal_flight (m_hsSKey m) (m_hsSIV m) (m_rxSeq m + 1) ?rest)" by simp
  obtain m1 where m1: "serverFlight_step m = (Ok False, m1)"
    "in_flight m1 s (tr @ ?pt) (seal_flight (m_hsSKey m) (m_hsSIV m) (m_rxSeq m + 1) ?rest)"
    "m_rxSeq m1 = m_rxSeq m + 1" "flight_frame m m1"
    using flight_step_message [OF fl _ _ ok(1,2)] c tb by auto
  have "\<exists>m'. serverFlight_loop m1 = (Ok (), m') \<and> m_secret m' = Some s \<and> flight_frame m1 m'
      \<and> m_hFinal m' = Some (sha256 ((tr @ ?pt) @ concat (map server_message msgs)))"
    using Cons.IH [of m1 "tr @ ?pt"] m1(2-4) ok(3) by (simp add: flight_frame_def)
  with m1(1,4) show ?case by (auto simp: serverFlight_loop.simps [of m] flight_frame_def)
qed

lemma length_buildClientHello: "buildClientHello r t a b = Ok ch \<Longrightarrow> length ch \<le> 0xffff"
  by (auto simp: buildClientHello_def Let_def buildHandshake_def key_offer_def keyLen_def split: if_splits)

lemma seal_flight_wire:
  "record_key key iv \<Longrightarrow> \<forall>p \<in> set ps. length p \<le> 0xff80 \<Longrightarrow>
   \<forall>r \<in> set (seal_flight key iv seq ps). wire_record r"
proof (induction ps arbitrary: seq)
  case (Cons p ps)
  obtain c where "encryptRecordPayload key iv seq ctHandshake p = Ok c" "length c = length p + 16"
    using encryptRecordPayload_Ok [OF Cons.prems(1)] by blast
  with Cons show ?case by (auto simp: wire_record_def knownContentType_def)
qed simp

lemma sendClientHello_ok:
  assumes "buildClientHello (h_random rnd) (h_time rnd) (publicKey (h_g1 rnd)) (publicKey (h_g2 rnd)) = Ok ch"
    and "wok (m_conn m) = True # w" "awaiting m rs" "m_rxSeq m = 0" "m_transcript m = []"
  obtains m' where "sendClientHello rnd m = (Ok (), m')" "awaiting m' rs" "m_rxSeq m' = 0"
    "m_transcript m' = ch" "m_g1Priv m' = h_g1 rnd" "wok (m_conn m') = w"
proof -
  from length_buildClientHello [OF assms(1)]
  obtain b where b: "buildRecord ctHandshake ch = Ok b" by (simp add: buildRecord_def)
  show ?thesis
    using assms b that
    by (simp add: sendClientHello_def m_buildClientHello_def generateECDH_def feed_def sendPlain_def
        act_bind_def sendRaw_def conn_Write_def awaiting_def)
qed

lemma recvServerHello_ok:
  assumes "awaiting m (\<lparr>ContentType = ctHandshake, Payload = shp\<rparr> # rs)"
    and "shp = buildHandshake hsServerHello shbody" "length shbody < 0xff00"
    and "parseServerHello shbody = Ok sh" "ServerGroup sh = groupSecP256R1"
    and "mmtlsSecret (m_g1Priv m) (ServerPubKey sh) = Ok s"
    and "hk = deriveHandshakeKeys s (sha256 (m_transcript m @ shp))"
  obtains m' where "recvServerHello m = (Ok (), m')" "in_flight m' s (m_transcript m @ shp) rs"
    "m_rxSeq m' = m_rxSeq m + 1" "m_hsSKey m' = ServerKey hk" "m_hsSIV m' = ServerIV hk"
    "wok (m_conn m') = wok (m_conn m)"
proof -
  obtain m1 where m1: "nextRecord m = (Ok \<lparr>ContentType = ctHandshake, Payload = shp\<rparr>, m1)"
    "awaiting m1 rs" "m_rxSeq m1 = m_rxSeq m" "rx_core m1 = rx_core m"
    using nextRecord_awaiting [OF assms(1)] by blast
  have sp: "splitHandshake shp = Ok (hsServerHello, shbody)"
    using splitHandshake_build [of shbody hsServerHello "[]"] assms(2,3) by simp
  let ?m = "(feed shp (m1\<lparr>m_rxSeq := m_rxSeq m1 + 1\<rparr>))\<lparr>m_serverPub := ServerPubKey sh,
    m_secret := Some s, m_hsCKey := ClientKey hk, m_hsCIV := ClientIV hk,
    m_hsSKey := ServerKey hk, m_hsSIV := ServerIV hk\<rparr>"
  have "recvServerHello m = (Ok (), ?m)"
    using m1(1) sp assms(4-7) rx_core_eqD [OF m1(4)]
    by (simp add: recvServerHello_def recvPlain_def feed_def Let_def transcriptHash_def)
  moreover have "in_flight ?m s (m_transcript m @ shp) rs"
    using m1(2) rx_core_eqD [OF m1(4)] assms(7) by (simp add: in_flight_def awaiting_def feed_def)
  ultimately show ?thesis
    using that m1(3) rx_core_eqD [OF m1(4)] by (simp add: feed_def)
qed

lemma sendClientFinished_ok:
  assumes "m_hFinal m = Some h" "record_key (m_hsCKey m) (m_hsCIV m)" "wok (m_conn m) = True # w"
  shows "\<exists>m'. sendClientFinished m = (Ok (), m') \<and> m_secret m' = m_secret m \<and> m_hFinal m' = m_hFinal m"
proof -
  let ?vd = "finishedVerifyData (nil_bytes (m_secret m)) True h"
  have "length ?vd = 32" by (simp add: finishedVerifyData_def Let_def)
  then obtain msg where msg: "buildFinished ?vd = Ok msg" "length msg = 39"
    by (simp add: buildFinished_def buildHandshake_def)
  obtain c where c: "encryptRecordPayload (m_hsCKey m) (m_hsCIV m) (m_txSeq m) ctHandshake msg = Ok c"
    "length c = length msg + 16"
    using encryptRecordPayload_Ok [OF assms(2)] by blast
  then obtain b where "buildRecord ctHandshake c = Ok b" using msg(2) by (simp add: buildRecord_def)
  with c msg assms show ?thesis
    by (simp add: sendClientFinished_def sendEncrypted_def act_bind_def sendRaw_def conn_Write_def)
qed

lemma handshake_run:
  assumes hello: "buildClientHello (h_random rnd) (h_time rnd) (publicKey (h_g1 rnd))
      (publicKey (h_g2 rnd)) = Ok ch"
    and sh: "parseServerHello shbody = Ok sh" "ServerGroup sh = groupSecP256R1" "length shbody < 0xff00"
    and sec: "mmtlsSecret (h_g1 rnd) (ServerPubKey sh) = Ok s"
    and msgs: "flight_ok msgs"
    and shp: "shp = buildHandshake hsServerHello shbody"
    and hk: "hk = deriveHandshakeKeys s (sha256 (ch @ shp))"
    and tr: "tr = ch @ shp @ concat (map server_message msgs)"
    and recs: "recs = \<lparr>ContentType = ctHandshake, Payload = shp\<rparr> # seal_flight (ServerKey hk) (ServerIV hk) 1
      (map server_message msgs @ [finished_message s (sha256 tr)])"
    and cs: "\<forall>c \<in> set cs. c \<noteq> []" "concat cs = concat (map record_bytes recs)"
  shows "\<exists>m'. doHandshake rnd (newMmtlsClient
      \<lparr>inbox = map RData cs, wok = True # True # w, sent = [], closed = False\<rparr>) = (Ok (), m')
    \<and> m_secret m' = Some s \<and> m_hFinal m' = Some (sha256 tr)"
proof -
  let ?c = "\<lparr>inbox = map RData cs, wok = True # True # w, sent = [], closed = False\<rparr>"
  let ?ms = "map server_message msgs @ [finished_message s (sha256 tr)]"
  have "\<forall>p \<in> set ?ms. length p \<le> 0xff80"
    using msgs by (auto simp: flight_ok_def server_message_def buildHandshake_def finished_message_def
        finishedVerifyData_def Let_def)
  then have "\<forall>r \<in> set recs. wire_record r"
    using seal_flight_wire [of "ServerKey hk" "ServerIV hk" ?ms 1] hk sh(3)
    by (auto simp: recs shp wire_record_def knownContentType_def buildHandshake_def)
  then have aw: "awaiting (newMmtlsClient ?c) recs"
    using cs by (intro awaiting_new [of _ cs]) simp_all
  obtain m1 where m1: "sendClientHello rnd (newMmtlsClient ?c) = (Ok (), m1)" "awaiting m1 recs"
    "m_rxSeq m1 = 0" "m_transcript m1 = ch" "m_g1Priv m1 = h_g1 rnd" "wok (m_conn m1) = True # w"
    using sendClientHello_ok [OF hello _ aw] by (auto simp: newMmtlsClient_def)
  obtain m2 where m2: "recvServerHello m1 = (Ok (), m2)"
    "in_flight m2 s (ch @ shp) (seal_flight (ServerKey hk) (ServerIV hk) 1 ?ms)"
    "m_rxSeq m2 = 1" "m_hsSKey m2 = ServerKey hk" "m_hsSIV m2 = ServerIV hk" "wok (m_conn m2) = True # w"
    using recvServerHello_ok [OF m1(2) [unfolded recs] shp sh(3) sh(1,2) _ hk [folded m1(4)]] m1(3-6) sec
    by auto
  obtain m3 where m3: "serverFlight_loop m2 = (Ok (), m3)" "m_secret m3 = Some s" "flight_frame m2 m3"
    "m_hFinal m3 = Some (sha256 tr)"
    using serverFlight_loop_completes [of m2 s "ch @ shp" msgs] m2 msgs tr by auto
  have "record_key (m_hsCKey m3) (m_hsCIV m3)" "wok (m_conn m3) = True # w"
    using m2(2,6) m3(3) by (simp_all add: in_flight_def flight_frame_def)
  then obtain m4 where "sendClientFinished m3 = (Ok (), m4)" "m_secret m4 = Some s"
    "m_hFinal m4 = Some (sha256 tr)"
    using sendClientFinished_ok [OF m3(4)] m3(2,4) by metis
  with m1(1) m2(1) m3(1) show ?thesis
    by (simp add: doHandshake_def recvServerFlight_def)
qed

text \<open>C3: Against a server that follows the protocol the handshake succeeds, however the
  network cuts the server's bytes, and both sides hold the same secret and transcript hash.\<close>

theorem doHandshake_completes:
  assumes hello: "buildClientHello (h_random rnd) (h_time rnd) (publicKey (h_g1 rnd))
      (publicKey (h_g2 rnd)) = Ok ch"
    and sh: "parseServerHello shbody = Ok sh" "ServerGroup sh = groupSecP256R1" "length shbody < 0xff00"
    and sec: "mmtlsSecret (h_g1 rnd) (ServerPubKey sh) = Ok s"
    and msgs: "flight_ok msgs"
    and shp: "shp = buildHandshake hsServerHello shbody"
    and hk: "hk = deriveHandshakeKeys s (sha256 (ch @ shp))"
    and tr: "tr = ch @ shp @ concat (map server_message msgs)"
    and recs: "recs = \<lparr>ContentType = ctHandshake, Payload = shp\<rparr> # seal_flight (ServerKey hk) (ServerIV hk) 1
      (map server_message msgs @ [finished_message s (sha256 tr)])"
    and cs: "\<forall>c \<in> set cs. c \<noteq> []" "concat cs = concat (map record_bytes recs)"
  shows "\<exists>m'. doHandshake rnd (newMmtlsClient
      \<lparr>inbox = map RData cs, wok = True # True # w, sent = [], closed = False\<rparr>) = (Ok (), m')
    \<and> m_secret m' = Some s \<and> m_hFinal m' = Some (sha256 tr)"
  by (rule handshake_run [OF assms])

section \<open>Sample runs\<close>

text \<open>
  A run for the witnesses: the scalar 1 on both sides, a server that sends its hello, a
  ticket message and its Finished, and a network that delivers every byte on its own.
\<close>

definition sample_rand :: hello_rand where
  "sample_rand = \<lparr>h_g1 = 1, h_g2 = 1, h_random = replicate 32 0, h_time = 7\<rparr>"

definition sample_hello :: bytes where
  "sample_hello = replicate 36 0 @ be32 67 @ [0, 0x41] @ publicKey 1"

definition sample_msgs :: "(byte \<times> bytes) list" where
  "sample_msgs = [(hsNewSessionTicket, [0])]"

lemma sample_client_hello:
  "\<exists>ch. buildClientHello (h_random sample_rand) (h_time sample_rand) (publicKey (h_g1 sample_rand))
     (publicKey (h_g2 sample_rand)) = Ok ch"
  by (simp add: buildClientHello_def sample_rand_def length_publicKey_1 keyLen_def Let_def del: One_nat_def)

lemma sample_server_hello:
  "parseServerHello sample_hello =
     Ok \<lparr>ServerRandom = replicate 32 0, Cipher = 0, ServerGroup = groupSecP256R1, ServerPubKey = publicKey 1\<rparr>"
  unfolding sample_hello_def publicKey_def p256_mul_1 by code_simp

lemma sample_secret: "\<exists>s. mmtlsSecret (h_g1 sample_rand) (publicKey 1) = Ok s"
  by (simp add: mmtlsSecret_def newPublicKey_1 ecdh_def p256_mul_1 sample_rand_def p256_g_def del: One_nat_def)

lemma sample_flight: "flight_ok sample_msgs"
  by (simp add: flight_ok_def sample_msgs_def hsNewSessionTicket_def hsFinished_def)


definition sample_server :: "bytes \<Rightarrow> bytes \<Rightarrow> mmrecord list" where
  "sample_server ch s =
     (let shp = buildHandshake hsServerHello sample_hello; hk = deriveHandshakeKeys s (sha256 (ch @ shp)) in
      \<lparr>ContentType = ctHandshake, Payload = shp\<rparr> # seal_flight (ServerKey hk) (ServerIV hk) 1
        (map server_message sample_msgs
         @ [finished_message s (sha256 (ch @ shp @ concat (map server_message sample_msgs)))]))"

definition sample_conn :: "bytes \<Rightarrow> bytes \<Rightarrow> conn" where
  "sample_conn ch s = \<lparr>inbox = map RData (map (\<lambda>b. [b]) (concat (map record_bytes (sample_server ch s)))),
     wok = [True, True], sent = [], closed = False\<rparr>"

lemma concat_singletons: "concat (map (\<lambda>b. [b]) xs) = xs"
  by (induction xs) simp_all

lemma length_sample_hello: "length sample_hello = 107"
  by (simp add: sample_hello_def length_publicKey_1 del: One_nat_def)

theorem doHandshake_completes_witness:
  "\<exists>ch s m'. doHandshake sample_rand (newMmtlsClient (sample_conn ch s)) = (Ok (), m') \<and> m_secret m' = Some s"
proof -
  obtain ch where ch: "buildClientHello (h_random sample_rand) (h_time sample_rand)
      (publicKey (h_g1 sample_rand)) (publicKey (h_g2 sample_rand)) = Ok ch"
    using sample_client_hello by blast
  obtain s where s: "mmtlsSecret (h_g1 sample_rand) (publicKey 1) = Ok s" using sample_secret by blast
  have l: "length sample_hello < 0xff00" by (simp add: length_sample_hello)
  show ?thesis
    using doHandshake_completes [OF ch sample_server_hello _ l _ sample_flight refl refl refl refl,
        of s "map (\<lambda>b. [b]) (concat (map record_bytes (sample_server ch s)))" "[]"] s
    unfolding sample_conn_def by (auto simp: concat_singletons sample_server_def Let_def)
qed

theorem doHandshake_authenticates_witness:
  "\<exists>ch s m'. doHandshake sample_rand (newMmtlsClient (sample_conn ch s)) = (Ok (), m') \<and> authenticated m'"
proof -
  obtain ch where ch: "buildClientHello (h_random sample_rand) (h_time sample_rand)
      (publicKey (h_g1 sample_rand)) (publicKey (h_g2 sample_rand)) = Ok ch"
    using sample_client_hello by blast
  obtain s where s: "mmtlsSecret (h_g1 sample_rand) (publicKey 1) = Ok s" using sample_secret by blast
  have l: "length sample_hello < 0xff00" by (simp add: length_sample_hello)
  obtain m' where "doHandshake sample_rand (newMmtlsClient (sample_conn ch s)) = (Ok (), m')"
    using handshake_run [OF ch sample_server_hello _ l _ sample_flight refl refl refl refl,
        of s "map (\<lambda>b. [b]) (concat (map record_bytes (sample_server ch s)))" "[]"] s
    unfolding sample_conn_def by (auto simp: concat_singletons sample_server_def Let_def)
  then show ?thesis using doHandshake_authenticates by blast
qed

text \<open>A client whose server closes the connection right after the ClientHello.\<close>

definition lone_conn :: conn where
  "lone_conn = \<lparr>inbox = [], wok = [True], sent = [], closed = False\<rparr>"

lemma lone_start: "client_reachable (newMmtlsClient lone_conn)"
  unfolding client_reachable_def by (intro exI [of _ lone_conn]) (simp add: lone_conn_def)

lemma lone_handshake:
  "\<exists>m'. client_reachable m' \<and> length (sent (m_conn m')) = 1"
proof -
  obtain ch where ch: "buildClientHello (h_random sample_rand) (h_time sample_rand)
      (publicKey (h_g1 sample_rand)) (publicKey (h_g2 sample_rand)) = Ok ch"
    using sample_client_hello by blast
  from length_buildClientHello [OF ch] obtain b where b: "buildRecord ctHandshake ch = Ok b"
    by (simp add: buildRecord_def)
  obtain m1 where m1: "sendClientHello sample_rand (newMmtlsClient lone_conn) = (Ok (), m1)"
    "sent (m_conn m1) = [b]" "inbox (m_conn m1) = []" "m_rxbuf m1 = []" "m_recq m1 = []"
    using ch b
    by (simp add: sendClientHello_def m_buildClientHello_def generateECDH_def feed_def sendPlain_def
        act_bind_def sendRaw_def conn_Write_def newMmtlsClient_def lone_conn_def)
  have "parseRecords [] = ([], 0)" by code_simp
  then obtain e m2' where e: "nextRecord m1 = (Err e, m2')" "sent (m_conn m2') = [b]"
    using m1(2-5) by (simp add: nextRecord.simps [of m1])
  obtain g m2 where m2: "recvServerFlight m1 = (g, m2)" "sent (m_conn m2) = [b]" "\<forall>x. g \<noteq> Ok x"
    using e by (simp add: recvServerFlight_def recvServerHello_def recvPlain_def)
  have "\<exists>g. doHandshake sample_rand (newMmtlsClient lone_conn) = (g, m2)"
    using m1(1) m2(1,3) by (cases g) (simp_all add: doHandshake_def act_bind_def)
  then have "client_step (newMmtlsClient lone_conn) m2" by (auto intro: client_step.handshake)
  then have "client_reachable m2"
    unfolding client_reachable_def by (intro exI [of _ lone_conn]) (auto simp: lone_conn_def)
  with m2(2) show ?thesis by (intro exI [of _ m2]) simp
qed


theorem sendEncrypted_sequence_witness:
  "\<exists>m' c. sendEncrypted ctAppData [1] (replicate 16 0) (replicate 12 0) (newMmtlsClient lone_conn) = (Ok (), m')
     \<and> encryptRecordPayload (replicate 16 0) (replicate 12 0) 0 ctAppData [1] = Ok c
     \<and> sent (m_conn m') = [record_bytes \<lparr>ContentType = ctAppData, Payload = c\<rparr>]"
proof -
  have "record_key (replicate 16 0) (replicate 12 0)" by (simp add: record_key_def aes_key_ok_def)
  then obtain c where c: "encryptRecordPayload (replicate 16 0) (replicate 12 0) 0 ctAppData [1] = Ok c" "length c = 17"
    using encryptRecordPayload_Ok [of "replicate 16 0" "replicate 12 0" 0 ctAppData "[1]"] by auto
  obtain b where b: "buildRecord ctAppData c = Ok b" using c(2) by (simp add: buildRecord_def)
  obtain m' where m': "sendEncrypted ctAppData [1] (replicate 16 0) (replicate 12 0) (newMmtlsClient lone_conn) = (Ok (), m')"
    using c b by (simp add: sendEncrypted_def newMmtlsClient_def lone_conn_def act_bind_def sendRaw_def conn_Write_def)
  from sendEncrypted_sequence [OF lone_start m'] m' show ?thesis
    by (auto simp: newMmtlsClient_def lone_conn_def)
qed

end
