(* ===== verification/Go_Values.thy ===== *)
theory Go_Values
  imports Go_Strings
begin

text \<open>
  Values of Go's type \<open>any\<close> as the program sees them: what
  \<open>encoding/json\<close> decodes into an interface value, and what the program itself puts
  into a \<open>map[string]any\<close>.
\<close>

datatype int_kind = KInt | KInt32 | KInt64 | KUint | KUint32 | KUint64

datatype gval =
    GNil
  | GBool bool
  | GInt int_kind int
  | GFloat rat
  | GNumber string \<comment> \<open>json.Number\<close>
  | GRaw bytes \<comment> \<open>json.RawMessage\<close>
  | GStr string
  | GBytes bytes
  | GArr "gval list" \<comment> \<open>a []any\<close>
  | GArrs "gval list list" \<comment> \<open>a [][]any\<close>
  | GMaps "(string \<times> gval) list list" \<comment> \<open>a []map[string]any\<close>
  | GMap "(string \<times> gval) list"

type_synonym gmap = "(string \<times> gval) list"

text \<open>Reading a missing key of a \<open>map[string]any\<close> gives a nil interface.\<close>

definition gget :: "gmap \<Rightarrow> string \<Rightarrow> gval" where
  "gget m k = (case map_of m k of Some v \<Rightarrow> v | None \<Rightarrow> GNil)"

definition ghas :: "gmap \<Rightarrow> string \<Rightarrow> bool" where
  "ghas m k = (map_of m k \<noteq> None)"

fun as_map :: "gval \<Rightarrow> gmap option" where
  "as_map (GMap m) = Some m"
| "as_map _ = None"

fun as_str :: "gval \<Rightarrow> string option" where
  "as_str (GStr s) = Some s"
| "as_str _ = None"

fun as_arr :: "gval \<Rightarrow> gval list option" where
  "as_arr (GArr xs) = Some xs"
| "as_arr _ = None"

text \<open>
  \<open>int64(f)\<close> for a float64 truncates towards zero; outside the range of int64 the
  result is implementation-defined (the value of the x86-64 instruction is used).
\<close>

definition trunc_rat :: "rat \<Rightarrow> int" where
  "trunc_rat q = (if q < 0 then - floor (- q) else floor q)"

definition float_to_int64 :: "rat \<Rightarrow> int" where
  "float_to_int64 q =
     (let z = trunc_rat q in if min_int64 \<le> z \<and> z \<le> max_int64 then z else min_int64)"

text \<open>
  What \<open>json.Marshal\<close> followed by \<open>json.Unmarshal\<close> into an \<open>any\<close> does to an integer:
  it becomes the nearest float64 (53 bits of precision, ties to even).
\<close>

fun nat_log2 :: "nat \<Rightarrow> nat" where
  "nat_log2 n = (if n \<le> 1 then 0 else Suc (nat_log2 (n div 2)))"

declare nat_log2.simps [simp del]

definition round53 :: "nat \<Rightarrow> nat" where
  "round53 n =
     (let e = nat_log2 n - 52; m = n div 2 ^ e; r = n mod 2 ^ e in
      if 2 * r > 2 ^ e \<or> (2 * r = 2 ^ e \<and> e > 0 \<and> odd m) then (m + 1) * 2 ^ e else m * 2 ^ e)"

definition int_to_float :: "int \<Rightarrow> rat" where
  "int_to_float z = (if z < 0 then - rat_of_nat (round53 (nat (- z))) else rat_of_nat (round53 (nat z)))"

lemma nat_log2_less: "n < 2 ^ Suc k \<Longrightarrow> nat_log2 n \<le> k"
proof (induction n arbitrary: k rule: nat_log2.induct)
  case (1 n)
  show ?case
  proof (cases "n \<le> 1")
    case True
    then show ?thesis by (subst nat_log2.simps) simp
  next
    case False
    with "1.prems" have "k \<noteq> 0" by (cases k) auto
    then obtain j where k: "k = Suc j" by (cases k) auto
    from "1.prems" k have "n div 2 < 2 ^ Suc j" by (simp add: less_mult_imp_div_less)
    with "1.IH" [OF False] have "nat_log2 (n div 2) \<le> j" by blast
    with False k show ?thesis by (subst nat_log2.simps) simp
  qed
qed

lemma round53_exact: "n < 2 ^ 53 \<Longrightarrow> round53 n = n"
  using nat_log2_less [of n 52] by (simp add: round53_def)

lemma int_to_float_exact: "\<bar>z\<bar> < 2 ^ 53 \<Longrightarrow> float_to_int64 (int_to_float z) = z"
  by (auto simp: int_to_float_def float_to_int64_def trunc_rat_def round53_exact max_int64_def
      min_int64_def)

section \<open>Conversions the program defines on any\<close>

text \<open>\<open>stringAny\<close> of \<open>pool.go\<close>; \<open>stringFromAny\<close> of \<open>app.go\<close> has the same body.\<close>

definition stringAny :: "gval \<Rightarrow> string" where
  "stringAny v = (case as_str v of Some s \<Rightarrow> s | None \<Rightarrow> [])"

text \<open>\<open>json.Number.Int64\<close> is \<open>strconv.ParseInt\<close>; the error is dropped here.\<close>

fun int64FromAny :: "gval \<Rightarrow> int" where
  "int64FromAny (GInt KInt x) = x"
| "int64FromAny (GInt KInt64 x) = x"
| "int64FromAny (GFloat x) = float_to_int64 x"
| "int64FromAny (GNumber x) = fst (parseInt x)"
| "int64FromAny _ = 0"

end
