(* ===== verification/Proto_Map.thy ===== *)
theory Proto_Map
  imports Proto_Bytes Go_Values
begin

unbundle bit_operations_syntax

text \<open>
  The part of \<open>internal/protocol/bytes.go\<close> that turns a message of unknown shape into
  a \<open>map[string]any\<close>: \<open>protobufToMap\<close>, \<open>isPrintableShort\<close> and \<open>safeBytes\<close>.
\<close>

text \<open>
  The loop over the runes of a string rejects every rune below 32 or above 126 except
  line feed, carriage return and tab; a multi-byte rune is above 126, so the test can be
  made byte by byte.
\<close>

definition printable_byte :: "char \<Rightarrow> bool" where
  "printable_byte c =
     (let r = (of_char c :: nat) in r = 10 \<or> r = 13 \<or> r = 9 \<or> (32 \<le> r \<and> r < 127))"

definition isPrintableShort :: "string \<Rightarrow> bool" where
  "isPrintableShort s =
     (if length s > 0 \<and> prefix ''{'' s then True
      else if length s \<ge> 200 then False
      else list_all printable_byte s)"

definition hex_value :: "bytes \<Rightarrow> gval" where
  "hex_value raw = GMap [(''__bytes__'', GStr (hexEncode raw))]"

function protobufToMap_loop :: "bytes \<Rightarrow> nat \<Rightarrow> gmap \<Rightarrow> gmap go" where
  "protobufToMap_loop data i out =
     (if i < length data then
        (case readVarint data i of
           Ok (tag, ni) \<Rightarrow>
             (let fn = unat (drop_bit 3 tag); wt = tag AND 7; key = itoa (int fn) in
              if wt = 0 then
                (case readVarint data ni of
                   Ok (v, ni') \<Rightarrow>
                     protobufToMap_loop data ni' (AList.update key (GInt KUint64 (uint v)) out)
                 | _ \<Rightarrow> Ok out)
              else if wt = 2 then
                (case readVarint data ni of
                   Ok (l, ni') \<Rightarrow>
                     (let e = slice_end ni' l in
                      if e > int (length data) then Ok out
                      else if e < int ni' then Panic
                      else
                        let raw = slice data ni' (nat e) in
                        if utf8_valid raw then
                          (let s = string_of raw in
                           protobufToMap_loop data (nat e)
                             (AList.update key
                                (if isPrintableShort s then GStr s else hex_value raw) out))
                        else
                          go_bind (protobufToMap_loop raw 0 []) (\<lambda>sub.
                          protobufToMap_loop data (nat e)
                            (AList.update key
                               (if length sub > 0 then GMap sub else hex_value raw) out)))
                 | _ \<Rightarrow> Ok out)
              else Ok out)
         | _ \<Rightarrow> Ok out)
      else Ok out)"
  by pat_completeness auto
termination
  by (relation "measures [\<lambda>(data, i, out). length data, \<lambda>(data, i, out). length data - i]")
     (auto dest!: readVarint_bounds)

declare protobufToMap_loop.simps [simp del]

definition protobufToMap :: "bytes \<Rightarrow> gmap go" where
  "protobufToMap data = protobufToMap_loop data 0 []"

fun safeBytes :: "gval \<Rightarrow> bytes" where
  "safeBytes (GBytes b) = b"
| "safeBytes (GStr s) = bytes_of s"
| "safeBytes _ = []"

text \<open>The entry of a message map as a value of type \<open>any\<close>, and the lookup that
  \<open>fields[k].([]byte)\<close> performs.\<close>

fun pb_any :: "pbval \<Rightarrow> gval" where
  "pb_any (PInt v) = GInt KInt64 (sint v)"
| "pb_any (PBytes b) = GBytes b"

definition pbget :: "pbmap \<Rightarrow> nat \<Rightarrow> gval" where
  "pbget m k = (case map_of m k of Some v \<Rightarrow> pb_any v | None \<Rightarrow> GNil)"

definition pb_bytes :: "pbmap \<Rightarrow> nat \<Rightarrow> bytes option" where
  "pb_bytes m k = (case map_of m k of Some (PBytes b) \<Rightarrow> Some b | _ \<Rightarrow> None)"

definition pb_int :: "pbmap \<Rightarrow> nat \<Rightarrow> int option" where
  "pb_int m k = (case map_of m k of Some (PInt v) \<Rightarrow> Some (sint v) | _ \<Rightarrow> None)"

end
