(* ===== verification/Go_Json.thy ===== *)
theory Go_Json
  imports Go_Values "HOL-Library.List_Lexorder" "HOL-Library.Char_ord"
begin

unbundle bit_operations_syntax

text \<open>
  The parts of \<open>encoding/json\<close> that the program uses: \<open>Valid\<close>, \<open>Unmarshal\<close> into an
  \<open>any\<close> or a \<open>map[string]any\<close>, and \<open>Marshal\<close> of such values. Numbers become float64
  values, kept as rationals that a float64 can hold.
\<close>

section \<open>Strings\<close>

text \<open>The length of the well-formed UTF-8 sequence at the head of a byte string.\<close>

definition rune_len :: "bytes \<Rightarrow> nat option" where
  "rune_len s =
     (if s \<noteq> [] \<and> utf8_valid (take 1 s) then Some 1
      else if length s \<ge> 2 \<and> utf8_valid (take 2 s) then Some 2
      else if length s \<ge> 3 \<and> utf8_valid (take 3 s) then Some 3
      else if length s \<ge> 4 \<and> utf8_valid (take 4 s) then Some 4 else None)"

definition replacement :: bytes where "replacement = [0xEF, 0xBF, 0xBD]"

text \<open>Each byte that starts no well-formed sequence becomes U+FFFD.\<close>

function utf8_repair :: "bytes \<Rightarrow> bytes" where
  "utf8_repair s =
     (if s = [] then []
      else case rune_len s of
        Some n \<Rightarrow> take n s @ utf8_repair (drop n s)
      | None \<Rightarrow> replacement @ utf8_repair (tl s))"
  by pat_completeness auto
termination
  by (relation "measure length") (auto simp: rune_len_def split: if_splits)

declare utf8_repair.simps [simp del]

definition utf8_encode :: "nat \<Rightarrow> bytes" where
  "utf8_encode r =
     (if r < 0x80 then [word_of_nat r]
      else if r < 0x800 then [word_of_nat (0xC0 + r div 64), word_of_nat (0x80 + r mod 64)]
      else if r < 0x10000 then
        [word_of_nat (0xE0 + r div 4096), word_of_nat (0x80 + r div 64 mod 64),
         word_of_nat (0x80 + r mod 64)]
      else
        [word_of_nat (0xF0 + r div 262144), word_of_nat (0x80 + r div 4096 mod 64),
         word_of_nat (0x80 + r div 64 mod 64), word_of_nat (0x80 + r mod 64)])"

fun hex4 :: "string \<Rightarrow> nat option" where
  "hex4 [a, b, c, d] =
     (case (hex_val a, hex_val b, hex_val c, hex_val d) of
        (Some w, Some x, Some y, Some z) \<Rightarrow> Some (((w * 16 + x) * 16 + y) * 16 + z)
      | _ \<Rightarrow> None)"
| "hex4 _ = None"

definition simple_escape :: "char \<Rightarrow> byte option" where
  "simple_escape c =
     (if c = CHR ''\"'' then Some 0x22 else if c = CHR 0x5C then Some 0x5C
      else if c = CHR ''/'' then Some 0x2F else if c = CHR ''b'' then Some 8
      else if c = CHR ''f'' then Some 12 else if c = CHR ''n'' then Some 10
      else if c = CHR ''r'' then Some 13 else if c = CHR ''t'' then Some 9 else None)"

text \<open>
  The characters of a string literal after its opening quote: the bytes and the rest of
  the text. A surrogate that is not half of a pair becomes U+FFFD.
\<close>

fun json_chars :: "nat \<Rightarrow> string \<Rightarrow> (bytes \<times> string) option" where
  "json_chars 0 s = None"
| "json_chars (Suc f) [] = None"
| "json_chars (Suc f) (c # s) =
     (if c = CHR ''\"'' then Some ([], s)
      else if of_char c < (0x20 :: nat) then None
      else if c = CHR 0x5C then
        (case s of
           [] \<Rightarrow> None
         | e # s1 \<Rightarrow>
             if e = CHR ''u'' then
               (case hex4 (take 4 s1) of
                  None \<Rightarrow> None
                | Some r \<Rightarrow>
                    (let s2 = drop 4 s1 in
                     if 0xD800 \<le> r \<and> r < 0xE000 then
                       (case (if take 2 s2 = [CHR 0x5C, CHR ''u''] then hex4 (slice s2 2 6) else None) of
                          Some r2 \<Rightarrow>
                            if r < 0xDC00 \<and> 0xDC00 \<le> r2 \<and> r2 < 0xE000
                            then map_option (apfst ((@) (utf8_encode
                                   (0x10000 + (r - 0xD800) * 0x400 + (r2 - 0xDC00)))))
                                   (json_chars f (drop 6 s2))
                            else map_option (apfst ((@) replacement)) (json_chars f s2)
                        | None \<Rightarrow> map_option (apfst ((@) replacement)) (json_chars f s2))
                     else map_option (apfst ((@) (utf8_encode r))) (json_chars f s2)))
             else
               (case simple_escape e of
                  None \<Rightarrow> None
                | Some b \<Rightarrow> map_option (apfst ((#) b)) (json_chars f s1)))
      else map_option (apfst ((#) (of_char c))) (json_chars f s))"

definition json_string :: "string \<Rightarrow> (string \<times> string) option" where
  "json_string s = map_option (apfst (\<lambda>b. string_of (utf8_repair b))) (json_chars (length s) s)"

section \<open>Numbers\<close>

fun int_log2 :: "nat \<Rightarrow> rat \<Rightarrow> int" where
  "int_log2 0 q = 0"
| "int_log2 (Suc f) q =
     (if q \<ge> 2 then 1 + int_log2 f (q / 2) else if q < 1 then int_log2 f (q * 2) - 1 else 0)"

definition pow2 :: "int \<Rightarrow> rat" where
  "pow2 e = (if e < 0 then 1 / 2 ^ nat (- e) else 2 ^ nat e)"

definition round_even :: "rat \<Rightarrow> int" where
  "round_even q =
     (let f = floor q; d = q - of_int f in
      if d > 1 / 2 \<or> (d = 1 / 2 \<and> odd f) then f + 1 else f)"

text \<open>
  The float64 nearest to a rational, ties to even, with gradual underflow; None beyond the
  largest float64. The fuel bounds the exponent search.
\<close>

definition round_float :: "rat \<Rightarrow> rat option" where
  "round_float q =
     (if q = 0 then Some 0
      else
        let a = abs q;
            e = max (int_log2 3000 a) (-1022);
            u = pow2 (e - 52);
            r = of_int (round_even (a / u)) * u in
        if r \<ge> 2 ^ 1024 then None else Some (if q < 0 then - r else r))"

fun span_digits :: "string \<Rightarrow> string \<times> string" where
  "span_digits [] = ([], [])"
| "span_digits (c # s) =
     (if isDigitChar c then (case span_digits s of (d, r) \<Rightarrow> (c # d, r)) else ([], c # s))"

definition digits_int :: "string \<Rightarrow> int" where
  "digits_int s = foldl (\<lambda>a c. 10 * a + (case digit_val c of Some d \<Rightarrow> int d | None \<Rightarrow> 0)) 0 s"

text \<open>The number at the head of a text: sign, integer part, fraction and exponent.\<close>

definition json_number :: "string \<Rightarrow> (rat \<times> string) option" where
  "json_number s0 =
     (let (neg, s) = (case s0 of c # r \<Rightarrow> if c = CHR ''-'' then (True, r) else (False, s0)
                      | [] \<Rightarrow> (False, s0));
          (ip, s) = (case s of c # r \<Rightarrow> if c = CHR ''0'' then ([c], r) else span_digits s
                     | [] \<Rightarrow> ([], s)) in
      if ip = [] then None
      else
        let (fp, s, bad) = (case s of c # r \<Rightarrow>
              if c = CHR ''.'' then (case span_digits r of (d, r') \<Rightarrow> (d, r', d = []))
              else ([], s, False) | [] \<Rightarrow> ([], s, False));
            (ex, s, bad2) = (case s of c # r \<Rightarrow>
              if c = CHR ''e'' \<or> c = CHR ''E'' then
                (let (en, r) = (case r of d # r' \<Rightarrow>
                       if d = CHR ''-'' then (True, r') else if d = CHR ''+'' then (False, r')
                       else (False, r) | [] \<Rightarrow> (False, r));
                     (d, r') = span_digits r;
                     v = digits_int d in
                 (if en then - v else v, r', d = []))
              else (0, s, False) | [] \<Rightarrow> (0, s, False));
            m = rat_of_int (digits_int (ip @ fp));
            k = ex - int (length fp);
            v = (if k < 0 then m / 10 ^ nat (- k) else m * 10 ^ nat k) in
        if bad \<or> bad2 then None else Some (if neg then - v else v, s))"

section \<open>Unmarshal\<close>

fun skip_ws :: "string \<Rightarrow> string" where
  "skip_ws (c # s) =
     (if of_char c \<in> {0x20, 9, 10, 13 :: nat} then skip_ws s else c # s)"
| "skip_ws [] = []"

text \<open>
  The parser. Its first argument is fuel (twice the length of the text is enough, as every
  second call consumes a character); the second counts the nesting, which Go limits.
  Numbers keep their exact value here, and whether they are written as a whole number.
\<close>

definition json_literal :: "string \<Rightarrow> (gval \<times> string) option" where
  "json_literal s =
     (case json_number s of
        None \<Rightarrow> None
      | Some (q, r) \<Rightarrow>
          Some (if list_all (\<lambda>c. isDigitChar c \<or> c = CHR ''-'') (take (length s - length r) s)
                then GInt KInt64 \<lfloor>q\<rfloor> else GFloat q, r))"

fun json_value :: "nat \<Rightarrow> nat \<Rightarrow> string \<Rightarrow> (gval \<times> string) option"
  and json_elems :: "nat \<Rightarrow> nat \<Rightarrow> string \<Rightarrow> (gval list \<times> string) option"
  and json_members :: "nat \<Rightarrow> nat \<Rightarrow> string \<Rightarrow> (gmap \<times> string) option" where
  "json_value 0 d s = None"
| "json_value (Suc f) d s =
     (case skip_ws s of
        [] \<Rightarrow> None
      | c # r \<Rightarrow>
          if c = CHR ''{'' then
            (if d \<ge> 10000 then None
             else case skip_ws r of
               c2 # r2 \<Rightarrow> if c2 = CHR ''}'' then Some (GMap [], r2)
                         else map_option (apfst GMap) (json_members f (Suc d) r)
             | [] \<Rightarrow> None)
          else if c = CHR ''['' then
            (if d \<ge> 10000 then None
             else case skip_ws r of
               c2 # r2 \<Rightarrow> if c2 = CHR '']'' then Some (GArr [], r2)
                         else map_option (apfst GArr) (json_elems f (Suc d) r)
             | [] \<Rightarrow> None)
          else if c = CHR ''\"'' then map_option (apfst GStr) (json_string r)
          else if prefix ''true'' (c # r) then Some (GBool True, drop 4 (c # r))
          else if prefix ''false'' (c # r) then Some (GBool False, drop 5 (c # r))
          else if prefix ''null'' (c # r) then Some (GNil, drop 4 (c # r))
          else json_literal (c # r))"
| "json_elems 0 d s = None"
| "json_elems (Suc f) d s =
     (case json_value f d s of
        None \<Rightarrow> None
      | Some (v, r) \<Rightarrow>
          (case skip_ws r of
             [] \<Rightarrow> None
           | c # r2 \<Rightarrow>
               if c = CHR '']'' then Some ([v], r2)
               else if c = CHR '','' then map_option (apfst ((#) v)) (json_elems f d r2)
               else None))"
| "json_members 0 d s = None"
| "json_members (Suc f) d s =
     (case skip_ws s of
        [] \<Rightarrow> None
      | q # r \<Rightarrow>
          if q \<noteq> CHR ''\"'' then None
          else case json_string r of
            None \<Rightarrow> None
          | Some (k, r1) \<Rightarrow>
              (case skip_ws r1 of
                 [] \<Rightarrow> None
               | c # r2 \<Rightarrow>
                   if c \<noteq> CHR '':'' then None
                   else case json_value f d r2 of
                     None \<Rightarrow> None
                   | Some (v, r3) \<Rightarrow>
                       (case skip_ws r3 of
                          [] \<Rightarrow> None
                        | c3 # r4 \<Rightarrow>
                            if c3 = CHR ''}'' then Some ([(k, v)], r4)
                            else if c3 = CHR '','' then map_option (apfst ((#) (k, v))) (json_members f d r4)
                            else None)))"

definition json_parse :: "bytes \<Rightarrow> gval option" where
  "json_parse b =
     (let s = string_of b in
      case json_value (2 * length s + 2) 0 s of
        Some (v, r) \<Rightarrow> if skip_ws r = [] then Some v else None
      | None \<Rightarrow> None)"

definition json_Valid :: "bytes \<Rightarrow> bool" where
  "json_Valid b = (json_parse b \<noteq> None)"

text \<open>
  The value that \<open>Unmarshal\<close> stores: of two members with the same key the last one wins,
  and numbers are rounded to float64; a number out of range is an error.
\<close>

fun json_store :: "gval \<Rightarrow> gval option"
  and json_store_list :: "gval list \<Rightarrow> gval list option"
  and json_store_members :: "gmap \<Rightarrow> gmap \<Rightarrow> gmap option" where
  "json_store (GFloat q) = map_option GFloat (round_float q)"
| "json_store (GInt k z) = map_option GFloat (round_float (of_int z))"
| "json_store (GArr xs) = map_option GArr (json_store_list xs)"
| "json_store (GMap m) = map_option GMap (json_store_members m [])"
| "json_store v = Some v"
| "json_store_list [] = Some []"
| "json_store_list (x # xs) =
     (case json_store x of None \<Rightarrow> None | Some y \<Rightarrow> map_option ((#) y) (json_store_list xs))"
| "json_store_members [] acc = Some acc"
| "json_store_members ((k, v) # m) acc =
     (case json_store v of None \<Rightarrow> None | Some w \<Rightarrow> json_store_members m (AList.update k w acc))"

definition json_Unmarshal_any :: "bytes \<Rightarrow> gval option" where
  "json_Unmarshal_any b = (case json_parse b of None \<Rightarrow> None | Some v \<Rightarrow> json_store v)"

text \<open>
  \<open>var out map[string]any; json.Unmarshal(b, &out)\<close>: an object, or the literal null,
  which leaves the nil map (\<open>Some None\<close>).
\<close>

definition json_Unmarshal_map :: "bytes \<Rightarrow> gmap option option" where
  "json_Unmarshal_map b =
     (case json_Unmarshal_any b of
        Some (GMap m) \<Rightarrow> Some (Some m)
      | Some GNil \<Rightarrow> Some None
      | _ \<Rightarrow> None)"

section \<open>Marshal\<close>

definition u_escape :: "nat \<Rightarrow> bytes" where
  "u_escape r = [0x5C, 0x75] @ map of_char
     [hex_char (r div 4096), hex_char (r div 256 mod 16), hex_char (r div 16 mod 16), hex_char (r mod 16)]"

text \<open>One byte below 128 inside a string literal (with the HTML escapes of \<open>Marshal\<close>).\<close>

definition ascii_escape :: "byte \<Rightarrow> bytes" where
  "ascii_escape b =
     (if b = 0x22 \<or> b = 0x5C then [0x5C, b]
      else if b = 8 then [0x5C, 0x62] else if b = 12 then [0x5C, 0x66]
      else if b = 10 then [0x5C, 0x6E] else if b = 13 then [0x5C, 0x72]
      else if b = 9 then [0x5C, 0x74]
      else if b < 0x20 \<or> b = 0x3C \<or> b = 0x3E \<or> b = 0x26 then u_escape (unat b)
      else [b])"

function json_escape :: "bytes \<Rightarrow> bytes" where
  "json_escape s =
     (if s = [] then []
      else if hd s < 0x80 then ascii_escape (hd s) @ json_escape (tl s)
      else case rune_len s of
        None \<Rightarrow> u_escape 0xFFFD @ json_escape (tl s)
      | Some n \<Rightarrow>
          (if take n s = [0xE2, 0x80, 0xA8] then u_escape 0x2028
           else if take n s = [0xE2, 0x80, 0xA9] then u_escape 0x2029 else take n s)
          @ json_escape (drop n s))"
  by pat_completeness auto
termination
  by (relation "measure length") (auto simp: rune_len_def split: if_splits)

declare json_escape.simps [simp del]

definition json_quote :: "string \<Rightarrow> string" where
  "json_quote s = string_of ([0x22] @ json_escape (bytes_of s) @ [0x22])"

fun int_log10 :: "nat \<Rightarrow> rat \<Rightarrow> int" where
  "int_log10 0 q = 0"
| "int_log10 (Suc f) q =
     (if q \<ge> 10 then 1 + int_log10 f (q / 10) else if q < 1 then int_log10 f (q * 10) - 1 else 0)"

definition pow10 :: "int \<Rightarrow> rat" where
  "pow10 e = (if e < 0 then 1 / 10 ^ nat (- e) else 10 ^ nat e)"

fun int_digits :: "nat \<Rightarrow> int \<Rightarrow> string" where
  "int_digits 0 v = []"
| "int_digits (Suc f) v =
     (if v < 10 then [char_of (48 + nat v)] else int_digits f (v div 10) @ [char_of (48 + nat (v mod 10))])"

text \<open>
  The shortest decimal digits that are read back as the same float64, and the decimal
  exponent of the first one.
\<close>

definition shortest :: "rat \<Rightarrow> string \<times> int" where
  "shortest a =
     (let k = int_log10 700 a;
          ok = (\<lambda>n. let u = pow10 (k - int n + 1) in
                 round_float (of_int (round_even (a / u)) * u) = Some a);
          n = (case filter ok [1..<18] of n # _ \<Rightarrow> n | [] \<Rightarrow> 17);
          u = pow10 (k - int n + 1) in
      (int_digits 20 (round_even (a / u)), k))"

definition fmt_float :: "rat \<Rightarrow> string" where
  "fmt_float q =
     (if q = 0 then ''0''
      else
        let a = abs q; (ds, k) = shortest a; n = length ds;
            body =
              (if a < 1 / 1000000 \<or> a \<ge> 10 ^ 21 then
                 take 1 ds @ (if n > 1 then ''.'' @ drop 1 ds else []) @ ''e''
                 @ (if k < 0 then ''-'' else ''+'') @ int_digits 4 (abs k)
               else if k < 0 then ''0.'' @ replicate (nat (- k) - 1) (CHR ''0'') @ ds
               else if nat k + 1 \<ge> n then ds @ replicate (nat k + 1 - n) (CHR ''0'')
               else take (nat k + 1) ds @ ''.'' @ drop (nat k + 1) ds) in
        if q < 0 then ''-'' @ body else body)"

definition b64_char :: "nat \<Rightarrow> char" where
  "b64_char n =
     (if n < 26 then char_of (65 + n) else if n < 52 then char_of (71 + n)
      else if n < 62 then char_of (n - 4) else if n = 62 then CHR ''+'' else CHR ''/'')"

fun b64Encode :: "bytes \<Rightarrow> string" where
  "b64Encode [] = []"
| "b64Encode [a] =
     (let v = unat a * 16 in [b64_char (v div 64), b64_char (v mod 64), CHR ''='', CHR ''=''])"
| "b64Encode [a, b] =
     (let v = (unat a * 256 + unat b) * 4 in
      [b64_char (v div 4096), b64_char (v div 64 mod 64), b64_char (v mod 64), CHR ''=''])"
| "b64Encode (a # b # c # s) =
     (let v = (unat a * 256 + unat b) * 256 + unat c in
      [b64_char (v div 262144), b64_char (v div 4096 mod 64), b64_char (v div 64 mod 64), b64_char (v mod 64)]
      @ b64Encode s)"

fun comma_sep :: "string list \<Rightarrow> string" where
  "comma_sep [] = []"
| "comma_sep [x] = x"
| "comma_sep (x # xs) = x @ '','' @ comma_sep xs"

definition json_object :: "(string \<times> string) list \<Rightarrow> string" where
  "json_object m =
     ''{'' @ comma_sep (map (\<lambda>(k, v). json_quote k @ '':'' @ v) (sort_key fst m)) @ ''}''"

definition json_array :: "string list \<Rightarrow> string" where
  "json_array xs = ''['' @ comma_sep xs @ '']''"

text \<open>
  A raw message is written as it stands (\<open>Marshal\<close> would also drop white space between
  its tokens).
\<close>

fun json_text :: "gval \<Rightarrow> string"
  and json_texts :: "gval list \<Rightarrow> string list"
  and json_member_texts :: "gmap \<Rightarrow> (string \<times> string) list"
  and json_row_texts :: "gval list list \<Rightarrow> string list"
  and json_map_texts :: "gmap list \<Rightarrow> string list" where
  "json_text GNil = ''null''"
| "json_text (GBool b) = (if b then ''true'' else ''false'')"
| "json_text (GInt k z) = itoa z"
| "json_text (GFloat q) = fmt_float q"
| "json_text (GNumber s) = (if s = [] then ''0'' else s)"
| "json_text (GRaw b) = string_of b"
| "json_text (GStr s) = json_quote s"
| "json_text (GBytes b) = CHR 0x22 # b64Encode b @ [CHR 0x22]"
| "json_text (GArr xs) = json_array (json_texts xs)"
| "json_text (GArrs xss) = json_array (json_row_texts xss)"
| "json_text (GMaps ms) = json_array (json_map_texts ms)"
| "json_text (GMap m) = json_object (json_member_texts m)"
| "json_texts [] = []"
| "json_texts (x # xs) = json_text x # json_texts xs"
| "json_member_texts [] = []"
| "json_member_texts ((k, v) # m) = (k, json_text v) # json_member_texts m"
| "json_row_texts [] = []"
| "json_row_texts (r # rs) = json_array (json_texts r) # json_row_texts rs"
| "json_map_texts [] = []"
| "json_map_texts (m # ms) = json_object (json_member_texts m) # json_map_texts ms"

definition json_Marshal :: "gval \<Rightarrow> bytes" where
  "json_Marshal v = bytes_of (json_text v)"

section \<open>Marshal and back\<close>

text \<open>
  The value that \<open>Unmarshal\<close> gives for the text that \<open>Marshal\<close> wrote: integers come back
  as the nearest float64, the nested slices as \<open>[]any\<close>, byte slices as base64 text, and
  ill-formed UTF-8 is repaired.
\<close>

definition json_norm_string :: "string \<Rightarrow> string" where
  "json_norm_string s = string_of (utf8_repair (bytes_of s))"

fun json_norm :: "gval \<Rightarrow> gval"
  and json_norm_list :: "gval list \<Rightarrow> gval list"
  and json_norm_members :: "gmap \<Rightarrow> gmap"
  and json_norm_rows :: "gval list list \<Rightarrow> gval list"
  and json_norm_maps :: "gmap list \<Rightarrow> gval list" where
  "json_norm GNil = GNil"
| "json_norm (GBool b) = GBool b"
| "json_norm (GInt k z) = GFloat (int_to_float z)"
| "json_norm (GFloat q) = GFloat q"
| "json_norm (GNumber s) =
     (case json_number s of
        Some (q, _) \<Rightarrow> (case round_float q of Some r \<Rightarrow> GFloat r | None \<Rightarrow> GNil) | None \<Rightarrow> GNil)"
| "json_norm (GRaw b) = (case json_Unmarshal_any b of Some v \<Rightarrow> v | None \<Rightarrow> GNil)"
| "json_norm (GStr s) = GStr (json_norm_string s)"
| "json_norm (GBytes b) = GStr (b64Encode b)"
| "json_norm (GArr xs) = GArr (json_norm_list xs)"
| "json_norm (GArrs xss) = GArr (json_norm_rows xss)"
| "json_norm (GMaps ms) = GArr (json_norm_maps ms)"
| "json_norm (GMap m) = GMap (json_norm_members m)"
| "json_norm_list [] = []"
| "json_norm_list (x # xs) = json_norm x # json_norm_list xs"
| "json_norm_members [] = []"
| "json_norm_members ((k, v) # m) = (json_norm_string k, json_norm v) # json_norm_members m"
| "json_norm_rows [] = []"
| "json_norm_rows (r # rs) = GArr (json_norm_list r) # json_norm_rows rs"
| "json_norm_maps [] = []"
| "json_norm_maps (m # ms) = GMap (json_norm_members m) # json_norm_maps ms"

text \<open>Text that is well-formed UTF-8 is left alone; ASCII text is well-formed.\<close>

definition ascii :: "string \<Rightarrow> bool" where
  "ascii s \<longleftrightarrow> (\<forall>c \<in> set s. of_char c < (128 :: nat))"

lemma ascii_simps [simp]:
  "ascii []" "ascii (c # s) \<longleftrightarrow> of_char c < (128 :: nat) \<and> ascii s" "ascii (s @ t) \<longleftrightarrow> ascii s \<and> ascii t"
  by (auto simp: ascii_def)

lemma ascii_byte: "of_char c < (128 :: nat) \<Longrightarrow> (of_char c :: byte) < 0x80"
  by (simp add: of_char_word word_less_nat_alt unat_of_nat)

lemma utf8_repair_ascii: "ascii s \<Longrightarrow> utf8_repair (bytes_of s) = bytes_of s"
proof (induction s)
  case Nil
  then show ?case by (simp add: bytes_of_def utf8_repair.simps)
next
  case (Cons c s)
  then have "(of_char c :: byte) < 0x80" by (simp add: ascii_byte)
  then have "rune_len (bytes_of (c # s)) = Some 1" by (simp add: rune_len_def bytes_of_def)
  with Cons show ?case
    by (subst utf8_repair.simps) (simp add: bytes_of_def)
qed

lemma json_norm_ascii [simp]: "ascii s \<Longrightarrow> json_norm_string s = s"
  by (simp add: json_norm_string_def utf8_repair_ascii)

lemma ascii_nat_digits: "ascii (nat_digits n)"
proof (induction n rule: nat_digits.induct)
  case (1 n)
  show ?case
    by (subst nat_digits.simps) (use 1 in \<open>auto simp: of_char_of\<close>)
qed

lemma ascii_hexEncode [simp]: "ascii (hexEncode b)"
proof -
  have h: "of_char (hex_char n) < (128 :: nat)" if "n < 16" for n
    using that by (simp add: hex_char_def)
  have "unat x div 16 < 16" "unat x mod 16 < 16" for x :: byte
    using unat_byte_less [of x] by simp_all
  then show ?thesis by (induction b) (auto simp: hexEncode_def h)
qed

end
