(* ===== verification/Ilink.thy ===== *)
theory Ilink
  imports Mmtls_Client Proto_Map Go_Json
begin

unbundle bit_operations_syntax

text \<open>
  Model of \<open>internal/protocol/ilink.go\<close>: the messages of the login over LongLink and of
  the calls over ShortLink. Everything the code draws at random is an argument. A
  \<open>map[int]\<close> is an association list with distinct keys.
\<close>

section \<open>Constants and data\<close>

definition clientVersion :: u64 where "clientVersion = 524545"
definition appVersion :: u64 where "appVersion = 1901"
definition transferCmd :: u32 where "transferCmd = 0x0b41"
definition jsLoginCmdID :: u64 where "jsLoginCmdID = 1029"
definition phoneCmdID :: u64 where "phoneCmdID = 1020"
definition operateCmdID :: u64 where "operateCmdID = 1133"
definition sessClientVer :: u64 where "sessClientVer = 1661404927"

definition serverPub :: bytes where
  "serverPub = fst (hexDecode
     (''04ef87876d6478b15f1796eab12068610541173b7176b67f1dcc86683e901acd44'' @
      ''d18b4ac36938251d0812dd0cf842aa2d6cbb8115712d1c0087dcefc14a44cd58''))"

definition hostAppIDDefault :: bytes where "hostAppIDDefault = bytes_of ''wxd44977328b36e647''"
definition ilinkDevice :: bytes where "ilinkDevice = bytes_of ''ilinkapp_060000b7b93f6c''"
definition transferURL :: bytes where "transferURL = bytes_of ''/ilink/ilinkapp/mp/wxaruntime_transfer''"
definition transferHost :: bytes where "transferHost = bytes_of ''shortcloud.weixin.com''"
definition jsLoginURL :: bytes where "jsLoginURL = bytes_of ''/cgi-bin/mmbiz-bin/js-login''"
definition phoneURL :: bytes where "phoneURL = bytes_of ''/cgi-bin/mmbiz-bin/js-getuserwxphone''"
definition operateURL :: bytes where "operateURL = bytes_of ''/cgi-bin/mmbiz-bin/js-operatewxdata''"
definition windowsPlugin :: bytes where "windowsPlugin = bytes_of ''WindowsxWebPlugin''"
definition windowsName :: bytes where "windowsName = bytes_of ''Windows''"
definition unifiedPCWindows :: bytes where "unifiedPCWindows = bytes_of ''UnifiedPCWindows''"
definition sessionKeyLiteral :: bytes where "sessionKeyLiteral = bytes_of ''sessionkey''"

record loginMeta =
  l_Ticket :: bytes
  l_DeviceID :: bytes
  l_HostAppID :: bytes
  l_Raw :: bytes

record manualAuthTemp =
  t_Ephemeral :: "nat option"
  t_OKM :: bytes
  t_CompBody :: bytes

record AppSession =
  s_SendKey :: bytes
  s_RecvKey :: bytes
  s_F9 :: bytes
  s_UIN :: int
  s_Ticket :: bytes
  s_DeviceID :: bytes
  s_HostAppID :: bytes

section \<open>Login request\<close>

definition parseLoginBuffer :: "string \<Rightarrow> loginMeta go" where
  "parseLoginBuffer loginBufferB64 =
     go_bind (of_opt (Errorf ''illegal base64 data'') (b64Decode loginBufferB64)) (\<lambda>raw.
     go_bind (pbParse raw) (\<lambda>fields.
       (case (pb_bytes fields 1, pb_bytes fields 2) of
          (Some ticket, Some device) \<Rightarrow>
            if length ticket = 0 \<or> length device = 0
            then Err (Errorf ''login_buffer missing ticket or device_id'')
            else
              let meta = \<lparr>l_Ticket = ticket, l_DeviceID = device, l_HostAppID = [], l_Raw = raw\<rparr> in
              Ok (case pb_bytes fields 3 of
                    Some host \<Rightarrow> meta\<lparr>l_HostAppID := host\<rparr> | None \<Rightarrow> meta)
        | _ \<Rightarrow> Err (Errorf ''login_buffer missing ticket or device_id''))))"

text \<open>\<open>%02X\<close> of a byte; \<open>randomSessDevice\<close> on the six bytes it draws.\<close>

definition upper_hex :: "byte \<Rightarrow> string" where
  "upper_hex b =
     (let d = (\<lambda>n :: nat. if n < 10 then char_of (48 + n) else char_of (55 + n)) in
      [d (unat b div 16), d (unat b mod 16)])"

fun dash_sep :: "string list \<Rightarrow> string" where
  "dash_sep [] = []"
| "dash_sep [x] = x"
| "dash_sep (x # xs) = x @ ''-'' @ dash_sep xs"

definition randomSessDevice :: "bytes \<Rightarrow> bytes" where
  "randomSessDevice mac =
     (let mac = mac[0 := ((mac ! 0) OR 0x02) AND 0xfe] in
      bytes_of (dash_sep (map upper_hex mac)))"

definition buildManualAuthRequest :: "string \<Rightarrow> bytes \<Rightarrow> bytes go" where
  "buildManualAuthRequest loginBufferB64 appDeviceID =
     go_bind (parseLoginBuffer loginBufferB64) (\<lambda>meta.
       let appBase = pbLen 1 appDeviceID @ pbVar 2 appVersion;
           thirdApp = pbLen 1 (l_Ticket meta) in
       Ok (pbLen 1 appBase @ pbLen 3 thirdApp @ pbVar 4 4 @ pbLen 6 [] @ pbVar 7 0 @ pbVar 8 6))"

definition wpkgHead :: "(nat \<times> u64) list \<Rightarrow> (nat \<times> bytes) list \<Rightarrow> bytes" where
  "wpkgHead ints byts =
     (let out = varint 1
            @ concat (map (\<lambda>k. varint (word_of_nat k) @ varint (the (map_of ints k))) (sort (map fst ints)))
            @ varint 0
            @ concat (map (\<lambda>k. let v = the (map_of byts k) in
                 varint (word_of_nat k) @ varint (word_of_nat (length v)) @ v) (sort (map fst byts)));
          prefixLen = length out in
      out @ [0] @ varint (word_of_nat (prefixLen + 1)))"

definition manualAuthHead :: "bytes \<Rightarrow> bytes" where
  "manualAuthHead deviceID =
     wpkgHead
       [(1, 1), (2, 0), (3, 0), (4, 0), (5, clientVersion), (6, 11), (7, 0), (8, 0), (9, 0),
        (10, 1), (11, 0), (12, 0), (13, 0), (17, 0), (18, 1), (20, 1504), (21, 0), (22, 0), (23, 0),
        (25, 17), (26, 4), (28, 1), (29, 1), (30, 0)]
       [(14, []), (24, deviceID), (27, [])]"

text \<open>
  What \<open>hybridECDHEncrypt\<close> draws: the ephemeral scalar, the content key and the nonces of
  its two ciphertexts. The result is the request and the state kept for the answer.
\<close>

record hybrid_rand =
  r_eph :: nat
  r_cek :: bytes
  r_iv1 :: bytes
  r_iv2 :: bytes

definition hybridECDHEncrypt :: "hybrid_rand \<Rightarrow> bytes \<Rightarrow> bytes \<Rightarrow> (bytes \<times> manualAuthTemp) go" where
  "hybridECDHEncrypt rnd plaintext srvPub =
     go_bind (generateECDH (r_eph rnd)) (\<lambda>(eph, ephPub).
     go_bind (of_opt ecdh_err (newPublicKey srvPub)) (\<lambda>srv.
     go_bind (of_opt ecdh_err (ecdh eph srv)) (\<lambda>shared.
       let secret = sha256 shared;
           hash1 = sha256 (bytes_of ''1'' @ bytes_of ''415'' @ ephPub);
           cek = r_cek rnd in
     go_bind (aesGCMEncryptLayout (r_iv1 rnd) (take 24 secret) hash1 cek) (\<lambda>encCEK.
       let prk = hkdfExtract ilinkHKDFSalt cek;
           okm = hkdfExpand prk hash1 56;
           hash2 = sha256 (bytes_of ''1'' @ bytes_of ''415'' @ ephPub @ encCEK);
           compd = lz4AllLiteral plaintext in
     go_bind (aesGCMEncryptLayout (r_iv2 rnd) (take 24 okm) hash2 compd) (\<lambda>encBody.
       let ecdhKey = pbVar 1 415 @ pbLen 2 ephPub in
       Ok (pbVar 1 1 @ pbLen 2 ecdhKey @ pbLen 3 encCEK @ pbLen 4 [] @ pbLen 5 encBody,
           \<lparr>t_Ephemeral = Some eph, t_OKM = okm, t_CompBody = compd\<rparr>))))))"

definition buildLoginBody ::
  "hybrid_rand \<Rightarrow> string \<Rightarrow> bytes \<Rightarrow> bytes \<Rightarrow> (bytes \<times> manualAuthTemp) go" where
  "buildLoginBody rnd loginBufferB64 deviceID appDeviceID =
     go_bind (buildManualAuthRequest loginBufferB64 appDeviceID) (\<lambda>plaintext.
     go_bind (hybridECDHEncrypt rnd plaintext serverPub) (\<lambda>(req, temp).
     Ok (manualAuthHead deviceID @ req, temp)))"

section \<open>Login response\<close>

function wpkg_ints :: "bytes \<Rightarrow> nat \<Rightarrow> (int \<times> u64) list \<Rightarrow> ((int \<times> u64) list \<times> nat) go" where
  "wpkg_ints data i ints =
     (case readVarint data i of
        Ok (fn, ni) \<Rightarrow>
          if fn = 0 then Ok (ints, ni)
          else (case readVarint data ni of
                  Ok (v, ni') \<Rightarrow> wpkg_ints data ni' (AList.update (sint fn) v ints)
                | Err e \<Rightarrow> Err e
                | Panic \<Rightarrow> Panic)
      | Err e \<Rightarrow> Err e
      | Panic \<Rightarrow> Panic)"
  by pat_completeness auto
termination
  by (relation "measure (\<lambda>(data, i, ints). length data - i)") (auto dest!: readVarint_bounds)

declare wpkg_ints.simps [simp del]

function wpkg_byts :: "bytes \<Rightarrow> nat \<Rightarrow> (int \<times> bytes) list \<Rightarrow> ((int \<times> bytes) list \<times> nat) go" where
  "wpkg_byts data i byts =
     (case readVarint data i of
        Ok (fn, ni) \<Rightarrow>
          if fn = 0 then Ok (byts, ni)
          else (case readVarint data ni of
                  Ok (l, ni') \<Rightarrow>
                    (let e = slice_end ni' l in
                     if e > int (length data) then Err (Errorf ''wpkg bytes field truncated'')
                     else if e < int ni' then Panic
                     else wpkg_byts data (nat e)
                            (AList.update (sint fn) (slice data ni' (nat e)) byts))
                | Err e \<Rightarrow> Err e
                | Panic \<Rightarrow> Panic)
      | Err e \<Rightarrow> Err e
      | Panic \<Rightarrow> Panic)"
  by pat_completeness auto
termination
  by (relation "measure (\<lambda>(data, i, byts). length data - i)") (auto dest!: readVarint_bounds)

declare wpkg_byts.simps [simp del]

definition decodeWpkgHead :: "bytes \<Rightarrow> ((int \<times> u64) list \<times> (int \<times> bytes) list \<times> nat) go" where
  "decodeWpkgHead data =
     go_bind (readVarint data 0) (\<lambda>(_, i).
     go_bind (wpkg_ints data i []) (\<lambda>(ints, i).
     go_bind (wpkg_byts data i []) (\<lambda>(byts, i).
     go_bind (readVarint data i) (\<lambda>(_, i).
     Ok (ints, byts, i)))))"

text \<open>A nil \<open>temp\<close> or a nil key in it is \<open>t_Ephemeral = None\<close>.\<close>

definition hybridECDHDecrypt :: "bytes \<Rightarrow> manualAuthTemp \<Rightarrow> bytes go" where
  "hybridECDHDecrypt response temp =
     (case t_Ephemeral temp of
        None \<Rightarrow> Err (Errorf ''missing manualauth temp state'')
      | Some eph \<Rightarrow>
          go_bind (pbParse response) (\<lambda>F.
          go_bind (of_opt (Errorf ''HybridEcdhResponse missing field 1'') (pb_bytes F 1)) (\<lambda>f1.
          go_bind (pbParse f1) (\<lambda>keyFields.
          go_bind (of_opt (Errorf ''HybridEcdhResponse missing server pubkey'') (pb_bytes keyFields 2))
            (\<lambda>serverRespPub.
            let credType = (case pb_int F 2 of Some v \<Rightarrow> v | None \<Rightarrow> 1) in
          go_bind (of_opt (Errorf ''HybridEcdhResponse missing ciphertext'') (pb_bytes F 3)) (\<lambda>ct.
          go_bind (of_opt ecdh_err (newPublicKey serverRespPub)) (\<lambda>peer.
          go_bind (of_opt ecdh_err (ecdh eph peer)) (\<lambda>shared.
            let secret = sha256 shared in
            if length (t_OKM temp) < 56 then Panic
            else
              let aad = sha256 (slice (t_OKM temp) 24 56 @ t_CompBody temp @ bytes_of ''415''
                          @ serverRespPub @ bytes_of (itoa credType)) in
              go_bind (aesGCMDecryptLayout (take 24 secret) aad ct) lz4Decompress))))))))"

text \<open>
  The response follows a header; when no header can be read, a marker is searched for.
  \<open>bytes.Index\<close> gives -1, which is below 2, when there is none.
\<close>

definition response_marker :: bytes where
  "response_marker = [0x08, 0x9f, 0x03, 0x12, 0x41, 0x04]"

definition find_hybrid :: "bytes \<Rightarrow> bytes go" where
  "find_hybrid respBody =
     (let by_marker =
        (case str_index respBody response_marker of
           Some idx \<Rightarrow> if idx < 2 then Err (Errorf ''HybridEcdhResponse not found'')
                      else Ok (drop (idx - 2) respBody)
         | None \<Rightarrow> Err (Errorf ''HybridEcdhResponse not found'')) in
      case decodeWpkgHead respBody of
        Ok (_, _, hlen) \<Rightarrow>
          if hlen < length respBody \<and> respBody ! hlen = 0x0a then Ok (drop hlen respBody)
          else by_marker
      | Err _ \<Rightarrow> by_marker
      | Panic \<Rightarrow> Panic)"

definition parseLoginResponse :: "bytes \<Rightarrow> manualAuthTemp \<Rightarrow> bytes go" where
  "parseLoginResponse respBody temp =
     go_bind (find_hybrid respBody) (\<lambda>hybrid. hybridECDHDecrypt hybrid temp)"

definition extractSession :: "bytes \<Rightarrow> AppSession go" where
  "extractSession mar =
     go_bind (pbParse mar) (\<lambda>F.
     go_bind (of_opt (Errorf ''ManualAuthResponse missing f3'') (pb_bytes F 3)) (\<lambda>f3.
     go_bind (pbParse f3) (\<lambda>body.
     go_bind (of_opt (Errorf ''ManualAuthResponse missing session block'') (pb_bytes body 2)) (\<lambda>body2.
     go_bind (of_opt (Errorf ''ManualAuthResponse missing identity block'') (pb_bytes body 3)) (\<lambda>body3.
     go_bind (pbParse body2) (\<lambda>sess.
     go_bind (pbParse body3) (\<lambda>ident.
       let uin = (case pb_int ident 1 of Some v \<Rightarrow> v | None \<Rightarrow> 0);
           out = \<lparr>s_SendKey = safeBytes (pbget sess 1), s_RecvKey = safeBytes (pbget sess 2),
                  s_F9 = safeBytes (pbget sess 9), s_UIN = uin,
                  s_Ticket = safeBytes (pbget sess 12), s_DeviceID = ilinkDevice,
                  s_HostAppID = []\<rparr> in
       if length (s_SendKey out) = 0 \<or> length (s_RecvKey out) = 0 \<or> s_UIN out = 0
       then Err (Errorf ''ManualAuthResponse session fields incomplete'')
       else Ok out)))))))"

section \<open>Calls\<close>

definition sessionInfo :: "u32 \<Rightarrow> bytes \<Rightarrow> bytes \<Rightarrow> bytes" where
  "sessionInfo uin32 win sessDevice =
     pbLen 1 sessionKeyLiteral @ pbVar 2 (ucast uin32) @ pbLen 3 sessDevice
     @ pbVar 4 sessClientVer @ pbLen 5 win @ pbVar 6 0"

text \<open>\<open>mac\<close>: the bytes drawn when no session device is given.\<close>

definition buildJSAPIPlaintext ::
  "bytes \<Rightarrow> int \<Rightarrow> string \<Rightarrow> bytes \<Rightarrow> u64 \<Rightarrow> bytes option \<Rightarrow> bytes \<Rightarrow> bytes \<Rightarrow> bytes" where
  "buildJSAPIPlaintext mac uin appID transURL transCmdID loginReq hostAppID sessDevice =
     (let transURL = (if length transURL = 0 then jsLoginURL else transURL);
          transCmdID = (if transCmdID = 0 then jsLoginCmdID else transCmdID);
          hostAppID = (if length hostAppID = 0 then hostAppIDDefault else hostAppID);
          sessDevice = (if length sessDevice = 0 then randomSessDevice mac else sessDevice);
          aid = bytes_of appID;
          uin32 = word_of_int uin;
          loginReq = (case loginReq of
              Some b \<Rightarrow> b
            | None \<Rightarrow> pbLen 1 (sessionInfo uin32 unifiedPCWindows sessDevice) @ pbLen 2 aid @ pbVar 4 1
                      @ pbLen 5 [] @ pbLen 6 [] @ pbVar 7 1) in
      pbLen 1 (sessionInfo uin32 windowsName sessDevice) @ pbLen 2 transURL @ pbLen 3 hostAppID
      @ pbVar 4 5 @ pbLen 5 loginReq @ pbLen 6 aid @ pbVar 7 transCmdID @ pbVar 8 1610627409
      @ pbLen 9 windowsPlugin @ pbVar 10 573651281)"

definition sessionWpkgHead :: "int \<Rightarrow> bytes \<Rightarrow> bytes \<Rightarrow> bytes" where
  "sessionWpkgHead uin f9 deviceID =
     (let deviceID = (if length deviceID = 0 then ilinkDevice else deviceID) in
      wpkgHead
       [(1, 1), (2, word_of_int uin), (3, 0), (4, 0), (5, clientVersion), (6, 11), (7, 0), (8, 0),
        (9, 0), (10, 1), (11, 0), (12, 0), (13, 0), (17, 0), (18, 1), (20, 1504), (21, 0),
        (22, word_of_int uin), (23, 0), (25, 16), (26, 4), (28, 1), (29, 1), (30, 0)]
       [(14, []), (24, deviceID), (27, f9)])"

definition buildTransferPacket :: "bytes \<Rightarrow> AppSession \<Rightarrow> bytes \<Rightarrow> bytes go" where
  "buildTransferPacket iv session plaintext =
     go_bind (aesGCMEncryptLayout iv (s_SendKey session) [] (lz4AllLiteral plaintext)) (\<lambda>enc.
       let wpkg = sessionWpkgHead (s_UIN session) (s_F9 session) (s_DeviceID session);
           innerBody = wpkg @ enc;
           inner = buildShortlink transferCmd 0 innerBody defaultVer;
           env = be16 (word_of_nat (length transferURL)) @ transferURL
               @ be16 (word_of_nat (length transferHost)) @ transferHost
               @ be32 (word_of_nat (length inner)) @ inner in
       Ok (be32 (word_of_nat (length env)) @ env))"

text \<open>
  The loop of \<open>sessionDecrypt\<close> over the offsets: \<open>seen\<close> are the offsets tried. A panic in
  \<open>lz4Decompress\<close> would stop it.
\<close>

fun sessionDecrypt_loop :: "bytes \<Rightarrow> bytes \<Rightarrow> nat list \<Rightarrow> nat list \<Rightarrow> bytes go" where
  "sessionDecrypt_loop body recvKey seen [] = Err (Errorf ''response decrypt failed'')"
| "sessionDecrypt_loop body recvKey seen (off # offs) =
     (if off \<in> set seen \<or> off \<ge> length body then sessionDecrypt_loop body recvKey seen offs
      else
        let seen = off # seen; blob = drop off body in
        if length blob < 29 then sessionDecrypt_loop body recvKey seen offs
        else
          case aesGCMDecryptLayout recvKey [] blob of
            Ok compd \<Rightarrow>
              (case lz4Decompress compd of
                 Ok pt \<Rightarrow> Ok pt
               | Err _ \<Rightarrow> sessionDecrypt_loop body recvKey seen offs
               | Panic \<Rightarrow> Panic)
          | Err _ \<Rightarrow> sessionDecrypt_loop body recvKey seen offs
          | Panic \<Rightarrow> Panic)"

definition sessionDecrypt :: "bytes \<Rightarrow> bytes \<Rightarrow> bytes go" where
  "sessionDecrypt body recvKey =
     (let limit = min (length body) 220 in
      case decodeWpkgHead body of
        Ok (_, _, hlen) \<Rightarrow> sessionDecrypt_loop body recvKey [] (hlen # [0..<limit])
      | Err _ \<Rightarrow> sessionDecrypt_loop body recvKey [] [0..<limit]
      | Panic \<Rightarrow> Panic)"

text \<open>A nil result is the empty list.\<close>

definition extractCode :: "bytes \<Rightarrow> bytes go" where
  "extractCode resp =
     go_bind (pbParse resp) (\<lambda>F.
       case pb_bytes F 2 of
         Some f2 \<Rightarrow>
           go_bind (pbParse f2) (\<lambda>inner.
             Ok (case pb_bytes inner 3 of Some f3 \<Rightarrow> f3 | None \<Rightarrow> []))
       | None \<Rightarrow> Ok [])"

text \<open>\<open>null\<close> cannot start with a brace, so the nil map does not occur here.\<close>

definition parseRawResponse :: "bytes \<Rightarrow> bytes \<Rightarrow> gmap go" where
  "parseRawResponse codeOrJSON resp =
     (let raw = bytes_of (trimSpace (string_of codeOrJSON)) in
      if length raw > 0 \<and> raw ! 0 = 0x7B then
        (case json_Unmarshal_map raw of
           Some (Some out) \<Rightarrow> Ok out
         | Some None \<Rightarrow> Ok []
         | None \<Rightarrow> protobufToMap resp)
      else protobufToMap resp)"

definition phone_body :: "u32 \<Rightarrow> bytes \<Rightarrow> bytes \<Rightarrow> bytes" where
  "phone_body uin32 aid sessDevice =
     pbLen 1 (sessionInfo uin32 unifiedPCWindows sessDevice) @ pbLen 2 aid @ pbVar 4 1
     @ pbLen 5 [] @ pbLen 6 [] @ pbVar 7 1"

definition buildPhoneRequest :: "bytes \<Rightarrow> int \<Rightarrow> string \<Rightarrow> bytes" where
  "buildPhoneRequest mac uin appID =
     (let sessDevice = randomSessDevice mac; aid = bytes_of appID;
          body = phone_body (word_of_int uin) aid sessDevice in
      buildJSAPIPlaintext mac uin appID phoneURL phoneCmdID (Some body) [] sessDevice)"

text \<open>\<open>None\<close> is the nil map.\<close>

definition extractOperatePayload :: "gmap option \<Rightarrow> gmap option" where
  "extractOperatePayload raw =
     (case raw of
        None \<Rightarrow> None
      | Some m \<Rightarrow>
          (case as_map (gget m ''data'') of
             Some d \<Rightarrow>
               if ghas d ''api_name'' then Some d
               else if \<not> ghas m ''api_name'' then Some d else Some m
           | None \<Rightarrow> Some m))"

definition map_value :: "gmap option \<Rightarrow> gval" where
  "map_value m = (case m of None \<Rightarrow> GNil | Some m \<Rightarrow> GMap m)"

definition buildOperateRequest :: "bytes \<Rightarrow> int \<Rightarrow> string \<Rightarrow> gmap option \<Rightarrow> bytes" where
  "buildOperateRequest mac uin appID payload =
     (let payload = extractOperatePayload payload;
          sessDevice = randomSessDevice mac; aid = bytes_of appID;
          f3 = json_Marshal (map_value payload);
          body = pbLen 1 (sessionInfo (word_of_int uin) unifiedPCWindows sessDevice) @ pbLen 2 aid
               @ pbLen 3 f3 @ pbLen 4 [] @ pbVar 5 0 @ pbVar 6 0 in
      buildJSAPIPlaintext mac uin appID operateURL operateCmdID (Some body) [] sessDevice)"

end
