(* ===== verification/Ilink_Props.thy ===== *)
theory Ilink_Props
  imports Ilink
begin

unbundle bit_operations_syntax

text \<open>
  Correctness of the messages of theory \<open>Ilink\<close>: the header of a packet is read back as it
  was written, a packet is opened with the session key, and the login request gives the
  holder of the shared secret exactly the request that was made.
\<close>

section \<open>Headers\<close>

lemma readVarint_at:
  "d = pre @ varint n @ suf \<Longrightarrow> i = length pre \<Longrightarrow> readVarint d i = Ok (n, i + length (varint n))"
  using readVarint_varint [of pre n suf] by simp

definition key_ok :: "nat \<Rightarrow> bool" where
  "key_ok k \<longleftrightarrow> 0 < k \<and> k < 2 ^ 63"

lemma key_ok_word:
  assumes "key_ok k"
  shows "(word_of_nat k :: u64) \<noteq> 0" "sint (word_of_nat k :: u64) = int k"
proof -
  have u: "unat (word_of_nat k :: u64) = k"
    using assms by (intro unat_of_nat_small) (simp add: key_ok_def)
  with assms show "(word_of_nat k :: u64) \<noteq> 0" by (auto simp: key_ok_def)
  have "signed_take_bit 63 (int k) = int k"
    using assms by (intro signed_take_bit_int_eq_self) (simp_all add: key_ok_def)
  then show "sint (word_of_nat k :: u64) = int k"
    by (simp only: signed_of_nat) simp
qed

definition enc_int :: "nat \<times> u64 \<Rightarrow> bytes" where
  "enc_int = (\<lambda>(k, v). varint (word_of_nat k) @ varint v)"

definition enc_byt :: "nat \<times> bytes \<Rightarrow> bytes" where
  "enc_byt = (\<lambda>(k, v). varint (word_of_nat k) @ varint (word_of_nat (length v)) @ v)"

lemma update_new: "k \<notin> fst ` set m \<Longrightarrow> AList.update k v m = m @ [(k, v)]"
  by (induction m) auto

lemma wpkg_ints_enc:
  assumes "\<forall>(k, v) \<in> set kvs. key_ok k" "distinct (map fst kvs)"
    and "\<forall>(k, v) \<in> set kvs. int k \<notin> fst ` set acc"
  shows "wpkg_ints (pre @ concat (map enc_int kvs) @ varint 0 @ suf) (length pre) acc =
    Ok (acc @ map (apfst int) kvs, length pre + length (concat (map enc_int kvs)) + length (varint 0))"
  using assms
proof (induction kvs arbitrary: pre acc)
  case Nil
  then show ?case
    using readVarint_varint [of pre 0 suf] by (subst wpkg_ints.simps) simp
next
  case (Cons kv kvs)
  obtain k v where kv: "kv = (k, v)" by fastforce
  let ?rest = "concat (map enc_int kvs) @ varint 0 @ suf"
  let ?d = "pre @ concat (map enc_int (kv # kvs)) @ varint 0 @ suf"
  let ?i1 = "length pre + length (varint (word_of_nat k))" and ?i2 = "length (pre @ enc_int kv)"
  have k: "key_ok k" "int k \<notin> fst ` set acc" using Cons.prems kv by auto
  have r1: "readVarint ?d (length pre) = Ok (word_of_nat k, ?i1)"
    by (rule readVarint_at [of _ pre _ "varint v @ ?rest"]) (simp_all add: enc_int_def kv)
  have "readVarint ?d ?i1 = Ok (v, ?i1 + length (varint v))"
    by (rule readVarint_at [of _ "pre @ varint (word_of_nat k)" _ "?rest"])
       (simp_all add: enc_int_def kv)
  then have r2: "readVarint ?d ?i1 = Ok (v, ?i2)" by (simp add: enc_int_def kv)
  have "wpkg_ints ?d (length pre) acc = wpkg_ints ?d ?i2 (acc @ [(int k, v)])"
    using r1 r2 key_ok_word [OF k(1)] update_new [OF k(2)] by (subst wpkg_ints.simps) simp
  also have "\<dots> = Ok (acc @ map (apfst int) (kv # kvs),
      length pre + length (concat (map enc_int (kv # kvs))) + length (varint 0))"
    using Cons.IH [of "acc @ [(int k, v)]" "pre @ enc_int kv"] Cons.prems
    by (force simp: kv image_iff split: prod.splits)
  finally show ?case .
qed

lemma slice_end_fits:
  assumes "ni + length v \<le> n" "n < 2 ^ 63"
  shows "slice_end ni (word_of_nat (length v)) = int (ni + length v)"
proof -
  have u: "unat (word_of_nat (length v) :: u64) = length v"
    using assms by (intro unat_of_nat_small) simp
  show ?thesis
    using slice_end_exact [of ni "word_of_nat (length v)"] assms unfolding u by simp
qed

lemma wpkg_byts_step:
  assumes "readVarint d i = Ok (fn, i1)" "fn \<noteq> 0" "readVarint d i1 = Ok (l, i2)"
    and "slice_end i2 l = int e" "i2 \<le> e" "e \<le> length d"
  shows "wpkg_byts d i acc = wpkg_byts d e (AList.update (sint fn) (slice d i2 e) acc)"
  using assms by (subst wpkg_byts.simps) (simp add: Let_def)

lemma wpkg_byts_enc:
  assumes "\<forall>(k, v) \<in> set kvs. key_ok k" "distinct (map fst kvs)"
    and "\<forall>(k, v) \<in> set kvs. int k \<notin> fst ` set acc"
    and "length (pre @ concat (map enc_byt kvs) @ varint 0 @ suf) < 2 ^ 63"
  shows "wpkg_byts (pre @ concat (map enc_byt kvs) @ varint 0 @ suf) (length pre) acc =
    Ok (acc @ map (apfst int) kvs, length pre + length (concat (map enc_byt kvs)) + length (varint 0))"
  using assms
proof (induction kvs arbitrary: pre acc)
  case Nil
  then show ?case
    using readVarint_varint [of pre 0 suf] by (subst wpkg_byts.simps) simp
next
  case (Cons kv kvs)
  obtain k v where kv: "kv = (k, v)" by fastforce
  let ?rest = "concat (map enc_byt kvs) @ varint 0 @ suf"
  let ?d = "pre @ concat (map enc_byt (kv # kvs)) @ varint 0 @ suf"
  let ?l = "word_of_nat (length v) :: u64"
  let ?i1 = "length pre + length (varint (word_of_nat k))"
  let ?i2 = "?i1 + length (varint ?l)" and ?i3 = "length (pre @ enc_byt kv)"
  have k: "key_ok k" "int k \<notin> fst ` set acc" using Cons.prems kv by auto
  have r1: "readVarint ?d (length pre) = Ok (word_of_nat k, ?i1)"
    by (rule readVarint_at [of _ pre _ "varint ?l @ v @ ?rest"]) (simp_all add: enc_byt_def kv)
  have r2: "readVarint ?d ?i1 = Ok (?l, ?i2)"
    by (rule readVarint_at [of _ "pre @ varint (word_of_nat k)" _ "v @ ?rest"])
       (simp_all add: enc_byt_def kv)
  have i3: "?i3 = ?i2 + length v" "?i3 \<le> length ?d" by (simp_all add: enc_byt_def kv)
  have e: "slice_end ?i2 ?l = int ?i3"
    using slice_end_fits [of ?i2 v "length ?d"] i3 Cons.prems(4) by simp
  have sl: "slice ?d ?i2 ?i3 = v"
    using slice_append_mid [of "pre @ varint (word_of_nat k) @ varint ?l" v ?rest]
    by (simp add: enc_byt_def kv add.assoc)
  have "wpkg_byts ?d (length pre) acc = wpkg_byts ?d ?i3 (acc @ [(int k, v)])"
    using wpkg_byts_step [OF r1 key_ok_word(1) [OF k(1)] r2 e _ i3(2)] i3(1) sl
    by (simp only: key_ok_word(2) [OF k(1)] update_new [OF k(2)] le_add1)
  also have "\<dots> = Ok (acc @ map (apfst int) (kv # kvs),
      length pre + length (concat (map enc_byt (kv # kvs))) + length (varint 0))"
    using Cons.IH [of "acc @ [(int k, v)]" "pre @ enc_byt kv"] Cons.prems
    by (force simp: kv image_iff split: prod.splits)
  finally show ?case .
qed

text \<open>The entries of a map in the order of their keys.\<close>

definition by_key :: "(nat \<times> 'v) list \<Rightarrow> (nat \<times> 'v) list" where
  "by_key m = map (\<lambda>k. (k, the (map_of m k))) (sort (map fst m))"

definition keys_ok :: "(nat \<times> 'v) list \<Rightarrow> bool" where
  "keys_ok m \<longleftrightarrow> distinct (map fst m) \<and> (\<forall>k \<in> set (map fst m). key_ok k)"

lemma by_key_ok:
  assumes "keys_ok m"
  shows "\<forall>(k, v) \<in> set (by_key m). key_ok k" "distinct (map fst (by_key m))"
  using assms by (auto simp: keys_ok_def by_key_def comp_def)

lemma map_of_by_key: "map_of (by_key m) = map_of m"
proof
  fix k
  have "map_of (map (\<lambda>k. (k, the (map_of m k))) ks) k = (if k \<in> set ks then Some (the (map_of m k)) else None)" for ks
    by (induction ks) auto
  from this [of "sort (map fst m)"]
  have "map_of (by_key m) k = (if k \<in> fst ` set m then Some (the (map_of m k)) else None)"
    by (simp add: by_key_def)
  moreover have "k \<in> fst ` set m \<longleftrightarrow> map_of m k \<noteq> None" by (simp add: map_of_eq_None_iff)
  ultimately show "map_of (by_key m) k = map_of m k" by auto
qed

lemma varint_0: "varint 0 = [0]"
  by (simp add: varint.simps)

definition wpkg_prefix :: "(nat \<times> u64) list \<Rightarrow> (nat \<times> bytes) list \<Rightarrow> bytes" where
  "wpkg_prefix ints byts =
     varint 1 @ concat (map enc_int (by_key ints)) @ varint 0 @ concat (map enc_byt (by_key byts))"

lemma wpkgHead_eq:
  "wpkgHead ints byts = wpkg_prefix ints byts @ varint 0
     @ varint (word_of_nat (length (wpkg_prefix ints byts) + 1))"
proof -
  have "map enc_int (by_key ints) =
      map (\<lambda>k. varint (word_of_nat k) @ varint (the (map_of ints k))) (sort (map fst ints))"
    by (simp add: by_key_def enc_int_def)
  moreover have "map enc_byt (by_key byts) = map (\<lambda>k. let v = the (map_of byts k) in
      varint (word_of_nat k) @ varint (word_of_nat (length v)) @ v) (sort (map fst byts))"
    by (simp add: by_key_def enc_byt_def Let_def)
  ultimately show ?thesis
    by (simp add: wpkgHead_def wpkg_prefix_def Let_def varint_0)
qed

lemma decode_wpkgHead:
  assumes "keys_ok ints" "keys_ok byts" "length (wpkgHead ints byts @ rest) < 2 ^ 63"
  shows "decodeWpkgHead (wpkgHead ints byts @ rest) =
    Ok (map (apfst int) (by_key ints), map (apfst int) (by_key byts), length (wpkgHead ints byts))"
proof -
  let ?d = "wpkgHead ints byts @ rest"
  let ?is = "concat (map enc_int (by_key ints))" and ?bs = "concat (map enc_byt (by_key byts))"
  let ?fin = "varint (word_of_nat (length (wpkg_prefix ints byts) + 1))"
  have d: "?d = varint 1 @ ?is @ varint 0 @ ?bs @ varint 0 @ ?fin @ rest"
    by (simp add: wpkgHead_eq wpkg_prefix_def)
  let ?i1 = "length (varint 1)"
  let ?i2 = "length (varint 1 @ ?is @ varint 0)"
  let ?i3 = "length (varint 1 @ ?is @ varint 0 @ ?bs @ varint 0)"
  have r0: "readVarint ?d 0 = Ok (1, ?i1)"
    using readVarint_at [of ?d "[]" 1 "?is @ varint 0 @ ?bs @ varint 0 @ ?fin @ rest" 0] d by simp
  have r1: "wpkg_ints ?d ?i1 [] = Ok (map (apfst int) (by_key ints), ?i2)"
    using wpkg_ints_enc [OF by_key_ok [OF assms(1)], of "[]" "varint 1" "?bs @ varint 0 @ ?fin @ rest"] d
    by (auto simp: add.assoc)
  have "length ((varint 1 @ ?is @ varint 0) @ ?bs @ varint 0 @ ?fin @ rest) < 2 ^ 63"
    using assms(3) unfolding d by simp
  then have r2: "wpkg_byts ?d ?i2 [] = Ok (map (apfst int) (by_key byts), ?i3)"
    using wpkg_byts_enc [OF by_key_ok [OF assms(2)], of "[]" "varint 1 @ ?is @ varint 0" "?fin @ rest"] d
    by (auto simp: add.assoc)
  have r3: "readVarint ?d ?i3 = Ok (word_of_nat (length (wpkg_prefix ints byts) + 1), ?i3 + length ?fin)"
    by (rule readVarint_at [of _ "varint 1 @ ?is @ varint 0 @ ?bs @ varint 0" _ rest]) (simp_all only: d append_assoc)
  have "?i3 + length ?fin = length (wpkgHead ints byts)"
    by (simp add: wpkgHead_eq wpkg_prefix_def)
  with r0 r1 r2 r3 show ?thesis by (simp add: decodeWpkgHead_def)
qed

section \<open>Packets under the session key\<close>

lemma lz4AllLiteral_nonempty: "0 < length (lz4AllLiteral data)"
  by (simp add: lz4AllLiteral_def Let_def)

text \<open>
  A header followed by a sealed body is opened at the first offset that is tried, whatever
  the rest of the offsets would give.
\<close>

lemma sessionDecrypt_sealed:
  assumes "decodeWpkgHead (hdr @ blob) = Ok (is, bs, length hdr)"
    and "aesGCMEncryptLayout iv key [] (lz4AllLiteral plain) = Ok blob" "length iv = 12"
  shows "sessionDecrypt (hdr @ blob) key = Ok plain"
proof -
  have "length blob = length (lz4AllLiteral plain) + 28"
    using aesGCMEncryptLayout_length [OF assms(2)] .
  then have "29 \<le> length blob" using lz4AllLiteral_nonempty [of plain] by linarith
  moreover have "aesGCMDecryptLayout key [] blob = Ok (lz4AllLiteral plain)"
    using assms(2,3) by (rule aesGCM_layout_roundtrip)
  ultimately show ?thesis
    using assms(1) by (auto simp: sessionDecrypt_def Let_def lz4_decompress_literal)
qed

lemma sessionDecrypt_loop_sound:
  "sessionDecrypt_loop body key seen offs = Ok plain \<Longrightarrow>
   \<exists>off \<in> set offs. off < length body \<and>
     (\<exists>c. aesGCMDecryptLayout key [] (drop off body) = Ok c \<and> lz4Decompress c = Ok plain)"
  by (induction offs arbitrary: seen)
     (auto simp: Let_def split: if_splits go.splits)

text \<open>Decrypting a response only returns what was sealed under the session key: some
  suffix of the response decrypts with it, and the result is its decompressed content.\<close>

theorem sessionDecrypt_sound:
  assumes "sessionDecrypt body key = Ok plain"
  shows "\<exists>off iv c. off < length body \<and> length iv = 12
    \<and> aesGCMEncryptLayout iv key [] c = Ok (drop off body) \<and> lz4Decompress c = Ok plain"
proof -
  from assms obtain offs where "sessionDecrypt_loop body key [] offs = Ok plain"
    by (auto simp: sessionDecrypt_def Let_def split: go.splits simp del: sessionDecrypt_loop.simps)
  from sessionDecrypt_loop_sound [OF this] show ?thesis
    by (auto simp: aesGCMDecryptLayout_iff_lemma)
qed

definition session_ints :: "int \<Rightarrow> (nat \<times> u64) list" where
  "session_ints uin =
     [(1, 1), (2, word_of_int uin), (3, 0), (4, 0), (5, clientVersion), (6, 11), (7, 0), (8, 0),
      (9, 0), (10, 1), (11, 0), (12, 0), (13, 0), (17, 0), (18, 1), (20, 1504), (21, 0),
      (22, word_of_int uin), (23, 0), (25, 16), (26, 4), (28, 1), (29, 1), (30, 0)]"

definition session_byts :: "bytes \<Rightarrow> bytes \<Rightarrow> (nat \<times> bytes) list" where
  "session_byts f9 deviceID =
     [(14, []), (24, if length deviceID = 0 then ilinkDevice else deviceID), (27, f9)]"

lemma sessionWpkgHead_eq:
  "sessionWpkgHead uin f9 deviceID = wpkgHead (session_ints uin) (session_byts f9 deviceID)"
  by (simp add: sessionWpkgHead_def session_ints_def session_byts_def)

lemma session_keys_ok: "keys_ok (session_ints uin)" "keys_ok (session_byts f9 d)"
  by (simp_all add: session_ints_def session_byts_def keys_ok_def key_ok_def)

definition sample_session :: AppSession where
  "sample_session = \<lparr>s_SendKey = replicate 16 1, s_RecvKey = replicate 16 2, s_F9 = [], s_UIN = 5,
     s_Ticket = [], s_DeviceID = [], s_HostAppID = []\<rparr>"

lemma aesGCMEncryptLayout_Ok:
  assumes "aes_key_ok key" "length iv = 12"
  shows "\<exists>blob. aesGCMEncryptLayout iv key aad p = Ok blob"
  using assms by (simp add: aesGCMEncryptLayout_def gcm_Seal_def Let_def)

lemma sample_key [simp]: "aes_key_ok (replicate 16 b)"
  by (simp add: aes_key_ok_def)

lemma length_sample_head: "length (sessionWpkgHead 5 [] []) < 1000"
  by code_simp

lemma length_sample_plain: "length (lz4AllLiteral [7]) = 2"
  by code_simp

theorem sessionDecrypt_sound_witness:
  "\<exists>blob. sessionDecrypt (sessionWpkgHead 5 [] [] @ blob) (replicate 16 1) = Ok [7]
     \<and> (\<exists>off iv c. off < length (sessionWpkgHead 5 [] []) + length blob \<and> length iv = 12
          \<and> aesGCMEncryptLayout iv (replicate 16 1) [] c = Ok (drop off (sessionWpkgHead 5 [] [] @ blob))
          \<and> lz4Decompress c = Ok [7])"
proof -
  obtain blob where b: "aesGCMEncryptLayout (replicate 12 0) (replicate 16 1) [] (lz4AllLiteral [7]) = Ok blob"
    using aesGCMEncryptLayout_Ok [of "replicate 16 1" "replicate 12 0"] by auto
  have "decodeWpkgHead (sessionWpkgHead 5 [] [] @ blob) =
      Ok (map (apfst int) (by_key (session_ints 5)), map (apfst int) (by_key (session_byts [] [])),
        length (sessionWpkgHead 5 [] []))"
    using decode_wpkgHead [OF session_keys_ok, of 5 "[]" "[]" blob] length_sample_head
      aesGCMEncryptLayout_length [OF b] length_sample_plain
    by (simp add: sessionWpkgHead_eq)
  from sessionDecrypt_sealed [OF this b] have s: "sessionDecrypt (sessionWpkgHead 5 [] [] @ blob) (replicate 16 1) = Ok [7]"
    by simp
  from sessionDecrypt_sound [OF s] s show ?thesis by auto
qed

lemma slice_fields:
  assumes "length a = n" "length b = m"
  shows "slice (a @ b @ c) n (n + m) = b"
  using slice_append_mid [of a b c] assms by simp

definition transfer_header :: nat where
  "transfer_header = 4 + 2 + length transferURL + 2 + length transferHost + 4"

lemma buildTransferPacket_OkD:
  assumes "buildTransferPacket iv session plain = Ok out"
  obtains enc where
    "aesGCMEncryptLayout iv (s_SendKey session) [] (lz4AllLiteral plain) = Ok enc"
    "drop transfer_header out = buildShortlink transferCmd 0
      (wpkgHead (session_ints (s_UIN session)) (session_byts (s_F9 session) (s_DeviceID session)) @ enc)
      defaultVer"
    "take 4 out = be32 (word_of_nat (length out - 4))" "transfer_header \<le> length out"
proof -
  from assms obtain enc where e:
    "aesGCMEncryptLayout iv (s_SendKey session) [] (lz4AllLiteral plain) = Ok enc"
    by (auto simp: buildTransferPacket_def go_bind_Ok_iff)
  let ?inner = "buildShortlink transferCmd 0
      (wpkgHead (session_ints (s_UIN session)) (session_byts (s_F9 session) (s_DeviceID session)) @ enc)
      defaultVer"
  let ?env = "be16 (word_of_nat (length transferURL)) @ transferURL
      @ be16 (word_of_nat (length transferHost)) @ transferHost
      @ be32 (word_of_nat (length ?inner)) @ ?inner"
  from assms e have out: "out = be32 (word_of_nat (length ?env)) @ ?env"
    by (simp only: buildTransferPacket_def go_bind.simps Let_def sessionWpkgHead_eq go.inject)
  have "drop transfer_header out = ?inner" "take 4 out = be32 (word_of_nat (length out - 4))"
    "transfer_header \<le> length out"
    unfolding out by (simp_all add: transfer_header_def)
  with e that show ?thesis by blast
qed

text \<open>A transfer packet carries its own length, is a ShortLink packet with the transfer
  command behind its fixed header, and whoever holds the session's send key reads from it
  exactly the plaintext that was packed.\<close>

theorem buildTransferPacket_opens:
  assumes "buildTransferPacket iv session plain = Ok out" "length iv = 12" "length out < 2 ^ 32"
  shows "unat (get32 (take 4 out)) = length out - 4 \<and>
    (\<exists>pkt. parseShortlink (drop transfer_header out) = Ok pkt \<and> Cmd pkt = transferCmd
      \<and> sessionDecrypt (Body pkt) (s_SendKey session) = Ok plain)"
proof -
  let ?hdr = "wpkgHead (session_ints (s_UIN session)) (session_byts (s_F9 session) (s_DeviceID session))"
  obtain enc where e: "aesGCMEncryptLayout iv (s_SendKey session) [] (lz4AllLiteral plain) = Ok enc"
    and d: "drop transfer_header out = buildShortlink transferCmd 0 (?hdr @ enc) defaultVer"
    and t: "take 4 out = be32 (word_of_nat (length out - 4))" "transfer_header \<le> length out"
    using buildTransferPacket_OkD [OF assms(1)] .
  have "length (drop transfer_header out) = 16 + length (?hdr @ enc)"
    unfolding d by (simp add: buildShortlink_def Let_def)
  then have len: "length (?hdr @ enc) < 2 ^ 32 - 16" using assms(3) t(2) by (simp add: transfer_header_def)
  have "parseShortlink (drop transfer_header out) = Ok
      \<lparr>TotalLen = 16 + length (?hdr @ enc), Magic = shortlinkMagic, Ver = defaultVer,
       Cmd = transferCmd, Seq = 0, Body = ?hdr @ enc\<rparr>"
    unfolding d using parseShortlink_build [OF len, of transferCmd 0 defaultVer "[]"]
    by (simp add: defaultVer_def)
  moreover have "sessionDecrypt (?hdr @ enc) (s_SendKey session) = Ok plain"
    using decode_wpkgHead [OF session_keys_ok, of "s_UIN session" "s_F9 session" "s_DeviceID session" enc]
      len by (intro sessionDecrypt_sealed [OF _ e assms(2)]) simp
  moreover have "unat (get32 (take 4 out)) = length out - 4"
    using assms(3) by (simp add: t(1) unat_of_nat_small)
  ultimately show ?thesis by simp
qed

theorem buildTransferPacket_opens_witness:
  "\<exists>out pkt. buildTransferPacket (replicate 12 0) sample_session [7] = Ok out
     \<and> parseShortlink (drop transfer_header out) = Ok pkt \<and> Cmd pkt = transferCmd
     \<and> sessionDecrypt (Body pkt) (replicate 16 1) = Ok [7]"
proof -
  obtain blob where b: "aesGCMEncryptLayout (replicate 12 0) (s_SendKey sample_session) [] (lz4AllLiteral [7]) = Ok blob"
    using aesGCMEncryptLayout_Ok [of "replicate 16 1" "replicate 12 0"] by (auto simp: sample_session_def)
  obtain out where out: "buildTransferPacket (replicate 12 0) sample_session [7] = Ok out"
    using b by (simp add: buildTransferPacket_def Let_def)
  have "length transferURL < 100" "length transferHost < 100" by code_simp+
  then have "length out < 2 ^ 32"
    using out b aesGCMEncryptLayout_length [OF b] length_sample_plain length_sample_head
    by (auto simp: buildTransferPacket_def Let_def buildShortlink_def sample_session_def)
  from buildTransferPacket_opens [OF out _ this] out show ?thesis by (auto simp: sample_session_def)
qed

section \<open>The login request\<close>

text \<open>
  What the server does with a login request when it holds the secret \<open>shared\<close> of the key
  exchange: open the content key, derive the body key from it, open the body, decompress.
\<close>

definition open_hybrid :: "bytes \<Rightarrow> bytes \<Rightarrow> bytes go" where
  "open_hybrid shared req =
     go_bind (pbParse req) (\<lambda>F.
     go_bind (of_opt (Errorf ''key'') (pb_bytes F 2)) (\<lambda>kf.
     go_bind (pbParse kf) (\<lambda>K.
     go_bind (of_opt (Errorf ''public key'') (pb_bytes K 2)) (\<lambda>pub.
     go_bind (of_opt (Errorf ''content key'') (pb_bytes F 3)) (\<lambda>encCEK.
     go_bind (of_opt (Errorf ''body'') (pb_bytes F 5)) (\<lambda>encBody.
       let hash1 = sha256 (bytes_of ''1415'' @ pub) in
     go_bind (aesGCMDecryptLayout (take 24 (sha256 shared)) hash1 encCEK) (\<lambda>cek.
       let okm = hkdfExpand (hkdfExtract ilinkHKDFSalt cek) hash1 56;
           hash2 = sha256 (bytes_of ''1415'' @ pub @ encCEK) in
     go_bind (aesGCMDecryptLayout (take 24 okm) hash2 encBody) lz4Decompress)))))))"

lemma pbParse_enc: "data = enc_fields fs \<Longrightarrow> \<forall>f \<in> set fs. field_ok f \<Longrightarrow> length data < 2 ^ 62 \<Longrightarrow>
   pbParse data = Ok (fold put_field fs [])"
  using pbParse_fields [of fs] by simp

text \<open>C33: The login request can be opened by whoever shares the ECDH secret with the client,
  and gives back the plaintext; the state kept for the answer holds the derived key block
  and the compressed plaintext.\<close>

theorem hybridECDHEncrypt_opens:
  assumes "hybridECDHEncrypt rnd plain srvPub = Ok (req, temp)" "length req < 2 ^ 62"
    and "length (r_iv1 rnd) = 12" "length (r_iv2 rnd) = 12"
  shows "\<exists>srv shared. newPublicKey srvPub = Some srv \<and> ecdh (r_eph rnd) srv = Some shared
    \<and> open_hybrid shared req = Ok plain
    \<and> t_Ephemeral temp = Some (r_eph rnd) \<and> length (t_OKM temp) = 56
    \<and> lz4Decompress (t_CompBody temp) = Ok plain"
proof -
  let ?pub = "publicKey (r_eph rnd)"
  let ?h1 = "sha256 (bytes_of ''1415'' @ ?pub)"
  let ?okm = "hkdfExpand (hkdfExtract ilinkHKDFSalt (r_cek rnd)) ?h1 56"
  have lit: "bytes_of ''1'' @ bytes_of ''415'' = bytes_of ''1415''" by (simp add: bytes_of_def)
  then have lit': "bytes_of ''1'' @ bytes_of ''415'' @ x = bytes_of ''1415'' @ x" for x
    by (metis append.assoc)
  from assms(1) obtain srv shared encCEK encBody where
    ps: "newPublicKey srvPub = Some srv" "ecdh (r_eph rnd) srv = Some shared"
    and e1: "aesGCMEncryptLayout (r_iv1 rnd) (take 24 (sha256 shared)) ?h1 (r_cek rnd) = Ok encCEK"
    and e2: "aesGCMEncryptLayout (r_iv2 rnd) (take 24 ?okm) (sha256 (bytes_of ''1415'' @ ?pub @ encCEK))
      (lz4AllLiteral plain) = Ok encBody"
    and req: "req = enc_fields [FVar 1 1, FLen 2 (enc_fields [FVar 1 415, FLen 2 ?pub]),
      FLen 3 encCEK, FLen 4 [], FLen 5 encBody]"
    and temp: "temp = \<lparr>t_Ephemeral = Some (r_eph rnd), t_OKM = ?okm, t_CompBody = lz4AllLiteral plain\<rparr>"
    by (auto simp: hybridECDHEncrypt_def generateECDH_def go_bind_Ok_iff Let_def enc_fields_def lit')
  have l: "length ?pub < 2 ^ 62" "length encCEK < 2 ^ 62" "length encBody < 2 ^ 62"
    "length (enc_fields [FVar 1 415, FLen 2 ?pub]) < 2 ^ 62"
    using assms(2) unfolding req by (simp_all add: enc_fields_def pbLen_def pbVar_def)
  have "pbParse req = Ok (fold put_field [FVar 1 1, FLen 2 (enc_fields [FVar 1 415, FLen 2 ?pub]),
      FLen 3 encCEK, FLen 4 [], FLen 5 encBody] [])"
    using l assms(2) by (intro pbParse_enc [OF req]) simp_all
  moreover have "pbParse (enc_fields [FVar 1 415, FLen 2 ?pub]) = Ok (fold put_field [FVar 1 415, FLen 2 ?pub] [])"
    using l by (intro pbParse_enc) simp_all
  ultimately have "open_hybrid shared req = Ok plain"
    using aesGCM_layout_roundtrip [OF e1 assms(3)] aesGCM_layout_roundtrip [OF e2 assms(4)]
    by (simp add: open_hybrid_def pb_bytes_def Let_def lz4_decompress_literal)
  with ps temp show ?thesis by (simp add: lz4_decompress_literal)
qed

definition sample_hybrid :: hybrid_rand where
  "sample_hybrid = \<lparr>r_eph = 1, r_cek = replicate 32 3, r_iv1 = replicate 12 4, r_iv2 = replicate 12 5\<rparr>"

theorem hybridECDHEncrypt_opens_witness:
  "\<exists>req temp shared. hybridECDHEncrypt sample_hybrid [7] (publicKey 1) = Ok (req, temp)
     \<and> open_hybrid shared req = Ok [7]"
proof -
  obtain req temp where r: "hybridECDHEncrypt sample_hybrid [7] (publicKey 1) = Ok (req, temp)"
    and l: "length req < 2 ^ 62"
  proof -
    obtain shared where sh: "ecdh 1 p256_g = Some shared" by (simp add: ecdh_def p256_mul_1 p256_g_def del: One_nat_def)
    have k: "aes_key_ok (take 24 (sha256 x))" "aes_key_ok (take 24 (hkdfExpand a c 56))" for x a c
      by (simp_all add: aes_key_ok_def)
    obtain e1 where e1: "aesGCMEncryptLayout (replicate 12 4) (take 24 (sha256 shared))
        (sha256 (bytes_of ''1'' @ bytes_of ''415'' @ publicKey 1)) (replicate 32 3) = Ok e1"
      using aesGCMEncryptLayout_Ok [OF k(1) length_replicate] by blast
    obtain e2 where e2: "aesGCMEncryptLayout (replicate 12 5) (take 24 (hkdfExpand (hkdfExtract ilinkHKDFSalt (replicate 32 3))
          (sha256 (bytes_of ''1'' @ bytes_of ''415'' @ publicKey 1)) 56))
        (sha256 (bytes_of ''1'' @ bytes_of ''415'' @ publicKey 1 @ e1)) (lz4AllLiteral [7]) = Ok e2"
      using aesGCMEncryptLayout_Ok [OF k(2) length_replicate] by blast
    have v: "length (varint n) \<le> 10" for n by (rule length_varint)
    have "length e1 = 60" "length e2 = 30"
      using aesGCMEncryptLayout_length [OF e1] aesGCMEncryptLayout_length [OF e2] length_sample_plain by simp_all
    then have "length (pbVar 1 1 @ pbLen 2 (pbVar 1 415 @ pbLen 2 (publicKey 1)) @ pbLen 3 e1 @ pbLen 4 [] @ pbLen 5 e2) < 2 ^ 62"
      using length_publicKey_1 v [of 1] v [of 415] v [of 65] v [of "word_of_nat (length (pbVar 1 415 @ pbLen 2 (publicKey 1)))"]
        v [of 60] v [of 30] v [of 0]
      by (simp add: pbLen_def pbVar_def)
    moreover have "\<exists>temp. hybridECDHEncrypt sample_hybrid [7] (publicKey 1) =
        Ok (pbVar 1 1 @ pbLen 2 (pbVar 1 415 @ pbLen 2 (publicKey 1)) @ pbLen 3 e1 @ pbLen 4 [] @ pbLen 5 e2, temp)"
      using sh e1 e2 newPublicKey_1
      by (simp add: hybridECDHEncrypt_def sample_hybrid_def generateECDH_def Let_def del: One_nat_def append.simps)
    ultimately show ?thesis using that by blast
  qed
  from hybridECDHEncrypt_opens [OF r l] r show ?thesis by (auto simp: sample_hybrid_def)
qed

text \<open>A session that is extracted from the login answer is usable: both keys are
  non-empty and it has a user id.\<close>

theorem extractSession_usable:
  assumes "extractSession mar = Ok s"
  shows "s_SendKey s \<noteq> [] \<and> s_RecvKey s \<noteq> [] \<and> s_UIN s \<noteq> 0 \<and> s_DeviceID s = ilinkDevice"
  using assms by (auto simp: extractSession_def go_bind_Ok_iff Let_def split: if_splits)

definition sample_mar :: bytes where
  "sample_mar = enc_fields [FLen 3 (enc_fields
     [FLen 2 (enc_fields [FLen 1 [8], FLen 2 [9]]), FLen 3 (enc_fields [FVar 1 7])])]"

theorem extractSession_usable_witness:
  "\<exists>s. extractSession sample_mar = Ok s \<and> s_SendKey s \<noteq> [] \<and> s_UIN s \<noteq> 0"
proof -
  have "is_ok (extractSession sample_mar)" by code_simp
  then obtain s where s: "extractSession sample_mar = Ok s" by (cases "extractSession sample_mar") simp_all
  from extractSession_usable [OF s] s show ?thesis by blast
qed

lemma hybridECDHEncrypt_Ok:
  assumes "newPublicKey srvPub = Some srv" "ecdh (r_eph rnd) srv = Some shared"
    and "length (r_iv1 rnd) = 12" "length (r_iv2 rnd) = 12"
  shows "\<exists>req temp. hybridECDHEncrypt rnd plain srvPub = Ok (req, temp)
    \<and> t_Ephemeral temp = Some (r_eph rnd) \<and> length (t_OKM temp) = 56"
proof -
  have k: "aes_key_ok (take 24 (sha256 x))" "aes_key_ok (take 24 (hkdfExpand a c 56))" for x a c
    by (simp_all add: aes_key_ok_def)
  have e: "\<exists>b. aesGCMEncryptLayout iv (take 24 (sha256 x)) aad p = Ok b"
    "\<exists>b. aesGCMEncryptLayout iv (take 24 (hkdfExpand a c 56)) aad p = Ok b" if "length iv = 12" for iv x a c aad p
    using aesGCMEncryptLayout_Ok [OF k(1) that] aesGCMEncryptLayout_Ok [OF k(2) that] by blast+
  obtain e1 where e1: "aesGCMEncryptLayout (r_iv1 rnd) (take 24 (sha256 shared))
      (sha256 (bytes_of ''1'' @ bytes_of ''415'' @ publicKey (r_eph rnd))) (r_cek rnd) = Ok e1"
    using e(1) [OF assms(3)] by blast
  obtain e2 where "aesGCMEncryptLayout (r_iv2 rnd)
      (take 24 (hkdfExpand (hkdfExtract ilinkHKDFSalt (r_cek rnd))
        (sha256 (bytes_of ''1'' @ bytes_of ''415'' @ publicKey (r_eph rnd))) 56))
      (sha256 (bytes_of ''1'' @ bytes_of ''415'' @ publicKey (r_eph rnd) @ e1)) (lz4AllLiteral plain) = Ok e2"
    using e(2) [OF assms(4)] by blast
  with assms(1,2) e1 show ?thesis
    by (simp add: hybridECDHEncrypt_def generateECDH_def Let_def append.simps)
qed

section \<open>The login response\<close>

text \<open>What the server answers to a login: its own key, the kind of credential, the sealed reply.\<close>

definition login_answer :: "bytes \<Rightarrow> u64 \<Rightarrow> bytes \<Rightarrow> bytes" where
  "login_answer spub cred ct =
     enc_fields [FLen 1 (enc_fields [FVar 1 415, FLen 2 spub]), FVar 2 cred, FLen 3 ct]"

definition answer_aad :: "manualAuthTemp \<Rightarrow> bytes \<Rightarrow> u64 \<Rightarrow> bytes" where
  "answer_aad temp spub cred =
     sha256 (slice (t_OKM temp) 24 56 @ t_CompBody temp @ bytes_of ''415'' @ spub @ bytes_of (itoa (sint cred)))"

lemma login_response_run:
  assumes head: "keys_ok ints" "keys_ok byts"
    and temp: "t_Ephemeral temp = Some d" "56 \<le> length (t_OKM temp)"
    and key: "newPublicKey spub = Some peer" "ecdh d peer = Some shared"
    and ct: "aesGCMEncryptLayout iv (take 24 (sha256 shared)) (answer_aad temp spub cred)
        (lz4AllLiteral mar) = Ok ct" "length iv = 12"
    and len: "length (wpkgHead ints byts @ login_answer spub cred ct) < 2 ^ 62"
  shows "parseLoginResponse (wpkgHead ints byts @ login_answer spub cred ct) temp = Ok mar"
proof -
  let ?h = "wpkgHead ints byts" and ?r = "login_answer spub cred ct"
  let ?k = "enc_fields [FVar 1 415, FLen 2 spub]"
  have l: "length ?r < 2 ^ 62" "length spub < 2 ^ 62" "length ct < 2 ^ 62" "length ?k < 2 ^ 62"
    using len by (simp_all add: login_answer_def enc_fields_def pbLen_def pbVar_def)
  have "?r ! 0 = 0x0a" by (simp add: login_answer_def enc_fields_def pbLen_def tag_byte_def)
  moreover have "?r \<noteq> []" by (simp add: login_answer_def enc_fields_def pbLen_def)
  moreover have "decodeWpkgHead (?h @ ?r) = Ok (map (apfst int) (by_key ints), map (apfst int) (by_key byts), length ?h)"
    using decode_wpkgHead [OF head, of ?r] len by simp
  ultimately have f: "find_hybrid (?h @ ?r) = Ok ?r" by (simp add: find_hybrid_def nth_append)
  have p1: "pbParse ?r = Ok (fold put_field [FLen 1 ?k, FVar 2 cred, FLen 3 ct] [])"
    using l by (intro pbParse_enc [OF login_answer_def]) simp_all
  have p2: "pbParse ?k = Ok (fold put_field [FVar 1 415, FLen 2 spub] [])"
    using l by (intro pbParse_enc [OF refl]) simp_all
  have "aesGCMDecryptLayout (take 24 (sha256 shared)) (answer_aad temp spub cred) ct = Ok (lz4AllLiteral mar)"
    by (rule aesGCM_layout_roundtrip [OF ct])
  then have "hybridECDHDecrypt ?r temp = Ok mar"
    using temp key p1 p2
    by (simp add: hybridECDHDecrypt_def pb_bytes_def pb_int_def answer_aad_def Let_def lz4_decompress_literal)
  with f show ?thesis by (simp add: parseLoginResponse_def)
qed

text \<open>
  The answer to a login that a server seals for the client's ephemeral key, behind any
  header, is opened by the client and gives the reply.
\<close>

theorem parseLoginResponse_opens:
  assumes "keys_ok ints" "keys_ok byts"
    and "t_Ephemeral temp = Some d" "56 \<le> length (t_OKM temp)"
    and "newPublicKey spub = Some peer" "ecdh d peer = Some shared"
    and "aesGCMEncryptLayout iv (take 24 (sha256 shared)) (answer_aad temp spub cred)
        (lz4AllLiteral mar) = Ok ct" "length iv = 12"
    and "length (wpkgHead ints byts @ login_answer spub cred ct) < 2 ^ 62"
  shows "parseLoginResponse (wpkgHead ints byts @ login_answer spub cred ct) temp = Ok mar"
  by (rule login_response_run [OF assms])

lemma ecdh_1: "\<exists>shared. ecdh 1 q = Some shared"
  by (cases q) (simp add: ecdh_def p256_mul_1 del: One_nat_def)

text \<open>An answer for the witnesses; \<open>sample_mar\<close> is a reply with a complete session.\<close>

lemma sample_answer_ok:
  assumes "t_Ephemeral temp = Some 1" "56 \<le> length (t_OKM temp)"
  obtains ct where "parseLoginResponse (sessionWpkgHead 5 [] [] @ login_answer (publicKey 1) 1 ct) temp = Ok sample_mar"
    "length (sessionWpkgHead 5 [] [] @ login_answer (publicKey 1) 1 ct) < 2000"
proof -
  obtain shared where sh: "ecdh 1 p256_g = Some shared" using ecdh_1 by blast
  have k: "aes_key_ok (take 24 (sha256 shared))" by (simp add: aes_key_ok_def)
  obtain ct where ct: "aesGCMEncryptLayout (replicate 12 0) (take 24 (sha256 shared)) (answer_aad temp (publicKey 1) 1)
      (lz4AllLiteral sample_mar) = Ok ct"
    using aesGCMEncryptLayout_Ok [OF k length_replicate] by blast
  have "length (lz4AllLiteral sample_mar) < 100" by code_simp
  with aesGCMEncryptLayout_length [OF ct] have "length ct < 128" by simp
  then have l: "length (sessionWpkgHead 5 [] [] @ login_answer (publicKey 1) 1 ct) < 2000"
    using length_sample_head length_publicKey_1 length_varint [of "word_of_nat (length ct)"]
      length_varint [of 1] length_varint [of 415] length_varint [of 65]
      length_varint [of "word_of_nat (length (pbVar 1 415 @ pbLen 2 (publicKey 1)))"]
    by (simp add: login_answer_def enc_fields_def pbLen_def pbVar_def)
  have "parseLoginResponse (wpkgHead (session_ints 5) (session_byts [] []) @ login_answer (publicKey 1) 1 ct) temp
      = Ok sample_mar"
    using login_response_run [OF session_keys_ok assms newPublicKey_1 sh ct length_replicate] l
    by (simp add: sessionWpkgHead_eq)
  with l that show ?thesis by (simp add: sessionWpkgHead_eq)
qed

theorem parseLoginResponse_opens_witness:
  "\<exists>ct. parseLoginResponse (wpkgHead (session_ints 5) (session_byts [] []) @ login_answer (publicKey 1) 1 ct)
     \<lparr>t_Ephemeral = Some 1, t_OKM = replicate 56 0, t_CompBody = []\<rparr> = Ok [7]"
proof -
  let ?t = "\<lparr>t_Ephemeral = Some 1, t_OKM = replicate 56 0, t_CompBody = []\<rparr> :: manualAuthTemp"
  obtain shared where sh: "ecdh 1 p256_g = Some shared" using ecdh_1 by blast
  have k: "aes_key_ok (take 24 (sha256 shared))" by (simp add: aes_key_ok_def)
  obtain ct where ct: "aesGCMEncryptLayout (replicate 12 0) (take 24 (sha256 shared)) (answer_aad ?t (publicKey 1) 1)
      (lz4AllLiteral [7]) = Ok ct"
    using aesGCMEncryptLayout_Ok [OF k length_replicate] by blast
  have "length ct = 30" using aesGCMEncryptLayout_length [OF ct] length_sample_plain by simp
  then have "length (wpkgHead (session_ints 5) (session_byts [] []) @ login_answer (publicKey 1) 1 ct) < 2 ^ 62"
    using length_sample_head length_publicKey_1 length_varint [of 30]
      length_varint [of 1] length_varint [of 415] length_varint [of 65]
      length_varint [of "word_of_nat (length (pbVar 1 415 @ pbLen 2 (publicKey 1)))"]
    by (simp add: login_answer_def enc_fields_def pbLen_def pbVar_def sessionWpkgHead_eq)
  from parseLoginResponse_opens [OF session_keys_ok _ _ newPublicKey_1 sh ct length_replicate this]
  show ?thesis by auto
qed

end
