(* ===== verification/Transport.thy ===== *)
theory Transport
  imports Go_Net Go_Strings
begin

text \<open>
  Model of \<open>internal/protocol/transport.go\<close>: the choice between a direct connection and
  a proxy, and the two proxy handshakes. \<open>url.Parse\<close> and the dialer of package \<open>net\<close>
  are arguments: \<open>parse_url\<close> gives the scheme, host and port of a URL (or its error),
  \<open>dial\<close> the connection to a host and a port.
\<close>

record tcpProxy =
  p_Scheme :: string
  p_Host :: string
  p_Port :: string

text \<open>A nil proxy with a nil error is \<open>Ok None\<close>.\<close>

definition parseTCPProxy :: "(string \<Rightarrow> tcpProxy go) \<Rightarrow> string \<Rightarrow> tcpProxy option go" where
  "parseTCPProxy parse_url value =
     (if value = [] then Ok None
      else
        go_bind (parse_url value) (\<lambda>u.
          if p_Scheme u \<noteq> ''socks5'' \<and> p_Scheme u \<noteq> ''http-connect''
          then Err (Errorf ''tcp_proxy must use socks5:// or http-connect://'')
          else if p_Host u = [] \<or> p_Port u = []
          then Err (Errorf ''tcp_proxy must include host and port'')
          else Ok (Some u)))"

definition mustAtoi :: "string \<Rightarrow> int" where
  "mustAtoi s = fst (parseInt s)"

text \<open>\<open>net.JoinHostPort\<close> puts brackets around a host with a colon or a per cent sign.\<close>

definition joinHostPort :: "string \<Rightarrow> string \<Rightarrow> string" where
  "joinHostPort host port =
     (if CHR '':'' \<in> set host \<or> CHR ''%'' \<in> set host
      then ''['' @ host @ '']:'' @ port else host @ '':'' @ port)"

section \<open>SOCKS5\<close>

text \<open>\<open>io.CopyN(io.Discard, conn, n)\<close> reads \<open>n\<close> bytes; a short stream is EOF.\<close>

definition io_Discard :: "nat \<Rightarrow> (conn, unit) act" where
  "io_Discard n c =
     (case io_ReadFull n c of
        (Ok _, c) \<Rightarrow> (Ok (), c)
      | (Err e, c) \<Rightarrow> (Err (if e = io_UnexpectedEOF then io_EOF else e), c)
      | (Panic, c) \<Rightarrow> (Panic, c))"

text \<open>The final switch of \<open>socks5Connect\<close>: skip the bound address of the reply.\<close>

definition socks5_skip_addr :: "byte \<Rightarrow> (conn, unit) act" where
  "socks5_skip_addr t =
     (if t = 1 then io_Discard 6
      else if t = 3 then act_bind (io_ReadFull 1) (\<lambda>l. io_Discard (unat (l ! 0) + 2))
      else if t = 4 then io_Discard 18
      else act_lift (Err (Errorf ''SOCKS5 unsupported bind address type: %d'')))"

definition socks5Connect :: "string \<Rightarrow> int \<Rightarrow> (conn, unit) act" where
  "socks5Connect targetHost targetPort =
     act_bind (conn_Write [0x05, 0x01, 0x00]) (\<lambda>_.
     act_bind (io_ReadFull 2) (\<lambda>buf.
     if buf ! 0 \<noteq> 0x05 \<or> buf ! 1 \<noteq> 0x00
     then act_lift (Err (Errorf ''SOCKS5 no-auth negotiation failed: %x''))
     else
       let hostBytes = bytes_of targetHost in
       if length hostBytes > 255 then act_lift (Err (Errorf ''SOCKS5 target host too long''))
       else
         let req = [0x05, 0x01, 0x00, 0x03, word_of_nat (length hostBytes)] @ hostBytes
                 @ be16 (word_of_int targetPort) in
         act_bind (conn_Write req) (\<lambda>_.
         act_bind (io_ReadFull 4) (\<lambda>head.
         if head ! 0 \<noteq> 5 \<or> head ! 1 \<noteq> 0 then act_lift (Err (Errorf ''SOCKS5 connect failed: %x''))
         else socks5_skip_addr (head ! 3)))))"

section \<open>HTTP CONNECT\<close>

text \<open>
  \<open>bufio.Reader.ReadString\<close>: a line up to its line feed, out of the reader's buffer and
  then out of chunks of at most 4096 bytes.
\<close>

definition line_split :: "bytes \<Rightarrow> (bytes \<times> bytes) option" where
  "line_split b =
     (case dropWhile (\<lambda>x. x \<noteq> 10) b of
        [] \<Rightarrow> None
      | _ # rest \<Rightarrow> Some (takeWhile (\<lambda>x. x \<noteq> 10) b @ [10], rest))"

function readString_loop :: "bytes \<Rightarrow> read_ev list \<Rightarrow> (bytes \<times> bytes) go \<times> read_ev list" where
  "readString_loop buf es =
     (case line_split buf of
        Some (line, rest) \<Rightarrow> (Ok (line, rest), es)
      | None \<Rightarrow>
          (case take_chunk 4096 es of
             (Ok b, r) \<Rightarrow> readString_loop (buf @ b) r
           | (Err e, r) \<Rightarrow> (Err e, r)
           | (Panic, r) \<Rightarrow> (Panic, r)))"
  by pat_completeness auto
termination
  by (relation "measure (\<lambda>(buf, es). inbox_size es)") (auto dest!: take_chunk_less)

declare readString_loop.simps [simp del]

definition readString :: "bytes \<Rightarrow> (conn, bytes \<times> bytes) act" where
  "readString buf c = (let (g, r) = readString_loop buf (inbox c) in (g, c\<lparr>inbox := r\<rparr>))"

text \<open>
  The loop over the header lines; its last argument bounds the number of lines (a script
  of reads has at most as many lines as bytes). What is left in the reader's buffer when
  the loop ends is dropped with the reader.
\<close>

fun skip_headers :: "nat \<Rightarrow> bytes \<Rightarrow> (conn, unit) act" where
  "skip_headers 0 buf c = (Err io_EOF, c)"
| "skip_headers (Suc f) buf c =
     (case readString buf c of
        (Ok (l, rest), c) \<Rightarrow>
          if l = [13, 10] \<or> l = [10] then (Ok (), c) else skip_headers f rest c
      | (Err e, c) \<Rightarrow> (Err e, c)
      | (Panic, c) \<Rightarrow> (Panic, c))"

definition connect_request :: "string \<Rightarrow> string" where
  "connect_request target =
     ''CONNECT '' @ target @ '' HTTP/1.1'' @ [CHR 0x0D, CHR 0x0A] @ ''Host: '' @ target
     @ [CHR 0x0D, CHR 0x0A] @ ''Connection: close'' @ [CHR 0x0D, CHR 0x0A, CHR 0x0D, CHR 0x0A]"

definition httpConnect :: "string \<Rightarrow> int \<Rightarrow> (conn, unit) act" where
  "httpConnect targetHost targetPort =
     (let target = joinHostPort targetHost (itoa targetPort) in
      act_bind (conn_Write (bytes_of (connect_request target))) (\<lambda>_.
      act_bind (readString []) (\<lambda>(line, rest).
        let parts = str_fields (string_of line) in
        if length parts < 2 \<or> \<not> prefix ''2'' (parts ! 1)
        then act_lift (Err (Errorf ''HTTP CONNECT failed: %s''))
        else act_bind (act_get (\<lambda>c. length rest + inbox_size (inbox c) + 1)) (\<lambda>n.
             skip_headers n rest))))"

section \<open>Dialing\<close>

definition dialViaProxy ::
  "(string \<Rightarrow> int \<Rightarrow> conn go) \<Rightarrow> tcpProxy \<Rightarrow> string \<Rightarrow> int \<Rightarrow> conn go \<times> conn option" where
  "dialViaProxy dial proxy targetHost targetPort =
     (case dial (p_Host proxy) (mustAtoi (p_Port proxy)) of
        Ok c \<Rightarrow>
          (case (if p_Scheme proxy = ''socks5'' then socks5Connect targetHost targetPort c
                 else httpConnect targetHost targetPort c) of
             (Ok _, c) \<Rightarrow> (Ok c, Some c)
           | (Err e, c) \<Rightarrow> (Err e, Some (conn_Close c))
           | (Panic, c) \<Rightarrow> (Panic, Some c))
      | Err e \<Rightarrow> (Err e, None)
      | Panic \<Rightarrow> (Panic, None))"

definition dialTCP ::
  "(string \<Rightarrow> tcpProxy go) \<Rightarrow> (string \<Rightarrow> int \<Rightarrow> conn go) \<Rightarrow> string \<Rightarrow> int \<Rightarrow> string \<Rightarrow> bool \<Rightarrow> conn go" where
  "dialTCP parse_url dial host port proxyValue fallbackDirect =
     go_bind (parseTCPProxy parse_url proxyValue) (\<lambda>proxy.
       case proxy of
         None \<Rightarrow> dial host port
       | Some p \<Rightarrow>
           (case fst (dialViaProxy dial p host port) of
              Ok c \<Rightarrow> Ok c
            | Err e \<Rightarrow> if \<not> fallbackDirect then Err e else dial host port
            | Panic \<Rightarrow> Panic))"

section \<open>Correctness\<close>

lemma io_ReadFull_prefix:
  assumes "good_inbox (inbox c)" "inbox_bytes (inbox c) = b @ rest" "length b = n"
  shows "\<exists>r. io_ReadFull n c = (Ok b, c\<lparr>inbox := r\<rparr>) \<and> good_inbox r \<and> inbox_bytes r = rest"
proof -
  have "n \<le> length (inbox_bytes (inbox c))" using assms(2,3) by simp
  from io_ReadFull_good [OF assms(1) this] obtain r where
    "io_ReadFull n c = (Ok (take n (inbox_bytes (inbox c))), c\<lparr>inbox := r\<rparr>)" "good_inbox r"
    "inbox_bytes r = drop n (inbox_bytes (inbox c))" .
  with assms(2,3) show ?thesis by auto
qed

lemma io_Discard_prefix:
  assumes "good_inbox (inbox c)" "inbox_bytes (inbox c) = b @ rest" "length b = n"
  shows "\<exists>r. io_Discard n c = (Ok (), c\<lparr>inbox := r\<rparr>) \<and> good_inbox r \<and> inbox_bytes r = rest"
  using io_ReadFull_prefix [OF assms] by (auto simp: io_Discard_def)

text \<open>A reply that binds an address of each kind, as RFC 1928 lays it out.\<close>

datatype bind_addr = IPv4 bytes | Domain bytes | IPv6 bytes

fun addr_bytes :: "bind_addr \<Rightarrow> bytes" where
  "addr_bytes (IPv4 a) = 1 # a"
| "addr_bytes (Domain d) = 3 # word_of_nat (length d) # d"
| "addr_bytes (IPv6 a) = 4 # a"

fun addr_ok :: "bind_addr \<Rightarrow> bool" where
  "addr_ok (IPv4 a) = (length a = 4)"
| "addr_ok (Domain d) = (length d \<le> 255)"
| "addr_ok (IPv6 a) = (length a = 16)"

definition socks5_reply :: "bind_addr \<Rightarrow> bytes \<Rightarrow> bytes" where
  "socks5_reply a port = [5, 0] @ [5, 0, 0] @ addr_bytes a @ port"

definition socks5_request :: "string \<Rightarrow> int \<Rightarrow> bytes" where
  "socks5_request host port =
     [5, 1, 0, 3, word_of_nat (length host)] @ bytes_of host @ be16 (word_of_int port)"

text \<open>With a proxy that accepts, the SOCKS5 handshake succeeds however its answer is cut
  into chunks, sends the greeting and one request, and consumes exactly the answer: every
  byte the target sends afterwards is still there to be read.\<close>

theorem socks5Connect_transparent:
  assumes "good_inbox (inbox c)" "inbox_bytes (inbox c) = socks5_reply a port @ payload"
    and "addr_ok a" "length port = 2" "wok c = True # True # w" "length host \<le> 255"
  shows "\<exists>r. socks5Connect host p c = (Ok (), c\<lparr>inbox := r, wok := w,
      sent := sent c @ [[5, 1, 0], socks5_request host p]\<rparr>)
    \<and> good_inbox r \<and> inbox_bytes r = payload"
proof -
  define req where "req = socks5_request host p"
  obtain c1 where c1: "conn_Write [5, 1, 0] c = (Ok (), c1)"
    "c1 = c\<lparr>wok := True # w, sent := sent c @ [[5, 1, 0]]\<rparr>"
    using assms(5) by (simp add: conn_Write_def)
  have "inbox_bytes (inbox c1) = [5, 0] @ [5, 0, 0] @ addr_bytes a @ port @ payload"
    using assms(2) c1(2) by (simp add: socks5_reply_def)
  from io_ReadFull_prefix [OF _ this, of 2] assms(1) c1(2)
  obtain c2 r1 where c2: "io_ReadFull 2 c1 = (Ok [5, 0], c2)" "c2 = c1\<lparr>inbox := r1\<rparr>"
    "good_inbox r1" "inbox_bytes r1 = [5, 0, 0] @ addr_bytes a @ port @ payload" by auto
  obtain c3 where c3: "conn_Write req c2 = (Ok (), c3)"
    "c3 = c\<lparr>inbox := r1, wok := w, sent := sent c @ [[5, 1, 0], req]\<rparr>"
    using c1(2) c2(2) by (simp add: conn_Write_def)
  obtain t body where t: "addr_bytes a = t # body" by (cases a) auto
  have "inbox_bytes (inbox c3) = [5, 0, 0, t] @ body @ port @ payload"
    using c2(4) c3(2) t by simp
  from io_ReadFull_prefix [OF _ this, of 4] c2(3) c3(2)
  obtain c4 r2 where c4: "io_ReadFull 4 c3 = (Ok [5, 0, 0, t], c4)" "c4 = c3\<lparr>inbox := r2\<rparr>"
    "good_inbox r2" "inbox_bytes r2 = body @ port @ payload" by auto
  have in4: "inbox c4 = r2" using c4(2) by simp
  have "\<exists>c5 r3. socks5_skip_addr t c4
      = (Ok (), c5) \<and> c5 = c4\<lparr>inbox := r3\<rparr> \<and> good_inbox r3 \<and> inbox_bytes r3 = payload"
  proof (cases a)
    case (Domain d)
    with t assms(3) have tb: "t = 3" "body = word_of_nat (length d) # d" and l: "length d \<le> 255" by auto
    have u: "unat (word_of_nat (length d) :: byte) = length d" using l by (intro unat_of_nat_small) simp
    from io_ReadFull_prefix [of c4 "[word_of_nat (length d)]" "d @ port @ payload" 1] c4(3,4) in4 tb(2)
    obtain r3 where r3: "io_ReadFull 1 c4 = (Ok [word_of_nat (length d)], c4\<lparr>inbox := r3\<rparr>)"
      "good_inbox r3" "inbox_bytes r3 = d @ port @ payload" by auto
    from io_Discard_prefix [of "c4\<lparr>inbox := r3\<rparr>" "d @ port" payload "length d + 2"] r3(2,3) assms(4)
    obtain r4 where "io_Discard (length d + 2) (c4\<lparr>inbox := r3\<rparr>) = (Ok (), c4\<lparr>inbox := r4\<rparr>)"
      "good_inbox r4" "inbox_bytes r4 = payload" by auto
    with r3(1) tb(1) u show ?thesis by (auto simp: socks5_skip_addr_def)
  next
    case (IPv4 x)
    with t assms(3) have "t = 1" "body = x" "length x = 4" by auto
    with io_Discard_prefix [of c4 "x @ port" payload 6] c4(3,4) in4 assms(4) show ?thesis
      by (auto simp: socks5_skip_addr_def)
  next
    case (IPv6 x)
    with t assms(3) have "t = 4" "body = x" "length x = 16" by auto
    with io_Discard_prefix [of c4 "x @ port" payload 18] c4(3,4) in4 assms(4) show ?thesis
      by (auto simp: socks5_skip_addr_def)
  qed
  then obtain c5 r3 where c5: "socks5_skip_addr t c4 = (Ok (), c5)"
    "c5 = c4\<lparr>inbox := r3\<rparr>" "good_inbox r3" "inbox_bytes r3 = payload" by blast
  have "socks5Connect host p c = (Ok (), c5)"
    using c1(1) c2(1) c3(1) c4(1) c5(1) assms(6)
    by (simp add: socks5Connect_def Let_def req_def socks5_request_def)
  moreover have "c5 = c\<lparr>inbox := r3, wok := w, sent := sent c @ [[5, 1, 0], socks5_request host p]\<rparr>"
    using c5(2) c4(2) c3(2) by (simp add: req_def)
  ultimately show ?thesis using c5(3,4) by blast
qed

theorem socks5Connect_transparent_witness:
  "\<exists>r. socks5Connect ''h'' 80 \<lparr>inbox = map RData [[5], [0, 5, 0, 0, 1], [9, 9, 9, 9, 0, 80, 42]],
       wok = [True, True], sent = [], closed = False\<rparr>
     = (Ok (), \<lparr>inbox = r, wok = [], sent = [[5, 1, 0], socks5_request ''h'' 80], closed = False\<rparr>)
     \<and> inbox_bytes r = [42]"
  using socks5Connect_transparent [of "\<lparr>inbox = map RData [[5], [0, 5, 0, 0, 1], [9, 9, 9, 9, 0, 80, 42]],
       wok = [True, True], sent = [], closed = False\<rparr>" "IPv4 [9, 9, 9, 9]" "[0, 80]" "[42]" "[]" "''h''" 80]
  by (auto simp: socks5_reply_def)

end
