(* ===== verification/Newdns.thy ===== *)
theory Newdns
  imports Transport Go_Json
begin

text \<open>
  Model of \<open>internal/protocol/newdns.go\<close>: the HTTPDNS query and its cache, and the choice
  of the servers for LongLink and ShortLink. The network is an argument: \<open>dial\<close> gives the
  connection to a host and port. \<open>net.ParseIP\<close> is an argument \<open>is_ip\<close>.
\<close>

definition newdnsHost :: string where "newdnsHost = ''aedns.weixin.qq.com''"
definition newdnsBackupIP :: string where "newdnsBackupIP = ''180.153.202.85''"
definition newdnsPath :: string where "newdnsPath = ''/cgi-bin/default/getdns''"
definition longlinkDomain :: string where "longlinkDomain = ''longcloud.weixin.com''"
definition shortlinkDomain :: string where "shortlinkDomain = ''shortcloud.weixin.com''"
definition protoMMTLS :: string where "protoMMTLS = ''mmtlsovertcp''"
definition defaultUA :: string where "defaultUA = ''MicroMessenger Client''"

record target =
  IP :: string
  Port :: int

record dnsDomain =
  IPs :: "string list"
  Protocols :: "(string \<times> int list) list"
  d_Timeout :: int

type_synonym dnsTable = "(string \<times> dnsDomain) list"

record dnsCacheEntry =
  ExpiresAt :: int
  Parsed :: dnsTable

type_synonym dnsCache = "(string \<times> dnsCacheEntry) list"

definition crlf :: string where "crlf = [CHR 0x0D, CHR 0x0A]"

definition splitHTTP :: "bytes \<Rightarrow> string \<times> bytes" where
  "splitHTTP raw =
     (case str_index raw [13, 10, 13, 10] of
        None \<Rightarrow> ([], raw)
      | Some idx \<Rightarrow> (string_of (take idx raw), drop (idx + 4) raw))"

text \<open>\<open>url.Values.Encode\<close> writes the keys in order; these values need no escaping.\<close>

definition buildDNSQuery :: "int \<Rightarrow> string \<Rightarrow> int \<Rightarrow> string" where
  "buildDNSQuery clientVersion deviceType uin =
     ''clientversion='' @ itoa clientVersion @ ''&devicetype='' @ deviceType @ ''&format=json&uin=''
     @ itoa uin"

definition dns_request :: string where
  "dns_request =
     ''GET '' @ newdnsPath @ ''?'' @ buildDNSQuery 0 ''Windows'' 0 @ '' HTTP/1.0'' @ crlf
     @ ''Host: '' @ newdnsHost @ crlf @ ''User-Agent: '' @ defaultUA @ crlf
     @ ''Accept: */*'' @ crlf @ ''Connection: close'' @ crlf @ crlf"

definition http_status :: "string \<Rightarrow> int" where
  "http_status head =
     (let parts = str_fields (split_on (CHR 0x0A) head ! 0) in
      if length parts \<ge> 2 then fst (parseInt (parts ! 1)) else 0)"

text \<open>The status and the object of a response; a body that is no object leaves the nil map.\<close>

definition requestNewDNS :: "(string \<Rightarrow> int \<Rightarrow> conn go) \<Rightarrow> string \<Rightarrow> (int \<times> gmap option) go" where
  "requestNewDNS dial connectTo =
     (let host = (if connectTo = [] then newdnsHost else connectTo) in
      go_bind (dial host 80) (\<lambda>c.
      go_bind (fst (conn_Write (bytes_of dns_request) c)) (\<lambda>_.
      go_bind (fst (io_ReadAll c)) (\<lambda>raw.
        let (head, body) = splitHTTP raw;
            obj = (case json_Unmarshal_map body of Some m \<Rightarrow> m | None \<Rightarrow> None) in
        Ok (http_status head, obj)))))"

section \<open>The answer\<close>

text \<open>\<open>append\<close> to an entry of the map of ports.\<close>

definition append_port :: "string \<Rightarrow> int \<Rightarrow> (string \<times> int list) list \<Rightarrow> (string \<times> int list) list" where
  "append_port k p m =
     AList.update k ((case map_of m k of Some ps \<Rightarrow> ps | None \<Rightarrow> []) @ [p]) m"

definition str_or_empty :: "gval \<Rightarrow> string" where
  "str_or_empty v = (case as_str v of Some s \<Rightarrow> s | None \<Rightarrow> [])"

definition parse_ips :: "(string \<Rightarrow> bool) \<Rightarrow> gval \<Rightarrow> string list" where
  "parse_ips is_ip v =
     (case as_arr v of
        None \<Rightarrow> []
      | Some ips \<Rightarrow> concat (map (\<lambda>it.
          case as_map it of
            Some m \<Rightarrow> (case as_str (gget m ''ip'') of
                        Some ip \<Rightarrow> if is_ip ip then [ip] else []
                      | None \<Rightarrow> [])
          | None \<Rightarrow> []) ips))"

definition parse_protocols :: "gval \<Rightarrow> (string \<times> int list) list" where
  "parse_protocols v =
     (case as_arr v of
        None \<Rightarrow> []
      | Some plist \<Rightarrow> foldl (\<lambda>out it.
          case as_map it of
            None \<Rightarrow> out
          | Some p \<Rightarrow>
              (let pname = str_or_empty (gget p ''name'') in
               if pname = [] then out
               else case as_arr (gget p ''portlist'') of
                 None \<Rightarrow> out
               | Some ports \<Rightarrow> foldl (\<lambda>out pv.
                   case pv of GFloat f \<Rightarrow> append_port pname (float_to_int64 f) out | _ \<Rightarrow> out)
                   out ports)) [] plist)"

definition parse_domain :: "(string \<Rightarrow> bool) \<Rightarrow> gmap \<Rightarrow> dnsDomain" where
  "parse_domain is_ip d =
     \<lparr>IPs = parse_ips is_ip (gget d ''iplist''),
      Protocols = parse_protocols (gget d ''protocollist''),
      d_Timeout = (case gget d ''timeout'' of GFloat t \<Rightarrow> float_to_int64 t | _ \<Rightarrow> 0)\<rparr>"

definition parseDomainList :: "(string \<Rightarrow> bool) \<Rightarrow> gmap \<Rightarrow> dnsTable go" where
  "parseDomainList is_ip obj =
     go_bind (of_opt (Errorf ''dns missing in response'') (as_map (gget obj ''dns''))) (\<lambda>dnsObj.
     go_bind (go_guard (case gget dnsObj ''retcode'' of GFloat rc \<Rightarrow> float_to_int64 rc \<noteq> 0 | _ \<Rightarrow> False)
                (Errorf ''newdns retcode=%d'')) (\<lambda>_.
     go_bind (of_opt (Errorf ''domainlist missing in response'') (as_arr (gget dnsObj ''domainlist'')))
       (\<lambda>list.
     Ok (foldl (\<lambda>out item.
           case as_map item of
             None \<Rightarrow> out
           | Some d \<Rightarrow>
               (let name = str_or_empty (gget d ''name'') in
                if name = [] then out else AList.update name (parse_domain is_ip d) out))
         [] list))))"

section \<open>The cache\<close>

text \<open>
  The loop over the two servers. The result carries the cache; \<open>now\<close> and \<open>cacheTTL\<close> are in
  nanoseconds.
\<close>

fun dns_try ::
  "(string \<Rightarrow> (int \<times> gmap option) go) \<Rightarrow> (string \<Rightarrow> bool) \<Rightarrow> int \<Rightarrow> int \<Rightarrow> string list \<Rightarrow> go_error
   \<Rightarrow> dnsCache \<Rightarrow> dnsTable go \<times> dnsCache" where
  "dns_try req is_ip now cacheTTL [] lst cache = (Err lst, cache)"
| "dns_try req is_ip now cacheTTL (s # ss) lst cache =
     (case req s of
        Err e \<Rightarrow> dns_try req is_ip now cacheTTL ss e cache
      | Panic \<Rightarrow> (Panic, cache)
      | Ok (status, obj) \<Rightarrow>
          (case (if status = 200 then obj else None) of
             None \<Rightarrow> dns_try req is_ip now cacheTTL ss (Errorf ''newdns HTTP %d body=%q'') cache
           | Some m \<Rightarrow>
               (case parseDomainList is_ip m of
                  Err e \<Rightarrow> dns_try req is_ip now cacheTTL ss e cache
                | Panic \<Rightarrow> (Panic, cache)
                | Ok parsed \<Rightarrow>
                    (Ok parsed,
                     if cacheTTL > 0
                     then AList.update ''0|Windows''
                            \<lparr>ExpiresAt = now + cacheTTL, Parsed = parsed\<rparr> cache
                     else cache))))"

definition getDNSParsed ::
  "(string \<Rightarrow> (int \<times> gmap option) go) \<Rightarrow> (string \<Rightarrow> bool) \<Rightarrow> int \<Rightarrow> int \<Rightarrow> bool
   \<Rightarrow> dnsCache \<Rightarrow> dnsTable go \<times> dnsCache" where
  "getDNSParsed req is_ip now cacheTTL force cache =
     (case (if \<not> force \<and> cacheTTL > 0 then map_of cache ''0|Windows'' else None) of
        Some ent \<Rightarrow>
          if ExpiresAt ent > now then (Ok (Parsed ent), cache)
          else dns_try req is_ip now cacheTTL [[], newdnsBackupIP] (Errorf ''newdns request failed'') cache
      | None \<Rightarrow>
          dns_try req is_ip now cacheTTL [[], newdnsBackupIP] (Errorf ''newdns request failed'') cache)"

section \<open>Targets\<close>

definition serversFor :: "dnsTable \<Rightarrow> string \<Rightarrow> string \<Rightarrow> target list" where
  "serversFor parsed domain proto =
     (case map_of parsed domain of
        None \<Rightarrow> []
      | Some info \<Rightarrow>
          (let ports = (case map_of (Protocols info) proto of Some ps \<Rightarrow> ps | None \<Rightarrow> []) in
           concat (map (\<lambda>ip. map (\<lambda>p. \<lparr>IP = ip, Port = p\<rparr>) ports) (IPs info))))"

text \<open>\<open>getLonglinkTargets\<close> and \<open>getShortlinkTargets\<close> on the result of \<open>getDNSParsed\<close>.\<close>

definition getLonglinkTargets :: "dnsTable go \<Rightarrow> target list go" where
  "getLonglinkTargets parsed =
     (let fallback = Ok [\<lparr>IP = longlinkDomain, Port = 443\<rparr>] in
      case parsed of
        Ok tab \<Rightarrow>
          (let targets = serversFor tab longlinkDomain protoMMTLS in
           if length targets > 0 then Ok targets else fallback)
      | Err _ \<Rightarrow> fallback
      | Panic \<Rightarrow> Panic)"

text \<open>The loops with the set \<open>seen\<close> keep the first target of every address that fits.\<close>

fun dedup_by_ip :: "(target \<Rightarrow> bool) \<Rightarrow> string list \<Rightarrow> target list \<Rightarrow> target list" where
  "dedup_by_ip ok seen [] = []"
| "dedup_by_ip ok seen (t # ts) =
     (if ok t \<and> IP t \<notin> set seen then t # dedup_by_ip ok (IP t # seen) ts
      else dedup_by_ip ok seen ts)"

definition shortlink_fallback :: target where
  "shortlink_fallback = \<lparr>IP = ''120.241.131.173'', Port = 80\<rparr>"

definition getShortlinkTargets :: "dnsTable go \<Rightarrow> target list" where
  "getShortlinkTargets parsed =
     (case parsed of
        Ok tab \<Rightarrow>
          (let out = dedup_by_ip (\<lambda>t. Port t = 80) [] (serversFor tab shortlinkDomain ''http'') in
           if length out = 0 then [shortlink_fallback] else out)
      | _ \<Rightarrow> [shortlink_fallback])"

fun by_preference :: "int list \<Rightarrow> string list \<Rightarrow> target list \<Rightarrow> target list" where
  "by_preference [] seen ts = []"
| "by_preference (p # ps) seen ts =
     (let new = dedup_by_ip (\<lambda>t. Port t = p) seen ts in
      new @ by_preference ps (map IP new @ seen) ts)"

definition orderLonglinkTargets :: "target list \<Rightarrow> int \<Rightarrow> target list" where
  "orderLonglinkTargets targets maxn =
     (let out = by_preference [8080, 80, 443, 5000] [] targets;
          out = (if length out = 0 then out @ targets else out);
          out = sort_key IP out in
      if maxn > 0 \<and> int (length out) > maxn then take (nat maxn) out else out)"

section \<open>Correctness\<close>

lemma dedup_sub:
  "t \<in> set (dedup_by_ip ok seen ts) \<Longrightarrow> t \<in> set ts \<and> ok t \<and> IP t \<notin> set seen"
proof (induction ts arbitrary: seen)
  case (Cons u ts)
  then show ?case using Cons.IH [of "IP u # seen"] Cons.IH [of seen] by (auto split: if_splits)
qed simp

lemma dedup_distinct: "distinct (map IP (dedup_by_ip ok seen ts))"
proof (induction ts arbitrary: seen)
  case (Cons t ts)
  have "IP t \<notin> IP ` set (dedup_by_ip ok (IP t # seen) ts)"
    by (force dest: dedup_sub)
  with Cons show ?case by simp
qed simp

lemma dedup_cover:
  "t \<in> set ts \<Longrightarrow> ok t \<Longrightarrow> IP t \<in> set seen \<union> IP ` set (dedup_by_ip ok seen ts)"
proof (induction ts arbitrary: seen)
  case (Cons u ts)
  then show ?case using Cons.IH [of "IP u # seen"] Cons.IH [of seen] by auto
qed simp

lemma preference_sub:
  "t \<in> set (by_preference ps seen ts) \<Longrightarrow> t \<in> set ts \<and> Port t \<in> set ps \<and> IP t \<notin> set seen"
proof (induction ps arbitrary: seen)
  case (Cons p ps)
  let ?new = "dedup_by_ip (\<lambda>t. Port t = p) seen ts"
  from Cons.prems consider "t \<in> set ?new" | "t \<in> set (by_preference ps (map IP ?new @ seen) ts)"
    by (auto simp: Let_def)
  then show ?case
  proof cases
    case 1
    with dedup_sub [OF 1] show ?thesis by simp
  next
    case 2
    with Cons.IH [OF 2] show ?thesis by simp
  qed
qed simp

lemma preference_distinct: "distinct (map IP (by_preference ps seen ts))"
proof (induction ps arbitrary: seen)
  case (Cons p ps)
  let ?new = "dedup_by_ip (\<lambda>t. Port t = p) seen ts"
  have "IP ` set ?new \<inter> IP ` set (by_preference ps (map IP ?new @ seen) ts) = {}"
  proof -
    have "IP t \<notin> IP ` set ?new" if "t \<in> set (by_preference ps (map IP ?new @ seen) ts)" for t
      using preference_sub [OF that] by simp
    then have "\<forall>x \<in> IP ` set (by_preference ps (map IP ?new @ seen) ts). x \<notin> IP ` set ?new"
      by (simp only: ball_simps) (intro ballI)
    then show ?thesis by blast
  qed
  moreover have "by_preference (p # ps) seen ts = ?new @ by_preference ps (map IP ?new @ seen) ts"
    by (simp add: Let_def)
  moreover note Cons.IH [of "map IP ?new @ seen"] dedup_distinct [of "\<lambda>t. Port t = p" seen ts]
  ultimately show ?case by (simp only: map_append distinct_append set_map simp_thms)
qed simp

lemma preference_cover:
  "t \<in> set ts \<Longrightarrow> Port t \<in> set ps \<Longrightarrow> IP t \<in> set seen \<union> IP ` set (by_preference ps seen ts)"
proof (induction ps arbitrary: seen)
  case (Cons p ps)
  let ?new = "dedup_by_ip (\<lambda>t. Port t = p) seen ts"
  show ?case
  proof (cases "Port t = p")
    case True
    then have "IP t \<in> set seen \<union> IP ` set ?new"
      using dedup_cover [of t ts "\<lambda>t. Port t = p" seen] Cons.prems(1) by blast
    then show ?thesis by (auto simp: Let_def)
  next
    case False
    then show ?thesis using Cons.IH [of "map IP ?new @ seen"] Cons.prems by (auto simp: Let_def)
  qed
qed simp

lemma capped:
  assumes "out = (if (maxn :: int) > 0 \<and> int (length xs) > maxn then take (nat maxn) xs else xs)"
  obtains n where "out = take n xs" "n > 0" "maxn > 0 \<longrightarrow> int (length out) \<le> maxn"
proof (cases "maxn > 0 \<and> int (length xs) > maxn")
  case True
  then have "int (length (take (nat maxn) xs)) \<le> maxn" "nat maxn > 0" by auto
  with assms True that [of "nat maxn"] show ?thesis by presburger
next
  case False
  with assms that [of "Suc (length xs)"] show ?thesis by auto
qed

text \<open>The LongLink targets that are tried come from the answer, sorted by address, at most
  as many as asked for and at least one when there is one; when a preferred port is offered
  they are all on preferred ports and no address is tried twice.\<close>

theorem orderLonglinkTargets_correct:
  assumes "out = orderLonglinkTargets targets maxn"
  shows "set out \<subseteq> set targets \<and> sorted (map IP out)
    \<and> (maxn > 0 \<longrightarrow> int (length out) \<le> maxn) \<and> (targets \<noteq> [] \<longrightarrow> out \<noteq> [])
    \<and> ((\<exists>t \<in> set targets. Port t \<in> {8080, 80, 443, 5000}) \<longrightarrow>
        distinct (map IP out) \<and> (\<forall>t \<in> set out. Port t \<in> {8080, 80, 443, 5000}))"
proof -
  let ?pref = "[8080, 80, 443, 5000] :: int list"
  define o1 where "o1 = by_preference ?pref [] targets"
  let ?o2 = "if length o1 = 0 then o1 @ targets else o1"
  let ?o3 = "sort_key IP ?o2"
  note sub1 = preference_sub [of _ ?pref "[]" targets, folded o1_def]
  have "out = (if maxn > 0 \<and> int (length ?o3) > maxn then take (nat maxn) ?o3 else ?o3)"
    using assms by (simp only: orderLonglinkTargets_def Let_def o1_def)
  then obtain n where out: "out = take n ?o3" and n: "n > 0" "maxn > 0 \<longrightarrow> int (length out) \<le> maxn"
    by (rule capped)
  have sub: "set out \<subseteq> set ?o2" using set_take_subset [of n ?o3] by (auto simp: out)
  have "set ?o2 \<subseteq> set targets" using sub1 by auto
  moreover have "sorted (map IP out)" by (simp add: out take_map [symmetric] sorted_wrt_take)
  moreover have "targets \<noteq> [] \<longrightarrow> 0 < length ?o2" by simp
  then have "targets \<noteq> [] \<longrightarrow> 0 < length out" using n(1) unfolding out by simp
  then have "targets \<noteq> [] \<longrightarrow> out \<noteq> []" by auto
  moreover have "distinct (map IP out) \<and> (\<forall>t \<in> set out. Port t \<in> {8080, 80, 443, 5000})"
    if "\<exists>t \<in> set targets. Port t \<in> {8080, 80, 443, 5000}"
  proof -
    from that obtain t where "t \<in> set targets" "Port t \<in> set ?pref" by auto
    from preference_cover [OF this, of "[]", folded o1_def] have "o1 \<noteq> []" by auto
    then have o2: "?o2 = o1" by simp
    have "distinct (map IP ?o3)"
      using preference_distinct [of ?pref "[]" targets, folded o1_def] unfolding o2 by (simp add: distinct_map)
    then have "distinct (map IP out)" by (simp add: out take_map [symmetric])
    moreover have "\<forall>t \<in> set out. Port t \<in> {8080, 80, 443, 5000}"
      using sub unfolding o2 by (auto dest!: subsetD sub1)
    ultimately show ?thesis by blast
  qed
  ultimately show ?thesis using n(2) sub by blast
qed

theorem orderLonglinkTargets_correct_witness:
  "set (orderLonglinkTargets [\<lparr>IP = ''b'', Port = 443\<rparr>, \<lparr>IP = ''a'', Port = 80\<rparr>] 1)
     \<subseteq> {\<lparr>IP = ''b'', Port = 443\<rparr>, \<lparr>IP = ''a'', Port = 80\<rparr>}
   \<and> length (orderLonglinkTargets [\<lparr>IP = ''b'', Port = 443\<rparr>, \<lparr>IP = ''a'', Port = 80\<rparr>] 1) \<le> 1"
  using orderLonglinkTargets_correct [OF refl, of "[\<lparr>IP = ''b'', Port = 443\<rparr>, \<lparr>IP = ''a'', Port = 80\<rparr>]" 1]
  by simp

text \<open>The ShortLink targets are never empty, are all on port 80 and name no address twice.\<close>

theorem getShortlinkTargets_correct:
  "getShortlinkTargets parsed \<noteq> [] \<and> (\<forall>t \<in> set (getShortlinkTargets parsed). Port t = 80)
   \<and> distinct (map IP (getShortlinkTargets parsed))"
proof (cases parsed)
  case (Ok tab)
  show ?thesis
    using dedup_sub [of _ "\<lambda>t. Port t = 80" "[]" "serversFor tab shortlinkDomain ''http''"]
      dedup_distinct [of "\<lambda>t. Port t = 80" "[]" "serversFor tab shortlinkDomain ''http''"]
    by (auto simp: getShortlinkTargets_def Ok Let_def shortlink_fallback_def)
qed (simp_all add: getShortlinkTargets_def shortlink_fallback_def)

theorem getShortlinkTargets_correct_witness:
  "Port (hd (getShortlinkTargets (Err (Errorf ''x'')))) = 80"
  using getShortlinkTargets_correct [of "Err (Errorf ''x'')"] by (simp add: hd_in_set)

lemma dns_try_cached:
  "dns_try req is_ip now ttl ss lst cache = (Ok parsed, cache') \<Longrightarrow> 0 < ttl \<Longrightarrow>
   map_of cache' ''0|Windows'' = Some \<lparr>ExpiresAt = now + ttl, Parsed = parsed\<rparr>"
  by (induction ss arbitrary: lst)
     (auto split: go.splits option.splits prod.splits if_splits simp: update_conv')

text \<open>A table that was fetched is served from the cache, without a request, until its
  lifetime is over.\<close>

theorem getDNSParsed_cached:
  assumes "getDNSParsed req is_ip now ttl True cache = (Ok parsed, cache')" "0 < ttl" "now' < now + ttl"
  shows "getDNSParsed req' is_ip' now' ttl' False cache' =
    (if 0 < ttl' then (Ok parsed, cache')
     else dns_try req' is_ip' now' ttl' [[], newdnsBackupIP] (Errorf ''newdns request failed'') cache')"
proof -
  from assms(1) have "dns_try req is_ip now ttl [[], newdnsBackupIP]
      (Errorf ''newdns request failed'') cache = (Ok parsed, cache')"
    by (simp add: getDNSParsed_def)
  from dns_try_cached [OF this assms(2)] assms(3) show ?thesis
    by (simp add: getDNSParsed_def)
qed

definition dns_sample :: gmap where
  "dns_sample = [(''dns'', GMap [(''retcode'', GFloat 0), (''domainlist'', GArr
     [GMap [(''name'', GStr longlinkDomain), (''iplist'', GArr [GMap [(''ip'', GStr ''1.2.3.4'')]]),
        (''protocollist'', GArr [GMap [(''name'', GStr protoMMTLS), (''portlist'', GArr [GFloat 443])]])]])])]"

lemma float_to_int64_0: "float_to_int64 0 = 0"
  by code_simp

theorem getDNSParsed_cached_witness:
  "\<exists>parsed cache'. getDNSParsed (\<lambda>_. Ok (200, Some dns_sample)) (\<lambda>_. True) 10 50 True [] = (Ok parsed, cache')
     \<and> getDNSParsed (\<lambda>_. Err (Errorf ''x'')) (\<lambda>_. True) 20 50 False cache' = (Ok parsed, cache')"
proof -
  obtain parsed cache' where r: "getDNSParsed (\<lambda>_. Ok (200, Some dns_sample)) (\<lambda>_. True) 10 50 True [] = (Ok parsed, cache')"
    by (simp add: getDNSParsed_def parseDomainList_def dns_sample_def gget_def float_to_int64_0)
  show ?thesis
    using getDNSParsed_cached [OF r, of 20 "\<lambda>_. Err (Errorf ''x'')" "\<lambda>_. True" 50] r by auto
qed

end
