(* ===== verification/Shortlink.thy ===== *)
theory Shortlink
  imports Ilink_Props Newdns
begin

unbundle bit_operations_syntax

text \<open>
  Model of \<open>internal/protocol/shortlink.go\<close>: a call over ShortLink in one round trip,
  sealed under keys that come from a pre-shared key. Random bytes and the clock are
  arguments; the connection is that of theory \<open>Go_Net\<close>.
\<close>

definition type8Prefix :: bytes where
  "type8Prefix = [0x00, 0x00, 0x00, 0x10, 0x08, 0x00, 0x00, 0x00, 0x0b, 0x01, 0x00, 0x00, 0x00,
     0x06, 0x00, 0x12]"

definition earlyAlert :: bytes where
  "earlyAlert = [0x00, 0x00, 0x00, 0x03, 0x00, 0x01, 0x01]"

definition hex_DecodeString :: "string \<Rightarrow> bytes go" where
  "hex_DecodeString s =
     (case hexDecode s of (b, err) \<Rightarrow> if err then Err (Errorf ''encoding/hex: invalid'') else Ok b)"

text \<open>\<open>r, _ := buildRecord(...)\<close>: the error is dropped and the record is empty.\<close>

definition record_or_nil :: "byte \<Rightarrow> bytes \<Rightarrow> bytes" where
  "record_or_nil ct payload = (case buildRecord ct payload of Ok b \<Rightarrow> b | _ \<Rightarrow> [])"

text \<open>The result is the request, the key, the ClientHello and the second message.\<close>

definition build0RTTRequest ::
  "bytes \<Rightarrow> u32 \<Rightarrow> pskEntry \<Rightarrow> bytes \<Rightarrow> (bytes \<times> bytes \<times> bytes \<times> bytes) go" where
  "build0RTTRequest randomBytes ts entry envelope =
     go_bind (hex_DecodeString (e_PreSharedKey entry)) (\<lambda>psk.
     go_bind (hex_DecodeString (e_TicketEntry entry)) (\<lambda>ticket.
     go_bind (buildPSKClientHello randomBytes ts ticket) (\<lambda>pskCH.
       let hEarly = sha256 pskCH;
           ek = derivePSKOneWayKeys psk labelEarlyKeys hEarly;
           type8 = type8Prefix @ be32 ts;
           body = record_or_nil ctPSKHandshake pskCH in
     go_bind (encryptRecordPayload (TKey ek) (TIV ek) 1 ctPSKHandshake type8) (\<lambda>ct1.
       let body = body @ record_or_nil ctPSKHandshake ct1 in
     go_bind (encryptRecordPayload (TKey ek) (TIV ek) 2 ctAppData envelope) (\<lambda>ct2.
       let body = body @ record_or_nil ctAppData ct2 in
     go_bind (encryptRecordPayload (TKey ek) (TIV ek) 3 ctAlert earlyAlert) (\<lambda>ct3.
       let body = body @ record_or_nil ctAlert ct3 in
     Ok (body, psk, pskCH, type8)))))))"

definition httpPost :: "string \<Rightarrow> string \<Rightarrow> bytes \<Rightarrow> bytes" where
  "httpPost path host body =
     bytes_of (''POST '' @ path @ '' HTTP/1.0'' @ crlf @ ''Accept: */*'' @ crlf
       @ ''Cache-Control: no-cache'' @ crlf @ ''Connection: close'' @ crlf
       @ ''Content-Length: '' @ itoa (int (length body)) @ crlf
       @ ''Content-Type: application/octet-stream'' @ crlf @ ''Host: '' @ host @ crlf
       @ ''Upgrade: mmtls'' @ crlf @ ''User-Agent: MicroMessenger Client'' @ crlf
       @ ''X-Online-Host: '' @ host @ crlf @ crlf) @ body"

section \<open>The response\<close>

text \<open>
  The first handshake record and the first application record with a payload (an empty
  payload is the nil slice).
\<close>

definition collect_records :: "mmrecord list \<Rightarrow> bytes \<times> bytes" where
  "collect_records recs =
     foldl (\<lambda>(sh, app) r.
        (if ContentType r = ctHandshake \<and> sh = [] then Payload r else sh,
         if ContentType r = ctAppData \<and> app = [] then Payload r else app)) ([], []) recs"

definition open_appdata :: "bytes \<Rightarrow> bytes \<Rightarrow> (bytes \<times> bytes) go" where
  "open_appdata recvKey ad =
     (let direct = go_bind (sessionDecrypt ad recvKey) (\<lambda>resp.
                   go_bind (extractCode resp) (\<lambda>code. Ok (code, resp))) in
      case parseShortlink ad of
        Ok sl \<Rightarrow>
          (case sessionDecrypt (Body sl) recvKey of
             Ok resp \<Rightarrow> go_bind (extractCode resp) (\<lambda>code. Ok (code, resp))
           | Err _ \<Rightarrow> direct
           | Panic \<Rightarrow> Panic)
      | Err _ \<Rightarrow> direct
      | Panic \<Rightarrow> Panic)"

text \<open>The two loops, over the transcripts and the sequence numbers, as one list.\<close>

fun try_open :: "bytes \<Rightarrow> bytes \<Rightarrow> bytes \<Rightarrow> (bytes \<times> u64) list \<Rightarrow> (bytes \<times> bytes) go" where
  "try_open psk appdata recvKey [] = Err (Errorf ''AppData decrypt/parse failed'')"
| "try_open psk appdata recvKey ((tr, seq) # rest) =
     (let hk = derivePSKOneWayKeys psk labelHandshakeKeys (sha256 tr) in
      case decryptRecordPayload (TKey hk) (TIV hk) seq ctAppData appdata of
        Ok ad \<Rightarrow>
          (case open_appdata recvKey ad of
             Ok r \<Rightarrow> Ok r
           | Err _ \<Rightarrow> try_open psk appdata recvKey rest
           | Panic \<Rightarrow> Panic)
      | Err _ \<Rightarrow> try_open psk appdata recvKey rest
      | Panic \<Rightarrow> Panic)"

definition transcripts :: "bytes \<Rightarrow> bytes \<Rightarrow> bytes \<Rightarrow> bytes list" where
  "transcripts pskCH type8 sh = [pskCH @ sh, pskCH @ type8 @ sh, pskCH @ sh @ type8]"

definition parse0RTTResponse ::
  "bytes \<Rightarrow> bytes \<Rightarrow> bytes \<Rightarrow> bytes \<Rightarrow> bytes \<Rightarrow> (bytes \<times> bytes) go" where
  "parse0RTTResponse rbody psk pskCH type8 recvKey =
     (let (recs, _) = parseRecords rbody;
          (sh, appdata) = collect_records recs in
      if sh = [] \<or> appdata = [] then Err (Errorf ''response missing ServerHello/AppData'')
      else try_open psk appdata recvKey
             (concat (map (\<lambda>tr. map (Pair tr) [2, 1, 3]) (transcripts pskCH type8 sh))))"

text \<open>
  \<open>send0RTTRaw\<close> on the connection that \<open>dialTCP\<close> returned; \<open>path\<close> is made from the clock.
  The connection is closed at the end.
\<close>

definition send0RTTRaw ::
  "conn go \<Rightarrow> bytes \<Rightarrow> u32 \<Rightarrow> string \<Rightarrow> pskEntry \<Rightarrow> bytes \<Rightarrow> bytes \<Rightarrow> (bytes \<times> bytes) go \<times> conn option" where
  "send0RTTRaw dialed randomBytes ts path entry recvKey envelope =
     (case build0RTTRequest randomBytes ts entry envelope of
        Err e \<Rightarrow> (Err e, None)
      | Panic \<Rightarrow> (Panic, None)
      | Ok (body, psk, pskCH, type8) \<Rightarrow>
          (case dialed of
             Err e \<Rightarrow> (Err e, None)
           | Panic \<Rightarrow> (Panic, None)
           | Ok c \<Rightarrow>
               (let req = httpPost path ''shortcloud.weixin.com'' body;
                    (g, c) = act_bind (conn_Write req) (\<lambda>_. io_ReadAll) c;
                    res = go_bind g (\<lambda>raw.
                      let responseBody = snd (splitHTTP raw) in
                      if length responseBody = 0 then Err (Errorf ''empty ShortLink response'')
                      else parse0RTTResponse responseBody psk pskCH type8 recvKey) in
                (res, Some (conn_Close c)))))"

text \<open>\<open>send0RTT\<close>: \<open>raw\<close> is the attempt on one target.\<close>

fun send0RTT_loop ::
  "(target \<Rightarrow> (bytes \<times> bytes) go) \<Rightarrow> go_error option \<Rightarrow> target list \<Rightarrow> (bytes \<times> bytes) go" where
  "send0RTT_loop raw lst [] =
     Err (Wrapf ''all ShortLink targets failed; last error: %w''
       (case lst of Some e \<Rightarrow> e | None \<Rightarrow> Errorf ''no ShortLink targets''))"
| "send0RTT_loop raw lst (t # ts) =
     (case raw t of
        Ok (code, resp) \<Rightarrow>
          if length code > 0 \<or> length resp > 0 then Ok (code, resp)
          else send0RTT_loop raw
                 (Some (Errorf ''ShortLink response did not contain application data'')) ts
      | Err e \<Rightarrow> send0RTT_loop raw (Some e) ts
      | Panic \<Rightarrow> Panic)"

definition send0RTT :: "(target \<Rightarrow> (bytes \<times> bytes) go) \<Rightarrow> target list \<Rightarrow> (bytes \<times> bytes) go" where
  "send0RTT raw targets = send0RTT_loop raw None targets"

section \<open>Correctness of the request\<close>

text \<open>The records that the server is meant to find in a request.\<close>

definition early_records :: "bytes \<Rightarrow> bytes \<Rightarrow> bytes \<Rightarrow> bytes \<Rightarrow> mmrecord list" where
  "early_records pskCH c1 c2 c3 =
     [\<lparr>ContentType = ctPSKHandshake, Payload = pskCH\<rparr>, \<lparr>ContentType = ctPSKHandshake, Payload = c1\<rparr>,
      \<lparr>ContentType = ctAppData, Payload = c2\<rparr>, \<lparr>ContentType = ctAlert, Payload = c3\<rparr>]"

lemma record_or_nil_bytes:
  "length p \<le> 0xffff \<Longrightarrow> record_or_nil ct p = record_bytes \<lparr>ContentType = ct, Payload = p\<rparr>"
  by (simp add: record_or_nil_def buildRecord_def record_bytes_def)

lemma record_or_nil_long: "length p > 0xffff \<Longrightarrow> record_or_nil ct p = []"
  by (simp add: record_or_nil_def buildRecord_def)

lemma build0RTT_OkD:
  assumes "build0RTTRequest rnd ts entry envelope = Ok (body, psk, pskCH, type8)"
    and "ek = derivePSKOneWayKeys psk labelEarlyKeys (sha256 pskCH)"
  obtains c1 c2 c3 where
    "encryptRecordPayload (TKey ek) (TIV ek) 1 ctPSKHandshake type8 = Ok c1"
    "encryptRecordPayload (TKey ek) (TIV ek) 2 ctAppData envelope = Ok c2"
    "encryptRecordPayload (TKey ek) (TIV ek) 3 ctAlert earlyAlert = Ok c3"
    "body = record_or_nil ctPSKHandshake pskCH @ record_or_nil ctPSKHandshake c1
        @ record_or_nil ctAppData c2 @ record_or_nil ctAlert c3"
    "length c1 = 36" "length c2 = length envelope + 16" "length c3 = 23"
proof -
  from assms obtain c1 c2 c3 where c:
    "encryptRecordPayload (TKey ek) (TIV ek) 1 ctPSKHandshake type8 = Ok c1"
    "encryptRecordPayload (TKey ek) (TIV ek) 2 ctAppData envelope = Ok c2"
    "encryptRecordPayload (TKey ek) (TIV ek) 3 ctAlert earlyAlert = Ok c3"
    "body = record_or_nil ctPSKHandshake pskCH @ record_or_nil ctPSKHandshake c1
        @ record_or_nil ctAppData c2 @ record_or_nil ctAlert c3" and t: "type8 = type8Prefix @ be32 ts"
    by (auto simp: build0RTTRequest_def go_bind_Ok_iff Let_def)
  have k: "record_key (TKey ek) (TIV ek)" by (simp add: assms(2))
  have "length c1 = length type8 + 16" "length c2 = length envelope + 16"
    "length c3 = length earlyAlert + 16"
    using encryptRecordPayload_Ok [OF k, of 1 ctPSKHandshake type8]
      encryptRecordPayload_Ok [OF k, of 2 ctAppData envelope]
      encryptRecordPayload_Ok [OF k, of 3 ctAlert earlyAlert] c(1-3) by auto
  with c t that show ?thesis by (simp add: type8Prefix_def earlyAlert_def)
qed


definition sample_entry :: pskEntry where
  "sample_entry = \<lparr>e_PSKType = 1, e_PreSharedKey = ''0a0b'', e_TicketEntry = ''0c'', e_Lifetime = 60,
     e_ExpiredAt = 100\<rparr>"

lemma sample_request:
  "\<exists>body pskCH type8. build0RTTRequest (replicate 32 0) 9 sample_entry envelope = Ok (body, [10, 11], pskCH, type8)
     \<and> length pskCH \<le> 0xffff"
proof -
  have h: "hex_DecodeString ''0a0b'' = Ok [10, 11]" "hex_DecodeString ''0c'' = Ok [12]"
    by code_simp+
  obtain ch where ch: "buildPSKClientHello (replicate 32 0) 9 [12] = Ok ch" "length ch \<le> 0xffff"
    by (simp add: buildPSKClientHello_def Let_def buildHandshake_def)
  define ek where "ek = derivePSKOneWayKeys [10, 11] labelEarlyKeys (sha256 ch)"
  have k: "record_key (TKey ek) (TIV ek)" by (simp add: ek_def)
  show ?thesis
    using encryptRecordPayload_Ok [OF k, of 1 ctPSKHandshake "type8Prefix @ be32 9"]
      encryptRecordPayload_Ok [OF k, of 2 ctAppData envelope]
      encryptRecordPayload_Ok [OF k, of 3 ctAlert earlyAlert] h ch
    by (auto simp: build0RTTRequest_def sample_entry_def ek_def [symmetric] Let_def)
qed


text \<open>An envelope that does not fit into a record is dropped without an error: the request
  is built and sent, but holds only the handshake and the alert.\<close>

theorem build0RTTRequest_drops_long_envelope:
  assumes "build0RTTRequest rnd ts entry envelope = Ok (body, psk, pskCH, type8)"
    and "length pskCH \<le> 0xffff" "length envelope + 16 > 0xffff"
  shows "\<exists>r0 r1 r3. parseRecords body = ([r0, r1, r3], length body)
    \<and> ContentType r0 = ctPSKHandshake \<and> ContentType r1 = ctPSKHandshake \<and> ContentType r3 = ctAlert"
proof -
  obtain c1 c2 c3 where
    body: "body = record_or_nil ctPSKHandshake pskCH @ record_or_nil ctPSKHandshake c1
        @ record_or_nil ctAppData c2 @ record_or_nil ctAlert c3"
    and l: "length c1 = 36" "length c2 = length envelope + 16" "length c3 = 23"
    using build0RTT_OkD [OF assms(1) refl] .
  let ?rs = "[\<lparr>ContentType = ctPSKHandshake, Payload = pskCH\<rparr>,
    \<lparr>ContentType = ctPSKHandshake, Payload = c1\<rparr>, \<lparr>ContentType = ctAlert, Payload = c3\<rparr>]"
  have b: "body = concat (map record_bytes ?rs)"
    using assms(2,3) l by (simp add: body record_or_nil_bytes record_or_nil_long)
  have "\<forall>r \<in> set ?rs. wire_record r"
    using assms(2) l by (simp add: wire_record_def knownContentType_def)
  from parseRecords_all [OF this] have "parseRecords body = (?rs, length body)" by (simp add: b)
  then show ?thesis by auto
qed

theorem build0RTTRequest_drops_long_envelope_witness:
  "\<exists>body pskCH type8 rs. build0RTTRequest (replicate 32 0) 9 sample_entry (replicate 70000 1)
       = Ok (body, [10, 11], pskCH, type8)
     \<and> parseRecords body = (rs, length body) \<and> length rs = 3"
proof -
  obtain body pskCH type8 where r: "build0RTTRequest (replicate 32 0) 9 sample_entry (replicate 70000 1)
      = Ok (body, [10, 11], pskCH, type8)" "length pskCH \<le> 0xffff"
    using sample_request by blast
  have "length (replicate 70000 (1 :: byte)) + 16 > 0xffff" by simp
  from build0RTTRequest_drops_long_envelope [OF r this] r(1) show ?thesis by fastforce
qed

section \<open>Correctness of the response\<close>

lemma parse0RTTResponse_run:
  assumes recs: "\<forall>r \<in> set recs. wire_record r" "collect_records recs = (sh, appdata)" "sh \<noteq> []"
    and hk: "hk = derivePSKOneWayKeys psk labelHandshakeKeys (sha256 (pskCH @ sh))"
    and app: "encryptRecordPayload (TKey hk) (TIV hk) 2 ctAppData
        (buildShortlink cmd seq (hdr @ blob) ver) = Ok appdata"
    and len: "length (hdr @ blob) < 2 ^ 32 - 16"
    and hdr: "hdr = wpkgHead ints byts" "keys_ok ints" "keys_ok byts"
    and blob: "aesGCMEncryptLayout iv recvKey [] (lz4AllLiteral resp) = Ok blob" "length iv = 12"
    and code: "extractCode resp = Ok code"
  shows "parse0RTTResponse (concat (map record_bytes recs)) psk pskCH type8 recvKey = Ok (code, resp)"
proof -
  have k: "record_key (TKey hk) (TIV hk)" by (simp add: hk)
  have "parseShortlink (buildShortlink cmd seq (hdr @ blob) ver) = Ok
      \<lparr>TotalLen = 16 + length (hdr @ blob), Magic = shortlinkMagic,
       Ver = (if ver = 0 then defaultVer else ver), Cmd = cmd, Seq = seq, Body = hdr @ blob\<rparr>"
    using parseShortlink_build [OF len, of cmd seq ver "[]"] by simp
  moreover have "sessionDecrypt (hdr @ blob) recvKey = Ok resp"
    using decode_wpkgHead [OF hdr(2,3), of blob] len
    by (intro sessionDecrypt_sealed [OF _ blob]) (simp add: hdr(1))
  ultimately have o: "open_appdata recvKey (buildShortlink cmd seq (hdr @ blob) ver) = Ok (code, resp)"
    by (simp add: open_appdata_def code)
  have d: "decryptRecordPayload (TKey hk) (TIV hk) 2 ctAppData appdata
      = Ok (buildShortlink cmd seq (hdr @ blob) ver)"
    using app by (simp add: decryptRecordPayload_iff_lemma [OF k])
  have "appdata \<noteq> []"
    using encryptRecordPayload_Ok [OF k, of 2 ctAppData "buildShortlink cmd seq (hdr @ blob) ver"] app
    by auto
  with recs(3) show ?thesis
    using d o by (simp add: parse0RTTResponse_def parseRecords_all [OF recs(1)] recs(2)
        transcripts_def hk [symmetric])
qed

text \<open>The answer of a server that follows the protocol is opened: it seals a ShortLink
  packet under the handshake key of the pre-shared key with sequence number 2, and in it,
  under the session's receive key, the response.\<close>

theorem parse0RTTResponse_opens:
  assumes recs: "\<forall>r \<in> set recs. wire_record r" "collect_records recs = (sh, appdata)" "sh \<noteq> []"
    and hk: "hk = derivePSKOneWayKeys psk labelHandshakeKeys (sha256 (pskCH @ sh))"
    and app: "encryptRecordPayload (TKey hk) (TIV hk) 2 ctAppData
        (buildShortlink cmd seq (hdr @ blob) ver) = Ok appdata"
    and len: "length (hdr @ blob) < 2 ^ 32 - 16"
    and hdr: "hdr = wpkgHead ints byts" "keys_ok ints" "keys_ok byts"
    and blob: "aesGCMEncryptLayout iv recvKey [] (lz4AllLiteral resp) = Ok blob" "length iv = 12"
    and code: "extractCode resp = Ok code"
  shows "parse0RTTResponse (concat (map record_bytes recs)) psk pskCH type8 recvKey = Ok (code, resp)"
  by (rule parse0RTTResponse_run [OF assms])

text \<open>A server that answers with its hello and one application record.\<close>

definition sample_keys :: trafficKeys where
  "sample_keys = derivePSKOneWayKeys [10, 11] labelHandshakeKeys (sha256 ([2] @ [9]))"

definition sample_response :: bytes where
  "sample_response = enc_fields [FVar 1 7]"

lemma sample_answer:
  obtains blob appdata where
    "aesGCMEncryptLayout (replicate 12 0) (replicate 16 2) [] (lz4AllLiteral sample_response) = Ok blob"
    "encryptRecordPayload (TKey sample_keys) (TIV sample_keys) 2 ctAppData
       (buildShortlink 7 0 (sessionWpkgHead 5 [] [] @ blob) 0) = Ok appdata"
    "\<forall>r \<in> set [\<lparr>ContentType = ctHandshake, Payload = [9]\<rparr>, \<lparr>ContentType = ctAppData, Payload = appdata\<rparr>].
       wire_record r"
    "length (sessionWpkgHead 5 [] [] @ blob) < 2 ^ 32 - 16" "appdata \<noteq> []"
proof -
  obtain blob where b: "aesGCMEncryptLayout (replicate 12 0) (replicate 16 2) [] (lz4AllLiteral sample_response) = Ok blob"
    using aesGCMEncryptLayout_Ok [of "replicate 16 2" "replicate 12 0"] by auto
  have k: "record_key (TKey sample_keys) (TIV sample_keys)" by (simp add: sample_keys_def)
  have "length (lz4AllLiteral sample_response) < 100" by code_simp
  then have l: "length blob < 128" using aesGCMEncryptLayout_length [OF b] by simp
  obtain appdata where a: "encryptRecordPayload (TKey sample_keys) (TIV sample_keys) 2 ctAppData
      (buildShortlink 7 0 (sessionWpkgHead 5 [] [] @ blob) 0) = Ok appdata"
    "length appdata = length (buildShortlink 7 0 (sessionWpkgHead 5 [] [] @ blob) 0) + 16"
    using encryptRecordPayload_Ok [OF k] by blast
  show ?thesis
    by (rule that [OF b a(1)])
       (use a(2) l length_sample_head in
         \<open>auto simp: wire_record_def knownContentType_def buildShortlink_def Let_def\<close>)
qed

lemma sample_code: "extractCode sample_response = Ok []"
  by code_simp

theorem parse0RTTResponse_opens_witness:
  "\<exists>appdata. parse0RTTResponse (concat (map record_bytes [\<lparr>ContentType = ctHandshake, Payload = [9]\<rparr>,
      \<lparr>ContentType = ctAppData, Payload = appdata\<rparr>])) [10, 11] [2] [] (replicate 16 2) = Ok ([], sample_response)"
proof -
  obtain blob appdata where s:
    "aesGCMEncryptLayout (replicate 12 0) (replicate 16 2) [] (lz4AllLiteral sample_response) = Ok blob"
    "encryptRecordPayload (TKey sample_keys) (TIV sample_keys) 2 ctAppData
       (buildShortlink 7 0 (sessionWpkgHead 5 [] [] @ blob) 0) = Ok appdata"
    "\<forall>r \<in> set [\<lparr>ContentType = ctHandshake, Payload = [9]\<rparr>, \<lparr>ContentType = ctAppData, Payload = appdata\<rparr>].
       wire_record r"
    "length (sessionWpkgHead 5 [] [] @ blob) < 2 ^ 32 - 16" "appdata \<noteq> []"
    by (rule sample_answer)
  have c: "collect_records [\<lparr>ContentType = ctHandshake, Payload = [9]\<rparr>,
      \<lparr>ContentType = ctAppData, Payload = appdata\<rparr>] = ([9], appdata)"
    by (simp add: collect_records_def ctHandshake_def ctAppData_def)
  show ?thesis
    using parse0RTTResponse_opens [OF s(3) c _ sample_keys_def s(2,4) sessionWpkgHead_eq session_keys_ok s(1)
        _ sample_code, of "[]"] by auto
qed

lemma try_open_sound:
  "try_open psk appdata recvKey cands = Ok (code, resp) \<Longrightarrow>
   \<exists>(tr, seq) \<in> set cands. \<exists>ad. let hk = derivePSKOneWayKeys psk labelHandshakeKeys (sha256 tr) in
     encryptRecordPayload (TKey hk) (TIV hk) seq ctAppData ad = Ok appdata
     \<and> open_appdata recvKey ad = Ok (code, resp)"
proof (induction psk appdata recvKey cands rule: try_open.induct)
  case (2 psk appdata recvKey tr seq rest)
  let ?hk = "derivePSKOneWayKeys psk labelHandshakeKeys (sha256 tr)"
  have k: "record_key (TKey ?hk) (TIV ?hk)" by simp
  show ?case
  proof (cases "decryptRecordPayload (TKey ?hk) (TIV ?hk) seq ctAppData appdata")
    case (Ok ad)
    then have e: "encryptRecordPayload (TKey ?hk) (TIV ?hk) seq ctAppData ad = Ok appdata"
      by (simp add: decryptRecordPayload_iff_lemma [OF k])
    show ?thesis
    proof (cases "open_appdata recvKey ad")
      case (Ok r)
      with "2.prems" \<open>decryptRecordPayload _ _ _ _ _ = _\<close> e show ?thesis by (auto simp: Let_def)
    next
      case (Err x)
      with "2.prems" \<open>decryptRecordPayload _ _ _ _ _ = _\<close> "2.IH"(1) [OF refl _ Err] show ?thesis
        by (auto simp: Let_def)
    next
      case Panic
      with "2.prems" \<open>decryptRecordPayload _ _ _ _ _ = _\<close> show ?thesis by (simp add: Let_def)
    qed
  next
    case (Err x)
    with "2.prems" "2.IH"(2) [OF refl Err] show ?thesis by (auto simp: Let_def)
  next
    case Panic
    with "2.prems" show ?thesis by (simp add: Let_def)
  qed
qed simp

text \<open>C32: A response is accepted only when its application record is sealed under a key
  derived from the pre-shared key, over a transcript that starts with the client's own
  hello.\<close>

theorem parse0RTTResponse_sound:
  assumes "parse0RTTResponse rbody psk pskCH type8 recvKey = Ok (code, resp)"
  shows "\<exists>rest seq ad. let hk = derivePSKOneWayKeys psk labelHandshakeKeys (sha256 (pskCH @ rest)) in
     encryptRecordPayload (TKey hk) (TIV hk) seq ctAppData ad
       = Ok (snd (collect_records (fst (parseRecords rbody))))
     \<and> open_appdata recvKey ad = Ok (code, resp)"
proof -
  obtain recs n where r: "parseRecords rbody = (recs, n)" by fastforce
  obtain sh appdata where c: "collect_records recs = (sh, appdata)" by fastforce
  let ?cands = "concat (map (\<lambda>tr. map (Pair tr) [2, 1, 3]) (transcripts pskCH type8 sh)) :: (bytes \<times> u64) list"
  from assms r c have "try_open psk appdata recvKey ?cands = Ok (code, resp)"
    by (simp add: parse0RTTResponse_def split: if_splits)
  from try_open_sound [OF this] obtain tr seq ad where t: "(tr, seq) \<in> set ?cands"
    and e: "let hk = derivePSKOneWayKeys psk labelHandshakeKeys (sha256 tr) in
      encryptRecordPayload (TKey hk) (TIV hk) seq ctAppData ad = Ok appdata
      \<and> open_appdata recvKey ad = Ok (code, resp)" by blast
  from t obtain rest where "tr = pskCH @ rest" by (auto simp: transcripts_def)
  with e r c show ?thesis by auto
qed

theorem parse0RTTResponse_sound_witness:
  "\<exists>rbody rest seq ad. parse0RTTResponse rbody [10, 11] [2] [] (replicate 16 2) = Ok ([], sample_response)
     \<and> (let hk = derivePSKOneWayKeys [10, 11] labelHandshakeKeys (sha256 ([2] @ rest)) in
        encryptRecordPayload (TKey hk) (TIV hk) seq ctAppData ad
          = Ok (snd (collect_records (fst (parseRecords rbody)))))"
proof -
  obtain blob appdata where s:
    "aesGCMEncryptLayout (replicate 12 0) (replicate 16 2) [] (lz4AllLiteral sample_response) = Ok blob"
    "encryptRecordPayload (TKey sample_keys) (TIV sample_keys) 2 ctAppData
       (buildShortlink 7 0 (sessionWpkgHead 5 [] [] @ blob) 0) = Ok appdata"
    "\<forall>r \<in> set [\<lparr>ContentType = ctHandshake, Payload = [9]\<rparr>, \<lparr>ContentType = ctAppData, Payload = appdata\<rparr>].
       wire_record r"
    "length (sessionWpkgHead 5 [] [] @ blob) < 2 ^ 32 - 16" "appdata \<noteq> []"
    by (rule sample_answer)
  have c: "collect_records [\<lparr>ContentType = ctHandshake, Payload = [9]\<rparr>,
      \<lparr>ContentType = ctAppData, Payload = appdata\<rparr>] = ([9], appdata)"
    by (simp add: collect_records_def ctHandshake_def ctAppData_def)
  let ?b = "concat (map record_bytes [\<lparr>ContentType = ctHandshake, Payload = [9]\<rparr>,
      \<lparr>ContentType = ctAppData, Payload = appdata\<rparr>])"
  have r: "parse0RTTResponse ?b [10, 11] [2] [] (replicate 16 2) = Ok ([], sample_response)"
    by (rule parse0RTTResponse_run [OF s(3) c _ sample_keys_def s(2,4) sessionWpkgHead_eq session_keys_ok s(1)
        _ sample_code]) simp_all
  from parse0RTTResponse_sound [OF r] r show ?thesis by (metis (no_types, lifting))
qed

end
