(* ===== verification/Hostsign.thy ===== *)
theory Hostsign
  imports Ilink
begin

text \<open>
  Model of \<open>internal/protocol/hostsign.go\<close>: the request of \<open>getHostSign\<close> and the search
  for its JSON answer inside nested messages.
\<close>

definition verifyPluginCmdID :: u64 where "verifyPluginCmdID = 1714"

definition verifyPluginURL :: bytes where
  "verifyPluginURL = bytes_of ''/cgi-bin/mmbiz-bin/wxaapp/verifyplugin''"

section \<open>Request\<close>

definition inner_version_err :: go_error where
  "inner_version_err = Errorf ''inner_version must be a non-negative integer''"

text \<open>
  \<open>int64(number)\<close> of an unsigned value wraps around. In the case of a float64 the constant
  \<open>math.MaxInt64\<close> is converted to float64 and becomes \<open>2^63\<close>.
\<close>

definition wrap_int64 :: "int \<Rightarrow> int" where
  "wrap_int64 z = sint (word_of_int z :: u64)"

fun normalizeInnerVersion :: "gval \<Rightarrow> int go" where
  "normalizeInnerVersion (GInt k z) =
     (if k = KUint64 \<and> z > max_int64 then Err (Errorf ''inner_version exceeds int64'')
      else Ok (wrap_int64 z))"
| "normalizeInnerVersion (GFloat q) =
     (if of_int (trunc_rat q) \<noteq> q \<or> q < 0 \<or> q > 2 ^ 63 then Err inner_version_err
      else Ok (float_to_int64 q))"
| "normalizeInnerVersion (GNumber s) =
     (case parseInt s of (v, err) \<Rightarrow> if err \<or> v < 0 then Err inner_version_err else Ok v)"
| "normalizeInnerVersion (GStr s) =
     (case parseInt (trimSpace s) of (v, err) \<Rightarrow> if err \<or> v < 0 then Err inner_version_err else Ok v)"
| "normalizeInnerVersion _ = Err inner_version_err"

definition normalizeHostSignPayload :: "gmap option \<Rightarrow> bytes go" where
  "normalizeHostSignPayload payload =
     (case payload of
        None \<Rightarrow> Err (Errorf ''getHostSign payload must not be empty'')
      | Some m \<Rightarrow>
          if ghas m ''data'' then
            (case gget m ''data'' of
               GStr value \<Rightarrow>
                 (let value = trimSpace value in
                  if value = [] \<or> \<not> json_Valid (bytes_of value)
                  then Err (Errorf ''getHostSign data must be a JSON string'')
                  else Ok (bytes_of value))
             | GMap value \<Rightarrow> Ok (json_Marshal (GMap value))
             | GRaw value \<Rightarrow>
                 if \<not> json_Valid value then Err (Errorf ''getHostSign data must be JSON'')
                 else Ok value
             | _ \<Rightarrow> Err (Errorf ''getHostSign data must be a JSON string or an object''))
          else
            let provider = trimSpace (stringAny (gget m ''provider'')) in
            if provider \<noteq> [] then
              (if \<not> ghas m ''inner_version'' then Err (Errorf ''provider needs inner_version'')
               else
                 go_bind (normalizeInnerVersion (gget m ''inner_version'')) (\<lambda>version.
                 Ok (json_Marshal (GMap [(''plugins'',
                       GMaps [[(''provider'', GStr provider), (''inner_version'', GInt KInt64 version)]])]))))
            else if \<not> ghas m ''plugins'' \<or> gget m ''plugins'' = GNil
            then Err (Errorf ''getHostSign payload needs provider, plugins or data'')
            else Ok (json_Marshal (GMap m)))"

definition buildHostSignRequestWithSessionDevice ::
  "bytes \<Rightarrow> int \<Rightarrow> string \<Rightarrow> gmap option \<Rightarrow> bytes \<Rightarrow> bytes go" where
  "buildHostSignRequestWithSessionDevice mac uin appID payload sessDevice =
     go_bind (normalizeHostSignPayload payload) (\<lambda>requestJSON.
       let aid = bytes_of appID;
           body = pbLen 1 (sessionInfo (word_of_int uin) unifiedPCWindows sessDevice) @ pbLen 2 aid
                @ pbLen 3 requestJSON in
       Ok (buildJSAPIPlaintext mac uin appID verifyPluginURL verifyPluginCmdID (Some body) [] sessDevice))"

definition buildHostSignRequest :: "bytes \<Rightarrow> int \<Rightarrow> string \<Rightarrow> gmap option \<Rightarrow> bytes go" where
  "buildHostSignRequest mac uin appID payload =
     buildHostSignRequestWithSessionDevice mac uin appID payload (randomSessDevice mac)"

section \<open>Response\<close>

definition decodeHostSignJSON :: "bytes \<Rightarrow> gmap option \<Rightarrow> gmap go" where
  "decodeHostSignJSON raw rawFields =
     (case json_Unmarshal_map raw of
        None \<Rightarrow> Err (Errorf ''VerifyPlugin JSON: %w'')
      | Some decoded \<Rightarrow>
          (let m = (case decoded of Some m \<Rightarrow> m | None \<Rightarrow> []);
               list = (case as_arr (gget m ''list'') of
                         Some l \<Rightarrow> Some l | None \<Rightarrow> as_arr (gget m ''plugins'')) in
           case list of
             None \<Rightarrow> Err (Errorf ''VerifyPlugin JSON without list'')
           | Some l \<Rightarrow> Ok [(''success'', GBool True), (''plugins'', GArr l),
                          (''raw_json'', GStr (string_of raw)), (''raw_fields'', map_value rawFields),
                          (''list'', GArr l)]))"

definition describe_value :: "pbval \<Rightarrow> string" where
  "describe_value v =
     (case v of PBytes b \<Rightarrow> ''bytes['' @ itoa (int (length b)) @ '']''
      | PInt n \<Rightarrow> ''varint['' @ itoa (sint n) @ '']'')"

definition sorted_fields :: "pbmap \<Rightarrow> pbmap" where
  "sorted_fields m = map (\<lambda>k. (k, the (map_of m k))) (sort (map fst m))"

definition describeProtobufFields :: "pbmap \<Rightarrow> gmap" where
  "describeProtobufFields m = map (\<lambda>(k, v). (itoa (int k), GStr (describe_value v))) (sorted_fields m)"

text \<open>The first hit of a search over a list.\<close>

fun first_found :: "(bytes \<Rightarrow> gmap option go) \<Rightarrow> bytes list \<Rightarrow> gmap option go" where
  "first_found f [] = Ok None"
| "first_found f (b # bs) =
     (case f b of Ok (Some r) \<Rightarrow> Ok (Some r) | Ok None \<Rightarrow> first_found f bs
      | Err e \<Rightarrow> Err e | Panic \<Rightarrow> Panic)"

text \<open>
  \<open>findHostSignResponse(candidate, depth, parentFields)\<close> with \<open>left\<close> = 6 - depth: the
  search gives up when depth exceeds 5.
\<close>

primrec findHostSignResponse :: "nat \<Rightarrow> bytes \<Rightarrow> gmap option \<Rightarrow> gmap option go" where
  "findHostSignResponse 0 candidate parentFields = Ok None"
| "findHostSignResponse (Suc left) candidate parentFields =
     (if length candidate = 0 then Ok None
      else
        let trimmed = bytes_of (trimSpace (string_of candidate)) in
        case (if json_Valid trimmed then decodeHostSignJSON trimmed parentFields
              else Err (Errorf ''invalid'')) of
          Ok result \<Rightarrow> Ok (Some result)
        | _ \<Rightarrow>
            go_bind (pbParse candidate) (\<lambda>fields.
              if length fields = 0 then Ok None
              else
                let described = describeProtobufFields fields;
                    values = filter (\<lambda>b. length b > 0)
                      (concat (map (\<lambda>(k, v). case v of PBytes b \<Rightarrow> [b] | PInt _ \<Rightarrow> [])
                        (sorted_fields fields))) in
                first_found (\<lambda>value. findHostSignResponse left value (Some described)) values))"

definition parseHostSignResponse :: "bytes \<Rightarrow> bytes \<Rightarrow> gmap go" where
  "parseHostSignResponse codeOrJSON response =
     go_bind (first_found (\<lambda>candidate. findHostSignResponse 6 candidate None) [codeOrJSON, response])
       (\<lambda>r. of_opt (Errorf ''VerifyPlugin response without HostSign JSON'') r)"

section \<open>Correctness\<close>

text \<open>What a result of the search looks like: it was decoded from a JSON object in which the
  list stands under one of the two names.\<close>

definition host_sign_result :: "gmap \<Rightarrow> bool" where
  "host_sign_result r \<longleftrightarrow> (\<exists>raw m l. gget r ''raw_json'' = GStr (string_of raw) \<and>
     json_Unmarshal_map raw = Some (Some m) \<and>
     (gget m ''list'' = GArr l \<or> gget m ''plugins'' = GArr l) \<and>
     gget r ''list'' = GArr l \<and> gget r ''plugins'' = GArr l \<and> gget r ''success'' = GBool True)"

lemma as_arr_Some: "as_arr v = Some l \<longleftrightarrow> v = GArr l"
  by (cases v) auto

lemma gget_Nil [simp]: "gget [] k = GNil"
  by (simp add: gget_def)

lemma decodeHostSignJSON_result:
  assumes "decodeHostSignJSON raw parent = Ok r"
  shows "host_sign_result r"
proof -
  from assms obtain d where d: "json_Unmarshal_map raw = Some d"
    by (auto simp: decodeHostSignJSON_def split: option.splits)
  define m where "m = (case d of Some m \<Rightarrow> m | None \<Rightarrow> [])"
  define lst where "lst = (case as_arr (gget m ''list'') of
      Some l \<Rightarrow> Some l | None \<Rightarrow> as_arr (gget m ''plugins''))"
  have "decodeHostSignJSON raw parent = (case lst of None \<Rightarrow> Err (Errorf ''VerifyPlugin JSON without list'')
      | Some l \<Rightarrow> Ok [(''success'', GBool True), (''plugins'', GArr l),
          (''raw_json'', GStr (string_of raw)), (''raw_fields'', map_value parent), (''list'', GArr l)])"
    by (simp only: decodeHostSignJSON_def d option.case Let_def lst_def m_def)
  with assms obtain l where l: "lst = Some l"
    and r: "r = [(''success'', GBool True), (''plugins'', GArr l),
          (''raw_json'', GStr (string_of raw)), (''raw_fields'', map_value parent), (''list'', GArr l)]"
    by (cases lst) simp_all
  have ml: "gget m ''list'' = GArr l \<or> gget m ''plugins'' = GArr l"
    using l by (auto simp: lst_def as_arr_Some split: option.splits)
  then have "d = Some m" by (cases d) (simp_all add: m_def)
  with d ml show ?thesis
    unfolding host_sign_result_def
    by (intro exI [of _ raw] exI [of _ m] exI [of _ l]) (simp add: r gget_def)
qed

lemma first_found_result:
  "first_found f bs = Ok (Some r) \<Longrightarrow> \<exists>b \<in> set bs. f b = Ok (Some r)"
  by (induction bs) (auto split: go.splits option.splits)

lemma findHostSignResponse_result:
  "findHostSignResponse left cand parent = Ok (Some r) \<Longrightarrow> host_sign_result r"
proof (induction left arbitrary: cand parent)
  case (Suc left)
  let ?t = "bytes_of (trimSpace (string_of cand))"
  let ?d = "if json_Valid ?t then decodeHostSignJSON ?t parent else Err (Errorf ''invalid'')"
  show ?case
  proof (cases ?d)
    case (Ok r')
    with Suc.prems have "r' = r" by (auto simp: Let_def split: if_splits)
    with Ok show ?thesis by (auto dest: decodeHostSignJSON_result split: if_splits)
  next
    case (Err e)
    with Suc.prems obtain fds vals where
      "first_found (\<lambda>value. findHostSignResponse left value (Some (describeProtobufFields fds))) vals
        = Ok (Some r)"
      by (auto simp: Let_def go_bind_Ok_iff split: if_splits)
    from first_found_result [OF this] Suc.IH show ?thesis by blast
  next
    case Panic
    with Suc.prems obtain fds vals where
      "first_found (\<lambda>value. findHostSignResponse left value (Some (describeProtobufFields fds))) vals
        = Ok (Some r)"
      by (auto simp: Let_def go_bind_Ok_iff split: if_splits)
    from first_found_result [OF this] Suc.IH show ?thesis by blast
  qed
qed simp

text \<open>An answer of \<open>getHostSign\<close> that is returned comes from a JSON object in the
  response, and its list is the list of that object.\<close>

theorem parseHostSignResponse_sound:
  assumes "parseHostSignResponse code resp = Ok r"
  shows "host_sign_result r"
  using assms
  by (auto simp: parseHostSignResponse_def go_bind_Ok_iff simp del: findHostSignResponse.simps first_found.simps
      dest!: first_found_result findHostSignResponse_result)

definition host_sign_sample :: bytes where
  "host_sign_sample = bytes_of ''{\"list\":[]}''"

lemma host_sign_sample_map:
  "json_parse host_sign_sample = Some (GMap [(''list'', GArr [])])"
  by code_simp

lemma host_sign_sample_trim: "bytes_of (trimSpace (string_of host_sign_sample)) = host_sign_sample"
  by code_simp

lemma host_sign_sample_ne: "host_sign_sample \<noteq> []"
  by (simp add: host_sign_sample_def bytes_of_def)

theorem parseHostSignResponse_sound_witness:
  "\<exists>r. parseHostSignResponse host_sign_sample [] = Ok r \<and> host_sign_result r"
proof -
  obtain r where r: "parseHostSignResponse host_sign_sample [] = Ok r"
    by (simp add: parseHostSignResponse_def host_sign_sample_trim json_Valid_def host_sign_sample_map
        decodeHostSignJSON_def json_Unmarshal_map_def json_Unmarshal_any_def eval_nat_numeral gget_def Let_def host_sign_sample_ne)
  from parseHostSignResponse_sound [OF r] r show ?thesis by blast
qed

lemma wrap_int64_id: "min_int64 \<le> z \<Longrightarrow> z \<le> max_int64 \<Longrightarrow> wrap_int64 z = z"
proof -
  assume "min_int64 \<le> z" "z \<le> max_int64"
  then have "signed_take_bit 63 z = z"
    by (intro signed_take_bit_int_eq_self) (simp_all add: min_int64_def max_int64_def)
  then show ?thesis by (simp only: wrap_int64_def signed_of_int) simp
qed

text \<open>The version number \<open>2^63\<close> passes the range check, because the bound is rounded up
  to \<open>2^63\<close> when it is compared with a float64, and becomes the most negative number.\<close>

theorem normalizeInnerVersion_overflow:
  "normalizeInnerVersion (GFloat (2 ^ 63)) = Ok min_int64"
  by (simp add: float_to_int64_def trunc_rat_def max_int64_def min_int64_def)

text \<open>A version number that comes from JSON, below that value, is accepted only as the same
  non-negative integer.\<close>

theorem normalizeInnerVersion_float:
  assumes "q < 2 ^ 63"
  shows "normalizeInnerVersion (GFloat q) = Ok v \<longleftrightarrow> 0 \<le> v \<and> q = of_int v"
proof -
  have q: "trunc_rat q = floor q" if "0 \<le> q" using that by (simp add: trunc_rat_def)
  have fl: "float_to_int64 q = floor q" if "0 \<le> q"
  proof -
    have "floor q < 2 ^ 63" using assms by (simp add: floor_less_iff)
    moreover have "0 \<le> floor q" using that by simp
    ultimately show ?thesis
      by (simp add: float_to_int64_def q [OF that] min_int64_def max_int64_def)
  qed
  show ?thesis
  proof (cases "0 \<le> q")
    case True
    with assms q fl show ?thesis by auto
  next
    case False
    then show ?thesis by auto
  qed
qed

theorem normalizeInnerVersion_float_witness:
  "normalizeInnerVersion (GFloat 7) = Ok 7"
  using normalizeInnerVersion_float [of 7 7] by simp

end
