(* ===== verification/Go_Path.thy ===== *)
theory Go_Path
  imports Go_Strings
begin

text \<open>
  Package \<open>path/filepath\<close> on Unix, as far as the program uses it: \<open>Clean\<close>, \<open>Join\<close>,
  \<open>Base\<close>, \<open>Dir\<close> and \<open>IsAbs\<close>.
\<close>

fun join_with :: "char \<Rightarrow> string list \<Rightarrow> string" where
  "join_with c [] = []"
| "join_with c [x] = x"
| "join_with c (x # xs) = x @ c # join_with c xs"

text \<open>The elements of a path, the last one first; an element \<open>..\<close> takes back the one before.\<close>

fun clean_parts :: "bool \<Rightarrow> string list \<Rightarrow> string list \<Rightarrow> string list" where
  "clean_parts rooted st [] = st"
| "clean_parts rooted st (p # ps) =
     (if p = [] \<or> p = ''.'' then clean_parts rooted st ps
      else if p = ''..'' then
        (case st of
           q # st' \<Rightarrow> if q \<noteq> ''..'' then clean_parts rooted st' ps else clean_parts rooted (p # st) ps
         | [] \<Rightarrow> if rooted then clean_parts rooted [] ps else clean_parts rooted [p] ps)
      else clean_parts rooted (p # st) ps)"

definition path_IsAbs :: "string \<Rightarrow> bool" where
  "path_IsAbs p = prefix ''/'' p"

definition path_Clean :: "string \<Rightarrow> string" where
  "path_Clean p =
     (let out = (if path_IsAbs p then ''/'' else [])
            @ join_with (CHR ''/'') (rev (clean_parts (path_IsAbs p) [] (split_on (CHR ''/'') p))) in
      if out = [] then ''.'' else out)"

definition path_Join :: "string list \<Rightarrow> string" where
  "path_Join es =
     (case dropWhile (\<lambda>e. e = []) es of
        [] \<Rightarrow> []
      | es' \<Rightarrow> path_Clean (join_with (CHR ''/'') es'))"

definition path_Base :: "string \<Rightarrow> string" where
  "path_Base p =
     (if p = [] then ''.''
      else
        let q = rev (dropWhile (\<lambda>c. c = CHR ''/'') (rev p)) in
        if q = [] then ''/'' else rev (takeWhile (\<lambda>c. c \<noteq> CHR ''/'') (rev q)))"

definition path_Dir :: "string \<Rightarrow> string" where
  "path_Dir p = path_Clean (rev (dropWhile (\<lambda>c. c \<noteq> CHR ''/'') (rev p)))"

lemma split_on_nonempty [simp]: "split_on c s \<noteq> []"
  by (induction s) (auto split: list.splits)

lemma split_on_single: "c \<notin> set p \<Longrightarrow> split_on c p = [p]"
  by (induction p) auto

lemma split_on_snoc: "c \<notin> set n \<Longrightarrow> split_on c (p @ c # n) = split_on c p @ [n]"
  by (induction p) (auto simp: split_on_single split: list.split)

text \<open>A file in a directory: an element that is neither empty nor a dot name stays as it is.\<close>

definition plain_element :: "string \<Rightarrow> bool" where
  "plain_element n \<longleftrightarrow> n \<noteq> [] \<and> n \<noteq> ''.'' \<and> n \<noteq> ''..'' \<and> CHR ''/'' \<notin> set n"

lemma clean_parts_append:
  "clean_parts r st (ps @ [n]) = n # clean_parts r st ps" if "plain_element n"
  using that by (induction r st ps rule: clean_parts.induct) (auto simp: plain_element_def split: list.splits)

lemma join_with_snoc: "xs \<noteq> [] \<Longrightarrow> join_with c (xs @ [n]) = join_with c xs @ c # n"
  by (induction c xs rule: join_with.induct) simp_all

lemma split_on_no_sep: "x \<in> set (split_on c s) \<Longrightarrow> c \<notin> set x"
proof (induction s arbitrary: x)
  case (Cons d s)
  then show ?case by (cases "split_on c s") (auto split: if_splits)
qed simp

lemma clean_parts_elements:
  "x \<in> set (clean_parts r [] (split_on (CHR ''/'') p)) \<Longrightarrow> x \<noteq> [] \<and> x \<noteq> ''.'' \<and> CHR ''/'' \<notin> set x"
proof -
  have "x \<in> set (clean_parts r st ps) \<Longrightarrow> x \<in> set st \<or> (x \<in> set ps \<and> x \<noteq> [] \<and> x \<noteq> ''.'')" for r st ps
    by (induction r st ps rule: clean_parts.induct) (auto split: if_splits list.splits)
  from this [of r "[]" "split_on (CHR ''/'') p"] split_on_no_sep [of x "CHR ''/''" p]
  show "x \<in> set (clean_parts r [] (split_on (CHR ''/'') p)) \<Longrightarrow> x \<noteq> [] \<and> x \<noteq> ''.'' \<and> CHR ''/'' \<notin> set x" by auto
qed

lemma join_elements:
  assumes "xs \<noteq> []" "\<And>x. x \<in> set xs \<Longrightarrow> x \<noteq> [] \<and> x \<noteq> ''.'' \<and> CHR ''/'' \<notin> set x"
  shows "join_with (CHR ''/'') xs \<noteq> []" "join_with (CHR ''/'') xs \<noteq> ''/''" "join_with (CHR ''/'') xs \<noteq> ''.''"
proof -
  from assms(1) obtain x ys where xs: "xs = x # ys" by (cases xs) auto
  then obtain c r where x: "x = c # r" "c \<noteq> CHR ''/''" "x \<noteq> ''.''" using assms(2) [of x] by (cases x) auto
  then show "join_with (CHR ''/'') xs \<noteq> []" "join_with (CHR ''/'') xs \<noteq> ''/''" "join_with (CHR ''/'') xs \<noteq> ''.''"
    unfolding xs by (cases ys; simp)+
qed

lemma path_Base_file: "plain_element n \<Longrightarrow> path_Base (p @ CHR ''/'' # n) = n"
proof -
  assume n: "plain_element n"
  then obtain m c where m: "n = m @ [c]" "c \<noteq> CHR ''/''" by (cases n rule: rev_cases) (auto simp: plain_element_def)
  have "takeWhile (\<lambda>c. c \<noteq> CHR ''/'') (rev n @ CHR ''/'' # rev p) = rev n"
    using n by (subst takeWhile_append2) (auto simp: plain_element_def)
  then show ?thesis using m by (simp add: path_Base_def)
qed

lemma path_Clean_file:
  assumes "plain_element n" "p \<noteq> []"
  shows "path_Clean (p @ CHR ''/'' # n) =
    (if path_Clean p = ''.'' then n else if path_Clean p = ''/'' then ''/'' @ n else path_Clean p @ CHR ''/'' # n)"
proof -
  have a: "path_IsAbs (p @ CHR ''/'' # n) = path_IsAbs p" using assms(2) by (cases p) (auto simp: path_IsAbs_def)
  let ?c = "rev (clean_parts (path_IsAbs p) [] (split_on (CHR ''/'') p))"
  have c: "rev (clean_parts (path_IsAbs p) [] (split_on (CHR ''/'') (p @ CHR ''/'' # n))) = ?c @ [n]"
    using assms(1) by (simp add: split_on_snoc clean_parts_append plain_element_def)
  show ?thesis
  proof (cases "?c = []")
    case True
    then show ?thesis
      using a c assms(1) by (cases "path_IsAbs p") (simp_all add: path_Clean_def Let_def plain_element_def)
  next
    case False
    have "join_with (CHR ''/'') ?c \<noteq> []" "join_with (CHR ''/'') ?c \<noteq> ''/''" "join_with (CHR ''/'') ?c \<noteq> ''.''"
      using join_elements [OF False] clean_parts_elements by auto
    then show ?thesis
      using a c assms(1) False by (cases "path_IsAbs p") (simp_all add: path_Clean_def Let_def join_with_snoc)
  qed
qed


lemma path_Join_file:
  assumes "plain_element n" "p \<noteq> []"
  shows "path_Join [p, n] =
    (if path_Clean p = ''.'' then n else if path_Clean p = ''/'' then ''/'' @ n else path_Clean p @ CHR ''/'' # n)"
  using path_Clean_file [OF assms] assms(2) by (simp add: path_Join_def)

lemma path_samples:
  "path_Clean ''a//b/../c/.'' = ''a/c''" "path_Clean ''/../x'' = ''/x''" "path_Clean [] = ''.''"
  "path_Base ''/x/y/'' = ''y''" "path_Dir ''/x/y'' = ''/x''" "path_Join [''a'', [], ''../b''] = ''b''"
  by code_simp+

end
