(* ===== verification/Go_Fmt.thy ===== *)
theory Go_Fmt
  imports Go_Json Go_Path
begin

text \<open>
  The verb \<open>%v\<close> of package \<open>fmt\<close> for the values that \<open>encoding/json\<close> gives, and the texts of
  errors. An error of \<open>encoding/json\<close> is the value \<open>ErrJSON\<close>; its text is a parameter.
\<close>

text \<open>\<open>%g\<close> with the fewest digits: an exponent of 6 or more, or below -4, is written out.\<close>

definition two_digits :: "nat \<Rightarrow> string" where
  "two_digits n = (if n < 10 then ''0'' @ nat_digits n else nat_digits n)"

definition fmt_g :: "rat \<Rightarrow> string" where
  "fmt_g q =
     (if q = 0 then ''0''
      else
        let (ds, k) = shortest (abs q); n = length ds;
            body =
              (if k < -4 \<or> k \<ge> 6 then
                 take 1 ds @ (if n > 1 then ''.'' @ drop 1 ds else []) @ ''e''
                 @ (if k < 0 then ''-'' else ''+'') @ two_digits (nat (abs k))
               else if k < 0 then ''0.'' @ replicate (nat (- k) - 1) (CHR ''0'') @ ds
               else if nat k + 1 \<ge> n then ds @ replicate (nat k + 1 - n) (CHR ''0'')
               else take (nat k + 1) ds @ ''.'' @ drop (nat k + 1) ds) in
        if q < 0 then ''-'' @ body else body)"

fun fmt_v :: "gval \<Rightarrow> string"
  and fmt_vs :: "gval list \<Rightarrow> string list"
  and fmt_rows :: "gval list list \<Rightarrow> string list"
  and fmt_maps :: "gmap list \<Rightarrow> string list"
  and fmt_members :: "gmap \<Rightarrow> (string \<times> string) list" where
  "fmt_v GNil = ''<nil>''"
| "fmt_v (GBool b) = (if b then ''true'' else ''false'')"
| "fmt_v (GInt k z) = itoa z"
| "fmt_v (GFloat q) = fmt_g q"
| "fmt_v (GNumber s) = s"
| "fmt_v (GRaw b) = ''['' @ join_with (CHR '' '') (map (\<lambda>x. nat_digits (unat x)) b) @ '']''"
| "fmt_v (GStr s) = s"
| "fmt_v (GBytes b) = ''['' @ join_with (CHR '' '') (map (\<lambda>x. nat_digits (unat x)) b) @ '']''"
| "fmt_v (GArr xs) = ''['' @ join_with (CHR '' '') (fmt_vs xs) @ '']''"
| "fmt_v (GArrs xss) = ''['' @ join_with (CHR '' '') (fmt_rows xss) @ '']''"
| "fmt_v (GMaps ms) = ''['' @ join_with (CHR '' '') (fmt_maps ms) @ '']''"
| "fmt_v (GMap m) = ''map['' @ join_with (CHR '' '') (map (\<lambda>(k, v). k @ '':'' @ v) (sort_key fst (fmt_members m))) @ '']''"
| "fmt_vs [] = []"
| "fmt_vs (x # xs) = fmt_v x # fmt_vs xs"
| "fmt_rows [] = []"
| "fmt_rows (r # rs) = (''['' @ join_with (CHR '' '') (fmt_vs r) @ '']'') # fmt_rows rs"
| "fmt_maps [] = []"
| "fmt_maps (m # ms) =
     (''map['' @ join_with (CHR '' '') (map (\<lambda>(k, v). k @ '':'' @ v) (sort_key fst (fmt_members m))) @ '']'') # fmt_maps ms"
| "fmt_members [] = []"
| "fmt_members ((k, v) # m) = (k, fmt_v v) # fmt_members m"

lemma fmt_v_sample: "fmt_v (GMap [(''b'', GNil), (''a'', GArr [GStr ''x'', GBool True])]) = ''map[a:[x true] b:<nil>]''"
  by code_simp

text \<open>\<open>%w\<close> in a format stands for the text of the wrapped error.\<close>

definition ErrJSON :: go_error where "ErrJSON = Errorf ''%json''"

fun put_w :: "string \<Rightarrow> string \<Rightarrow> string" where
  "put_w [] t = []"
| "put_w (c # s) t =
     (if c = CHR ''%'' then (case s of d # r \<Rightarrow> if d = CHR ''w'' then t @ r else c # put_w s t | [] \<Rightarrow> [c])
      else c # put_w s t)"

fun err_text :: "string \<Rightarrow> go_error \<Rightarrow> string" where
  "err_text json (Errorf s) = (if Errorf s = ErrJSON then json else s)"
| "err_text json (Wrapf s e) = put_w s (err_text json e)"

lemma err_text_sample: "err_text ''x'' (Wrapf ''decode JSON: %w: abc'' ErrJSON) = ''decode JSON: x: abc''"
  by code_simp

end
