(* ===== verification/Loginbuffer.thy ===== *)
theory Loginbuffer
  imports Go_Crypto Go_Fmt
begin

text \<open>
  Model of \<open>internal/protocol/loginbuffer.go\<close>: the credentials of an account and the three
  signed requests that use them. The HTTP client is an argument that maps a request to a
  status and a body; time stamps and nonces are arguments.
\<close>

definition yybHost :: string where "yybHost = ''https://yybadaccess.3g.qq.com''"
definition loginBufferURL :: string where
  "loginBufferURL = yybHost @ ''/pc_yyb_auth/pcyyb_get_wx_login_buffer_auth''"
definition refreshTokenURL :: string where
  "refreshTokenURL = yybHost @ ''/pc_yyb_auth/pcyyb_refresh_token_auth''"
definition userInfoURL :: string where "userInfoURL = yybHost @ ''/pc_yyb/pcyyb_get_user_info''"
definition loginBusinessID :: string where "loginBusinessID = ''pc_yyb_auth''"
definition loginAccessKey :: string where "loginAccessKey = ''wgrdg373hy26ww2''"

record credentials =
  c_OpenID :: string
  c_AccessToken :: string
  c_RefreshToken :: string
  c_LoginType :: string
  c_Nickname :: string
  c_ExpiresAt :: int
  c_ExpiresIn :: int

section \<open>Reading values\<close>

text \<open>A nil map has no keys.\<close>

definition stringFromMap :: "gmap \<Rightarrow> string \<Rightarrow> string" where
  "stringFromMap m key = (case as_str (gget m key) of Some s \<Rightarrow> s | None \<Rightarrow> [])"

definition int64FromMap :: "gmap \<Rightarrow> string \<Rightarrow> int" where
  "int64FromMap m key = int64FromAny (gget m key)"

definition intFromAny :: "gval \<Rightarrow> int" where
  "intFromAny v = int64FromAny v"

definition defaultString :: "string \<Rightarrow> string \<Rightarrow> string" where
  "defaultString s d = (if s = [] then d else s)"

definition defaultInt64 :: "int \<Rightarrow> int \<Rightarrow> int" where
  "defaultInt64 v d = (if v = 0 then d else v)"

fun walk_path :: "gval \<Rightarrow> string list \<Rightarrow> gval option" where
  "walk_path cur [] = Some cur"
| "walk_path cur (p # ps) =
     (case as_map cur of None \<Rightarrow> None | Some obj \<Rightarrow> walk_path (gget obj p) ps)"

definition stringSlicePath :: "gmap \<Rightarrow> string list \<Rightarrow> string list" where
  "stringSlicePath m path =
     (case walk_path (GMap m) path of
        None \<Rightarrow> []
      | Some cur \<Rightarrow>
          (case as_arr cur of
             None \<Rightarrow> []
           | Some arr \<Rightarrow> concat (map (\<lambda>v. case as_str v of Some s \<Rightarrow> [s] | None \<Rightarrow> []) arr)))"

definition CredentialsFromMap :: "gmap \<Rightarrow> credentials" where
  "CredentialsFromMap m =
     \<lparr>c_OpenID = stringFromMap m ''openid'', c_AccessToken = stringFromMap m ''accesstoken'',
      c_RefreshToken = stringFromMap m ''refreshtoken'',
      c_LoginType = defaultString (stringFromMap m ''logintype'') ''WX'',
      c_Nickname = stringFromMap m ''nickname'',
      c_ExpiresAt = int64FromMap m ''expires_at'',
      c_ExpiresIn = defaultInt64 (int64FromMap m ''expires_in'') 7200\<rparr>"

definition ToMap :: "int \<Rightarrow> credentials \<Rightarrow> gmap" where
  "ToMap now c =
     [(''openid'', GStr (c_OpenID c)), (''accesstoken'', GStr (c_AccessToken c)),
      (''refreshtoken'', GStr (c_RefreshToken c)),
      (''logintype'', GStr (defaultString (c_LoginType c) ''WX'')),
      (''nickname'', GStr (c_Nickname c)), (''expires_at'', GInt KInt64 (c_ExpiresAt c)),
      (''expires_in'', GInt KInt64 (defaultInt64 (c_ExpiresIn c) 7200)),
      (''refresh_refreshed_at'', GInt KInt64 now)]"

section \<open>Requests\<close>

record http_request =
  Method :: string
  URL :: string
  Headers :: "(string \<times> string) list"
  ReqBody :: bytes

type_synonym http_client = "http_request \<Rightarrow> (int \<times> bytes) go"

definition sign :: "string \<Rightarrow> string \<Rightarrow> string \<Rightarrow> string \<Rightarrow> string" where
  "sign body nonce ts key = hexEncode (md5 (bytes_of (body @ ts @ key @ nonce)))"

text \<open>
  \<open>requestJSON\<close> into a \<open>map[string]any\<close>: the object of a response with a status of class 2;
  the literal null leaves the nil map, None. Most callers only read keys of it.
\<close>

definition requestJSON_map ::
  "http_client \<Rightarrow> string \<Rightarrow> string \<Rightarrow> bytes \<Rightarrow> (string \<times> string) list \<Rightarrow> gmap option go" where
  "requestJSON_map http method url body headers =
     go_bind (http \<lparr>Method = method, URL = url,
                    Headers = (''Accept'', ''application/json'') # headers, ReqBody = body\<rparr>)
       (\<lambda>(status, data).
         if status < 200 \<or> status \<ge> 300 then
           Err (Errorf (''HTTP '' @ itoa status @ '': '' @ string_of (take 200 data)))
         else case json_Unmarshal_map data of
           None \<Rightarrow> Err (Wrapf (''decode JSON: %w: '' @ string_of (take 200 data)) ErrJSON)
         | Some m \<Rightarrow> Ok m)"

definition requestJSON ::
  "http_client \<Rightarrow> string \<Rightarrow> string \<Rightarrow> bytes \<Rightarrow> (string \<times> string) list \<Rightarrow> gmap go" where
  "requestJSON http method url body headers =
     go_bind (requestJSON_map http method url body headers) (\<lambda>m. Ok (case m of Some m \<Rightarrow> m | None \<Rightarrow> []))"

text \<open>\<open>json.Marshal\<close> of a struct keeps the order of its fields.\<close>

definition json_struct :: "(string \<times> string) list \<Rightarrow> string" where
  "json_struct m = ''{'' @ comma_sep (map (\<lambda>(k, v). json_quote k @ '':'' @ v) m) @ ''}''"

definition value_struct :: "string \<Rightarrow> string" where
  "value_struct v = json_struct [(''value'', json_array [v])]"

definition loginBufferRequest :: "credentials \<Rightarrow> string" where
  "loginBufferRequest creds =
     json_struct [(''extInfo'', json_struct
       [(''listS'', json_struct
           [(''unionid'', value_struct (json_quote (c_OpenID creds))),
            (''user_id'', value_struct (json_quote (c_OpenID creds))),
            (''access_token'', value_struct (json_quote (c_AccessToken creds)))]),
        (''listI'', json_struct [(''user_type'', value_struct (itoa 0))])])]"

definition refreshTokenRequest :: "credentials \<Rightarrow> string" where
  "refreshTokenRequest creds =
     json_struct [(''userInfo'', json_struct
       [(''openId'', json_quote (c_OpenID creds)),
        (''refreshToken'', json_quote (c_RefreshToken creds)),
        (''accessToken'', json_quote (c_AccessToken creds)),
        (''loginType'', json_quote (defaultString (c_LoginType creds) ''WX''))])]"

definition signed_headers :: "string \<Rightarrow> string \<Rightarrow> string \<Rightarrow> (string \<times> string) list" where
  "signed_headers body ts nonce =
     [(''Content-Type'', ''application/json''), (''Ual-Access-Businessid'', loginBusinessID),
      (''Ual-Access-Timestamp'', ts), (''Ual-Access-Nonce'', nonce),
      (''Ual-Access-Signature'', sign body nonce ts loginAccessKey)]"

definition FetchLoginBuffer :: "http_client \<Rightarrow> string \<Rightarrow> string \<Rightarrow> credentials \<Rightarrow> string go" where
  "FetchLoginBuffer http ts nonce creds =
     (let body = loginBufferRequest creds in
      go_bind (requestJSON http ''POST'' loginBufferURL (bytes_of body)
        (signed_headers body ts nonce @
          [(''Cookie'', ''openid='' @ c_OpenID creds @ ''; accesstoken='' @ c_AccessToken creds
              @ ''; refreshtoken='' @ c_RefreshToken creds)])) (\<lambda>data.
      if intFromAny (gget data ''code'') \<noteq> 0 then
        Err (Errorf (''login_buffer failed: code='' @ fmt_v (gget data ''code'') @ '' msg='' @ fmt_v (gget data ''msg'')))
      else
        let vals = stringSlicePath data [''ext_info'', ''list_s'', ''login_buffer'', ''value''] in
        if length vals = 0 \<or> vals ! 0 = [] then Err (Errorf ''login_buffer response is empty'')
        else Ok (vals ! 0)))"

text \<open>\<open>time.Now().Unix() + expiresIn\<close> is an addition of int64 values.\<close>

definition add_int64 :: "int \<Rightarrow> int \<Rightarrow> int" where
  "add_int64 a b = sint (word_of_int (a + b) :: u64)"

definition RefreshCredentials ::
  "http_client \<Rightarrow> string \<Rightarrow> string \<Rightarrow> int \<Rightarrow> credentials \<Rightarrow> credentials go" where
  "RefreshCredentials http ts nonce now creds =
     (if c_RefreshToken creds = [] then Err (Errorf ''missing refresh token'')
      else
        let body = refreshTokenRequest creds in
        go_bind (requestJSON http ''POST'' refreshTokenURL (bytes_of body) (signed_headers body ts nonce))
          (\<lambda>data.
          if intFromAny (gget data ''code'') \<noteq> 0 then
            Err (Errorf (''refresh failed: code='' @ fmt_v (gget data ''code'') @ '' msg='' @ fmt_v (gget data ''msg'')))
          else
            let info = (case as_map (gget data ''user_info'') of Some m \<Rightarrow> m | None \<Rightarrow> []);
                expiresIn = defaultInt64 (int64FromMap info ''expires_in'') 7200;
                refreshed = creds\<lparr>c_AccessToken := stringFromMap info ''access_token''\<rparr>;
                rt = stringFromMap info ''refresh_token'';
                refreshed = (if rt \<noteq> [] then refreshed\<lparr>c_RefreshToken := rt\<rparr> else refreshed);
                refreshed = refreshed\<lparr>c_ExpiresIn := expiresIn,
                                      c_ExpiresAt := add_int64 now expiresIn\<rparr> in
            if c_AccessToken refreshed = [] then Err (Errorf ''refresh response missing access_token'')
            else Ok refreshed))"

record LoginBufferResult =
  lb_LoginBuffer :: string
  lb_Credentials :: credentials
  lb_Refreshed :: bool

text \<open>The second request draws its own time stamp and nonce.\<close>

definition RefreshLoginBuffer ::
  "http_client \<Rightarrow> string \<times> string \<Rightarrow> string \<times> string \<Rightarrow> int \<Rightarrow> credentials \<Rightarrow> LoginBufferResult go" where
  "RefreshLoginBuffer http d1 d2 now creds =
     go_bind (RefreshCredentials http (fst d1) (snd d1) now creds) (\<lambda>refreshed.
     go_bind (FetchLoginBuffer http (fst d2) (snd d2) refreshed) (\<lambda>lb.
     Ok \<lparr>lb_LoginBuffer = lb, lb_Credentials = refreshed, lb_Refreshed = True\<rparr>))"

definition FetchUserInfo ::
  "http_client \<Rightarrow> string \<Rightarrow> string \<Rightarrow> string \<Rightarrow> credentials \<Rightarrow> gmap option go" where
  "FetchUserInfo http ts nonce requestID creds =
     requestJSON_map http ''GET'' userInfoURL []
       [(''Ual-Access-Access-Token'', c_AccessToken creds), (''Ual-Access-Login-Type'', ''2''),
        (''Ual-Access-Openid'', c_OpenID creds), (''Ual-Access-Businessid'', ''pc_yyb''),
        (''Ual-Access-Guid'', ''web''), (''Ual-Access-Nonce'', nonce),
        (''Ual-Access-Requestid'', requestID),
        (''Ual-Access-Signature'', sign [] nonce ts []), (''Ual-Access-Timestamp'', ts)]"

section \<open>Correctness\<close>

text \<open>Credentials as they are kept: with a login type and a lifetime.\<close>

definition creds_complete :: "credentials \<Rightarrow> bool" where
  "creds_complete c \<longleftrightarrow> c_LoginType c \<noteq> [] \<and> c_ExpiresIn c \<noteq> 0"

lemma CredentialsFromMap_complete: "creds_complete (CredentialsFromMap m)"
  by (simp add: creds_complete_def CredentialsFromMap_def defaultString_def defaultInt64_def)

text \<open>Complete credentials survive the way through their map; reading a map always gives
  complete credentials.\<close>

theorem credentials_roundtrip:
  "creds_complete (CredentialsFromMap m) \<and>
   (creds_complete c \<longrightarrow> CredentialsFromMap (ToMap now c) = c)"
  by (simp add: CredentialsFromMap_complete)
     (simp add: creds_complete_def CredentialsFromMap_def ToMap_def stringFromMap_def int64FromMap_def
       gget_def defaultString_def defaultInt64_def)

definition creds_sample :: credentials where
  "creds_sample = \<lparr>c_OpenID = ''o'', c_AccessToken = ''a'', c_RefreshToken = ''r'', c_LoginType = ''WX'',
      c_Nickname = ''n'', c_ExpiresAt = 0, c_ExpiresIn = 0\<rparr>"

theorem credentials_roundtrip_witness:
  "CredentialsFromMap (ToMap 5 (creds_sample\<lparr>c_ExpiresIn := 7200\<rparr>)) = creds_sample\<lparr>c_ExpiresIn := 7200\<rparr>"
  by (rule credentials_roundtrip [THEN conjunct2, rule_format]) (simp add: creds_complete_def creds_sample_def)

text \<open>A successful refresh keeps the identity of the account, yields a non-empty access
  token and keeps a refresh token; the old tokens were sent and signed.\<close>

theorem RefreshCredentials_result:
  assumes "RefreshCredentials http ts nonce now creds = Ok c"
  shows "c_OpenID c = c_OpenID creds \<and> c_Nickname c = c_Nickname creds
    \<and> c_LoginType c = c_LoginType creds \<and> c_AccessToken c \<noteq> [] \<and> c_RefreshToken c \<noteq> []
    \<and> c_ExpiresIn c \<noteq> 0 \<and> c_ExpiresAt c = add_int64 now (c_ExpiresIn c)
    \<and> (\<exists>status data. http \<lparr>Method = ''POST'', URL = refreshTokenURL,
          Headers = (''Accept'', ''application/json'') # signed_headers (refreshTokenRequest creds) ts nonce,
          ReqBody = bytes_of (refreshTokenRequest creds)\<rparr> = Ok (status, data)
        \<and> 200 \<le> status \<and> status < 300)"
proof -
  from assms obtain data where rt: "c_RefreshToken creds \<noteq> []"
    and r: "requestJSON http ''POST'' refreshTokenURL (bytes_of (refreshTokenRequest creds))
        (signed_headers (refreshTokenRequest creds) ts nonce) = Ok data"
    and c: "c_AccessToken c \<noteq> []"
      "c = (let info = (case as_map (gget data ''user_info'') of Some m \<Rightarrow> m | None \<Rightarrow> []);
            expiresIn = defaultInt64 (int64FromMap info ''expires_in'') 7200;
            refreshed = creds\<lparr>c_AccessToken := stringFromMap info ''access_token''\<rparr>;
            rt = stringFromMap info ''refresh_token'';
            refreshed = (if rt \<noteq> [] then refreshed\<lparr>c_RefreshToken := rt\<rparr> else refreshed) in
          refreshed\<lparr>c_ExpiresIn := expiresIn, c_ExpiresAt := add_int64 now expiresIn\<rparr>)"
    by (auto simp: RefreshCredentials_def go_bind_Ok_iff Let_def split: if_splits)
  from r obtain status d where "http \<lparr>Method = ''POST'', URL = refreshTokenURL,
      Headers = (''Accept'', ''application/json'') # signed_headers (refreshTokenRequest creds) ts nonce,
      ReqBody = bytes_of (refreshTokenRequest creds)\<rparr> = Ok (status, d)" "200 \<le> status" "status < 300"
    by (auto simp: requestJSON_def requestJSON_map_def go_bind_Ok_iff split: if_splits)
  with rt c show ?thesis by (auto simp: Let_def defaultInt64_def)
qed

definition refresh_reply :: bytes where
  "refresh_reply = bytes_of ''{\"user_info\":{\"access_token\":\"n\"}}''"

lemma refresh_reply_map:
  "json_Unmarshal_map refresh_reply
   = Some (Some [(''user_info'', GMap [(''access_token'', GStr ''n'')])])"
  by code_simp

theorem RefreshCredentials_result_witness:
  "\<exists>c. RefreshCredentials (\<lambda>_. Ok (200, refresh_reply)) ''1'' ''2'' 100 creds_sample = Ok c
     \<and> c_OpenID c = ''o'' \<and> c_AccessToken c \<noteq> [] \<and> c_ExpiresAt c = add_int64 100 (c_ExpiresIn c)"
proof -
  obtain c where c: "RefreshCredentials (\<lambda>_. Ok (200, refresh_reply)) ''1'' ''2'' 100 creds_sample = Ok c"
    by (simp add: RefreshCredentials_def requestJSON_def requestJSON_map_def refresh_reply_map creds_sample_def
        gget_def intFromAny_def stringFromMap_def Let_def)
  from RefreshCredentials_result [OF c] c show ?thesis by (auto simp: creds_sample_def)
qed

end
