(* ===== verification/Store.thy ===== *)
theory Store
  imports Go_Json
begin

text \<open>
  Model of \<open>internal/store/store.go\<close>: the tables \<open>wechat_accounts\<close> and \<open>sessions\<close> as lists
  of rows, and every statement that the code executes as a function on them. A column with
  JSON text holds the value that reading it back gives. SQLite is assumed to follow its
  documentation: AUTOINCREMENT hands out one more than the largest id ever used (kept in
  \<open>sqlite_sequence\<close>), a unique key conflict takes the update branch of an upsert, and a
  foreign key either rejects a row or, on deletion, cascades. \<open>now\<close> is the clock.
\<close>

record account =
  a_ID :: int
  a_OpenID :: string
  a_UIN :: "int option"
  a_Alias :: "string option"
  a_Nickname :: "string option"
  a_Avatar :: "string option"
  a_UserInfo :: "gmap option"
  a_LoginBuffer :: string
  a_Credentials :: "gmap option"
  a_Status :: "string option"
  a_LastCheckedAt :: "int option"
  a_CreatedAt :: int
  a_UpdatedAt :: int

record account_public =
  ap_ID :: int
  ap_OpenID :: string
  ap_UIN :: "int option"
  ap_Alias :: "string option"
  ap_Nickname :: "string option"
  ap_Avatar :: "string option"
  ap_Status :: "string option"
  ap_LastCheckedAt :: "int option"
  ap_CreatedAt :: int
  ap_UpdatedAt :: int

record session_row =
  r_ID :: int
  r_Account :: int
  r_UIN :: "int option"
  r_Proxy :: string
  r_Blob :: gmap
  r_ExpiresAt :: int
  r_CreatedAt :: int
  r_UpdatedAt :: int

record db =
  accounts :: "account list"
  sessions :: "session_row list"
  acc_seq :: int
  sess_seq :: int

definition ErrNoRows :: go_error where "ErrNoRows = Errorf ''sql: no rows in result set''"
definition fk_err :: go_error where "fk_err = Errorf ''FOREIGN KEY constraint failed''"

definition empty_db :: db where
  "empty_db = \<lparr>accounts = [], sessions = [], acc_seq = 0, sess_seq = 0\<rparr>"

text \<open>\<open>marshalNullable\<close>, and the \<open>Unmarshal\<close> of the column when the row is scanned.\<close>

definition json_column :: "gmap option \<Rightarrow> gmap option" where
  "json_column m = map_option json_norm_members m"

definition Public :: "account \<Rightarrow> account_public" where
  "Public a =
     \<lparr>ap_ID = a_ID a, ap_OpenID = a_OpenID a, ap_UIN = a_UIN a, ap_Alias = a_Alias a,
      ap_Nickname = a_Nickname a, ap_Avatar = a_Avatar a, ap_Status = a_Status a,
      ap_LastCheckedAt = a_LastCheckedAt a, ap_CreatedAt = a_CreatedAt a,
      ap_UpdatedAt = a_UpdatedAt a\<rparr>"

section \<open>Opening: migration of the sessions table\<close>

text \<open>
  The tables \<open>wmpf_sessions\<close> and \<open>sessions\<close>, None when absent. \<open>INSERT OR IGNORE\<close> skips a
  row whose id or whose account and proxy are taken.
\<close>

definition insert_or_ignore :: "session_row \<Rightarrow> session_row list \<Rightarrow> session_row list" where
  "insert_or_ignore r rs =
     (if \<exists>q \<in> set rs. r_ID q = r_ID r \<or> (r_Account q = r_Account r \<and> r_Proxy q = r_Proxy r)
      then rs else rs @ [r])"

definition migrateSessionsTable ::
  "session_row list option \<Rightarrow> session_row list option \<Rightarrow> session_row list option \<times> session_row list option"
where
  "migrateSessionsTable old new =
     (case old of
        None \<Rightarrow> (None, new)
      | Some rows \<Rightarrow>
          (case new of
             None \<Rightarrow> (None, Some rows)
           | Some cur \<Rightarrow> (None, Some (fold insert_or_ignore rows cur))))"

section \<open>Accounts\<close>

definition find_account :: "(account \<Rightarrow> bool) \<Rightarrow> db \<Rightarrow> account go" where
  "find_account P d = of_opt ErrNoRows (find P (accounts d))"

definition GetAccount :: "int \<Rightarrow> db \<Rightarrow> account go" where
  "GetAccount i d = find_account (\<lambda>a. a_ID a = i) d"

definition GetAccountByOpenID :: "string \<Rightarrow> db \<Rightarrow> account go" where
  "GetAccountByOpenID openid d = find_account (\<lambda>a. a_OpenID a = openid) d"

definition GetAccountByUIN :: "int \<Rightarrow> db \<Rightarrow> account go" where
  "GetAccountByUIN uin d = find_account (\<lambda>a. a_UIN a = Some uin) d"

definition isDigits :: "string \<Rightarrow> bool" where
  "isDigits s \<longleftrightarrow> s \<noteq> [] \<and> list_all isDigitChar s"

definition ResolveAccount :: "string \<Rightarrow> db \<Rightarrow> account go" where
  "ResolveAccount ref d =
     (if ref = [] then Err ErrNoRows
      else if isDigits ref then
        (let n = fst (parseInt ref) in
         case GetAccountByUIN n d of
           Ok acc \<Rightarrow> Ok acc
         | Err e \<Rightarrow> if e \<noteq> ErrNoRows then Err e else GetAccount n d
         | Panic \<Rightarrow> Panic)
      else GetAccountByOpenID ref d)"

definition ListAccounts :: "db \<Rightarrow> account list" where
  "ListAccounts d = sort_key a_ID (accounts d)"

definition update_account :: "(account \<Rightarrow> bool) \<Rightarrow> (account \<Rightarrow> account) \<Rightarrow> db \<Rightarrow> db" where
  "update_account P f d = d\<lparr>accounts := map (\<lambda>a. if P a then f a else a) (accounts d)\<rparr>"

definition UpsertAccount ::
  "int \<Rightarrow> string \<Rightarrow> string \<Rightarrow> string option \<Rightarrow> string option \<Rightarrow> string option \<Rightarrow> gmap option
   \<Rightarrow> gmap option \<Rightarrow> string option \<Rightarrow> db \<Rightarrow> account go \<times> db" where
  "UpsertAccount now openid loginBuffer alias nickname avatar userInfo creds status d =
     (let d' =
        (if \<exists>a \<in> set (accounts d). a_OpenID a = openid
         then update_account (\<lambda>a. a_OpenID a = openid)
                (\<lambda>a. a\<lparr>a_LoginBuffer := loginBuffer, a_Alias := alias, a_Nickname := nickname,
                      a_Avatar := avatar, a_UserInfo := json_column userInfo,
                      a_Credentials := json_column creds, a_Status := status,
                      a_UpdatedAt := now\<rparr>) d
         else d\<lparr>accounts := accounts d @
                  [\<lparr>a_ID = acc_seq d + 1, a_OpenID = openid, a_UIN = None, a_Alias = alias,
                    a_Nickname = nickname, a_Avatar = avatar, a_UserInfo = json_column userInfo,
                    a_LoginBuffer = loginBuffer, a_Credentials = json_column creds,
                    a_Status = status, a_LastCheckedAt = None, a_CreatedAt = now,
                    a_UpdatedAt = now\<rparr>],
                acc_seq := acc_seq d + 1\<rparr>) in
      (GetAccountByOpenID openid d', d'))"

definition SetAccountUIN :: "int \<Rightarrow> int \<Rightarrow> int \<Rightarrow> db \<Rightarrow> db" where
  "SetAccountUIN now i uin =
     update_account (\<lambda>a. a_ID a = i) (\<lambda>a. a\<lparr>a_UIN := Some uin, a_UpdatedAt := now\<rparr>)"

definition SetAccountProfile ::
  "int \<Rightarrow> int \<Rightarrow> string option \<Rightarrow> string option \<Rightarrow> gmap option \<Rightarrow> db \<Rightarrow> db" where
  "SetAccountProfile now i nickname avatar userInfo =
     update_account (\<lambda>a. a_ID a = i)
       (\<lambda>a. a\<lparr>a_Nickname := nickname, a_Avatar := avatar, a_UserInfo := json_column userInfo,
             a_UpdatedAt := now\<rparr>)"

definition SetAccountCredential :: "int \<Rightarrow> int \<Rightarrow> string \<Rightarrow> gmap option \<Rightarrow> db \<Rightarrow> db" where
  "SetAccountCredential now i loginBuffer creds =
     update_account (\<lambda>a. a_ID a = i)
       (\<lambda>a. a\<lparr>a_LoginBuffer := loginBuffer, a_Credentials := json_column creds,
             a_UpdatedAt := now\<rparr>)"

definition SetAccountStatus :: "int \<Rightarrow> int \<Rightarrow> string \<Rightarrow> db \<Rightarrow> db" where
  "SetAccountStatus now i status =
     update_account (\<lambda>a. a_ID a = i)
       (\<lambda>a. a\<lparr>a_Status := Some status, a_LastCheckedAt := Some now, a_UpdatedAt := now\<rparr>)"

text \<open>Deleting the rows of \<open>sqlite_sequence\<close> starts the ids anew.\<close>

definition resetAutoincrementIfEmpty :: "db \<Rightarrow> db" where
  "resetAutoincrementIfEmpty d =
     (if accounts d \<noteq> [] then d else d\<lparr>acc_seq := 0, sess_seq := 0\<rparr>)"

definition DeleteAccount :: "int \<Rightarrow> db \<Rightarrow> db" where
  "DeleteAccount i d =
     resetAutoincrementIfEmpty
       (d\<lparr>accounts := filter (\<lambda>a. a_ID a \<noteq> i) (accounts d),
          sessions := filter (\<lambda>s. r_Account s \<noteq> i) (sessions d)\<rparr>)"

section \<open>Sessions\<close>

definition GetSession :: "int \<Rightarrow> int \<Rightarrow> string \<Rightarrow> db \<Rightarrow> session_row go" where
  "GetSession now accountID proxy d =
     of_opt ErrNoRows
       (find (\<lambda>s. r_Account s = accountID \<and> r_Proxy s = proxy \<and> r_ExpiresAt s > now) (sessions d))"

definition PutSession ::
  "int \<Rightarrow> int \<Rightarrow> int option \<Rightarrow> gmap \<Rightarrow> int \<Rightarrow> string \<Rightarrow> db \<Rightarrow> unit go \<times> db" where
  "PutSession now accountID uin blob expiresAt proxy d =
     (if \<exists>s \<in> set (sessions d). r_Account s = accountID \<and> r_Proxy s = proxy
      then (Ok (), d\<lparr>sessions := map (\<lambda>s.
              if r_Account s = accountID \<and> r_Proxy s = proxy
              then s\<lparr>r_UIN := uin, r_Blob := json_norm_members blob, r_ExpiresAt := expiresAt,
                     r_UpdatedAt := now\<rparr>
              else s) (sessions d)\<rparr>)
      else if \<not> (\<exists>a \<in> set (accounts d). a_ID a = accountID) then (Err fk_err, d)
      else (Ok (), d\<lparr>sessions := sessions d @
              [\<lparr>r_ID = sess_seq d + 1, r_Account = accountID, r_UIN = uin, r_Proxy = proxy,
                r_Blob = json_norm_members blob, r_ExpiresAt = expiresAt, r_CreatedAt = now,
                r_UpdatedAt = now\<rparr>],
            sess_seq := sess_seq d + 1\<rparr>))"

definition InvalidateSession :: "int \<Rightarrow> string \<Rightarrow> db \<Rightarrow> db" where
  "InvalidateSession accountID proxy d =
     d\<lparr>sessions := filter (\<lambda>s. \<not> (r_Account s = accountID \<and> r_Proxy s = proxy)) (sessions d)\<rparr>"

section \<open>Invariant\<close>

text \<open>
  Ids and open ids are unique, ids are handed out in order, every session belongs to an
  account, and there is at most one session for an account and a proxy.
\<close>

definition session_key :: "session_row \<Rightarrow> int \<times> string" where
  "session_key s = (r_Account s, r_Proxy s)"

definition db_ok :: "db \<Rightarrow> bool" where
  "db_ok d \<longleftrightarrow>
     sorted_wrt (<) (map a_ID (accounts d)) \<and> (\<forall>a \<in> set (accounts d). 0 < a_ID a \<and> a_ID a \<le> acc_seq d)
     \<and> distinct (map a_OpenID (accounts d)) \<and> 0 \<le> acc_seq d \<and> 0 \<le> sess_seq d
     \<and> sorted_wrt (<) (map r_ID (sessions d)) \<and> (\<forall>s \<in> set (sessions d). r_ID s \<le> sess_seq d)
     \<and> distinct (map session_key (sessions d))
     \<and> r_Account ` set (sessions d) \<subseteq> a_ID ` set (accounts d)"

lemma db_okD:
  assumes "db_ok d"
  shows "sorted_wrt (<) (map a_ID (accounts d))" "distinct (map a_OpenID (accounts d))"
    "\<And>a. a \<in> set (accounts d) \<Longrightarrow> 0 < a_ID a \<and> a_ID a \<le> acc_seq d"
    "distinct (map session_key (sessions d))"
    "r_Account ` set (sessions d) \<subseteq> a_ID ` set (accounts d)"
  using assms by (auto simp: db_ok_def)

lemma db_ok_empty: "db_ok empty_db"
  by (simp add: db_ok_def empty_db_def)

lemma map_accounts_ok:
  assumes "db_ok d" "\<And>a. a_ID (h a) = a_ID a" "\<And>a. a_OpenID (h a) = a_OpenID a"
  shows "db_ok (d\<lparr>accounts := map h (accounts d)\<rparr>)"
  using assms by (simp add: db_ok_def comp_def image_image)

lemma map_sessions_ok:
  assumes "db_ok d" "\<And>s. r_ID (h s) = r_ID s" "\<And>s. r_Account (h s) = r_Account s"
    "\<And>s. r_Proxy (h s) = r_Proxy s"
  shows "db_ok (d\<lparr>sessions := map h (sessions d)\<rparr>)"
proof -
  have k: "session_key (h s) = session_key s" for s
    using assms(3,4) [of s] by (simp add: session_key_def)
  show ?thesis using assms(1) by (simp add: db_ok_def comp_def image_image k assms(2,3))
qed

lemma add_account_ok:
  assumes "db_ok d" "a_ID a = acc_seq d + 1" "a_OpenID a \<notin> a_OpenID ` set (accounts d)"
  shows "db_ok (d\<lparr>accounts := accounts d @ [a], acc_seq := acc_seq d + 1\<rparr>)"
  using assms by (auto simp: db_ok_def sorted_wrt_append intro: zle_add1_eq_le [THEN iffD2])

lemma add_session_ok:
  assumes "db_ok d" "r_ID s = sess_seq d + 1" "session_key s \<notin> session_key ` set (sessions d)"
    "r_Account s \<in> a_ID ` set (accounts d)"
  shows "db_ok (d\<lparr>sessions := sessions d @ [s], sess_seq := sess_seq d + 1\<rparr>)"
  using assms by (auto simp: db_ok_def sorted_wrt_append intro: zle_add1_eq_le [THEN iffD2])

lemma update_account_ok:
  assumes "db_ok d" "\<And>a. a_ID (f a) = a_ID a" "\<And>a. a_OpenID (f a) = a_OpenID a"
  shows "db_ok (update_account P f d)"
  unfolding update_account_def by (rule map_accounts_ok) (simp_all add: assms)

lemma UpsertAccount_ok: "db_ok d \<Longrightarrow> UpsertAccount now o' lb al ni av ui cr st d = (g, d') \<Longrightarrow> db_ok d'"
proof -
  assume ok: "db_ok d" and u: "UpsertAccount now o' lb al ni av ui cr st d = (g, d')"
  show "db_ok d'"
  proof (cases "\<exists>a \<in> set (accounts d). a_OpenID a = o'")
    case True
    with u show ?thesis by (auto simp: UpsertAccount_def Let_def intro!: update_account_ok [OF ok])
  next
    case False
    then have "o' \<notin> a_OpenID ` set (accounts d)" by auto
    with False u show ?thesis
      by (auto simp: UpsertAccount_def Let_def intro!: add_account_ok [OF ok])
  qed
qed

lemma SetAccount_ok:
  assumes "db_ok d"
  shows "db_ok (SetAccountUIN now i u d)" "db_ok (SetAccountProfile now i n a ui d)"
    "db_ok (SetAccountCredential now i lb c d)" "db_ok (SetAccountStatus now i s d)"
  unfolding SetAccountUIN_def SetAccountProfile_def SetAccountCredential_def SetAccountStatus_def
  by (rule update_account_ok [OF assms]; simp)+

lemma sorted_wrt_map_filter:
  "sorted_wrt R (map f xs) \<Longrightarrow> sorted_wrt R (map f (filter P xs))"
  by (induction xs) auto

lemma distinct_map_filter': "distinct (map f xs) \<Longrightarrow> distinct (map f (filter P xs))"
  by (induction xs) auto

lemma DeleteAccount_ok: "db_ok d \<Longrightarrow> db_ok (DeleteAccount i d)"
  by (auto simp: DeleteAccount_def resetAutoincrementIfEmpty_def db_ok_def sorted_wrt_map_filter
      distinct_map_filter' filter_empty_conv)

lemma InvalidateSession_ok: "db_ok d \<Longrightarrow> db_ok (InvalidateSession i p d)"
  by (auto simp: InvalidateSession_def db_ok_def sorted_wrt_map_filter distinct_map_filter')

lemma PutSession_ok: "db_ok d \<Longrightarrow> PutSession now i u b e p d = (g, d') \<Longrightarrow> db_ok d'"
proof -
  assume ok: "db_ok d" and p: "PutSession now i u b e p d = (g, d')"
  show "db_ok d'"
  proof (cases "\<exists>s \<in> set (sessions d). r_Account s = i \<and> r_Proxy s = p")
    case True
    with p show ?thesis
      by (auto simp: PutSession_def intro!: map_sessions_ok [OF ok])
  next
    case False
    then have "(i, p) \<notin> session_key ` set (sessions d)" by (auto simp: session_key_def)
    show ?thesis
    proof (cases "\<exists>a \<in> set (accounts d). a_ID a = i")
      case True
      then have "i \<in> a_ID ` set (accounts d)" by auto
      with p True \<open>(i, p) \<notin> _\<close> show ?thesis
        by (simp add: PutSession_def if_not_P [OF False])
           (auto simp: session_key_def intro!: add_session_ok [OF ok])
    next
      case no: False
      with p ok show ?thesis by (simp add: PutSession_def if_not_P [OF False])
    qed
  qed
qed

text \<open>The statements that the program executes on an open database.\<close>

inductive db_step :: "db \<Rightarrow> db \<Rightarrow> bool" where
  upsert: "UpsertAccount now o' lb al ni av ui cr st d = (g, d') \<Longrightarrow> db_step d d'"
| set_uin: "db_step d (SetAccountUIN now i u d)"
| set_profile: "db_step d (SetAccountProfile now i ni av ui d)"
| set_credential: "db_step d (SetAccountCredential now i lb cr d)"
| set_status: "db_step d (SetAccountStatus now i st d)"
| delete: "db_step d (DeleteAccount i d)"
| put_session: "PutSession now i u b e p d = (g, d') \<Longrightarrow> db_step d d'"
| invalidate: "db_step d (InvalidateSession i p d)"

inductive_cases db_stepE: "db_step d d'"

lemma db_step_ok: "db_step d d' \<Longrightarrow> db_ok d \<Longrightarrow> db_ok d'"
  by (cases rule: db_step.cases)
     (auto intro: SetAccount_ok DeleteAccount_ok InvalidateSession_ok dest: UpsertAccount_ok PutSession_ok)

text \<open>C34: Every database that the program can reach from an empty one is well-formed.\<close>

theorem db_reachable_ok:
  assumes "db_step\<^sup>*\<^sup>* empty_db d"
  shows "db_ok d"
  using assms
proof (induction rule: rtranclp_induct)
  case base
  show ?case by (rule db_ok_empty)
next
  case (step d d')
  from step.hyps(2) step.IH show ?case by (rule db_step_ok)
qed

definition sample_db :: db where
  "sample_db = \<lparr>accounts = [\<lparr>a_ID = 1, a_OpenID = ''o1'', a_UIN = Some 2, a_Alias = None,
      a_Nickname = None, a_Avatar = None, a_UserInfo = None, a_LoginBuffer = ''b'',
      a_Credentials = None, a_Status = None, a_LastCheckedAt = None, a_CreatedAt = 1, a_UpdatedAt = 1\<rparr>],
    sessions = [], acc_seq = 1, sess_seq = 0\<rparr>"

lemma sample_db_ok: "db_ok sample_db"
  by (simp add: sample_db_def db_ok_def)

theorem db_reachable_ok_witness:
  "db_ok (SetAccountUIN 3 1 88 empty_db)"
  by (rule db_reachable_ok) (rule r_into_rtranclp, rule db_step.set_uin)

section \<open>What the statements do\<close>

lemma find_map_keep: "(\<And>x. P (h x) = P x) \<Longrightarrow> find P (map h xs) = map_option h (find P xs)"
  by (induction xs) auto

lemma find_append: "find P (xs @ ys) = (case find P xs of Some x \<Rightarrow> Some x | None \<Rightarrow> find P ys)"
  by (induction xs) auto

lemma find_None: "find P xs = None \<longleftrightarrow> \<not> (\<exists>x \<in> set xs. P x)"
  by (induction xs) auto

lemma find_SomeD: "find P xs = Some x \<Longrightarrow> x \<in> set xs \<and> P x"
  by (auto simp: find_Some_iff)

lemma find_filter: "find P (filter Q xs) = find (\<lambda>x. P x \<and> Q x) xs"
  by (induction xs) auto

lemma find_account_iff: "find_account P d = Ok a \<longleftrightarrow> find P (accounts d) = Some a"
  by (simp add: find_account_def)

lemma find_account_err: "find_account P d = Err e \<longleftrightarrow> e = ErrNoRows \<and> find P (accounts d) = None"
  by (cases "find P (accounts d)") (auto simp: find_account_def)

lemma find_account_update:
  assumes "\<And>a. Q (f a) = Q a"
  shows "find_account Q (update_account P f d)
       = (case find_account Q d of Ok a \<Rightarrow> Ok (if P a then f a else a) | r \<Rightarrow> r)"
proof -
  have "find Q (map (\<lambda>a. if P a then f a else a) (accounts d))
      = map_option (\<lambda>a. if P a then f a else a) (find Q (accounts d))"
    by (rule find_map_keep) (simp add: assms)
  then show ?thesis
    by (cases "find Q (accounts d)") (simp_all add: find_account_def update_account_def)
qed

text \<open>Lookup by id or open id is exact on a well-formed database.\<close>

lemma find_unique:
  assumes "distinct (map f xs)" "x \<in> set xs"
  shows "find (\<lambda>y. f y = f x) xs = Some x"
  using assms by (induction xs) (auto simp: image_iff)

lemma sorted_wrt_less_distinct: "sorted_wrt (<) (xs :: int list) \<Longrightarrow> distinct xs"
  by (induction xs) auto

lemma GetAccount_iff:
  assumes "db_ok d"
  shows "GetAccount i d = Ok a \<longleftrightarrow> a \<in> set (accounts d) \<and> a_ID a = i"
proof
  assume "GetAccount i d = Ok a"
  then show "a \<in> set (accounts d) \<and> a_ID a = i"
    by (auto simp: GetAccount_def find_account_iff dest: find_SomeD)
next
  assume "a \<in> set (accounts d) \<and> a_ID a = i"
  then show "GetAccount i d = Ok a"
    using find_unique [OF sorted_wrt_less_distinct [OF db_okD(1) [OF assms]], of a]
    by (auto simp: GetAccount_def find_account_iff)
qed

lemma GetAccountByOpenID_iff:
  assumes "db_ok d"
  shows "GetAccountByOpenID k d = Ok a \<longleftrightarrow> a \<in> set (accounts d) \<and> a_OpenID a = k"
proof
  assume "GetAccountByOpenID k d = Ok a"
  then show "a \<in> set (accounts d) \<and> a_OpenID a = k"
    by (auto simp: GetAccountByOpenID_def find_account_iff dest: find_SomeD)
next
  assume "a \<in> set (accounts d) \<and> a_OpenID a = k"
  then show "GetAccountByOpenID k d = Ok a"
    using find_unique [OF db_okD(2) [OF assms], of a]
    by (auto simp: GetAccountByOpenID_def find_account_iff)
qed

lemma GetAccountByOpenID_none:
  "GetAccountByOpenID k d = Err e \<longleftrightarrow> e = ErrNoRows \<and> k \<notin> a_OpenID ` set (accounts d)"
  by (auto simp: GetAccountByOpenID_def find_account_err find_None)

lemma UpsertAccount_facts:
  assumes ok: "db_ok d"
    and up: "UpsertAccount now k lb al ni av ui cr st d = (g, d')"
  shows "\<exists>a. g = Ok a \<and> GetAccountByOpenID k d' = Ok a \<and> a_LoginBuffer a = lb
      \<and> a_Credentials a = json_column cr \<and> a_Status a = st \<and> a_UpdatedAt a = now
      \<and> (case GetAccountByOpenID k d of
           Ok old \<Rightarrow> a_ID a = a_ID old \<and> a_UIN a = a_UIN old \<and> a_CreatedAt a = a_CreatedAt old
         | _ \<Rightarrow> a_ID a \<notin> a_ID ` set (accounts d) \<and> a_UIN a = None \<and> a_CreatedAt a = now)"
    and "\<And>l. l \<noteq> k \<Longrightarrow> GetAccountByOpenID l d' = GetAccountByOpenID l d"
    and "sessions d' = sessions d"
proof -
  show "\<exists>a. g = Ok a \<and> GetAccountByOpenID k d' = Ok a \<and> a_LoginBuffer a = lb
      \<and> a_Credentials a = json_column cr \<and> a_Status a = st \<and> a_UpdatedAt a = now
      \<and> (case GetAccountByOpenID k d of
           Ok old \<Rightarrow> a_ID a = a_ID old \<and> a_UIN a = a_UIN old \<and> a_CreatedAt a = a_CreatedAt old
         | _ \<Rightarrow> a_ID a \<notin> a_ID ` set (accounts d) \<and> a_UIN a = None \<and> a_CreatedAt a = now)"
  proof (cases "\<exists>a \<in> set (accounts d). a_OpenID a = k")
    case True
    then obtain old where old: "GetAccountByOpenID k d = Ok old"
      using GetAccountByOpenID_iff [OF ok] by blast
    then have "a_OpenID old = k" using GetAccountByOpenID_iff [OF ok] by blast
    with old up show ?thesis
      unfolding UpsertAccount_def if_P [OF True] Let_def GetAccountByOpenID_def
      by (auto simp: find_account_update)
  next
    case False
    then have "find (\<lambda>a. a_OpenID a = k) (accounts d) = None" by (simp add: find_None)
    moreover have "acc_seq d + 1 \<notin> a_ID ` set (accounts d)" using db_okD(3) [OF ok] by force
    ultimately show ?thesis using up
      unfolding UpsertAccount_def if_not_P [OF False] Let_def GetAccountByOpenID_def
      by (auto simp: find_account_def find_append)
  qed
  show "GetAccountByOpenID l d' = GetAccountByOpenID l d" if "l \<noteq> k" for l
  proof (cases "\<exists>a \<in> set (accounts d). a_OpenID a = k")
    case True
    have "a_OpenID a = l" if "find_account (\<lambda>a. a_OpenID a = l) d = Ok a" for a
      using that by (auto simp: find_account_iff dest: find_SomeD)
    with up \<open>l \<noteq> k\<close> show ?thesis
      unfolding UpsertAccount_def if_P [OF True] Let_def GetAccountByOpenID_def
      by (cases "find_account (\<lambda>a. a_OpenID a = l) d") (auto simp: find_account_update)
  next
    case False
    with up \<open>l \<noteq> k\<close> show ?thesis
      unfolding UpsertAccount_def if_not_P [OF False] Let_def GetAccountByOpenID_def
      by (auto simp: find_account_def find_append split: option.splits)
  qed
  show "sessions d' = sessions d"
    using up by (auto simp: UpsertAccount_def Let_def update_account_def split: if_splits)
qed

text \<open>
  An upsert leaves exactly one account under the open id, with the given columns; an
  existing account keeps its id, UIN and creation time, a new one gets an unused id; the
  accounts under other open ids and all sessions stay as they were.
\<close>

theorem UpsertAccount_correct:
  assumes "db_ok d" "UpsertAccount now k lb al ni av ui cr st d = (g, d')"
  shows "(\<exists>a. g = Ok a \<and> GetAccountByOpenID k d' = Ok a \<and> a_LoginBuffer a = lb
      \<and> a_Credentials a = json_column cr \<and> a_Status a = st \<and> a_UpdatedAt a = now
      \<and> (case GetAccountByOpenID k d of
           Ok old \<Rightarrow> a_ID a = a_ID old \<and> a_UIN a = a_UIN old \<and> a_CreatedAt a = a_CreatedAt old
         | _ \<Rightarrow> a_ID a \<notin> a_ID ` set (accounts d) \<and> a_UIN a = None \<and> a_CreatedAt a = now))
    \<and> (\<forall>l. l \<noteq> k \<longrightarrow> GetAccountByOpenID l d' = GetAccountByOpenID l d) \<and> sessions d' = sessions d"
  using UpsertAccount_facts [OF assms] by blast

theorem UpsertAccount_correct_witness:
  "\<exists>a. fst (UpsertAccount 9 ''o1'' ''c'' None None None None None None sample_db) = Ok a
     \<and> a_ID a = 1 \<and> a_UIN a = Some 2 \<and> a_LoginBuffer a = ''c''"
  using UpsertAccount_correct [OF sample_db_ok prod.collapse [symmetric],
      of 9 "''o1''" "''c''" None None None None None None]
  by (auto simp: sample_db_def GetAccountByOpenID_def find_account_def)

lemma ResolveAccount_facts:
  assumes ok: "db_ok d"
  shows "isDigits ref \<Longrightarrow> ResolveAccount ref d = Ok a \<Longrightarrow>
      a \<in> set (accounts d) \<and> (a_UIN a = Some (fst (parseInt ref))
        \<or> (\<forall>b \<in> set (accounts d). a_UIN b \<noteq> Some (fst (parseInt ref)))
          \<and> a_ID a = fst (parseInt ref))"
    and "isDigits ref \<Longrightarrow> is_ok (ResolveAccount ref d) \<longleftrightarrow>
      (\<exists>b \<in> set (accounts d). a_UIN b = Some (fst (parseInt ref)) \<or> a_ID b = fst (parseInt ref))"
    and "\<not> isDigits ref \<Longrightarrow> ResolveAccount ref d = Ok a \<longleftrightarrow>
      ref \<noteq> [] \<and> a \<in> set (accounts d) \<and> a_OpenID a = ref"
proof -
  let ?n = "fst (parseInt ref)"
  assume dg: "isDigits ref"
  then have r: "ResolveAccount ref d =
      (case find (\<lambda>a. a_UIN a = Some ?n) (accounts d) of Some a \<Rightarrow> Ok a | None \<Rightarrow> GetAccount ?n d)"
    by (auto simp: ResolveAccount_def isDigits_def Let_def GetAccountByUIN_def find_account_def
        split: option.splits)
  show "is_ok (ResolveAccount ref d) \<longleftrightarrow>
      (\<exists>b \<in> set (accounts d). a_UIN b = Some ?n \<or> a_ID b = ?n)"
    by (auto simp: r GetAccount_def find_account_def of_opt_def find_None split: option.splits dest!: find_SomeD)
  assume "ResolveAccount ref d = Ok a"
  then show "a \<in> set (accounts d) \<and> (a_UIN a = Some ?n
        \<or> (\<forall>b \<in> set (accounts d). a_UIN b \<noteq> Some ?n) \<and> a_ID a = ?n)"
    by (auto simp: r GetAccount_iff [OF ok] find_None split: option.splits dest!: find_SomeD)
next
  assume "\<not> isDigits ref"
  then show "ResolveAccount ref d = Ok a \<longleftrightarrow>
      ref \<noteq> [] \<and> a \<in> set (accounts d) \<and> a_OpenID a = ref"
    by (simp add: ResolveAccount_def GetAccountByOpenID_iff [OF ok] ErrNoRows_def)
qed

text \<open>
  How a reference names an account: digits mean the account with that UIN or, only when
  no account has it, the account with that id; any other text is an open id. An open id of
  digits is therefore never matched.
\<close>

theorem ResolveAccount_correct:
  assumes "db_ok d"
  shows "if isDigits ref
    then (is_ok (ResolveAccount ref d) \<longleftrightarrow> (\<exists>b \<in> set (accounts d).
            a_UIN b = Some (fst (parseInt ref)) \<or> a_ID b = fst (parseInt ref)))
      \<and> (\<forall>a. ResolveAccount ref d = Ok a \<longrightarrow> a \<in> set (accounts d)
            \<and> (a_UIN a = Some (fst (parseInt ref))
              \<or> (\<forall>b \<in> set (accounts d). a_UIN b \<noteq> Some (fst (parseInt ref)))
                \<and> a_ID a = fst (parseInt ref)))
    else (\<forall>a. ResolveAccount ref d = Ok a \<longleftrightarrow>
            ref \<noteq> [] \<and> a \<in> set (accounts d) \<and> a_OpenID a = ref)"
  using ResolveAccount_facts [OF assms, of ref] by auto

theorem ResolveAccount_correct_witness:
  "is_ok (ResolveAccount ''2'' sample_db) \<and> is_ok (ResolveAccount ''1'' sample_db)"
proof -
  have "fst (parseInt ''2'') = 2" "fst (parseInt ''1'') = 1" "isDigits ''2''" "isDigits ''1''" by code_simp+
  then show ?thesis
    using ResolveAccount_correct [OF sample_db_ok, of "''2''"] ResolveAccount_correct [OF sample_db_ok, of "''1''"]
    by (simp add: sample_db_def)
qed

section \<open>The session store as an interface\<close>

text \<open>
  What a client of the session table relies on: a session that was put for an existing
  account is read back until it expires, an invalidated one is not, and neither operation
  touches another session.
\<close>

locale session_store =
  fixes ok :: "'d \<Rightarrow> bool"
    and has :: "int \<Rightarrow> 'd \<Rightarrow> bool"
    and lookup :: "int \<Rightarrow> int \<Rightarrow> string \<Rightarrow> 'd \<Rightarrow> session_row go"
    and put :: "int \<Rightarrow> int \<Rightarrow> int option \<Rightarrow> gmap \<Rightarrow> int \<Rightarrow> string \<Rightarrow> 'd \<Rightarrow> unit go \<times> 'd"
    and drop_one :: "int \<Rightarrow> string \<Rightarrow> 'd \<Rightarrow> 'd"
  assumes put_ok: "ok d \<Longrightarrow> has i d \<Longrightarrow> fst (put now i u b e p d) = Ok ()"
    and put_keeps: "ok d \<Longrightarrow> ok (snd (put now i u b e p d))"
    and put_has: "has j (snd (put now i u b e p d)) \<longleftrightarrow> has j d"
    and lookup_put: "ok d \<Longrightarrow> has i d \<Longrightarrow> now' < e \<Longrightarrow>
      \<exists>s. lookup now' i p (snd (put now i u b e p d)) = Ok s
        \<and> r_Blob s = json_norm_members b \<and> r_UIN s = u \<and> r_ExpiresAt s = e"
    and lookup_put_expired: "ok d \<Longrightarrow> has i d \<Longrightarrow> e \<le> now' \<Longrightarrow>
      lookup now' i p (snd (put now i u b e p d)) = Err ErrNoRows"
    and lookup_put_other: "(j, q) \<noteq> (i, p) \<Longrightarrow>
      lookup now' j q (snd (put now i u b e p d)) = lookup now' j q d"
    and drop_keeps: "ok d \<Longrightarrow> ok (drop_one i p d)"
    and drop_has: "has j (drop_one i p d) \<longleftrightarrow> has j d"
    and lookup_drop: "lookup now' i p (drop_one i p d) = Err ErrNoRows"
    and lookup_drop_other: "(j, q) \<noteq> (i, p) \<Longrightarrow> lookup now' j q (drop_one i p d) = lookup now' j q d"
begin

text \<open>The way a session is renewed: the old one is dropped, a new one is put.\<close>

lemma renew:
  assumes "ok d" "has i d" "now' < e"
  shows "\<exists>s. lookup now' i p (snd (put now i u b e p (drop_one i p d))) = Ok s
    \<and> r_Blob s = json_norm_members b \<and> r_UIN s = u \<and> r_ExpiresAt s = e"
  using assms by (simp add: lookup_put drop_keeps drop_has)

lemma last_put:
  assumes "ok d" "has i d" "now' < e2"
  shows "\<exists>s. lookup now' i p (snd (put n2 i u2 b2 e2 p (snd (put n1 i u1 b1 e1 p d)))) = Ok s
    \<and> r_Blob s = json_norm_members b2 \<and> r_UIN s = u2"
  using lookup_put [of "snd (put n1 i u1 b1 e1 p d)" i now' e2 p n2 u2 b2] assms
  by (auto simp: put_keeps put_has)

lemma put_independent:
  assumes "(j, q) \<noteq> (i, p)" "ok d" "has j d" "now' < e1"
  shows "\<exists>s. lookup now' j q (snd (put n2 i u2 b2 e2 p (snd (put n1 j u1 b1 e1 q d)))) = Ok s
    \<and> r_Blob s = json_norm_members b1 \<and> r_UIN s = u1"
  using lookup_put [of d j now' e1 q n1 u1 b1] assms by (auto simp: lookup_put_other)

end

definition has_account :: "int \<Rightarrow> db \<Rightarrow> bool" where
  "has_account i d \<longleftrightarrow> i \<in> a_ID ` set (accounts d)"

lemma sample_db_has: "has_account 1 sample_db"
  by (simp add: sample_db_def has_account_def)

definition find_session :: "int \<Rightarrow> string \<Rightarrow> db \<Rightarrow> session_row option" where
  "find_session i p d = find (\<lambda>s. session_key s = (i, p)) (sessions d)"

lemma find_key:
  assumes "distinct (map f xs)"
  shows "find (\<lambda>x. f x = k \<and> P x) xs = (case find (\<lambda>x. f x = k) xs of
    Some x \<Rightarrow> (if P x then Some x else None) | None \<Rightarrow> None)"
  using assms by (induction xs) (auto simp: image_iff find_None split: option.splits dest!: find_SomeD)

lemma find_sessionD: "find_session i p d = Some s \<Longrightarrow> r_Account s = i \<and> r_Proxy s = p"
  by (auto simp: find_session_def session_key_def dest!: find_SomeD)

lemma find_False [simp]: "find (\<lambda>x. False) xs = None"
  by (induction xs) auto

lemma GetSession_find:
  assumes "db_ok d"
  shows "GetSession now i p d = (case find_session i p d of
    Some s \<Rightarrow> (if r_ExpiresAt s > now then Ok s else Err ErrNoRows) | None \<Rightarrow> Err ErrNoRows)"
proof -
  have "GetSession now i p d
      = of_opt ErrNoRows (find (\<lambda>s. session_key s = (i, p) \<and> r_ExpiresAt s > now) (sessions d))"
    unfolding GetSession_def by (rule arg_cong) (simp add: session_key_def conj_assoc)
  then show ?thesis
    by (simp add: find_key [OF db_okD(4) [OF assms]] find_session_def split: option.splits)
qed

lemma PutSession_new:
  assumes "find_session i p d = None" "has_account i d"
  shows "PutSession now i u b e p d = (Ok (), d\<lparr>sessions := sessions d @
              [\<lparr>r_ID = sess_seq d + 1, r_Account = i, r_UIN = u, r_Proxy = p,
                r_Blob = json_norm_members b, r_ExpiresAt = e, r_CreatedAt = now,
                r_UpdatedAt = now\<rparr>],
            sess_seq := sess_seq d + 1\<rparr>)"
proof -
  have "\<not> (\<exists>s \<in> set (sessions d). r_Account s = i \<and> r_Proxy s = p)"
    using assms(1) by (auto simp: find_session_def find_None session_key_def)
  moreover have "\<exists>a \<in> set (accounts d). a_ID a = i" using assms(2) by (auto simp: has_account_def)
  ultimately show ?thesis unfolding PutSession_def by (simp only: if_False) simp
qed


abbreviation session_put ::
  "int \<Rightarrow> int \<Rightarrow> int option \<Rightarrow> gmap \<Rightarrow> int \<Rightarrow> string \<Rightarrow> session_row \<Rightarrow> session_row" where
  "session_put now i u b e p s \<equiv>
     if r_Account s = i \<and> r_Proxy s = p
     then s\<lparr>r_UIN := u, r_Blob := json_norm_members b, r_ExpiresAt := e, r_UpdatedAt := now\<rparr>
     else s"

lemma PutSession_old:
  assumes "find_session i p d \<noteq> None"
  shows "PutSession now i u b e p d
    = (Ok (), d\<lparr>sessions := map (session_put now i u b e p) (sessions d)\<rparr>)"
proof -
  have "\<exists>s \<in> set (sessions d). r_Account s = i \<and> r_Proxy s = p"
    using assms by (auto simp: find_session_def find_None session_key_def)
  then show ?thesis unfolding PutSession_def by (rule if_P)
qed

lemma PutSession_fk:
  assumes "find_session i p d = None" "\<not> has_account i d"
  shows "PutSession now i u b e p d = (Err fk_err, d)"
proof -
  have "\<not> (\<exists>s \<in> set (sessions d). r_Account s = i \<and> r_Proxy s = p)"
    using assms(1) by (auto simp: find_session_def find_None session_key_def)
  moreover have "\<not> (\<exists>a \<in> set (accounts d). a_ID a = i)" using assms(2) by (auto simp: has_account_def)
  ultimately show ?thesis unfolding PutSession_def by (simp only: if_False not_False_eq_True if_True)
qed

lemma find_session_put:
  "find_session j q (snd (PutSession now i u b e p d)) =
     (if (j, q) = (i, p) then (case find_session i p d of
         Some s \<Rightarrow> Some (session_put now i u b e p s)
       | None \<Rightarrow> if has_account i d then
           Some \<lparr>r_ID = sess_seq d + 1, r_Account = i, r_UIN = u, r_Proxy = p,
                 r_Blob = json_norm_members b, r_ExpiresAt = e, r_CreatedAt = now, r_UpdatedAt = now\<rparr>
           else None)
      else find_session j q d)"
proof (cases "find_session i p d")
  case None
  show ?thesis
  proof (cases "has_account i d")
    case True
    from None show ?thesis unfolding PutSession_new [OF None True]
      by (auto simp: find_session_def find_append session_key_def True split: option.splits)
  next
    case False
    from None False show ?thesis by (simp add: PutSession_fk)
  qed
next
  case (Some s)
  have h: "find_session j q (d\<lparr>sessions := map (session_put now i u b e p) (sessions d)\<rparr>)
      = map_option (session_put now i u b e p) (find_session j q d)"
  proof -
    have "find (\<lambda>s. session_key s = (j, q)) (map (session_put now i u b e p) xs)
        = map_option (session_put now i u b e p) (find (\<lambda>s. session_key s = (j, q)) xs)" for xs
      by (rule find_map_keep) (simp add: session_key_def)
    then show ?thesis by (simp add: find_session_def)
  qed
  have "session_put now i u b e p t = t" if "find_session j q d = Some t" "(j, q) \<noteq> (i, p)" for t
    using that by (auto simp: find_session_def session_key_def dest: find_SomeD)
  note keep = this
  have old: "find_session i p d \<noteq> None" using Some by simp
  show ?thesis
  proof (cases "(j, q) = (i, p)")
    case True
    then have "find_session j q d = Some s" using Some by simp
    then show ?thesis
      unfolding PutSession_old [OF old] snd_conv h if_P [OF True] Some by (simp only: option.simps)
  next
    case False
    show ?thesis
      unfolding PutSession_old [OF old] snd_conv h if_not_P [OF False]
      using keep [OF _ False] by (cases "find_session j q d") (simp_all only: option.simps)
  qed
qed

lemma find_session_drop:
  "find_session j q (InvalidateSession i p d) = (if (j, q) = (i, p) then None else find_session j q d)"
  by (auto simp: find_session_def InvalidateSession_def find_filter session_key_def find_None
      intro!: arg_cong2 [where f = find])

lemma find_session_put_other:
  "(j, q) \<noteq> (i, p) \<Longrightarrow> find_session j q (snd (PutSession now i u b e p d)) = find_session j q d"
  by (subst find_session_put) (rule if_not_P)

lemma find_session_drop_other:
  "(j, q) \<noteq> (i, p) \<Longrightarrow> find_session j q (InvalidateSession i p d) = find_session j q d"
  by (subst find_session_drop) (rule if_not_P)

lemma PutSession_db_ok: "db_ok d \<Longrightarrow> db_ok (snd (PutSession now i u b e p d))"
  using PutSession_ok [of d now i u b e p "fst (PutSession now i u b e p d)"] by simp

lemma has_account_put [simp]: "has_account j (snd (PutSession now i u b e p d)) = has_account j d"
  by (auto simp: PutSession_def has_account_def)

lemma has_account_drop [simp]: "has_account j (InvalidateSession i p d) = has_account j d"
  by (simp add: InvalidateSession_def has_account_def)

lemma PutSession_has: "has_account i d \<Longrightarrow> fst (PutSession now i u b e p d) = Ok ()"
  by (cases "find_session i p d") (simp_all add: PutSession_new PutSession_old)

definition lookup_session :: "int \<Rightarrow> int \<Rightarrow> string \<Rightarrow> db \<Rightarrow> session_row go" where
  "lookup_session now i p d = (case find_session i p d of
    Some s \<Rightarrow> (if r_ExpiresAt s > now then Ok s else Err ErrNoRows) | None \<Rightarrow> Err ErrNoRows)"

text \<open>
  On a well-formed database \<open>GetSession\<close> is the lookup by key. The interface is met by the
  code's statements.
\<close>

lemmas session_facts = lookup_session_def find_session_put find_session_drop

interpretation st: session_store db_ok has_account lookup_session PutSession InvalidateSession
proof unfold_locales
  fix d :: db and i now now' u b e p j q
  show "db_ok d \<Longrightarrow> has_account i d \<Longrightarrow> fst (PutSession now i u b e p d) = Ok ()"
    by (rule PutSession_has)
  show "db_ok d \<Longrightarrow> db_ok (snd (PutSession now i u b e p d))" by (rule PutSession_db_ok)
  show "db_ok d \<Longrightarrow> has_account i d \<Longrightarrow> now' < e \<Longrightarrow>
      \<exists>s. lookup_session now' i p (snd (PutSession now i u b e p d)) = Ok s
        \<and> r_Blob s = json_norm_members b \<and> r_UIN s = u \<and> r_ExpiresAt s = e"
    by (cases "find_session i p d") (auto simp: session_facts dest: find_sessionD)
  show "db_ok d \<Longrightarrow> has_account i d \<Longrightarrow> e \<le> now' \<Longrightarrow>
      lookup_session now' i p (snd (PutSession now i u b e p d)) = Err ErrNoRows"
    by (cases "find_session i p d") (auto simp: session_facts dest: find_sessionD)
  show "(j, q) \<noteq> (i, p) \<Longrightarrow>
      lookup_session now' j q (snd (PutSession now i u b e p d)) = lookup_session now' j q d"
    unfolding lookup_session_def by (simp only: find_session_put_other not_False_eq_True)
  show "(j, q) \<noteq> (i, p) \<Longrightarrow>
      lookup_session now' j q (InvalidateSession i p d) = lookup_session now' j q d"
    unfolding lookup_session_def by (simp only: find_session_drop_other not_False_eq_True)
qed (simp_all add: session_facts InvalidateSession_ok)

text \<open>
  After a session was stored for an existing account it is found until it expires, with
  the blob as JSON reads it back, and no other session and no account changes.
\<close>

theorem PutSession_GetSession:
  assumes "db_ok d" "has_account i d" "PutSession now i u b e p d = (g, d')"
  shows "g = Ok () \<and> accounts d' = accounts d
    \<and> (now' < e \<longrightarrow> (\<exists>s. GetSession now' i p d' = Ok s \<and> r_Blob s = json_norm_members b \<and> r_UIN s = u))
    \<and> (e \<le> now' \<longrightarrow> GetSession now' i p d' = Err ErrNoRows)
    \<and> (\<forall>j q. (j, q) \<noteq> (i, p) \<longrightarrow> GetSession now' j q d' = GetSession now' j q d)"
proof -
  from assms(3) have d': "d' = snd (PutSession now i u b e p d)" and g: "g = fst (PutSession now i u b e p d)"
    by simp_all
  have ok': "db_ok d'" unfolding d' by (rule st.put_keeps [OF assms(1)])
  have l: "GetSession n j q x = lookup_session n j q x" if "db_ok x" for n j q x
    by (simp add: GetSession_find [OF that] lookup_session_def)
  have "accounts d' = accounts d" using assms(3) by (auto simp: PutSession_def split: if_splits)
  moreover have "g = Ok ()" unfolding g by (rule st.put_ok [OF assms(1,2)])
  moreover have "now' < e \<longrightarrow> (\<exists>s. lookup_session now' i p d' = Ok s \<and> r_Blob s = json_norm_members b \<and> r_UIN s = u)"
    using st.lookup_put [OF assms(1,2), of now' e p now u b] unfolding d' by blast
  moreover have "e \<le> now' \<longrightarrow> lookup_session now' i p d' = Err ErrNoRows"
    using st.lookup_put_expired [OF assms(1,2)] unfolding d' by blast
  moreover have "\<forall>j q. (j, q) \<noteq> (i, p) \<longrightarrow> lookup_session now' j q d' = lookup_session now' j q d"
    using st.lookup_put_other unfolding d' by blast
  ultimately show ?thesis unfolding l [OF ok'] l [OF assms(1)] by blast
qed

theorem PutSession_GetSession_witness:
  "\<exists>s. GetSession 5 1 ''p'' (snd (PutSession 3 1 (Some 2) [] 10 ''p'' sample_db)) = Ok s \<and> r_UIN s = Some 2"
  using PutSession_GetSession [OF sample_db_ok sample_db_has prod.collapse [symmetric],
      where now' = 5 and e = 10 and p = "''p''" and now = 3 and u = "Some 2" and b = "[]"] by auto

text \<open>
  Deleting an account removes it and all its sessions and nothing else; once no account
  is left, the next account gets the id 1 again.
\<close>

theorem DeleteAccount_correct:
  assumes "db_ok d"
  shows "(\<forall>j. GetAccount j (DeleteAccount i d) = (if j = i then Err ErrNoRows else GetAccount j d))
    \<and> (\<forall>now j q. GetSession now j q (DeleteAccount i d)
          = (if j = i then Err ErrNoRows else GetSession now j q d))
    \<and> (accounts (DeleteAccount i d) = [] \<longrightarrow>
        (\<forall>now k lb al ni av ui cr st. \<exists>a.
           fst (UpsertAccount now k lb al ni av ui cr st (DeleteAccount i d)) = Ok a \<and> a_ID a = 1))"
proof (intro conjI allI impI)
  have s: "accounts (DeleteAccount i d) = filter (\<lambda>a. a_ID a \<noteq> i) (accounts d)"
    "sessions (DeleteAccount i d) = filter (\<lambda>s. r_Account s \<noteq> i) (sessions d)"
    by (simp_all add: DeleteAccount_def resetAutoincrementIfEmpty_def)
  have f: "(\<lambda>x. (P x \<and> f x = j \<and> Q x) \<and> f x \<noteq> i) = (\<lambda>x. P x \<and> f x = j \<and> Q x)" if "j \<noteq> i" for P Q f and j :: int
    using that by auto
  show "GetAccount j (DeleteAccount i d) = (if j = i then Err ErrNoRows else GetAccount j d)" for j
    using f [of j "\<lambda>x. True" a_ID "\<lambda>x. True"]
    by (auto simp: GetAccount_def find_account_def s find_filter cong: conj_cong)
  show "GetSession now j q (DeleteAccount i d) = (if j = i then Err ErrNoRows else GetSession now j q d)" for now j q
    using f [of j "\<lambda>x. True" r_Account "\<lambda>s. r_Proxy s = q \<and> r_ExpiresAt s > now"]
    by (auto simp: GetSession_def s find_filter cong: conj_cong)
  fix now k lb al ni av ui cr st
  assume e: "accounts (DeleteAccount i d) = []"
  then have "acc_seq (DeleteAccount i d) = 0"
    by (simp add: DeleteAccount_def resetAutoincrementIfEmpty_def split: if_splits)
  with e show "\<exists>a. fst (UpsertAccount now k lb al ni av ui cr st (DeleteAccount i d)) = Ok a \<and> a_ID a = 1"
    by (simp add: UpsertAccount_def GetAccountByOpenID_def find_account_def)
qed

theorem DeleteAccount_correct_witness:
  "GetAccount 1 (DeleteAccount 1 sample_db) = Err ErrNoRows
   \<and> (\<exists>a. fst (UpsertAccount 9 ''x'' [] None None None None None None (DeleteAccount 1 sample_db)) = Ok a
        \<and> a_ID a = 1)"
  using DeleteAccount_correct [OF sample_db_ok, of 1]
  by (auto simp: DeleteAccount_def resetAutoincrementIfEmpty_def sample_db_def)

end
