(* ===== verification/Pool.thy ===== *)
theory Pool
  imports Shortlink Hostsign Store
begin

text \<open>
  Model of \<open>internal/protocol/pool.go\<close>: sessions are looked up in the database, created by
  a login over LongLink when there is none, and used for calls over ShortLink. What the
  network does is a record of functions; the clock is an argument (seconds). The two
  semaphores are counters in the state. Theory \<open>Pool_Concurrency\<close> has the interleavings.
\<close>

section \<open>Configuration\<close>

record Config =
  ShortlinkTimeout :: int
  LoginTimeout :: int
  SessionTTL :: int
  DNSCacheTTL :: int
  MaxShortlinkConcurrency :: int
  MaxLoginConcurrency :: int
  TCPProxy :: string
  TCPProxyFallbackDirect :: bool

definition second :: int where "second = 10 ^ 9"

definition DefaultConfig :: Config where
  "DefaultConfig =
     \<lparr>ShortlinkTimeout = 8 * second, LoginTimeout = 30 * second, SessionTTL = 30 * 60 * second,
      DNSCacheTTL = 30 * 60 * second, MaxShortlinkConcurrency = 1000, MaxLoginConcurrency = 32,
      TCPProxy = [], TCPProxyFallbackDirect = True\<rparr>"

record WmpfSession =
  w_Session :: AppSession
  w_PSK :: pskEntry
  w_Targets :: "target list"
  w_CreatedAt :: int
  w_TCPProxy :: string

record pool =
  p_cfg :: Config
  p_db :: db
  p_locks :: "(string \<times> nat) list" \<comment> \<open>the n-th mutex that was made\<close>
  p_loginSem :: nat
  p_shortlinkSem :: nat

definition or_default :: "int \<Rightarrow> int \<Rightarrow> int" where
  "or_default v d = (if v = 0 then d else v)"

definition with_defaults :: "Config \<Rightarrow> Config" where
  "with_defaults cfg =
     (let def = DefaultConfig in
      cfg\<lparr>ShortlinkTimeout := or_default (ShortlinkTimeout cfg) (ShortlinkTimeout def),
          LoginTimeout := or_default (LoginTimeout cfg) (LoginTimeout def),
          SessionTTL := or_default (SessionTTL cfg) (SessionTTL def),
          DNSCacheTTL := or_default (DNSCacheTTL cfg) (DNSCacheTTL def),
          MaxShortlinkConcurrency :=
            or_default (MaxShortlinkConcurrency cfg) (MaxShortlinkConcurrency def),
          MaxLoginConcurrency := or_default (MaxLoginConcurrency cfg) (MaxLoginConcurrency def)\<rparr>)"

text \<open>\<open>make(chan struct{}, n)\<close> panics for a negative size.\<close>

definition NewPool :: "Config \<Rightarrow> db \<Rightarrow> pool go" where
  "NewPool cfg d =
     (let cfg = with_defaults cfg in
      if MaxLoginConcurrency cfg < 0 \<or> MaxShortlinkConcurrency cfg < 0 then Panic
      else Ok \<lparr>p_cfg = cfg, p_db = d, p_locks = [], p_loginSem = 0, p_shortlinkSem = 0\<rparr>)"

section \<open>Sessions as JSON\<close>

definition encBytes :: "bytes \<Rightarrow> gval" where
  "encBytes b = GMap [(''__bytes__'', GStr (hexEncode b))]"

definition decBytes :: "gval \<Rightarrow> bytes" where
  "decBytes v =
     (case v of
        GMap m \<Rightarrow> (case as_str (gget m ''__bytes__'') of Some s \<Rightarrow> fst (hexDecode s) | None \<Rightarrow> [])
      | GStr s \<Rightarrow> bytes_of s
      | _ \<Rightarrow> [])"

definition targetsToAny :: "target list \<Rightarrow> gval" where
  "targetsToAny ts = GArrs (map (\<lambda>t. [GStr (IP t), GInt KInt (Port t)]) ts)"

definition targetsFromAny :: "gval \<Rightarrow> target list" where
  "targetsFromAny v =
     (case as_arr v of
        None \<Rightarrow> []
      | Some arr \<Rightarrow> concat (map (\<lambda>it.
          case as_arr it of
            None \<Rightarrow> []
          | Some pair \<Rightarrow>
              if length pair < 2 then []
              else [\<lparr>IP = stringAny (pair ! 0), Port = int64FromAny (pair ! 1)\<rparr>]) arr))"

text \<open>The fields of \<open>pskEntry\<close> under their JSON names.\<close>

definition psk_fields :: "pskEntry \<Rightarrow> gmap" where
  "psk_fields e =
     [(''psk_type'', GInt KInt (e_PSKType e)), (''pre_shared_key'', GStr (e_PreSharedKey e)),
      (''ticket_entry'', GStr (e_TicketEntry e)), (''lifetime'', GInt KInt64 (e_Lifetime e)),
      (''expired_at'', GInt KInt64 (e_ExpiredAt e))]"

definition toBlob :: "WmpfSession \<Rightarrow> gmap" where
  "toBlob st =
     (let s = w_Session st in
      [(''session'', GMap
         [(''send_key'', encBytes (s_SendKey s)), (''recv_key'', encBytes (s_RecvKey s)),
          (''f9'', encBytes (s_F9 s)), (''uin'', GInt KInt64 (s_UIN s)),
          (''ticket'', encBytes (s_Ticket s)), (''device_id'', encBytes (s_DeviceID s)),
          (''host_appid'', encBytes (s_HostAppID s))]),
       (''psk_entry'', GMap (psk_fields (w_PSK st))),
       (''shortlink_targets'', targetsToAny (w_Targets st)),
       (''tcp_proxy'', GStr (w_TCPProxy st))])"

definition sessionFromBlob :: "int \<Rightarrow> gmap \<Rightarrow> WmpfSession go" where
  "sessionFromBlob now blob =
     (case as_map (gget blob ''session'') of
        None \<Rightarrow> Err (Errorf ''session_blob missing session'')
      | Some sm \<Rightarrow>
     (case as_map (gget blob ''psk_entry'') of
        None \<Rightarrow> Err (Errorf ''session_blob missing psk_entry'')
      | Some pm \<Rightarrow>
          (let targets = targetsFromAny (gget blob ''shortlink_targets'');
               st = \<lparr>w_Session =
                       \<lparr>s_SendKey = decBytes (gget sm ''send_key''),
                        s_RecvKey = decBytes (gget sm ''recv_key''),
                        s_F9 = decBytes (gget sm ''f9''), s_UIN = int64FromAny (gget sm ''uin''),
                        s_Ticket = decBytes (gget sm ''ticket''),
                        s_DeviceID = decBytes (gget sm ''device_id''),
                        s_HostAppID = decBytes (gget sm ''host_appid'')\<rparr>,
                     w_PSK =
                       \<lparr>e_PSKType = int64FromAny (gget pm ''psk_type''),
                        e_PreSharedKey = stringAny (gget pm ''pre_shared_key''),
                        e_TicketEntry = stringAny (gget pm ''ticket_entry''),
                        e_Lifetime = int64FromAny (gget pm ''lifetime''),
                        e_ExpiredAt = int64FromAny (gget pm ''expired_at'')\<rparr>,
                     w_Targets = (if length targets = 0 then [shortlink_fallback] else targets),
                     w_CreatedAt = now,
                     w_TCPProxy = stringAny (gget blob ''tcp_proxy'')\<rparr>;
               s = w_Session st in
           if length (s_SendKey s) = 0 \<or> length (s_RecvKey s) = 0 \<or> s_UIN s = 0
           then Err (Errorf ''session_blob incomplete'') else Ok st)))"

section \<open>Login\<close>

text \<open>
  What a login meets: the answer of the lookup, the connection to a target, the random
  draws for it, and the targets for later calls.
\<close>

record login_net =
  ln_targets :: "target list go"
  ln_connect :: "target \<Rightarrow> mmtlsClient go"
  ln_device :: "target \<Rightarrow> bytes go"
  ln_rand :: "target \<Rightarrow> hybrid_rand"
  ln_shortlink :: "target list"

text \<open>The exchange on an open connection; every error in it moves on to the next target.\<close>

definition login_exchange ::
  "int \<Rightarrow> loginMeta \<Rightarrow> bytes \<Rightarrow> manualAuthTemp \<Rightarrow> (mmtlsClient, AppSession \<times> pskEntry) act" where
  "login_exchange now meta body temp =
     act_bind (sendApp cmdManualAuth body) (\<lambda>_.
     act_bind recvApp (\<lambda>resp.
     if Cmd resp \<noteq> cmdManualAuth then act_lift (Err (Errorf ''manualauth failed: cmd=%d''))
     else
       act_bind (act_lift (parseLoginResponse (Body resp) temp)) (\<lambda>mar.
       act_bind (act_lift (extractSession mar)) (\<lambda>appSess.
       act_bind (act_get (extractPSKs now)) (\<lambda>r.
       act_bind (act_lift r) (\<lambda>psks.
       case pickAccessPSK now psks of
         None \<Rightarrow> act_lift (Err (Errorf ''login finished but no access PSK was issued''))
       | Some psk \<Rightarrow>
           act_ret (appSess\<lparr>s_DeviceID := l_DeviceID meta, s_HostAppID := l_HostAppID meta\<rparr>, psk)))))))"

text \<open>One turn of the loop: a session, an error that ends the loop, or one that does not.\<close>

datatype 'a attempt = Hit 'a | Stop go_error | Next go_error | Crash

definition login_attempt ::
  "login_net \<Rightarrow> int \<Rightarrow> string \<Rightarrow> string \<Rightarrow> target \<Rightarrow> WmpfSession attempt" where
  "login_attempt net now loginBuffer tcpProxy t =
     (case ln_connect net t of
        Err e \<Rightarrow> Next e
      | Panic \<Rightarrow> Crash
      | Ok mc \<Rightarrow>
          (case go_bind (parseLoginBuffer loginBuffer) (\<lambda>meta.
                go_bind (ln_device net t) (\<lambda>appDeviceID.
                go_bind (buildLoginBody (ln_rand net t) loginBuffer (l_DeviceID meta) appDeviceID)
                  (\<lambda>(body, temp). Ok (meta, body, temp)))) of
             Err e \<Rightarrow> Stop e
           | Panic \<Rightarrow> Crash
           | Ok (meta, body, temp) \<Rightarrow>
               (case fst (login_exchange now meta body temp mc) of
                  Err e \<Rightarrow> Next e
                | Panic \<Rightarrow> Crash
                | Ok (appSess, psk) \<Rightarrow>
                    Hit \<lparr>w_Session = appSess, w_PSK = psk, w_Targets = ln_shortlink net,
                         w_CreatedAt = now, w_TCPProxy = tcpProxy\<rparr>)))"

fun login_loop ::
  "(target \<Rightarrow> WmpfSession attempt) \<Rightarrow> go_error option \<Rightarrow> target list \<Rightarrow> WmpfSession go" where
  "login_loop try lst [] =
     Err (Wrapf ''all LongLink candidates failed: %w''
       (case lst of Some e \<Rightarrow> e | None \<Rightarrow> Errorf ''no LongLink candidates''))"
| "login_loop try lst (t # ts) =
     (case try t of
        Hit st \<Rightarrow> Ok st
      | Stop e \<Rightarrow> Err e
      | Next e \<Rightarrow> login_loop try (Some e) ts
      | Crash \<Rightarrow> Panic)"

definition loginAndSession :: "login_net \<Rightarrow> int \<Rightarrow> string \<Rightarrow> string \<Rightarrow> WmpfSession go" where
  "loginAndSession net now loginBuffer tcpProxy =
     (if loginBuffer = [] then Err (Errorf ''login_buffer is empty'')
      else
        case ln_targets net of
          Err e \<Rightarrow> Err (Wrapf ''HTTPDNS LongLink failed: %w'' e)
        | Panic \<Rightarrow> Panic
        | Ok targets \<Rightarrow>
            login_loop (login_attempt net now loginBuffer tcpProxy) None
              (orderLonglinkTargets targets 6))"

section \<open>Semaphores and locks\<close>

definition ctx_err :: go_error where "ctx_err = Errorf ''context done''"

text \<open>
  \<open>acquire\<close> chooses between a free slot and the end of the context; \<open>grant\<close> tells what it
  takes when both are there. It returns only by one of the two.
\<close>

definition acquire :: "bool \<Rightarrow> int \<Rightarrow> nat \<Rightarrow> unit go \<times> nat" where
  "acquire grant cap n = (if int n < cap \<and> grant then (Ok (), Suc n) else (Err ctx_err, n))"

definition release :: "nat \<Rightarrow> nat" where
  "release n = n - 1"

definition lock_key :: "int \<Rightarrow> string \<Rightarrow> string" where
  "lock_key accountID tcpProxy = itoa accountID @ [CHR 0x00] @ tcpProxy"

definition lockFor :: "string \<Rightarrow> (string \<times> nat) list \<Rightarrow> nat \<times> (string \<times> nat) list" where
  "lockFor key locks =
     (case map_of locks key of
        Some l \<Rightarrow> (l, locks)
      | None \<Rightarrow> (length locks, (key, length locks) # locks))"

definition effectiveProxy :: "string \<Rightarrow> string \<Rightarrow> string" where
  "effectiveProxy req def = (if req \<noteq> [] then req else def)"

definition duration_secs :: "int \<Rightarrow> int" where
  "duration_secs d = (if d < 0 then - ((- d) div second) else d div second)"

definition sessionExpiresAt :: "int \<Rightarrow> WmpfSession \<Rightarrow> int \<Rightarrow> int" where
  "sessionExpiresAt now st ttl =
     (let ex = e_ExpiredAt (w_PSK st); ttlExp = now + duration_secs ttl in
      if ex = 0 \<or> ex > ttlExp then ttlExp else ex)"

section \<open>Operations of the pool\<close>

text \<open>
  The surroundings of one pass through the pool: the n-th reading of the clock, what a login
  meets for a proxy, how a request to a target ends, the choices of the two semaphores and
  the random bytes of a call.
\<close>

record pool_env =
  en_clock :: "nat \<Rightarrow> int"
  en_net :: "string \<Rightarrow> login_net"
  en_send :: "WmpfSession \<Rightarrow> bool \<Rightarrow> bytes \<Rightarrow> target \<Rightarrow> (bytes \<times> bytes) go"
  en_login_grant :: bool
  en_short_grant :: bool
  en_mac :: bytes
  en_iv :: bytes

definition acquireLogin :: "bool \<Rightarrow> (pool, unit) act" where
  "acquireLogin grant p =
     (case acquire grant (MaxLoginConcurrency (p_cfg p)) (p_loginSem p) of
        (g, n) \<Rightarrow> (g, p\<lparr>p_loginSem := n\<rparr>))"

definition releaseLogin :: "pool \<Rightarrow> pool" where
  "releaseLogin p = p\<lparr>p_loginSem := release (p_loginSem p)\<rparr>"

definition acquireShortlink :: "bool \<Rightarrow> (pool, unit) act" where
  "acquireShortlink grant p =
     (case acquire grant (MaxShortlinkConcurrency (p_cfg p)) (p_shortlinkSem p) of
        (g, n) \<Rightarrow> (g, p\<lparr>p_shortlinkSem := n\<rparr>))"

definition releaseShortlink :: "pool \<Rightarrow> pool" where
  "releaseShortlink p = p\<lparr>p_shortlinkSem := release (p_shortlinkSem p)\<rparr>"

definition Invalidate :: "int \<Rightarrow> string \<Rightarrow> pool \<Rightarrow> pool" where
  "Invalidate accountID tcpProxy p =
     p\<lparr>p_db := InvalidateSession accountID (effectiveProxy tcpProxy (TCPProxy (p_cfg p))) (p_db p)\<rparr>"

definition stored_session :: "int \<Rightarrow> int \<Rightarrow> string \<Rightarrow> (pool, WmpfSession option) act" where
  "stored_session now accountID tcpProxy p =
     (case GetSession now accountID tcpProxy (p_db p) of
        Ok row \<Rightarrow> (go_bind (sessionFromBlob now (r_Blob row)) (\<lambda>st. Ok (Some st)), p)
      | Err e \<Rightarrow> if e \<noteq> ErrNoRows then (Err e, p) else (Ok None, p)
      | Panic \<Rightarrow> (Panic, p))"

definition putSession ::
  "int \<Rightarrow> int \<Rightarrow> int option \<Rightarrow> gmap \<Rightarrow> int \<Rightarrow> string \<Rightarrow> (pool, unit) act" where
  "putSession now accountID uin blob expiresAt tcpProxy p =
     (case PutSession now accountID uin blob expiresAt tcpProxy (p_db p) of
        (g, d) \<Rightarrow> (g, p\<lparr>p_db := d\<rparr>))"

text \<open>The part of \<open>state\<close> that runs with a slot of the login semaphore.\<close>

definition login_and_store ::
  "pool_env \<Rightarrow> string \<Rightarrow> int \<Rightarrow> string \<Rightarrow> account \<Rightarrow> (pool, WmpfSession) act" where
  "login_and_store env loginBuffer accountID tcpProxy acc =
     act_bind (act_lift (loginAndSession (en_net env tcpProxy) (en_clock env 2) loginBuffer tcpProxy))
       (\<lambda>st.
     act_bind (act_mod (\<lambda>p. p\<lparr>p_db := SetAccountUIN (en_clock env 3) (a_ID acc)
                                       (s_UIN (w_Session st)) (p_db p)\<rparr>)) (\<lambda>_.
     act_bind (act_get (\<lambda>p. SessionTTL (p_cfg p))) (\<lambda>ttl.
     act_bind (putSession (en_clock env 5) accountID (Some (s_UIN (w_Session st))) (toBlob st)
                 (sessionExpiresAt (en_clock env 4) st ttl) tcpProxy) (\<lambda>_.
     act_ret st))))"

text \<open>The method \<open>state\<close>: the second lookup happens under the lock of the account and proxy.\<close>

definition pool_state ::
  "pool_env \<Rightarrow> string \<Rightarrow> int \<Rightarrow> string \<Rightarrow> (pool, WmpfSession) act" where
  "pool_state env loginBuffer accountID tcpProxy =
     act_bind (stored_session (en_clock env 0) accountID tcpProxy) (\<lambda>o1.
     case o1 of
       Some st \<Rightarrow> act_ret st
     | None \<Rightarrow>
         act_bind (act_mod (\<lambda>p. p\<lparr>p_locks := snd (lockFor (lock_key accountID tcpProxy) (p_locks p))\<rparr>)) (\<lambda>_.
         act_bind (stored_session (en_clock env 1) accountID tcpProxy) (\<lambda>o2.
         case o2 of
           Some st \<Rightarrow> act_ret st
         | None \<Rightarrow>
             act_bind (act_get (\<lambda>p. GetAccount accountID (p_db p))) (\<lambda>r.
             act_bind (act_lift r) (\<lambda>acc.
             act_bind (acquireLogin (en_login_grant env)) (\<lambda>_.
             deferred (login_and_store env loginBuffer accountID tcpProxy acc) releaseLogin))))))"

text \<open>A session with a proxy of its own is not used without it.\<close>

definition sendEnvelope :: "pool_env \<Rightarrow> WmpfSession \<Rightarrow> bytes \<Rightarrow> (pool, bytes \<times> bytes) act" where
  "sendEnvelope env st envelope =
     act_bind (acquireShortlink (en_short_grant env)) (\<lambda>_.
     deferred
       (act_bind (act_get (\<lambda>p. if w_TCPProxy st \<noteq> [] then False else TCPProxyFallbackDirect (p_cfg p)))
         (\<lambda>fallback. act_lift (send0RTT (en_send env st fallback envelope) (w_Targets st))))
       releaseShortlink)"

type_synonym pool_op = "pool_env \<Rightarrow> WmpfSession \<Rightarrow> (pool, gmap) act"

text \<open>\<open>run\<close> makes at most two passes, with the surroundings \<open>e1\<close> and \<open>e2\<close>.\<close>

definition run_direct :: "pool_env \<Rightarrow> string \<Rightarrow> int \<Rightarrow> pool_op \<Rightarrow> (pool, gmap) act" where
  "run_direct env loginBuffer accountID op =
     act_bind (pool_state env loginBuffer accountID []) (\<lambda>st. op env st)"

definition run ::
  "pool_env \<Rightarrow> pool_env \<Rightarrow> string \<Rightarrow> int \<Rightarrow> string \<Rightarrow> pool_op \<Rightarrow> (pool, gmap) act" where
  "run e1 e2 loginBuffer accountID tcpProxy op p =
     (let effective = effectiveProxy tcpProxy (TCPProxy (p_cfg p));
          fallback = TCPProxyFallbackDirect (p_cfg p) in
      case pool_state e1 loginBuffer accountID effective p of
        (Ok st, p1) \<Rightarrow>
          (case op e1 st p1 of
             (Err e, p2) \<Rightarrow>
               if effective = [] \<or> \<not> fallback then (Err e, p2)
               else run_direct e2 loginBuffer accountID op (Invalidate accountID effective p2)
           | r \<Rightarrow> r)
      | (Err e, p1) \<Rightarrow>
          if effective \<noteq> [] \<and> fallback then run_direct e2 loginBuffer accountID op p1 else (Err e, p1)
      | (Panic, p1) \<Rightarrow> (Panic, p1))"

section \<open>Calls\<close>

definition call_code :: "string \<Rightarrow> pool_op" where
  "call_code appID env st =
     (let s = w_Session st;
          hostAppID = (if length (s_HostAppID s) = 0 then hostAppIDDefault else s_HostAppID s);
          plain = buildJSAPIPlaintext (en_mac env) (s_UIN s) appID jsLoginURL jsLoginCmdID None hostAppID [] in
      act_bind (act_lift (buildTransferPacket (en_iv env) s plain)) (\<lambda>envelope.
      act_bind (sendEnvelope env st envelope) (\<lambda>(code, _).
      act_ret [(''code'', GStr (string_of code)), (''errMsg'', GStr ''login:ok'')])))"

text \<open>An empty code makes \<open>GetCode\<close> drop the session and try once more.\<close>

definition GetCode ::
  "pool_env \<Rightarrow> pool_env \<Rightarrow> pool_env \<Rightarrow> pool_env \<Rightarrow> string \<Rightarrow> string \<Rightarrow> int \<Rightarrow> string \<Rightarrow> (pool, gmap) act" where
  "GetCode e1 e2 e3 e4 loginBuffer appID accountID tcpProxy =
     act_bind (run e1 e2 loginBuffer accountID tcpProxy (call_code appID)) (\<lambda>result.
     if gget result ''code'' \<noteq> GStr [] then act_ret result
     else
       act_bind (act_mod (Invalidate accountID tcpProxy)) (\<lambda>_.
       run e3 e4 loginBuffer accountID tcpProxy (call_code appID)))"

definition call_phone :: "string \<Rightarrow> pool_op" where
  "call_phone appID env st =
     act_bind (act_lift (buildTransferPacket (en_iv env) (w_Session st)
       (buildPhoneRequest (en_mac env) (s_UIN (w_Session st)) appID))) (\<lambda>envelope.
     act_bind (sendEnvelope env st envelope) (\<lambda>(code, resp).
     act_lift (parseRawResponse code resp)))"

definition GetPhoneNumber ::
  "pool_env \<Rightarrow> pool_env \<Rightarrow> string \<Rightarrow> string \<Rightarrow> int \<Rightarrow> string \<Rightarrow> (pool, gmap) act" where
  "GetPhoneNumber e1 e2 loginBuffer appID accountID tcpProxy =
     run e1 e2 loginBuffer accountID tcpProxy (call_phone appID)"

definition call_host_sign :: "string \<Rightarrow> gmap option \<Rightarrow> pool_op" where
  "call_host_sign appID payload env st =
     act_bind (act_lift (buildHostSignRequest (en_mac env) (s_UIN (w_Session st)) appID payload)) (\<lambda>plain.
     act_bind (act_lift (buildTransferPacket (en_iv env) (w_Session st) plain)) (\<lambda>envelope.
     act_bind (sendEnvelope env st envelope) (\<lambda>(code, resp).
     act_lift (parseHostSignResponse code resp))))"

definition GetHostSign ::
  "pool_env \<Rightarrow> pool_env \<Rightarrow> string \<Rightarrow> string \<Rightarrow> gmap option \<Rightarrow> int \<Rightarrow> string \<Rightarrow> (pool, gmap) act" where
  "GetHostSign e1 e2 loginBuffer appID payload accountID tcpProxy =
     run e1 e2 loginBuffer accountID tcpProxy (call_host_sign appID payload)"

definition call_operate :: "string \<Rightarrow> gmap option \<Rightarrow> pool_op" where
  "call_operate appID payload env st =
     act_bind (act_lift (buildTransferPacket (en_iv env) (w_Session st)
       (buildOperateRequest (en_mac env) (s_UIN (w_Session st)) appID payload))) (\<lambda>envelope.
     act_bind (sendEnvelope env st envelope) (\<lambda>(code, resp).
     act_lift (parseRawResponse code resp)))"

definition OperateWXData ::
  "pool_env \<Rightarrow> pool_env \<Rightarrow> string \<Rightarrow> string \<Rightarrow> gmap option \<Rightarrow> int \<Rightarrow> string \<Rightarrow> (pool, gmap) act" where
  "OperateWXData e1 e2 loginBuffer appID payload accountID tcpProxy =
     run e1 e2 loginBuffer accountID tcpProxy (call_operate appID payload)"

end
