(* ===== verification/Pool_Props.thy ===== *)
theory Pool_Props
  imports Pool Mmtls_Handshake
begin

text \<open>
  Correctness of the pool: stored sessions are read back, operations keep the database
  well-formed and return their semaphore slots, a login is used for later calls, and what
  a login and a call with a proxy amount to.
\<close>

section \<open>A session survives the database\<close>

definition exact_int :: "int \<Rightarrow> bool" where
  "exact_int z \<longleftrightarrow> \<bar>z\<bar> < 2 ^ 53"

definition utf8_text :: "string \<Rightarrow> bool" where
  "utf8_text s \<longleftrightarrow> json_norm_string s = s"

text \<open>Sessions that the JSON text of the table can hold.\<close>

definition storable :: "WmpfSession \<Rightarrow> bool" where
  "storable st \<longleftrightarrow>
     s_SendKey (w_Session st) \<noteq> [] \<and> s_RecvKey (w_Session st) \<noteq> []
     \<and> s_UIN (w_Session st) \<noteq> 0 \<and> exact_int (s_UIN (w_Session st))
     \<and> exact_int (e_PSKType (w_PSK st)) \<and> exact_int (e_Lifetime (w_PSK st))
     \<and> exact_int (e_ExpiredAt (w_PSK st))
     \<and> utf8_text (e_PreSharedKey (w_PSK st)) \<and> utf8_text (e_TicketEntry (w_PSK st))
     \<and> utf8_text (w_TCPProxy st) \<and> w_Targets st \<noteq> []
     \<and> (\<forall>t \<in> set (w_Targets st). utf8_text (IP t) \<and> exact_int (Port t))"

lemma json_norm_lists [simp]:
  "json_norm_list xs = map json_norm xs"
  "json_norm_members m = map (\<lambda>(k, v). (json_norm_string k, json_norm v)) m"
  "json_norm_rows rs = map (\<lambda>r. GArr (map json_norm r)) rs"
proof -
  show l: "json_norm_list xs = map json_norm xs" for xs by (induction xs) simp_all
  show "json_norm_members m = map (\<lambda>(k, v). (json_norm_string k, json_norm v)) m"
    by (induction m) auto
  show "json_norm_rows rs = map (\<lambda>r. GArr (map json_norm r)) rs"
    by (induction rs) (simp_all add: l)
qed

lemma decBytes_enc: "decBytes (json_norm (encBytes b)) = b"
  by (simp add: encBytes_def decBytes_def gget_def hexDecode_hexEncode)

lemma targets_json:
  assumes "\<forall>t \<in> set ts. utf8_text (IP t) \<and> exact_int (Port t)"
  shows "targetsFromAny (json_norm (targetsToAny ts)) = ts"
proof -
  have "targetsFromAny (json_norm (targetsToAny ts)) =
      map (\<lambda>t. \<lparr>IP = json_norm_string (IP t), Port = float_to_int64 (int_to_float (Port t))\<rparr>) ts"
    by (induction ts) (simp_all add: targetsFromAny_def targetsToAny_def stringAny_def)
  also have "\<dots> = map (\<lambda>t. t) ts"
    using assms by (intro map_cong refl) (simp add: utf8_text_def exact_int_def int_to_float_exact)
  finally show ?thesis by simp
qed

lemma sessionFromBlob_toBlob:
  assumes "storable st"
  shows "sessionFromBlob now (json_norm_members (toBlob st)) = Ok (st\<lparr>w_CreatedAt := now\<rparr>)"
proof -
  have t: "targetsFromAny (json_norm (targetsToAny (w_Targets st))) = w_Targets st"
    using assms by (intro targets_json) (simp add: storable_def)
  have i: "float_to_int64 (int_to_float z) = z" if "exact_int z" for z
    using that by (simp add: exact_int_def int_to_float_exact)
  show ?thesis
    using assms
    by (simp add: sessionFromBlob_def toBlob_def psk_fields_def gget_def Let_def decBytes_enc t i
        stringAny_def storable_def utf8_text_def)
qed

text \<open>
  A session that is written to the table is read back as it was, with the time of the
  lookup as its creation time, whatever bytes its keys hold.
\<close>

theorem session_blob_roundtrip:
  assumes "storable st"
  shows "sessionFromBlob now (json_norm_members (toBlob st)) = Ok (st\<lparr>w_CreatedAt := now\<rparr>)"
  by (rule sessionFromBlob_toBlob [OF assms])

theorem session_blob_roundtrip_witness:
  "sessionFromBlob 9 (json_norm_members (toBlob
     \<lparr>w_Session = \<lparr>s_SendKey = [0xff], s_RecvKey = [0x80], s_F9 = [], s_UIN = 7, s_Ticket = [1],
        s_DeviceID = [0xc0], s_HostAppID = []\<rparr>,
      w_PSK = \<lparr>e_PSKType = 1, e_PreSharedKey = ''a0'', e_TicketEntry = [], e_Lifetime = 3, e_ExpiredAt = 4\<rparr>,
      w_Targets = [\<lparr>IP = ''h'', Port = 80\<rparr>], w_CreatedAt = 5, w_TCPProxy = []\<rparr>))
   = Ok \<lparr>w_Session = \<lparr>s_SendKey = [0xff], s_RecvKey = [0x80], s_F9 = [], s_UIN = 7, s_Ticket = [1],
        s_DeviceID = [0xc0], s_HostAppID = []\<rparr>,
      w_PSK = \<lparr>e_PSKType = 1, e_PreSharedKey = ''a0'', e_TicketEntry = [], e_Lifetime = 3, e_ExpiredAt = 4\<rparr>,
      w_Targets = [\<lparr>IP = ''h'', Port = 80\<rparr>], w_CreatedAt = 9, w_TCPProxy = []\<rparr>"
  by (subst session_blob_roundtrip) (simp_all add: storable_def exact_int_def utf8_text_def)

section \<open>What every operation keeps\<close>

definition pool_inv :: "Config \<Rightarrow> nat \<Rightarrow> nat \<Rightarrow> pool \<Rightarrow> bool" where
  "pool_inv c a b p \<longleftrightarrow>
     p_cfg p = c \<and> db_ok (p_db p) \<and> p_loginSem p = a \<and> p_shortlinkSem p = b"

lemma pool_inv_db [simp]:
  "pool_inv c a b (p\<lparr>p_db := d\<rparr>) \<longleftrightarrow>
     p_cfg p = c \<and> db_ok d \<and> p_loginSem p = a \<and> p_shortlinkSem p = b"
  "pool_inv c a b (p\<lparr>p_locks := l\<rparr>) = pool_inv c a b p"
  by (simp_all add: pool_inv_def)

lemma keeps_stored: "keeps I (stored_session now i px)"
  by (rule hoareI) (auto simp: stored_session_def split: go.splits if_splits)

lemma hoare_acquireLogin:
  "hoare (pool_inv c a b) (acquireLogin g) (\<lambda>_. pool_inv c (Suc a) b) (pool_inv c a b)"
  by (rule hoareI) (auto simp: acquireLogin_def acquire_def pool_inv_def split: if_splits)

lemma hoare_acquireShortlink:
  "hoare (pool_inv c a b) (acquireShortlink g) (\<lambda>_. pool_inv c a (Suc b)) (pool_inv c a b)"
  by (rule hoareI) (auto simp: acquireShortlink_def acquire_def pool_inv_def split: if_splits)

lemma release_inv:
  "pool_inv c (Suc a) b p \<Longrightarrow> pool_inv c a b (releaseLogin p)"
  "pool_inv c a (Suc b) p \<Longrightarrow> pool_inv c a b (releaseShortlink p)"
  by (simp_all add: pool_inv_def releaseLogin_def releaseShortlink_def release_def)

lemma keeps_putSession: "keeps (pool_inv c a b) (putSession now i u bl e px)"
  by (rule hoareI) (auto simp: putSession_def pool_inv_def split: prod.splits dest: PutSession_ok)

lemma Invalidate_inv [intro]: "pool_inv c a b p \<Longrightarrow> pool_inv c a b (Invalidate i px p)"
  by (simp add: Invalidate_def pool_inv_def InvalidateSession_ok)

lemma keeps_login_and_store: "keeps (pool_inv c a b) (login_and_store env lb i px acc)"
  unfolding login_and_store_def
  by (intro keeps_intros keeps_putSession) (auto simp: pool_inv_def intro: SetAccount_ok)

lemma keeps_pool_state: "keeps (pool_inv c a b) (pool_state env lb i px)"
  unfolding pool_state_def
  by (intro keeps_intros keeps_stored hoare_bind [OF hoare_acquireLogin] hoare_deferred
      hoare_weaken [OF keeps_login_and_store [of c "Suc a" b]] release_inv) auto

lemma keeps_sendEnvelope: "keeps (pool_inv c a b) (sendEnvelope env st e)"
  unfolding sendEnvelope_def
  by (intro hoare_bind [OF hoare_acquireShortlink] hoare_deferred
      hoare_weaken [OF keeps_bind [OF keeps_basic(3) keeps_basic(2), of "pool_inv c a (Suc b)"]] release_inv) auto

lemma keeps_calls:
  "keeps (pool_inv c a b) (call_code app env st)" "keeps (pool_inv c a b) (call_phone app env st)"
  "keeps (pool_inv c a b) (call_host_sign app pl env st)"
  "keeps (pool_inv c a b) (call_operate app pl env st)"
  unfolding call_code_def call_phone_def call_host_sign_def call_operate_def Let_def
  by (intro keeps_intros keeps_sendEnvelope)+

lemma keeps_run:
  assumes "\<And>env st. keeps (pool_inv c a b) (op env st)"
  shows "keeps (pool_inv c a b) (run e1 e2 lb i px op)"
proof (rule hoareI)
  have d: "keeps (pool_inv c a b) (run_direct env lb i op)" for env
    unfolding run_direct_def by (intro keeps_intros keeps_pool_state assms)
  have k: "pool_inv c a b t" if "pool_inv c a b s" "run e1 e2 lb i px op s = (g, t)" for s g t
  proof -
    obtain g1 p1 where p1: "pool_state e1 lb i (effectiveProxy px (TCPProxy (p_cfg s))) s = (g1, p1)"
      by fastforce
    have i1: "pool_inv c a b p1" by (rule keepsD [OF keeps_pool_state that(1) p1])
    show ?thesis
    proof (cases g1)
      case (Ok st)
      obtain g2 p2 where p2: "op e1 st p1 = (g2, p2)" by fastforce
      have "pool_inv c a b p2" by (rule keepsD [OF assms i1 p2])
      then show ?thesis
        using that(2) p1 p2 Ok
        by (auto simp: run_def Let_def split: go.splits if_splits intro: keepsD [OF d])
    qed (use that(2) p1 i1 in \<open>auto simp: run_def Let_def split: if_splits intro: keepsD [OF d]\<close>)
  qed
  show "pool_inv c a b t" if "pool_inv c a b s" "run e1 e2 lb i px op s = (Ok x, t)" for s x t
    using k that .
  show "pool_inv c a b t" if "pool_inv c a b s" "run e1 e2 lb i px op s = (Err x, t)" for s x t
    using k that .
  show "pool_inv c a b t" if "pool_inv c a b s" "run e1 e2 lb i px op s = (Panic, t)" for s t
    using k that .
qed

text \<open>The calls that the HTTP layer makes, one after another.\<close>

inductive pool_step :: "pool \<Rightarrow> pool \<Rightarrow> bool" where
  code: "GetCode e1 e2 e3 e4 lb app i px p = (g, p') \<Longrightarrow> pool_step p p'"
| phone: "GetPhoneNumber e1 e2 lb app i px p = (g, p') \<Longrightarrow> pool_step p p'"
| host_sign: "GetHostSign e1 e2 lb app pl i px p = (g, p') \<Longrightarrow> pool_step p p'"
| operate: "OperateWXData e1 e2 lb app pl i px p = (g, p') \<Longrightarrow> pool_step p p'"
| invalidate: "pool_step p (Invalidate i px p)"

inductive_cases pool_stepE: "pool_step p p'"

lemma pool_step_inv: "pool_step p p' \<Longrightarrow> pool_inv c a b p \<Longrightarrow> pool_inv c a b p'"
proof (erule pool_stepE)
  assume p: "pool_inv c a b p"
  have code: "keeps (pool_inv c a b) (GetCode e1 e2 e3 e4 lb app i px)" for e1 e2 e3 e4 lb app i px
    unfolding GetCode_def by (intro keeps_intros keeps_run keeps_calls) auto
  have phone: "keeps (pool_inv c a b) (GetPhoneNumber e1 e2 lb app i px)" for e1 e2 lb app i px
    unfolding GetPhoneNumber_def by (intro keeps_run keeps_calls)
  have hs: "keeps (pool_inv c a b) (GetHostSign e1 e2 lb app pl i px)" for e1 e2 lb app pl i px
    unfolding GetHostSign_def by (intro keeps_run keeps_calls)
  have op: "keeps (pool_inv c a b) (OperateWXData e1 e2 lb app pl i px)" for e1 e2 lb app pl i px
    unfolding OperateWXData_def by (intro keeps_run keeps_calls)
  { fix e1 e2 e3 e4 lb app i px g
    assume "GetCode e1 e2 e3 e4 lb app i px p = (g, p')"
    then show "pool_inv c a b p'" by (rule keepsD [OF code p]) }
  { fix e1 e2 lb app i px g
    assume "GetPhoneNumber e1 e2 lb app i px p = (g, p')"
    then show "pool_inv c a b p'" by (rule keepsD [OF phone p]) }
  { fix e1 e2 lb app pl i px g
    assume "GetHostSign e1 e2 lb app pl i px p = (g, p')"
    then show "pool_inv c a b p'" by (rule keepsD [OF hs p]) }
  { fix e1 e2 lb app pl i px g
    assume "OperateWXData e1 e2 lb app pl i px p = (g, p')"
    then show "pool_inv c a b p'" by (rule keepsD [OF op p]) }
  { fix i px
    assume "p' = Invalidate i px p"
    with p show "pool_inv c a b p'" by blast }
qed

text \<open>
  C16: Whatever calls a new pool has served, with whatever outcomes, no slot of a semaphore is
  lost and the database is well-formed.
\<close>

theorem pool_reachable_inv:
  assumes "NewPool cfg d = Ok p0" "db_ok d" "pool_step\<^sup>*\<^sup>* p0 p"
  shows "p_loginSem p = 0 \<and> p_shortlinkSem p = 0 \<and> db_ok (p_db p)"
proof -
  from assms(1,2) have "pool_inv (p_cfg p0) 0 0 p0"
    by (auto simp: NewPool_def Let_def pool_inv_def split: if_splits)
  with assms(3) have "pool_inv (p_cfg p0) 0 0 p"
    by (induction rule: rtranclp_induct) (auto dest: pool_step_inv)
  then show ?thesis by (simp add: pool_inv_def)
qed

section \<open>A login is used again\<close>

lemma GetSession_lookup: "db_ok d \<Longrightarrow> GetSession n j q d = lookup_session n j q d"
  by (simp add: GetSession_find lookup_session_def)

lemma stored_session_miss:
  "GetSession now i px (p_db p) = Err ErrNoRows \<Longrightarrow> stored_session now i px p = (Ok None, p)"
  by (simp add: stored_session_def)

lemma stored_session_hit:
  "GetSession now i px (p_db p) = Ok row \<Longrightarrow> sessionFromBlob now (r_Blob row) = Ok st \<Longrightarrow>
   stored_session now i px p = (Ok (Some st), p)"
  by (simp add: stored_session_def)

lemma login_and_store_OkD:
  assumes "login_and_store env lb i px acc p = (Ok st, p')"
  shows "loginAndSession (en_net env px) (en_clock env 2) lb px = Ok st"
    and "p_db p' = snd (PutSession (en_clock env 5) i (Some (s_UIN (w_Session st))) (toBlob st)
      (sessionExpiresAt (en_clock env 4) st (SessionTTL (p_cfg p))) px
      (SetAccountUIN (en_clock env 3) (a_ID acc) (s_UIN (w_Session st)) (p_db p)))"
  using assms unfolding login_and_store_def
  by (auto elim!: act_bind_OkE simp: putSession_def split: prod.splits)

lemma pool_state_fresh:
  assumes "pool_state env lb i px p = (Ok st, p')"
    and "GetSession (en_clock env 0) i px (p_db p) = Err ErrNoRows"
    and "GetSession (en_clock env 1) i px (p_db p) = Err ErrNoRows"
  obtains acc where "GetAccount i (p_db p) = Ok acc"
    "loginAndSession (en_net env px) (en_clock env 2) lb px = Ok st"
    "p_db p' = snd (PutSession (en_clock env 5) i (Some (s_UIN (w_Session st))) (toBlob st)
      (sessionExpiresAt (en_clock env 4) st (SessionTTL (p_cfg p))) px
      (SetAccountUIN (en_clock env 3) (a_ID acc) (s_UIN (w_Session st)) (p_db p)))"
proof -
  let ?p = "p\<lparr>p_locks := snd (lockFor (lock_key i px) (p_locks p))\<rparr>"
  have "stored_session (en_clock env 0) i px p = (Ok None, p)"
    "stored_session (en_clock env 1) i px ?p = (Ok None, ?p)"
    using assms(2,3) by (simp_all add: stored_session_miss)
  with assms(1) obtain acc p1 where a: "GetAccount i (p_db p) = Ok acc"
    and q: "acquireLogin (en_login_grant env) ?p = (Ok (), p1)"
    and l: "deferred (login_and_store env lb i px acc) releaseLogin p1 = (Ok st, p')"
    unfolding pool_state_def by (auto elim!: act_bind_OkE)
  from q have p1: "p_db p1 = p_db p" "p_cfg p1 = p_cfg p"
    by (auto simp: acquireLogin_def split: prod.splits)
  from l obtain p2 where s: "login_and_store env lb i px acc p1 = (Ok st, p2)" "p' = releaseLogin p2"
    by (auto simp: deferred_def split: prod.splits)
  have "p_db p' = p_db p2" by (simp add: s(2) releaseLogin_def)
  with login_and_store_OkD [OF s(1)] a p1 that show ?thesis by simp
qed

lemma update_account_ids:
  assumes "\<And>a. a_ID (f a) = a_ID a"
  shows "a_ID ` set (accounts (update_account P f d)) = a_ID ` set (accounts d)"
proof -
  have "map a_ID (accounts (update_account P f d)) = map a_ID (accounts d)"
    using assms by (simp add: update_account_def comp_def if_distrib)
  then show ?thesis by (metis set_map)
qed

lemma SetAccountUIN_has [simp]: "has_account i (SetAccountUIN now j u d) = has_account i d"
  unfolding SetAccountUIN_def has_account_def by (subst update_account_ids) simp_all

lemma pool_state_login:
  assumes "db_ok (p_db p)" "GetSession (en_clock env 0) i px (p_db p) = Err ErrNoRows"
    and "GetSession (en_clock env 1) i px (p_db p) = Err ErrNoRows"
    and "GetAccount i (p_db p) = Ok acc" "en_login_grant env" "int (p_loginSem p) < MaxLoginConcurrency (p_cfg p)"
    and "loginAndSession (en_net env px) (en_clock env 2) lb px = Ok st"
  shows "\<exists>p'. pool_state env lb i px p = (Ok st, p')"
proof -
  let ?p = "p\<lparr>p_locks := snd (lockFor (lock_key i px) (p_locks p))\<rparr>"
  have s: "stored_session (en_clock env 0) i px p = (Ok None, p)"
    "stored_session (en_clock env 1) i px ?p = (Ok None, ?p)"
    using assms(2,3) by (simp_all add: stored_session_miss)
  let ?d = "SetAccountUIN (en_clock env 3) (a_ID acc) (s_UIN (w_Session st)) (p_db p)"
  have "has_account i ?d"
    using assms(4) GetAccount_iff [OF assms(1)] unfolding SetAccountUIN_has by (auto simp: has_account_def)
  then have "fst (PutSession n i u b e px ?d) = Ok ()" for n u b e
    by (intro st.put_ok SetAccount_ok [OF assms(1)])
  then have "\<exists>d. PutSession n i u b e px ?d = (Ok (), d)" for n u b e by (metis prod.collapse)
  then obtain d where d: "PutSession (en_clock env 5) i (Some (s_UIN (w_Session st))) (toBlob st)
      (sessionExpiresAt (en_clock env 4) st (SessionTTL (p_cfg p))) px ?d = (Ok (), d)" by blast
  have a: "acquireLogin (en_login_grant env) ?p = (Ok (), ?p\<lparr>p_loginSem := Suc (p_loginSem p)\<rparr>)"
    using assms(5,6) by (simp add: acquireLogin_def acquire_def)
  have "fst (login_and_store env lb i px acc (?p\<lparr>p_loginSem := Suc (p_loginSem p)\<rparr>)) = Ok st"
    using assms(7) d by (simp add: login_and_store_def putSession_def act_bind_def)
  then obtain p2 where "login_and_store env lb i px acc (?p\<lparr>p_loginSem := Suc (p_loginSem p)\<rparr>) = (Ok st, p2)"
    by (metis prod.collapse)
  then have "deferred (login_and_store env lb i px acc) releaseLogin (?p\<lparr>p_loginSem := Suc (p_loginSem p)\<rparr>)
      = (Ok st, releaseLogin p2)" by (simp add: deferred_def)
  with s assms(4) a show ?thesis by (simp add: pool_state_def)
qed

text \<open>
  The session of a login serves the following calls for the same account and proxy,
  without another login, until it expires.
\<close>

theorem login_reused:
  assumes ok: "db_ok (p_db p)"
    and fresh: "pool_state e1 lb i px p = (Ok st, p1)"
      "GetSession (en_clock e1 0) i px (p_db p) = Err ErrNoRows"
      "GetSession (en_clock e1 1) i px (p_db p) = Err ErrNoRows"
    and st: "storable st"
    and before: "en_clock e2 0 < sessionExpiresAt (en_clock e1 4) st (SessionTTL (p_cfg p))"
  shows "pool_state e2 lb' i px p1 = (Ok (st\<lparr>w_CreatedAt := en_clock e2 0\<rparr>), p1)"
proof -
  obtain acc where acc: "GetAccount i (p_db p) = Ok acc"
    and d1: "p_db p1 = snd (PutSession (en_clock e1 5) i (Some (s_UIN (w_Session st))) (toBlob st)
      (sessionExpiresAt (en_clock e1 4) st (SessionTTL (p_cfg p))) px
      (SetAccountUIN (en_clock e1 3) (a_ID acc) (s_UIN (w_Session st)) (p_db p)))"
    using pool_state_fresh [OF fresh] .
  let ?d = "SetAccountUIN (en_clock e1 3) (a_ID acc) (s_UIN (w_Session st)) (p_db p)"
  have d: "db_ok ?d" by (rule SetAccount_ok [OF ok])
  have "has_account i ?d" using acc GetAccount_iff [OF ok] unfolding SetAccountUIN_has by (auto simp: has_account_def)
  from st.lookup_put [OF d this before] obtain row where
    row: "lookup_session (en_clock e2 0) i px (p_db p1) = Ok row" "r_Blob row = json_norm_members (toBlob st)"
    unfolding d1 by blast
  have "db_ok (p_db p1)" unfolding d1 by (rule st.put_keeps [OF d])
  with row(1) have "GetSession (en_clock e2 0) i px (p_db p1) = Ok row" by (simp only: GetSession_lookup)
  moreover have "sessionFromBlob (en_clock e2 0) (r_Blob row) = Ok (st\<lparr>w_CreatedAt := en_clock e2 0\<rparr>)"
    unfolding row(2) by (rule sessionFromBlob_toBlob [OF st])
  ultimately have "stored_session (en_clock e2 0) i px p1
      = (Ok (Some (st\<lparr>w_CreatedAt := en_clock e2 0\<rparr>)), p1)"
    by (rule stored_session_hit)
  then show ?thesis by (simp add: pool_state_def)
qed

section \<open>What a login yields\<close>

lemma login_exchange_OkD:
  assumes "login_exchange now meta body temp mc = (Ok (s, psk), mc')"
  shows "s_SendKey s \<noteq> [] \<and> s_RecvKey s \<noteq> [] \<and> s_UIN s \<noteq> 0 \<and> s_DeviceID s = l_DeviceID meta
    \<and> e_PSKType psk = 1 \<and> e_ExpiredAt psk > now"
proof -
  have pick: "pickAccessPSK now ps = Some p \<Longrightarrow> e_PSKType p = 1 \<and> e_ExpiredAt p > now" for ps p
    by (induction ps) (auto split: if_splits)
  have ex: "extractSession m = Ok s \<Longrightarrow> s_SendKey s \<noteq> [] \<and> s_RecvKey s \<noteq> [] \<and> s_UIN s \<noteq> 0" for m s
    by (auto simp: extractSession_def go_bind_Ok_iff Let_def split: if_splits)
  show ?thesis
    using assms unfolding login_exchange_def
    by (auto elim!: act_bind_OkE split: if_splits option.splits dest!: pick ex)
qed

lemma login_loop_hit:
  "login_loop f lst ts = Ok st \<Longrightarrow> \<exists>t \<in> set ts. f t = Hit st"
  by (induction ts arbitrary: lst) (auto split: attempt.splits)

text \<open>
  A login that succeeds was made with one of at most six targets of the lookup, and its
  session can be used at once: it has both keys, a user id, an access key that has not
  expired, and the proxy it was made with.
\<close>

theorem loginAndSession_usable:
  assumes "loginAndSession net now lb px = Ok st"
  shows "s_SendKey (w_Session st) \<noteq> [] \<and> s_RecvKey (w_Session st) \<noteq> [] \<and> s_UIN (w_Session st) \<noteq> 0
    \<and> e_PSKType (w_PSK st) = 1 \<and> e_ExpiredAt (w_PSK st) > now \<and> w_TCPProxy st = px
    \<and> w_Targets st = ln_shortlink net
    \<and> (\<exists>ts t. ln_targets net = Ok ts \<and> t \<in> set (orderLonglinkTargets ts 6) \<and> is_ok (ln_connect net t))"
proof -
  from assms obtain ts where ts: "ln_targets net = Ok ts"
    and l: "login_loop (login_attempt net now lb px) None (orderLonglinkTargets ts 6) = Ok st"
    by (auto simp: loginAndSession_def split: if_splits go.splits)
  from login_loop_hit [OF l] obtain t where t: "t \<in> set (orderLonglinkTargets ts 6)"
    and h: "login_attempt net now lb px t = Hit st" by blast
  from h obtain mc meta body temp s psk where "ln_connect net t = Ok mc"
    "fst (login_exchange now meta body temp mc) = Ok (s, psk)"
    "st = \<lparr>w_Session = s, w_PSK = psk, w_Targets = ln_shortlink net, w_CreatedAt = now, w_TCPProxy = px\<rparr>"
    by (auto simp: login_attempt_def split: go.splits prod.splits)
  moreover from this(2) obtain mc' where "login_exchange now meta body temp mc = (Ok (s, psk), mc')"
    by (metis prod.collapse)
  ultimately show ?thesis using login_exchange_OkD ts t by fastforce
qed

lemma sendApp_ok:
  assumes "record_key (m_appCKey m) (m_appCIV m)" "wok (m_conn m) = True # w" "length body < 0xff00"
    and "awaiting m rs"
  obtains m' where "sendApp cmd body m = (Ok (), m')" "awaiting m' rs" "m_rxSeq m' = m_rxSeq m"
    "m_appSKey m' = m_appSKey m" "m_appSIV m' = m_appSIV m" "m_secret m' = m_secret m"
    "m_hCertV m' = m_hCertV m" "m_nstEntries m' = m_nstEntries m"
proof -
  let ?pkt = "buildShortlink cmd (m_appSeq m) body defaultVer"
  obtain c where c: "encryptRecordPayload (m_appCKey m) (m_appCIV m) (m_txSeq m) ctAppData ?pkt = Ok c"
    "length c = length ?pkt + 16" using encryptRecordPayload_Ok [OF assms(1)] by blast
  have "length c < 0xffff" using c(2) assms(3) by (simp add: buildShortlink_def Let_def)
  then obtain b where b: "buildRecord ctAppData c = Ok b" by (simp add: buildRecord_def)
  let ?m = "m\<lparr>m_appSeq := m_appSeq m + 1, m_txSeq := m_txSeq m + 1,
    m_conn := (m_conn m)\<lparr>wok := w, sent := sent (m_conn m) @ [b]\<rparr>\<rparr>"
  have "sendApp cmd body m = (Ok (), ?m)"
    using c(1) b assms(2)
    by (simp add: sendApp_def sendEncrypted_def act_bind_def sendRaw_def conn_Write_def)
  with that assms(4) show ?thesis by (simp add: awaiting_def)
qed

lemma recvApp_ok:
  assumes "record_key (m_appSKey m) (m_appSIV m)"
    and "awaiting m (\<lparr>ContentType = ctAppData, Payload = reply\<rparr> # rs)"
    and "encryptRecordPayload (m_appSKey m) (m_appSIV m) (m_rxSeq m) ctAppData
      (buildShortlink cmd seq answer ver) = Ok reply" "length answer < 2 ^ 32 - 16"
  obtains p m' where "recvApp m = (Ok p, m')" "Cmd p = cmd" "Body p = answer" "rx_core m' = rx_core m"
proof -
  have "decryptRecordPayload (m_appSKey m) (m_appSIV m) (m_rxSeq m) ctAppData reply
      = Ok (buildShortlink cmd seq answer ver)"
    using assms(3) decryptRecordPayload_iff_lemma [OF assms(1)] by blast
  then obtain m' where m': "recvDecrypt (m_appSKey m) (m_appSIV m) m
      = (Ok (ctAppData, buildShortlink cmd seq answer ver), m')" "rx_core m' = rx_core m"
    using recvDecrypt_awaiting [OF assms(2)] by fastforce
  then show ?thesis
    using that parseShortlink_build [OF assms(4), of cmd seq ver "[]"] by (simp add: recvApp_def)
qed

lemma login_exchange_run:
  assumes keys: "record_key (m_appCKey m) (m_appCIV m)" "record_key (m_appSKey m) (m_appSIV m)"
    and out: "wok (m_conn m) = True # w" "length body < 0xff00"
    and inp: "awaiting m (\<lparr>ContentType = ctAppData, Payload = reply\<rparr> # rs)"
    and reply: "encryptRecordPayload (m_appSKey m) (m_appSIV m) (m_rxSeq m) ctAppData
      (buildShortlink cmdManualAuth seq answer ver) = Ok reply" "length answer < 2 ^ 32 - 16"
    and answer: "parseLoginResponse answer temp = Ok mar" "extractSession mar = Ok s"
    and psks: "extractPSKs now m = Ok psks" "pickAccessPSK now psks = Some psk"
  shows "\<exists>mc'. login_exchange now meta body temp m
    = (Ok (s\<lparr>s_DeviceID := l_DeviceID meta, s_HostAppID := l_HostAppID meta\<rparr>, psk), mc')"
proof -
  obtain m1 where m1: "sendApp cmdManualAuth body m = (Ok (), m1)"
    "awaiting m1 (\<lparr>ContentType = ctAppData, Payload = reply\<rparr> # rs)" "m_rxSeq m1 = m_rxSeq m"
    "m_appSKey m1 = m_appSKey m" "m_appSIV m1 = m_appSIV m" "m_secret m1 = m_secret m"
    "m_hCertV m1 = m_hCertV m" "m_nstEntries m1 = m_nstEntries m"
    using sendApp_ok [OF keys(1) out inp] .
  obtain p m2 where m2: "recvApp m1 = (Ok p, m2)" "Cmd p = cmdManualAuth" "Body p = answer"
    "rx_core m2 = rx_core m1"
    using recvApp_ok [of m1 reply rs cmdManualAuth seq answer ver] m1(2-5) keys(2) reply by auto
  have "extractPSKs now m2 = extractPSKs now m"
    using m1(6-8) rx_core_eqD [OF m2(4)] by (simp add: extractPSKs_def cong: option.case_cong)
  with m1(1) m2(1-3) answer psks show ?thesis by (simp add: login_exchange_def)
qed


section \<open>A sample login\<close>

text \<open>
  A connection on which the server has answered a login, with keys as after a handshake, and
  the surroundings in which the login meets it.
\<close>

definition sample_login_buffer :: string where "sample_login_buffer = ''CgEBEgEC''"

definition sample_meta :: loginMeta where
  "sample_meta = \<lparr>l_Ticket = [1], l_DeviceID = [2], l_HostAppID = [], l_Raw = [0x0a, 1, 1, 0x12, 1, 2]\<rparr>"

lemma sample_meta: "parseLoginBuffer sample_login_buffer = Ok sample_meta"
proof -
  have "b64Decode ''CgEBEgEC'' = Some [0x0a, 1, 1, 0x12, 1, 2]"
    by (simp add: b64Decode_def b64_val_def b64_bytes_def Let_def)
  moreover have "pbParse [0x0a, 1, 1, 0x12, 1, 2] = Ok (fold put_field [FLen 1 [1], FLen 2 [2]] [])"
    by (rule pbParse_enc) (simp_all add: enc_fields_def pbLen_def varint.simps tag_byte_def)
  ultimately show ?thesis
    by (simp add: parseLoginBuffer_def sample_login_buffer_def sample_meta_def pb_bytes_def Let_def)
qed

lemma serverPub_form: "length serverPub = 65 \<and> serverPub ! 0 = 4"
  by code_simp

lemma serverPub_x:
  "bytes_int (slice serverPub 1 33) = 0xef87876d6478b15f1796eab12068610541173b7176b67f1dcc86683e901acd44"
  by code_simp

lemma serverPub_y:
  "bytes_int (slice serverPub 33 65) = 0xd18b4ac36938251d0812dd0cf842aa2d6cbb8115712d1c0087dcefc14a44cd58"
  by code_simp

lemma serverPub_ok: "\<exists>srv. newPublicKey serverPub = Some srv"
proof -
  have "(0xd18b4ac36938251d0812dd0cf842aa2d6cbb8115712d1c0087dcefc14a44cd58
      * 0xd18b4ac36938251d0812dd0cf842aa2d6cbb8115712d1c0087dcefc14a44cd58
      - (0xef87876d6478b15f1796eab12068610541173b7176b67f1dcc86683e901acd44
         * 0xef87876d6478b15f1796eab12068610541173b7176b67f1dcc86683e901acd44
         * 0xef87876d6478b15f1796eab12068610541173b7176b67f1dcc86683e901acd44
         - 3 * 0xef87876d6478b15f1796eab12068610541173b7176b67f1dcc86683e901acd44 + p256_b)) mod p256_p = 0"
    "0xef87876d6478b15f1796eab12068610541173b7176b67f1dcc86683e901acd44 < p256_p"
    "0xd18b4ac36938251d0812dd0cf842aa2d6cbb8115712d1c0087dcefc14a44cd58 < p256_p"
    unfolding p256_p_def p256_b_def by simp_all
  then show ?thesis
    unfolding newPublicKey_def Let_def serverPub_x serverPub_y using serverPub_form by (simp only: simp_thms if_True) blast
qed

lemma sample_mar_session:
  obtains s where "extractSession sample_mar = Ok s" "s_UIN s = 7" "s_SendKey s = [8]" "s_RecvKey s = [9]"
proof -
  have "case extractSession sample_mar of Ok s \<Rightarrow> s_UIN s = 7 \<and> s_SendKey s = [8] \<and> s_RecvKey s = [9] | _ \<Rightarrow> False"
    by code_simp
  with that show ?thesis by (auto split: go.splits)
qed

definition sample_client :: "bytes \<Rightarrow> mmtlsClient" where
  "sample_client reply =
     (newMmtlsClient \<lparr>inbox = [RData (record_bytes \<lparr>ContentType = ctAppData, Payload = reply\<rparr>)],
        wok = [True], sent = [], closed = False\<rparr>)
     \<lparr>m_appCKey := replicate 16 1, m_appCIV := replicate 12 1, m_appSKey := replicate 16 2,
      m_appSIV := replicate 12 2, m_secret := Some [3], m_hCertV := Some [4],
      m_nstEntries := [\<lparr>PSKType = 1, Lifetime = 1000, TicketEntry = [5]\<rparr>]\<rparr>"

definition sample_psk :: "int \<Rightarrow> pskEntry" where
  "sample_psk now =
     \<lparr>e_PSKType = 1, e_PreSharedKey = hexEncode (derivePSK [3] [4] 1), e_TicketEntry = hexEncode [5],
      e_Lifetime = 1000, e_ExpiredAt = now + 1000\<rparr>"

lemma sample_client_awaiting:
  assumes "length reply < 0xff00"
  shows "awaiting (sample_client reply) [\<lparr>ContentType = ctAppData, Payload = reply\<rparr>]"
proof -
  let ?r = "\<lparr>ContentType = ctAppData, Payload = reply\<rparr>"
  have "wire_record ?r" using assms by (simp add: wire_record_def knownContentType_def)
  moreover have "record_bytes ?r \<noteq> []" by (simp add: record_bytes_def)
  ultimately show ?thesis
    by (simp add: awaiting_def sample_client_def newMmtlsClient_def good_inbox_def)
qed

lemma sample_client_keys [simp]:
  "record_key (m_appCKey (sample_client r)) (m_appCIV (sample_client r))"
  "record_key (m_appSKey (sample_client r)) (m_appSIV (sample_client r))"
  "wok (m_conn (sample_client r)) = True # []"
  "m_appSKey (sample_client r) = replicate 16 2" "m_appSIV (sample_client r) = replicate 12 2"
  "m_rxSeq (sample_client r) = 0"
  "extractPSKs now (sample_client r) = Ok [sample_psk now]"
  "pickAccessPSK now [sample_psk now] = Some (sample_psk now)"
  by (simp_all add: sample_client_def newMmtlsClient_def record_key_def aes_key_ok_def extractPSKs_def sample_psk_def)


definition sample_net :: "bytes \<Rightarrow> login_net" where
  "sample_net reply =
     \<lparr>ln_targets = Ok [\<lparr>IP = ''1.2.3.4'', Port = 443\<rparr>], ln_connect = (\<lambda>_. Ok (sample_client reply)),
      ln_device = (\<lambda>_. Ok [6]), ln_rand = (\<lambda>_. sample_hybrid), ln_shortlink = [shortlink_fallback]\<rparr>"

lemma login_loop_1: "f t = Hit st \<Longrightarrow> login_loop f e [t] = Ok st"
  by simp

lemma sample_request_length:
  assumes "hybridECDHEncrypt sample_hybrid plain srvPub = Ok (req, temp)"
    and "length (lz4AllLiteral plain) < 1000"
  shows "length req < 1500"
proof -
  from assms(1) obtain e1 e2 k1 k2 a1 a2 iv1 iv2 where
    e: "aesGCMEncryptLayout iv1 k1 a1 (replicate 32 3) = Ok e1"
      "aesGCMEncryptLayout iv2 k2 a2 (lz4AllLiteral plain) = Ok e2"
    and req: "req = pbVar 1 1 @ pbLen 2 (pbVar 1 415 @ pbLen 2 (publicKey 1)) @ pbLen 3 e1 @ pbLen 4 [] @ pbLen 5 e2"
    unfolding hybridECDHEncrypt_def generateECDH_def sample_hybrid_def
    by (auto simp: go_bind_Ok_iff Let_def)
  have "length e1 = 60" "length e2 < 1028"
    using aesGCMEncryptLayout_length [OF e(1)] aesGCMEncryptLayout_length [OF e(2)] assms(2) by simp_all
  then show ?thesis
    using length_publicKey_1 length_varint [of 1] length_varint [of 415] length_varint [of 65]
      length_varint [of "word_of_nat (length (pbVar 1 415 @ pbLen 2 (publicKey 1)))"]
      length_varint [of 60] length_varint [of "word_of_nat (length e2)"] length_varint [of 0]
    unfolding req by (simp add: pbLen_def pbVar_def)
qed

lemma sample_login_body:
  obtains body temp where "buildLoginBody sample_hybrid sample_login_buffer [2] [6] = Ok (body, temp)"
    "t_Ephemeral temp = Some 1" "56 \<le> length (t_OKM temp)" "length body < 0xff00"
proof -
  obtain srv shared where k: "newPublicKey serverPub = Some srv" "ecdh 1 srv = Some shared"
    using serverPub_ok ecdh_1 by blast
  let ?plain = "pbLen 1 (pbLen 1 [6] @ pbVar 2 appVersion) @ pbLen 3 (pbLen 1 [1]) @ pbVar 4 4 @ pbLen 6 []
    @ pbVar 7 0 @ pbVar 8 6"
  have p: "buildManualAuthRequest sample_login_buffer [6] = Ok ?plain"
    by (simp add: buildManualAuthRequest_def sample_meta Let_def) (simp add: sample_meta_def)
  have "ecdh (r_eph sample_hybrid) srv = Some shared" "length (r_iv1 sample_hybrid) = 12" "length (r_iv2 sample_hybrid) = 12"
    using k(2) by (simp_all add: sample_hybrid_def)
  from hybridECDHEncrypt_Ok [OF k(1) this, of ?plain] obtain req temp where
    h: "hybridECDHEncrypt sample_hybrid ?plain serverPub = Ok (req, temp)"
    "t_Ephemeral temp = Some 1" "length (t_OKM temp) = 56" by (auto simp: sample_hybrid_def)
  have "length (lz4AllLiteral ?plain) < 1000" by code_simp
  then have "length req < 1500" by (rule sample_request_length [OF h(1)])
  moreover have "length (manualAuthHead [2]) < 1000" by code_simp
  ultimately show ?thesis
    by (intro that [of "manualAuthHead [2] @ req" temp]) (simp_all add: buildLoginBody_def p h del: One_nat_def)
qed

lemma sample_psk_storable: "utf8_text (e_PreSharedKey (sample_psk now)) \<and> utf8_text (e_TicketEntry (sample_psk now))"
  by (simp add: sample_psk_def utf8_text_def)

lemma sample_reply:
  assumes "t_Ephemeral temp = Some 1" "56 \<le> length (t_OKM temp)"
  obtains ans reply where "parseLoginResponse ans temp = Ok sample_mar" "length ans < 2 ^ 32 - 16"
    "encryptRecordPayload (replicate 16 2) (replicate 12 2) 0 ctAppData (buildShortlink cmdManualAuth 0 ans 0) = Ok reply"
    "awaiting (sample_client reply) [\<lparr>ContentType = ctAppData, Payload = reply\<rparr>]"
proof -
  obtain ct where ct: "parseLoginResponse (sessionWpkgHead 5 [] [] @ login_answer (publicKey 1) 1 ct) temp = Ok sample_mar"
    "length (sessionWpkgHead 5 [] [] @ login_answer (publicKey 1) 1 ct) < 2000"
    using sample_answer_ok [OF assms] .
  let ?ans = "sessionWpkgHead 5 [] [] @ login_answer (publicKey 1) 1 ct"
  obtain reply where r: "encryptRecordPayload (replicate 16 2) (replicate 12 2) 0 ctAppData
      (buildShortlink cmdManualAuth 0 ?ans 0) = Ok reply"
    "length reply = length (buildShortlink cmdManualAuth 0 ?ans 0) + 16"
    using encryptRecordPayload_Ok sample_client_keys(2,4,5) by metis
  have "length reply < 0xff00" using r(2) ct(2) by (simp add: buildShortlink_def Let_def)
  note aw = sample_client_awaiting [OF this]
  from that [OF ct(1) _ r(1) aw] ct(2) show ?thesis by simp
qed

lemma sample_login:
  obtains reply st where "loginAndSession (sample_net reply) 10 sample_login_buffer [] = Ok st"
    "storable st" "e_ExpiredAt (w_PSK st) = 1010"
proof -
  obtain body temp where b: "buildLoginBody sample_hybrid sample_login_buffer [2] [6] = Ok (body, temp)"
    "t_Ephemeral temp = Some 1" "56 \<le> length (t_OKM temp)" "length body < 0xff00" using sample_login_body .
  obtain ans reply where r: "parseLoginResponse ans temp = Ok sample_mar" "length ans < 2 ^ 32 - 16"
    "encryptRecordPayload (replicate 16 2) (replicate 12 2) 0 ctAppData (buildShortlink cmdManualAuth 0 ans 0) = Ok reply"
    "awaiting (sample_client reply) [\<lparr>ContentType = ctAppData, Payload = reply\<rparr>]" using sample_reply [OF b(2,3)] .
  obtain s where s: "extractSession sample_mar = Ok s" "s_UIN s = 7" "s_SendKey s = [8]" "s_RecvKey s = [9]"
    using sample_mar_session .
  let ?st = "\<lparr>w_Session = s\<lparr>s_DeviceID := [2], s_HostAppID := []\<rparr>, w_PSK = sample_psk 10,
    w_Targets = [shortlink_fallback], w_CreatedAt = 10, w_TCPProxy = []\<rparr>"
  obtain mc' where x: "login_exchange 10 sample_meta body temp (sample_client reply)
    = (Ok (s\<lparr>s_DeviceID := l_DeviceID sample_meta, s_HostAppID := l_HostAppID sample_meta\<rparr>, sample_psk 10), mc')"
    using login_exchange_run [OF sample_client_keys(1-3) b(4) r(4) _ r(2,1) s(1)
        sample_client_keys(7,8), of 0 0] r(3) by auto
  have "login_attempt (sample_net reply) 10 sample_login_buffer [] \<lparr>IP = ''1.2.3.4'', Port = 443\<rparr> = Hit ?st"
    using x b(1) by (simp add: login_attempt_def sample_net_def sample_meta) (simp add: sample_meta_def)
  moreover have "orderLonglinkTargets [\<lparr>IP = ''1.2.3.4'', Port = 443\<rparr>] 6 = [\<lparr>IP = ''1.2.3.4'', Port = 443\<rparr>]"
    by code_simp
  ultimately have "loginAndSession (sample_net reply) 10 sample_login_buffer [] = Ok ?st"
    by (simp add: loginAndSession_def sample_login_buffer_def [of] sample_net_def [of reply])
  moreover have "storable ?st"
  proof -
    have "utf8_text (IP shortlink_fallback) \<and> exact_int (Port shortlink_fallback)" "utf8_text []" by code_simp+
    then show ?thesis using s sample_psk_storable [of 10]
      by (simp add: storable_def exact_int_def) (simp add: sample_psk_def)
  qed
  moreover have "e_ExpiredAt (w_PSK ?st) = 1010" by (simp add: sample_psk_def)
  ultimately show ?thesis by (rule that)
qed

definition sample_env :: "bytes \<Rightarrow> int \<Rightarrow> pool_env" where
  "sample_env reply now =
     \<lparr>en_clock = (\<lambda>_. now), en_net = (\<lambda>_. sample_net reply), en_send = (\<lambda>_ _ _ _. Err io_EOF),
      en_login_grant = True, en_short_grant = True, en_mac = [], en_iv = []\<rparr>"

definition sample_pool :: pool where
  "sample_pool = \<lparr>p_cfg = DefaultConfig, p_db = sample_db, p_locks = [], p_loginSem = 0, p_shortlinkSem = 0\<rparr>"

theorem pool_reachable_inv_witness:
  "NewPool DefaultConfig sample_db = Ok sample_pool
   \<and> p_loginSem (Invalidate 1 [] sample_pool) = 0 \<and> db_ok (p_db (Invalidate 1 [] sample_pool))"
proof -
  have n: "NewPool DefaultConfig sample_db = Ok sample_pool"
    by (simp add: NewPool_def with_defaults_def or_default_def DefaultConfig_def sample_pool_def second_def Let_def)
  have "pool_step\<^sup>*\<^sup>* sample_pool (Invalidate 1 [] sample_pool)"
    by (rule r_into_rtranclp) (rule pool_step.invalidate)
  from pool_reachable_inv [OF n sample_db_ok this] n show ?thesis by simp
qed

theorem login_reused_witness:
  "\<exists>reply st p1. pool_state (sample_env reply 10) sample_login_buffer 1 [] sample_pool = (Ok st, p1)
     \<and> pool_state (sample_env reply 20) [] 1 [] p1 = (Ok (st\<lparr>w_CreatedAt := 20\<rparr>), p1)"
proof -
  obtain reply st where l: "loginAndSession (sample_net reply) 10 sample_login_buffer [] = Ok st"
    "storable st" "e_ExpiredAt (w_PSK st) = 1010" using sample_login .
  let ?e = "sample_env reply 10"
  have ok: "db_ok (p_db sample_pool)" by (simp add: sample_pool_def sample_db_ok)
  have miss: "GetSession 10 1 [] (p_db sample_pool) = Err ErrNoRows"
    by (simp add: sample_pool_def sample_db_def GetSession_def)
  obtain acc where acc: "GetAccount 1 (p_db sample_pool) = Ok acc"
    by (simp add: sample_pool_def sample_db_def GetAccount_def find_account_def)
  obtain p1 where p1: "pool_state ?e sample_login_buffer 1 [] sample_pool = (Ok st, p1)"
    using pool_state_login [of sample_pool ?e 1 "[]" acc sample_login_buffer st] ok miss acc l(1)
    by (auto simp: sample_env_def sample_pool_def DefaultConfig_def)
  have "sessionExpiresAt 10 st (SessionTTL (p_cfg sample_pool)) = 1010"
    by (simp add: sessionExpiresAt_def l(3) sample_pool_def DefaultConfig_def second_def duration_secs_def Let_def)
  with login_reused [OF ok p1 _ _ l(2), of "sample_env reply 20" "[]"] miss p1
  show ?thesis by (auto simp: sample_env_def)
qed

theorem loginAndSession_usable_witness:
  "\<exists>reply st. loginAndSession (sample_net reply) 10 sample_login_buffer [] = Ok st \<and> s_SendKey (w_Session st) \<noteq> []"
proof -
  obtain reply st where "loginAndSession (sample_net reply) 10 sample_login_buffer [] = Ok st"
    using sample_login .
  with loginAndSession_usable [OF this] show ?thesis by blast
qed


end
