(* ===== verification/Pool_Concurrency.thy ===== *)
theory Pool_Concurrency
  imports Pool_Props
begin

text \<open>
  The method \<open>state\<close> of \<open>internal/protocol/pool.go\<close> as many goroutines run it at once: each
  is in one phase, and a step is what one of them does between two points where another can
  run. The mutexes, the login semaphore and the database are shared; other handlers change
  the database in between, but only \<open>state\<close> puts sessions.
\<close>

section \<open>Goroutines and their steps\<close>

datatype phase =
  Start
| AskLock
| WaitLock nat
| Locked nat
| WantSlot nat account
| LoggingIn nat account
| GotSession nat account WmpfSession
| Storing nat WmpfSession
| Finished "WmpfSession go"

record thread =
  th_buffer :: string
  th_account :: int
  th_proxy :: string
  th_phase :: phase

record sys =
  s_pool :: pool
  s_held :: "nat \<Rightarrow> nat option" \<comment> \<open>which goroutine holds a mutex\<close>
  s_threads :: "thread list"
  s_now :: int

definition th_key :: "thread \<Rightarrow> string" where
  "th_key t = lock_key (th_account t) (th_proxy t)"

definition at_phase :: "nat \<Rightarrow> thread \<Rightarrow> phase \<Rightarrow> sys \<Rightarrow> bool" where
  "at_phase i t ph s \<longleftrightarrow> i < length (s_threads s) \<and> s_threads s ! i = t \<and> th_phase t = ph"

definition set_phase :: "nat \<Rightarrow> phase \<Rightarrow> sys \<Rightarrow> sys" where
  "set_phase i ph s = s\<lparr>s_threads := (s_threads s)[i := (s_threads s ! i)\<lparr>th_phase := ph\<rparr>]\<rparr>"

text \<open>A return under the lock: the deferred \<open>Unlock\<close> runs.\<close>

definition unlock_return :: "nat \<Rightarrow> nat \<Rightarrow> WmpfSession go \<Rightarrow> sys \<Rightarrow> sys" where
  "unlock_return i l g s = (set_phase i (Finished g) s)\<lparr>s_held := (s_held s)(l := None)\<rparr>"

text \<open>A return with a slot of the semaphore: the slot is given back first.\<close>

definition release_return :: "nat \<Rightarrow> nat \<Rightarrow> WmpfSession go \<Rightarrow> sys \<Rightarrow> sys" where
  "release_return i l g s = unlock_return i l g (s\<lparr>s_pool := releaseLogin (s_pool s)\<rparr>)"

abbreviation with_db :: "db \<Rightarrow> sys \<Rightarrow> sys" where
  "with_db d s \<equiv> s\<lparr>s_pool := (s_pool s)\<lparr>p_db := d\<rparr>\<rparr>"

abbreviation sys_db :: "sys \<Rightarrow> db" where
  "sys_db s \<equiv> p_db (s_pool s)"

definition lookup_now :: "thread \<Rightarrow> sys \<Rightarrow> WmpfSession option go" where
  "lookup_now t s = fst (stored_session (s_now s) (th_account t) (th_proxy t) (s_pool s))"

fun go_of :: "'a option go \<Rightarrow> 'a go" where
  "go_of (Ok (Some x)) = Ok x"
| "go_of (Ok None) = Panic" \<comment> \<open>not used\<close>
| "go_of (Err e) = Err e"
| "go_of Panic = Panic"

inductive go_step :: "sys \<Rightarrow> sys \<Rightarrow> bool" where
  tick: "s_now s \<le> now \<Longrightarrow> go_step s (s\<lparr>s_now := now\<rparr>)"
| outside: "db_step (sys_db s) d \<Longrightarrow> set (sessions d) \<subseteq> set (sessions (sys_db s)) \<Longrightarrow> go_step s (with_db d s)"
| first_miss: "at_phase i t Start s \<Longrightarrow> lookup_now t s = Ok None \<Longrightarrow> go_step s (set_phase i AskLock s)"
| first_return: "at_phase i t Start s \<Longrightarrow> lookup_now t s = g \<Longrightarrow> g \<noteq> Ok None \<Longrightarrow>
    go_step s (set_phase i (Finished (go_of g)) s)"
| ask_lock: "at_phase i t AskLock s \<Longrightarrow> lockFor (th_key t) (p_locks (s_pool s)) = (l, ls) \<Longrightarrow>
    go_step s (set_phase i (WaitLock l) (s\<lparr>s_pool := (s_pool s)\<lparr>p_locks := ls\<rparr>\<rparr>))"
| lock: "at_phase i t (WaitLock l) s \<Longrightarrow> s_held s l = None \<Longrightarrow>
    go_step s (set_phase i (Locked l) (s\<lparr>s_held := (s_held s)(l \<mapsto> i)\<rparr>))"
| second_return: "at_phase i t (Locked l) s \<Longrightarrow> lookup_now t s = g \<Longrightarrow> g \<noteq> Ok None \<Longrightarrow>
    go_step s (unlock_return i l (go_of g) s)"
| second_miss: "at_phase i t (Locked l) s \<Longrightarrow> lookup_now t s = Ok None \<Longrightarrow>
    GetAccount (th_account t) (sys_db s) = Ok acc \<Longrightarrow> go_step s (set_phase i (WantSlot l acc) s)"
| no_account: "at_phase i t (Locked l) s \<Longrightarrow> lookup_now t s = Ok None \<Longrightarrow>
    GetAccount (th_account t) (sys_db s) = Err e \<Longrightarrow> go_step s (unlock_return i l (Err e) s)"
| slot: "at_phase i t (WantSlot l acc) s \<Longrightarrow> acquireLogin True (s_pool s) = (Ok (), p) \<Longrightarrow>
    go_step s (set_phase i (LoggingIn l acc) (s\<lparr>s_pool := p\<rparr>))"
| cancelled: "at_phase i t (WantSlot l acc) s \<Longrightarrow> acquireLogin False (s_pool s) = (Err e, p) \<Longrightarrow>
    go_step s (unlock_return i l (Err e) (s\<lparr>s_pool := p\<rparr>))"
| login_failed: "at_phase i t (LoggingIn l acc) s \<Longrightarrow>
    loginAndSession net (s_now s) (th_buffer t) (th_proxy t) = g \<Longrightarrow> \<not> is_ok g \<Longrightarrow>
    go_step s (release_return i l g s)"
| logged_in: "at_phase i t (LoggingIn l acc) s \<Longrightarrow>
    loginAndSession net (s_now s) (th_buffer t) (th_proxy t) = Ok st \<Longrightarrow>
    go_step s (set_phase i (GotSession l acc st) s)"
| uin_set: "at_phase i t (GotSession l acc st) s \<Longrightarrow>
    go_step s (set_phase i (Storing l st)
      (with_db (SetAccountUIN (s_now s) (a_ID acc) (s_UIN (w_Session st)) (sys_db s)) s))"
| stored: "at_phase i t (Storing l st) s \<Longrightarrow>
    PutSession (s_now s) (th_account t) (Some (s_UIN (w_Session st))) (toBlob st)
      (sessionExpiresAt now st (SessionTTL (p_cfg (s_pool s)))) (th_proxy t) (sys_db s) = (g, d) \<Longrightarrow>
    now \<le> s_now s \<Longrightarrow>
    go_step s (release_return i l (go_bind g (\<lambda>_. Ok st)) (with_db d s))"

inductive_cases go_stepE: "go_step s s'"

definition new_thread :: "string \<Rightarrow> int \<Rightarrow> string \<Rightarrow> thread" where
  "new_thread lb i px = \<lparr>th_buffer = lb, th_account = i, th_proxy = px, th_phase = Start\<rparr>"

definition start_sys :: "pool \<Rightarrow> (string \<times> int \<times> string) list \<Rightarrow> int \<Rightarrow> sys" where
  "start_sys p reqs now =
     \<lparr>s_pool = p, s_held = (\<lambda>_. None), s_threads = map (\<lambda>(lb, i, px). new_thread lb i px) reqs, s_now = now\<rparr>"

section \<open>Lock keys\<close>

lemma nat_digits_inj: "nat_digits m = nat_digits n \<Longrightarrow> m = n"
  by (metis digits_value_nat_digits)

lemma itoa_inj: "itoa a = itoa b \<longleftrightarrow> a = b"
proof
  assume h: "itoa a = itoa b"
  have hd: "nat_digits n \<noteq> CHR ''-'' # cs" for n cs
    using nat_digits_hd(1) [of n] by auto
  then have "CHR ''-'' # cs \<noteq> nat_digits n" for n cs by metis
  with h hd have "(a < 0) = (b < 0)" by (auto simp: itoa_def split: if_splits)
  with h show "a = b" by (auto simp: itoa_def split: if_splits dest!: nat_digits_inj)
qed simp

lemma itoa_no_nul: "CHR 0x00 \<notin> set (itoa v)"
proof -
  have "CHR 0x00 \<notin> set (nat_digits n)" for n
    using nat_digits_digits [of n] by (auto simp: list_all_iff isDigitChar_def digit_val_def Let_def)
  then show ?thesis by (simp add: itoa_def)
qed

lemma split_at_char: "c \<notin> set a \<Longrightarrow> c \<notin> set b \<Longrightarrow> a @ c # x = b @ c # y \<longleftrightarrow> a = b \<and> x = y"
proof (induction a arbitrary: b)
  case (Cons z a)
  then show ?case by (cases b) auto
qed (auto simp: Cons_eq_append_conv)

lemma lock_key_inj: "lock_key i p = lock_key j q \<longleftrightarrow> i = j \<and> p = q"
  using itoa_no_nul by (simp add: lock_key_def split_at_char itoa_inj)

definition locks_ok :: "(string \<times> nat) list \<Rightarrow> bool" where
  "locks_ok ls \<longleftrightarrow> distinct (map fst ls) \<and> map snd ls = rev [0..<length ls]"

lemma locks_ok_unique:
  assumes "locks_ok ls" "map_of ls k = Some l" "map_of ls k' = Some l"
  shows "k = k'"
proof -
  have "distinct (map snd ls)" using assms(1) by (simp add: locks_ok_def)
  then have "inj_on snd (set ls)" by (simp add: distinct_map)
  with map_of_SomeD [OF assms(2)] map_of_SomeD [OF assms(3)] show ?thesis by (metis fst_conv inj_onD snd_conv)
qed

lemma lockFor_facts:
  assumes "lockFor k ls = (l, ls')" "locks_ok ls"
  shows "locks_ok ls'" "map_of ls' k = Some l" "map_of ls k' = Some l' \<Longrightarrow> map_of ls' k' = Some l'"
  using assms by (force simp: lockFor_def locks_ok_def map_of_eq_None_iff split: option.splits dest: map_of_SomeD)+

section \<open>The invariant\<close>

fun wants_lock :: "phase \<Rightarrow> nat option" where
  "wants_lock (WaitLock l) = Some l"
| "wants_lock (Locked l) = Some l"
| "wants_lock (WantSlot l acc) = Some l"
| "wants_lock (LoggingIn l acc) = Some l"
| "wants_lock (GotSession l acc st) = Some l"
| "wants_lock (Storing l st) = Some l"
| "wants_lock _ = None"

fun holds_lock :: "phase \<Rightarrow> nat option" where
  "holds_lock (WaitLock l) = None"
| "holds_lock ph = wants_lock ph"

fun searched :: "phase \<Rightarrow> bool" where
  "searched (Locked l) = False"
| "searched ph = (holds_lock ph \<noteq> None)"

fun has_slot :: "phase \<Rightarrow> bool" where
  "has_slot (WantSlot l acc) = False"
| "has_slot ph = searched ph"

text \<open>No session that is still valid, now or later.\<close>

definition no_session :: "int \<Rightarrow> int \<Rightarrow> string \<Rightarrow> db \<Rightarrow> bool" where
  "no_session now i px d \<longleftrightarrow> \<not> (\<exists>r \<in> set (sessions d). r_Account r = i \<and> r_Proxy r = px \<and> r_ExpiresAt r > now)"

definition thread_ok :: "sys \<Rightarrow> nat \<Rightarrow> thread \<Rightarrow> bool" where
  "thread_ok s i t \<longleftrightarrow>
     (\<forall>l. wants_lock (th_phase t) = Some l \<longrightarrow> map_of (p_locks (s_pool s)) (th_key t) = Some l)
     \<and> (\<forall>l. holds_lock (th_phase t) = Some l \<longrightarrow> s_held s l = Some i)
     \<and> (searched (th_phase t) \<longrightarrow> no_session (s_now s) (th_account t) (th_proxy t) (sys_db s))"

abbreviation slots_used :: "sys \<Rightarrow> nat" where
  "slots_used s \<equiv> length (filter (\<lambda>t. has_slot (th_phase t)) (s_threads s))"

definition sys_inv :: "Config \<Rightarrow> sys \<Rightarrow> bool" where
  "sys_inv c s \<longleftrightarrow> db_ok (sys_db s) \<and> p_cfg (s_pool s) = c \<and> locks_ok (p_locks (s_pool s))
     \<and> p_loginSem (s_pool s) = slots_used s
     \<and> (p_loginSem (s_pool s) = 0 \<or> int (p_loginSem (s_pool s)) \<le> MaxLoginConcurrency c)
     \<and> (\<forall>i < length (s_threads s). thread_ok s i (s_threads s ! i))"

lemma no_session_GetSession: "no_session now i px d \<longleftrightarrow> GetSession now i px d = Err ErrNoRows"
  by (auto simp: no_session_def GetSession_def of_opt_def find_None_iff split: option.splits
      dest!: find_SomeD)

lemma no_session_mono:
  "no_session now i px d \<Longrightarrow> now \<le> now' \<Longrightarrow> set (sessions d') \<subseteq> set (sessions d) \<Longrightarrow> no_session now' i px d'"
  by (fastforce simp: no_session_def)

lemma lookup_now_None: "lookup_now t s = Ok None \<longleftrightarrow> no_session (s_now s) (th_account t) (th_proxy t) (sys_db s)"
  by (auto simp: lookup_now_def stored_session_def no_session_GetSession go_bind_Ok_iff split: go.splits)

lemma thread_ok_frame:
  assumes "thread_ok s j t" "s_held s' = s_held s" "s_now s \<le> s_now s'"
    and "\<And>k l. map_of (p_locks (s_pool s)) k = Some l \<Longrightarrow> map_of (p_locks (s_pool s')) k = Some l"
    and "set (sessions (sys_db s')) \<subseteq> set (sessions (sys_db s))"
  shows "thread_ok s' j t"
  using assms no_session_mono [OF _ assms(3,5)] by (simp add: thread_ok_def)

lemma length_filter_update:
  "i < length xs \<Longrightarrow> length (filter P (xs[i := v])) + of_bool (P (xs ! i)) = length (filter P xs) + of_bool (P v)"
proof (induction xs arbitrary: i)
  case (Cons x xs)
  then show ?case by (cases i) auto
qed simp

lemma sys_inv_update:
  assumes inv: "sys_inv c s" and at: "at_phase i t old s"
    and ts: "s_threads s' = (s_threads s)[i := t\<lparr>th_phase := ph\<rparr>]"
    and pool: "db_ok (sys_db s')" "p_cfg (s_pool s') = c" "locks_ok (p_locks (s_pool s'))"
    and slot: "p_loginSem (s_pool s') + of_bool (has_slot old) = p_loginSem (s_pool s) + of_bool (has_slot ph)"
      "has_slot ph \<Longrightarrow> \<not> has_slot old \<Longrightarrow> int (p_loginSem (s_pool s')) \<le> MaxLoginConcurrency c"
    and others: "\<And>j. j \<noteq> i \<Longrightarrow> j < length (s_threads s) \<Longrightarrow> thread_ok s j (s_threads s ! j) \<Longrightarrow>
      thread_ok s' j (s_threads s ! j)"
    and self: "thread_ok s' i (t\<lparr>th_phase := ph\<rparr>)"
  shows "sys_inv c s'"
proof -
  have i: "i < length (s_threads s)" "s_threads s ! i = t" "th_phase t = old" using at by (auto simp: at_phase_def)
  have "p_loginSem (s_pool s') = slots_used s'"
    using length_filter_update [OF i(1), of "\<lambda>t. has_slot (th_phase t)" "t\<lparr>th_phase := ph\<rparr>"] slot(1) inv i(2,3) ts
    by (simp add: sys_inv_def)
  moreover have "p_loginSem (s_pool s') = 0 \<or> int (p_loginSem (s_pool s')) \<le> MaxLoginConcurrency c"
    using slot inv by (cases "has_slot ph"; cases "has_slot old") (auto simp: sys_inv_def)
  moreover have "\<forall>j < length (s_threads s'). thread_ok s' j (s_threads s' ! j)"
    using inv others self i(1) by (auto simp: ts nth_list_update sys_inv_def)
  ultimately show ?thesis using pool by (simp add: sys_inv_def)
qed

text \<open>A goroutine that moves on and leaves the locks that are held and the sessions alone.\<close>

lemma sys_inv_move:
  assumes "sys_inv c s" "at_phase i t old s" "s_threads s' = (s_threads s)[i := t\<lparr>th_phase := ph\<rparr>]"
    and "s_held s' = s_held s" "s_now s' = s_now s" "sessions (sys_db s') = sessions (sys_db s)"
    and "db_ok (sys_db s')" "p_cfg (s_pool s') = c"
    and "p_locks (s_pool s') = p_locks (s_pool s)" "wants_lock ph = wants_lock old" "holds_lock ph = holds_lock old"
    and "searched ph \<Longrightarrow> searched old \<or> no_session (s_now s) (th_account t) (th_proxy t) (sys_db s)"
    and "p_loginSem (s_pool s') + of_bool (has_slot old) = p_loginSem (s_pool s) + of_bool (has_slot ph)"
    and "has_slot ph \<Longrightarrow> \<not> has_slot old \<Longrightarrow> int (p_loginSem (s_pool s')) \<le> MaxLoginConcurrency c"
  shows "sys_inv c s'"
proof (rule sys_inv_update [OF assms(1-3)])
  have t: "thread_ok s i t" "th_phase t = old" using assms(1,2) by (auto simp: sys_inv_def at_phase_def)
  show "thread_ok s' i (t\<lparr>th_phase := ph\<rparr>)"
    using t assms(4-6,9-12) by (auto simp: thread_ok_def th_key_def no_session_def)
qed (use assms in \<open>auto simp: sys_inv_def intro: thread_ok_frame\<close>)


text \<open>Two goroutines that hold their locks work for different accounts or proxies.\<close>

lemma locks_exclude:
  assumes "sys_inv c s" "i < length (s_threads s)" "j < length (s_threads s)" "i \<noteq> j"
    and "holds_lock (th_phase (s_threads s ! i)) \<noteq> None" "holds_lock (th_phase (s_threads s ! j)) \<noteq> None"
  shows "th_key (s_threads s ! i) \<noteq> th_key (s_threads s ! j)"
proof
  assume k: "th_key (s_threads s ! i) = th_key (s_threads s ! j)"
  have w: "holds_lock ph = Some l \<Longrightarrow> wants_lock ph = Some l" for ph l by (cases ph) auto
  from assms obtain l m where l: "holds_lock (th_phase (s_threads s ! i)) = Some l"
    "holds_lock (th_phase (s_threads s ! j)) = Some m" by auto
  have ok: "thread_ok s i (s_threads s ! i)" "thread_ok s j (s_threads s ! j)"
    using assms(1-3) by (auto simp: sys_inv_def)
  from ok l w k have "l = m" by (fastforce simp: thread_ok_def)
  with ok l assms(4) show False by (auto simp: thread_ok_def)
qed

lemma unlock_return_inv:
  assumes inv: "sys_inv c s" and at: "at_phase i t old s" and l: "holds_lock old = Some l"
    and s': "s_threads s' = (s_threads s)[i := t\<lparr>th_phase := Finished g\<rparr>]" "s_held s' = (s_held s)(l := None)"
      "s_now s' = s_now s" "p_locks (s_pool s') = p_locks (s_pool s)" "p_cfg (s_pool s') = c" "db_ok (sys_db s')"
    and sl: "p_loginSem (s_pool s') + of_bool (has_slot old) = p_loginSem (s_pool s)"
    and ses: "\<And>a px. (a, px) \<noteq> (th_account t, th_proxy t) \<Longrightarrow> no_session (s_now s) a px (sys_db s) \<Longrightarrow>
      no_session (s_now s) a px (sys_db s')"
  shows "sys_inv c s'"
proof (rule sys_inv_update [OF inv at s'(1)])
  show "thread_ok s' i (t\<lparr>th_phase := Finished g\<rparr>)" by (simp add: thread_ok_def)
  show "thread_ok s' j (s_threads s ! j)"
    if j: "j \<noteq> i" "j < length (s_threads s)" "thread_ok s j (s_threads s ! j)" for j
  proof -
    have i: "i < length (s_threads s)" "s_threads s ! i = t" "th_phase t = old" using at by (auto simp: at_phase_def)
    have "s_held s l = Some i" using inv i l by (auto simp: sys_inv_def thread_ok_def)
    moreover have "th_key (s_threads s ! j) \<noteq> th_key t" if "holds_lock (th_phase (s_threads s ! j)) \<noteq> None"
      using locks_exclude [OF inv j(2) i(1) j(1) that] i l by simp
    moreover have "holds_lock ph \<noteq> None" if "searched ph" for ph using that by (cases ph) auto
    ultimately show ?thesis
      using j s' ses [of "th_account (s_threads s ! j)" "th_proxy (s_threads s ! j)"]
      by (auto simp: thread_ok_def th_key_def lock_key_inj)
  qed
qed (use assms in \<open>auto simp: sys_inv_def\<close>)

lemma at_nth: "at_phase i t ph s \<Longrightarrow> s_threads s ! i = t"
  by (simp add: at_phase_def)

lemma no_session_put_other:
  assumes "db_ok d" "(a, px) \<noteq> (i, q)" "no_session now a px d" "PutSession n i u b e q d = (g, d')"
  shows "no_session now a px d'"
  using assms st.lookup_put_other [OF assms(2), of now n u b e d] PutSession_ok [OF assms(1,4)]
  by (simp add: no_session_GetSession GetSession_lookup)

lemma sessions_SetAccountUIN [simp]: "sessions (SetAccountUIN now i u d) = sessions d"
  by (simp add: SetAccountUIN_def update_account_def)

lemma sys_inv_ask_lock:
  assumes inv: "sys_inv c s" and at: "at_phase i t AskLock s"
    and l: "lockFor (th_key t) (p_locks (s_pool s)) = (l, ls)"
  shows "sys_inv c (set_phase i (WaitLock l) (s\<lparr>s_pool := (s_pool s)\<lparr>p_locks := ls\<rparr>\<rparr>))" (is "sys_inv c ?s")
proof (rule sys_inv_update [OF inv at])
  have ok: "locks_ok (p_locks (s_pool s))" using inv by (simp add: sys_inv_def)
  note f = lockFor_facts [OF l ok]
  show "s_threads ?s = (s_threads s)[i := t\<lparr>th_phase := WaitLock l\<rparr>]"
    using at_nth [OF at] by (simp add: set_phase_def)
  show "thread_ok ?s i (t\<lparr>th_phase := WaitLock l\<rparr>)"
    using f(2) by (simp add: thread_ok_def set_phase_def th_key_def)
  show "thread_ok ?s j (s_threads s ! j)" if "thread_ok s j (s_threads s ! j)" for j
    by (rule thread_ok_frame [OF that]) (auto simp: set_phase_def f(3))
  show "locks_ok (p_locks (s_pool ?s))" using f(1) by (simp add: set_phase_def)
qed (use inv in \<open>auto simp: sys_inv_def set_phase_def\<close>)

lemma sys_inv_lock:
  assumes inv: "sys_inv c s" and at: "at_phase i t (WaitLock l) s" and free: "s_held s l = None"
  shows "sys_inv c (set_phase i (Locked l) (s\<lparr>s_held := (s_held s)(l \<mapsto> i)\<rparr>))" (is "sys_inv c ?s")
proof (rule sys_inv_update [OF inv at])
  show "s_threads ?s = (s_threads s)[i := t\<lparr>th_phase := Locked l\<rparr>]"
    using at_nth [OF at] by (simp add: set_phase_def)
  have "thread_ok s i t" "th_phase t = WaitLock l" using inv at by (auto simp: sys_inv_def at_phase_def)
  then show "thread_ok ?s i (t\<lparr>th_phase := Locked l\<rparr>)"
    by (simp add: thread_ok_def set_phase_def th_key_def)
  show "thread_ok ?s j (s_threads s ! j)" if "thread_ok s j (s_threads s ! j)" for j
    using that free by (auto simp: thread_ok_def set_phase_def)
qed (use inv in \<open>auto simp: sys_inv_def set_phase_def\<close>)

lemma acquireLogin_Ok:
  "acquireLogin True p = (Ok (), p') \<Longrightarrow>
   int (p_loginSem p) < MaxLoginConcurrency (p_cfg p) \<and> p' = p\<lparr>p_loginSem := Suc (p_loginSem p)\<rparr>"
  by (auto simp: acquireLogin_def acquire_def split: if_splits)

lemma acquireLogin_Err: "acquireLogin g p = (Err e, p') \<Longrightarrow> p' = p"
  by (auto simp: acquireLogin_def acquire_def split: if_splits)

lemma slot_used:
  assumes "sys_inv c s" "at_phase i t ph s" "has_slot ph"
  shows "0 < p_loginSem (s_pool s)"
proof -
  have "t \<in> set (filter (\<lambda>t. has_slot (th_phase t)) (s_threads s))"
    using assms(2,3) by (auto simp: at_phase_def)
  then have "0 < slots_used s" by (cases "filter (\<lambda>t. has_slot (th_phase t)) (s_threads s)") auto
  with assms(1) show ?thesis by (simp add: sys_inv_def)
qed

lemma go_step_inv: "go_step s s' \<Longrightarrow> sys_inv c s \<Longrightarrow> sys_inv c s'"
proof (induction rule: go_step.induct)
  case (tick s now)
  then show ?case by (auto simp: sys_inv_def intro: thread_ok_frame)
next
  case (outside s d)
  then have "db_ok d" using db_step_ok by (auto simp: sys_inv_def)
  moreover have "thread_ok (with_db d s) j u" if "thread_ok s j u" for j u
    by (rule thread_ok_frame [OF that]) (use outside(2) in auto)
  ultimately show ?case using outside(3) by (auto simp: sys_inv_def)
next
  case (first_miss i t s)
  then show ?case
    by (intro sys_inv_move [OF first_miss(3,1)]) (auto simp: set_phase_def at_nth sys_inv_def)
next
  case (first_return i t s g)
  then show ?case
    by (intro sys_inv_move [OF first_return(4,1)]) (auto simp: set_phase_def at_nth sys_inv_def)
next
  case (ask_lock i t s l ls)
  then show ?case by (intro sys_inv_ask_lock)
next
  case (lock i t l s)
  then show ?case by (intro sys_inv_lock)
next
  case (second_return i t l s g)
  then show ?case
    by (intro unlock_return_inv [OF second_return(4,1)])
       (auto simp: unlock_return_def set_phase_def at_nth sys_inv_def)
next
  case (second_miss i t l s acc)
  then show ?case
    by (intro sys_inv_move [OF second_miss(4,1)])
       (auto simp: set_phase_def at_nth sys_inv_def lookup_now_None)
next
  case (no_account i t l s e)
  then show ?case
    by (intro unlock_return_inv [OF no_account(4,1)])
       (auto simp: unlock_return_def set_phase_def at_nth sys_inv_def)
next
  case (slot i t l acc s p)
  then show ?case
    by (intro sys_inv_move [OF slot(3,1)])
       (auto simp: set_phase_def at_nth sys_inv_def dest!: acquireLogin_Ok)
next
  case (cancelled i t l acc s e p)
  then show ?case
    by (intro unlock_return_inv [OF cancelled(3,1)])
       (auto simp: unlock_return_def set_phase_def at_nth sys_inv_def dest!: acquireLogin_Err)
next
  case (login_failed i t l acc s net g)
  have "0 < p_loginSem (s_pool s)" using slot_used [OF login_failed(4,1)] by simp
  with login_failed show ?case
    by (intro unlock_return_inv [OF login_failed(4,1)])
       (auto simp: release_return_def unlock_return_def set_phase_def at_nth sys_inv_def releaseLogin_def release_def)
next
  case (logged_in i t l acc s net st)
  then show ?case
    by (intro sys_inv_move [OF logged_in(3,1)]) (auto simp: set_phase_def at_nth sys_inv_def)
next
  case (uin_set i t l acc st s)
  then show ?case
    by (intro sys_inv_move [OF uin_set(2,1)])
       (auto simp: set_phase_def at_nth sys_inv_def SetAccount_ok)
next
  case (stored i t l st s now g d)
  have "0 < p_loginSem (s_pool s)" using slot_used [OF stored(4,1)] by simp
  moreover have ok: "db_ok (sys_db s)" using stored(4) by (simp add: sys_inv_def)
  note no_session_put_other [OF ok _ _ stored(2)] PutSession_ok [OF ok stored(2)]
  ultimately show ?case using stored
    by (intro unlock_return_inv [OF stored(4,1)])
       (auto simp: release_return_def unlock_return_def set_phase_def at_nth sys_inv_def releaseLogin_def release_def)
qed


section \<open>What holds in every interleaving\<close>

definition reachable_sys :: "Config \<Rightarrow> sys \<Rightarrow> bool" where
  "reachable_sys cfg s \<longleftrightarrow> (\<exists>d p reqs now. db_ok d \<and> NewPool cfg d = Ok p \<and> go_step\<^sup>*\<^sup>* (start_sys p reqs now) s)"

lemma start_phase: "t \<in> set (s_threads (start_sys p reqs now)) \<Longrightarrow> th_phase t = Start"
  by (auto simp: start_sys_def new_thread_def)

lemma start_inv:
  assumes "NewPool cfg d = Ok p" "db_ok d"
  shows "sys_inv (with_defaults cfg) (start_sys p reqs now)"
proof -
  let ?s = "start_sys p reqs now"
  have "thread_ok ?s i (s_threads ?s ! i)" if "i < length (s_threads ?s)" for i
    using start_phase [OF nth_mem [OF that]] by (simp add: thread_ok_def)
  moreover have "slots_used ?s = 0" by (auto simp: filter_empty_conv dest!: start_phase)
  ultimately show ?thesis
    using assms by (auto simp: sys_inv_def NewPool_def Let_def start_sys_def locks_ok_def split: if_splits)
qed

lemma reachable_inv: "reachable_sys cfg s \<Longrightarrow> sys_inv (with_defaults cfg) s"
  unfolding reachable_sys_def
proof (elim exE conjE)
  fix d p reqs now
  assume "db_ok d" "NewPool cfg d = Ok p" and r: "go_step\<^sup>*\<^sup>* (start_sys p reqs now) s"
  then have "sys_inv (with_defaults cfg) (start_sys p reqs now)" by (simp add: start_inv)
  with r show ?thesis by (induction rule: rtranclp_induct) (auto dest: go_step_inv)
qed

text \<open>
  C7: No two logins for the same account over the same proxy are ever under way at once,
  however the goroutines interleave.
\<close>

theorem logins_exclusive:
  assumes "reachable_sys cfg s" "i < length (s_threads s)" "j < length (s_threads s)" "i \<noteq> j"
    and "has_slot (th_phase (s_threads s ! i))" "has_slot (th_phase (s_threads s ! j))"
  shows "(th_account (s_threads s ! i), th_proxy (s_threads s ! i))
    \<noteq> (th_account (s_threads s ! j), th_proxy (s_threads s ! j))"
proof -
  have h: "has_slot ph \<Longrightarrow> holds_lock ph \<noteq> None" for ph by (cases ph) auto
  from locks_exclude [OF reachable_inv [OF assms(1)] assms(2-4) h [OF assms(5)] h [OF assms(6)]]
  show ?thesis by (auto simp: th_key_def)
qed

text \<open>
  The goroutines that log in are as many as the slots that are taken, and never more
  than the configuration allows.
\<close>

theorem logins_bounded:
  assumes "reachable_sys cfg s"
  shows "p_loginSem (s_pool s) = slots_used s \<and> int (slots_used s) \<le> max 0 (MaxLoginConcurrency (with_defaults cfg))"
  using reachable_inv [OF assms] by (auto simp: sys_inv_def)

text \<open>
  A goroutine that is about to store the session of its login finds no valid session
  there: a login is never made in vain beside another one, and replaces no valid session.
\<close>

theorem login_needed:
  assumes "reachable_sys cfg s" "at_phase i t (Storing l st) s"
  shows "GetSession (s_now s) (th_account t) (th_proxy t) (sys_db s) = Err ErrNoRows"
proof -
  have "thread_ok s i t" "th_phase t = Storing l st"
    using reachable_inv [OF assms(1)] assms(2) by (auto simp: sys_inv_def at_phase_def)
  then show ?thesis by (simp add: thread_ok_def no_session_GetSession)
qed

section \<open>Every request comes to an end\<close>

fun phase_rank :: "phase \<Rightarrow> nat" where
  "phase_rank Start = 8"
| "phase_rank AskLock = 7"
| "phase_rank (WaitLock l) = 6"
| "phase_rank (Locked l) = 5"
| "phase_rank (WantSlot l acc) = 4"
| "phase_rank (LoggingIn l acc) = 3"
| "phase_rank (GotSession l acc st) = 2"
| "phase_rank (Storing l st) = 1"
| "phase_rank (Finished g) = 0"

definition sys_rank :: "sys \<Rightarrow> nat" where
  "sys_rank s = sum_list (map (\<lambda>t. phase_rank (th_phase t)) (s_threads s))"

definition held_inv :: "sys \<Rightarrow> bool" where
  "held_inv s \<longleftrightarrow> (\<forall>l i. s_held s l = Some i \<longrightarrow>
     i < length (s_threads s) \<and> holds_lock (th_phase (s_threads s ! i)) = Some l)"

lemma held_inv_frame [simp]:
  "held_inv (s\<lparr>s_now := n\<rparr>) = held_inv s" "held_inv (s\<lparr>s_pool := p\<rparr>) = held_inv s"
  by (simp_all add: held_inv_def)

lemma held_inv_phase:
  assumes "held_inv s" "at_phase i t old s" "holds_lock ph = holds_lock old"
  shows "held_inv (set_phase i ph s)" "held_inv (set_phase i ph (s\<lparr>s_pool := p\<rparr>))"
  using assms by (auto simp: held_inv_def set_phase_def at_phase_def nth_list_update)

lemma held_inv_unlock:
  assumes "held_inv s" "at_phase i t old s" "holds_lock old = Some l"
  shows "held_inv (unlock_return i l g s)" "held_inv (unlock_return i l g (s\<lparr>s_pool := p\<rparr>))"
  using assms by (auto simp: held_inv_def set_phase_def unlock_return_def at_phase_def nth_list_update)

lemma go_step_held: "go_step s s' \<Longrightarrow> held_inv s \<Longrightarrow> held_inv s'"
proof (induction rule: go_step.induct)
  case (lock i t l s)
  have "s_held s k = Some i \<Longrightarrow> k = l" for k
    using lock(1,3) by (fastforce simp: held_inv_def at_phase_def)
  with lock show ?case
    by (auto simp: held_inv_def set_phase_def at_phase_def nth_list_update)
next
  case (stored i t l st s now g d)
  then show ?case by (simp add: release_return_def held_inv_unlock)
qed (auto intro: held_inv_phase held_inv_unlock simp: release_return_def held_inv_frame)

lemma start_held: "held_inv (start_sys p reqs now)"
  by (simp add: held_inv_def start_sys_def)

lemma reachable_held: "reachable_sys cfg s \<Longrightarrow> held_inv s"
  unfolding reachable_sys_def
proof (elim exE conjE)
  fix d p reqs now
  assume "go_step\<^sup>*\<^sup>* (start_sys p reqs now) s"
  then show ?thesis by (induction rule: rtranclp_induct) (auto simp: start_held dest: go_step_held)
qed

lemma sum_list_update_less:
  "i < length xs \<Longrightarrow> f v < (f (xs ! i) :: nat) \<Longrightarrow> sum_list (map f (xs[i := v])) < sum_list (map f xs)"
proof (induction xs arbitrary: i)
  case (Cons x xs)
  then show ?case by (cases i) auto
qed simp

lemma rank_move:
  assumes "at_phase i t old s" "s_threads s' = (s_threads s)[i := t\<lparr>th_phase := ph\<rparr>]" "phase_rank ph < phase_rank old"
  shows "sys_rank s' < sys_rank s"
  using assms sum_list_update_less [of i "s_threads s" "\<lambda>t. phase_rank (th_phase t)" "t\<lparr>th_phase := ph\<rparr>"]
  by (simp add: sys_rank_def at_phase_def)

lemma threads_of_moves [simp]:
  "s_threads (set_phase i ph s) = (s_threads s)[i := (s_threads s ! i)\<lparr>th_phase := ph\<rparr>]"
  "s_threads (unlock_return i l g s) = (s_threads s)[i := (s_threads s ! i)\<lparr>th_phase := Finished g\<rparr>]"
  "s_threads (release_return i l g s) = (s_threads s)[i := (s_threads s ! i)\<lparr>th_phase := Finished g\<rparr>]"
  by (simp_all add: set_phase_def unlock_return_def release_return_def)

text \<open>A step either leaves every goroutine where it is or brings one of them forward.\<close>

lemma go_step_rank: "go_step s s' \<Longrightarrow> s_threads s' = s_threads s \<or> sys_rank s' < sys_rank s"
  by (induction rule: go_step.induct) (auto simp: at_nth intro: rank_move)

text \<open>A goroutine that waits for neither the lock nor a slot has a next step.\<close>

lemma can_move:
  assumes "at_phase i t ph s" "\<And>l. ph \<noteq> WaitLock l" "\<And>l acc. ph \<noteq> WantSlot l acc" "\<And>g. ph \<noteq> Finished g"
  shows "\<exists>s'. go_step s s' \<and> sys_rank s' < sys_rank s"
proof (cases ph)
  case Start
  then show ?thesis
    using assms(1) first_miss [of i t s] first_return [of i t s]
    by (cases "lookup_now t s = Ok None") (auto intro!: exI rank_move [OF assms(1)] simp: at_nth)
next
  case AskLock
  obtain l ls where "lockFor (th_key t) (p_locks (s_pool s)) = (l, ls)" by fastforce
  with AskLock ask_lock [of i t s l ls] show ?thesis
    using assms(1) by (auto intro!: exI rank_move [OF assms(1)] simp: at_nth)
next
  case (Locked l)
  consider "lookup_now t s \<noteq> Ok None" | acc where "lookup_now t s = Ok None" "GetAccount (th_account t) (sys_db s) = Ok acc"
    | e where "lookup_now t s = Ok None" "GetAccount (th_account t) (sys_db s) = Err e"
    by (cases "GetAccount (th_account t) (sys_db s)") (auto simp: GetAccount_def find_account_def of_opt_def split: option.splits)
  then show ?thesis
    by cases (use Locked assms(1) second_return second_miss no_account in
      \<open>fastforce intro!: rank_move [OF assms(1)] simp: at_nth\<close>)+
next
  case (LoggingIn l acc)
  fix net
  show ?thesis
  proof (cases "loginAndSession net (s_now s) (th_buffer t) (th_proxy t)")
    case (Ok st)
    then show ?thesis using LoggingIn assms(1) logged_in [of i t l acc s net st]
      by (fastforce intro!: rank_move [OF assms(1)] simp: at_nth)
  qed (use LoggingIn assms(1) login_failed [of i t l acc s net] in
      \<open>fastforce intro!: rank_move [OF assms(1)] simp: at_nth\<close>)+
next
  case (GotSession l acc st)
  with assms(1) uin_set [of i t l acc st s] show ?thesis
    by (fastforce intro!: rank_move [OF assms(1)] simp: at_nth)
next
  case (Storing l st)
  obtain g d where "PutSession (s_now s) (th_account t) (Some (s_UIN (w_Session st))) (toBlob st)
      (sessionExpiresAt (s_now s) st (SessionTTL (p_cfg (s_pool s)))) (th_proxy t) (sys_db s) = (g, d)" by fastforce
  with Storing assms(1) stored [of i t l st s "s_now s" g d] show ?thesis
    by (fastforce intro!: rank_move [OF assms(1)] simp: at_nth)
qed (use assms in auto)


lemma slot_moves:
  assumes inv: "sys_inv c s" and cap: "0 < MaxLoginConcurrency c" and at: "at_phase i t (WantSlot l acc) s"
  shows "\<exists>s'. go_step s s' \<and> sys_rank s' < sys_rank s"
proof (cases "int (p_loginSem (s_pool s)) < MaxLoginConcurrency c")
  case True
  then have "acquireLogin True (s_pool s) = (Ok (), (s_pool s)\<lparr>p_loginSem := Suc (p_loginSem (s_pool s))\<rparr>)"
    using inv by (simp add: acquireLogin_def acquire_def sys_inv_def)
  from slot [OF at this] show ?thesis by (fastforce intro!: rank_move [OF at] simp: at_nth [OF at])
next
  case False
  with inv cap have "filter (\<lambda>t. has_slot (th_phase t)) (s_threads s) \<noteq> []" by (auto simp: sys_inv_def)
  then obtain u where "u \<in> set (s_threads s)" "has_slot (th_phase u)" by (auto simp: filter_empty_conv)
  then obtain j where j: "at_phase j u (th_phase u) s" "has_slot (th_phase u)" by (auto simp: at_phase_def in_set_conv_nth)
  show ?thesis by (rule can_move [OF j(1)]) (use j(2) in auto)
qed

lemma holder_moves:
  assumes "sys_inv c s" "0 < MaxLoginConcurrency c" "at_phase j u ph s" "holds_lock ph \<noteq> None"
  shows "\<exists>s'. go_step s s' \<and> sys_rank s' < sys_rank s"
proof (cases "\<exists>l acc. ph = WantSlot l acc")
  case True
  then show ?thesis using slot_moves [OF assms(1,2)] assms(3) by blast
next
  case False
  show ?thesis by (rule can_move [OF assms(3)]) (use False assms(4) in auto)
qed

lemma unfinished_moves:
  assumes inv: "sys_inv c s" and held: "held_inv s" and cap: "0 < MaxLoginConcurrency c"
    and at: "at_phase i t ph s" and unf: "\<And>g. ph \<noteq> Finished g"
  shows "\<exists>s'. go_step s s' \<and> sys_rank s' < sys_rank s"
proof (cases "\<exists>l. ph = WaitLock l")
  case True
  then obtain l where l: "ph = WaitLock l" by blast
  show ?thesis
  proof (cases "s_held s l")
    case None
    from lock [OF at [unfolded l] None] show ?thesis
      by (fastforce intro!: rank_move [OF at] simp: at_nth [OF at] l)
  next
    case (Some j)
    with held have "at_phase j (s_threads s ! j) (th_phase (s_threads s ! j)) s"
      "holds_lock (th_phase (s_threads s ! j)) \<noteq> None" by (auto simp: held_inv_def at_phase_def)
    then show ?thesis by (rule holder_moves [OF inv cap])
  qed
next
  case False
  show ?thesis
  proof (cases "\<exists>l acc. ph = WantSlot l acc")
    case True
    then show ?thesis using slot_moves [OF inv cap] at by blast
  qed (intro can_move [OF at], use False unf in auto)
qed

text \<open>
  The goroutines never block one another for good: while a request is unfinished some
  goroutine can take a step, and every step that moves a goroutine brings its request
  closer to the end.
\<close>

theorem requests_progress:
  assumes "reachable_sys cfg s" "0 < MaxLoginConcurrency (with_defaults cfg)"
    and "at_phase i t ph s" "\<And>g. ph \<noteq> Finished g"
  shows "(\<exists>s'. go_step s s' \<and> sys_rank s' < sys_rank s)
    \<and> (\<forall>s'. go_step s s' \<longrightarrow> s_threads s' = s_threads s \<or> sys_rank s' < sys_rank s)"
  using unfinished_moves [OF reachable_inv [OF assms(1)] reachable_held [OF assms(1)] assms(2-4)] go_step_rank by blast

lemma requests_finish_run:
  "sys_inv c s \<Longrightarrow> held_inv s \<Longrightarrow> 0 < MaxLoginConcurrency c \<Longrightarrow>
   \<exists>s'. go_step\<^sup>*\<^sup>* s s' \<and> sys_rank s' = 0 \<and> sys_inv c s'"
proof (induction "sys_rank s" arbitrary: s rule: less_induct)
  case less
  show ?case
  proof (cases "sys_rank s = 0")
    case False
    then obtain i where i: "i < length (s_threads s)" "phase_rank (th_phase (s_threads s ! i)) \<noteq> 0"
      by (auto simp: sys_rank_def in_set_conv_nth)
    then have "\<exists>s'. go_step s s' \<and> sys_rank s' < sys_rank s"
      by (intro unfinished_moves [OF less.prems, of i "s_threads s ! i" "th_phase (s_threads s ! i)"])
         (auto simp: at_phase_def)
    then obtain s1 where s1: "go_step s s1" "sys_rank s1 < sys_rank s" by blast
    with less.hyps [OF s1(2)] less.prems go_step_inv go_step_held show ?thesis
      by (meson converse_rtranclp_into_rtranclp)
  qed (use less.prems in blast)
qed

text \<open>
  C9: Every request can be finished: from every state that is reached a run leads to one in
  which all goroutines have returned and all slots are free.
\<close>

theorem requests_finish:
  assumes "reachable_sys cfg s" "0 < MaxLoginConcurrency (with_defaults cfg)"
  shows "\<exists>s'. go_step\<^sup>*\<^sup>* s s' \<and> (\<forall>t \<in> set (s_threads s'). \<exists>g. th_phase t = Finished g) \<and> p_loginSem (s_pool s') = 0"
proof -
  obtain s' where s': "go_step\<^sup>*\<^sup>* s s'" "sys_rank s' = 0" "sys_inv (with_defaults cfg) s'"
    using requests_finish_run [OF reachable_inv [OF assms(1)] reachable_held [OF assms(1)] assms(2)] by blast
  have "phase_rank ph = 0 \<Longrightarrow> \<exists>g. ph = Finished g" for ph by (cases ph) auto
  then have f: "\<exists>g. th_phase t = Finished g" if "t \<in> set (s_threads s')" for t using that s'(2) by (auto simp: sys_rank_def)
  then have "slots_used s' = 0" by (fastforce simp: filter_empty_conv)
  with s' f show ?thesis by (auto simp: sys_inv_def)
qed

section \<open>One goroutine alone\<close>

text \<open>The system \<open>s\<close> with goroutine \<open>i\<close> in another phase and another shared state.\<close>

definition alone :: "sys \<Rightarrow> nat \<Rightarrow> phase \<Rightarrow> pool \<Rightarrow> (nat \<Rightarrow> nat option) \<Rightarrow> int \<Rightarrow> sys" where
  "alone s i ph p h now = s\<lparr>s_pool := p, s_held := h, s_now := now,
     s_threads := (s_threads s)[i := (s_threads s ! i)\<lparr>th_phase := ph\<rparr>]\<rparr>"

lemma alone_sel [simp]:
  "s_pool (alone s i ph p h n) = p" "s_held (alone s i ph p h n) = h" "s_now (alone s i ph p h n) = n"
  "(alone s i ph p h n)\<lparr>s_pool := q\<rparr> = alone s i ph q h n"
  "(alone s i ph p h n)\<lparr>s_held := k\<rparr> = alone s i ph p k n"
  "(alone s i ph p h n)\<lparr>s_now := m\<rparr> = alone s i ph p h m"
  by (simp_all add: alone_def)

lemma alone_moves:
  assumes "i < length (s_threads s)"
  shows "set_phase i ph' (alone s i ph p h n) = alone s i ph' p h n"
    "unlock_return i l g (alone s i ph p h n) = alone s i (Finished g) p (h(l := None)) n"
    "release_return i l g (alone s i ph p h n) = alone s i (Finished g) (releaseLogin p) (h(l := None)) n"
  using assms by (simp_all add: set_phase_def alone_def unlock_return_def release_return_def)

lemma at_alone: "i < length (s_threads s) \<Longrightarrow> at_phase i ((s_threads s ! i)\<lparr>th_phase := ph\<rparr>) ph (alone s i ph p h n)"
  by (simp add: at_phase_def alone_def)

lemma alone_tick: "n \<le> n' \<Longrightarrow> go_step (alone s i ph p h n) (alone s i ph p h n')"
  using tick [of "alone s i ph p h n" n'] by simp

lemma alone_login:
  assumes i: "i < length (s_threads s)" and t: "t = s_threads s ! i" and env: "mono (en_clock env)"
    and run: "login_and_store env (th_buffer t) (th_account t) (th_proxy t) acc p = (g, p')"
  shows "\<exists>n. go_step\<^sup>*\<^sup>* (alone s i (LoggingIn l acc) p h (en_clock env 2))
    (alone s i (Finished g) (releaseLogin p') (h(l := None)) n)"
proof (cases "loginAndSession (en_net env (th_proxy t)) (en_clock env 2) (th_buffer t) (th_proxy t)")
  case (Ok st)
  let ?d = "SetAccountUIN (en_clock env 3) (a_ID acc) (s_UIN (w_Session st)) (p_db p)"
  obtain g1 d1 where put: "PutSession (en_clock env 5) (th_account t) (Some (s_UIN (w_Session st))) (toBlob st)
      (sessionExpiresAt (en_clock env 4) st (SessionTTL (p_cfg p))) (th_proxy t) ?d = (g1, d1)" by fastforce
  have g: "g = go_bind g1 (\<lambda>_. Ok st)" "p' = p\<lparr>p_db := d1\<rparr>"
    using run Ok put by (cases g1; simp add: login_and_store_def putSession_def act_bind_def)+
  have m: "en_clock env 2 \<le> en_clock env 3" "en_clock env 3 \<le> en_clock env 5" "en_clock env 4 \<le> en_clock env 5"
    using env by (auto intro: monoD)
  have "go_step\<^sup>*\<^sup>* (alone s i (LoggingIn l acc) p h (en_clock env 2)) (alone s i (GotSession l acc st) p h (en_clock env 2))"
    using logged_in [OF at_alone [OF i]] Ok t by (fastforce simp: alone_moves [OF i])
  also have "go_step\<^sup>*\<^sup>* \<dots> (alone s i (GotSession l acc st) p h (en_clock env 3))"
    using alone_tick [OF m(1)] by blast
  also have "go_step\<^sup>*\<^sup>* \<dots> (alone s i (Storing l st) (p\<lparr>p_db := ?d\<rparr>) h (en_clock env 3))"
    using uin_set [OF at_alone [OF i], of l acc st p h "en_clock env 3"] by (simp add: alone_moves [OF i])
  also have "go_step\<^sup>*\<^sup>* \<dots> (alone s i (Storing l st) (p\<lparr>p_db := ?d\<rparr>) h (en_clock env 5))"
    using alone_tick [OF m(2)] by blast
  also have "go_step\<^sup>*\<^sup>* \<dots> (alone s i (Finished g) (releaseLogin p') (h(l := None)) (en_clock env 5))"
    using stored [OF at_alone [OF i], of l st "p\<lparr>p_db := ?d\<rparr>" h "en_clock env 5" "en_clock env 4" g1 d1] put t m(3)
    by (simp add: alone_moves [OF i] g)
  finally show ?thesis by blast
next
  case (Err e)
  with run have "g = Err e" "p' = p" by (simp_all add: login_and_store_def)
  with login_failed [OF at_alone [OF i], where net = "en_net env (th_proxy t)"] Err t show ?thesis
    by (fastforce simp: alone_moves [OF i])
next
  case Panic
  with run have "g = Panic" "p' = p" by (simp_all add: login_and_store_def)
  with login_failed [OF at_alone [OF i], where net = "en_net env (th_proxy t)"] Panic t show ?thesis
    by (fastforce simp: alone_moves [OF i])
qed

lemma alone_slot:
  assumes i: "i < length (s_threads s)" and t: "t = s_threads s ! i" and env: "mono (en_clock env)"
    and run: "act_bind (acquireLogin (en_login_grant env))
      (\<lambda>_. deferred (login_and_store env (th_buffer t) (th_account t) (th_proxy t) acc) releaseLogin) p = (g, p')"
  shows "\<exists>n. go_step\<^sup>*\<^sup>* (alone s i (WantSlot l acc) p h (en_clock env 1)) (alone s i (Finished g) p' (h(l := None)) n)"
proof (cases "int (p_loginSem p) < MaxLoginConcurrency (p_cfg p) \<and> en_login_grant env")
  case False
  then have "acquireLogin (en_login_grant env) p = (Err ctx_err, p)" "acquireLogin False p = (Err ctx_err, p)"
    by (auto simp: acquireLogin_def acquire_def)
  with run cancelled [OF at_alone [OF i], of l acc p h "en_clock env 1" ctx_err p] show ?thesis
    by (auto simp: alone_moves [OF i])
next
  case True
  let ?p = "p\<lparr>p_loginSem := Suc (p_loginSem p)\<rparr>"
  have a: "acquireLogin (en_login_grant env) p = (Ok (), ?p)" "acquireLogin True p = (Ok (), ?p)"
    using True by (simp_all add: acquireLogin_def acquire_def)
  obtain p2 where p2: "login_and_store env (th_buffer t) (th_account t) (th_proxy t) acc ?p = (g, p2)" "p' = releaseLogin p2"
    using run a(1) by (auto simp: deferred_def split: prod.splits)
  have "go_step (alone s i (WantSlot l acc) p h (en_clock env 1)) (alone s i (LoggingIn l acc) ?p h (en_clock env 1))"
    using slot [OF at_alone [OF i], of l acc p h "en_clock env 1" ?p] a(2) by (simp add: alone_moves [OF i])
  moreover have "go_step (alone s i (LoggingIn l acc) ?p h (en_clock env 1)) (alone s i (LoggingIn l acc) ?p h (en_clock env 2))"
    using alone_tick env by (simp add: monoD)
  ultimately show ?thesis
    using alone_login [OF i t env p2(1), of l h] unfolding p2(2) by (meson converse_rtranclp_into_rtranclp)
qed

lemma stored_session_fst: "stored_session n a px p = (fst (stored_session n a px p), p)"
  by (simp add: stored_session_def split: go.splits)

lemma alone_locked:
  assumes i: "i < length (s_threads s)" and t: "t = s_threads s ! i" and env: "mono (en_clock env)"
    and run: "act_bind (stored_session (en_clock env 1) (th_account t) (th_proxy t)) (\<lambda>o2.
         case o2 of
           Some st \<Rightarrow> act_ret st
         | None \<Rightarrow>
             act_bind (act_get (\<lambda>p. GetAccount (th_account t) (p_db p))) (\<lambda>r.
             act_bind (act_lift r) (\<lambda>acc.
             act_bind (acquireLogin (en_login_grant env)) (\<lambda>_.
             deferred (login_and_store env (th_buffer t) (th_account t) (th_proxy t) acc) releaseLogin)))) p = (g, p')"
  shows "\<exists>n. go_step\<^sup>*\<^sup>* (alone s i (Locked l) p h (en_clock env 1)) (alone s i (Finished g) p' (h(l := None)) n)"
proof -
  let ?s = "alone s i (Locked l) p h (en_clock env 1)" and ?u = "t\<lparr>th_phase := Locked l\<rparr>"
  have at: "at_phase i ?u (Locked l) ?s" using at_alone [OF i] t by simp
  define q where "q = lookup_now ?u ?s"
  have q: "stored_session (en_clock env 1) (th_account t) (th_proxy t) p = (q, p)"
    using stored_session_fst by (simp add: q_def lookup_now_def)
  show ?thesis
  proof (cases "q = Ok None")
    case False
    with run q have "g = go_of q" "p' = p" by (cases q; auto split: option.splits)+
    with second_return [OF at q_def [symmetric] False] show ?thesis by (auto simp: alone_moves [OF i])
  next
    case miss: True
    show ?thesis
    proof (cases "GetAccount (th_account t) (p_db p)")
      case (Err e)
      with run q miss have "g = Err e" "p' = p" by simp_all
      with no_account [OF at] Err q_def miss show ?thesis by (auto simp: alone_moves [OF i])
    next
      case (Ok acc)
      have "go_step ?s (alone s i (WantSlot l acc) p h (en_clock env 1))"
        using second_miss [OF at] q_def miss Ok by (simp add: alone_moves [OF i])
      moreover have "\<exists>n. go_step\<^sup>*\<^sup>* (alone s i (WantSlot l acc) p h (en_clock env 1)) (alone s i (Finished g) p' (h(l := None)) n)"
        by (rule alone_slot [OF i t env]) (use run q miss Ok in simp)
      ultimately show ?thesis by (meson converse_rtranclp_into_rtranclp)
    qed (simp add: GetAccount_def find_account_def of_opt_def split: option.splits)
  qed
qed

text \<open>
  C4: The interleaving model refines the method as it is written: run by a goroutine that is
  not disturbed, its steps lead to exactly the result and the pool of \<open>pool_state\<close>.
\<close>

theorem pool_state_simulated:
  assumes at: "at_phase i t Start s" and free: "s_held s = (\<lambda>_. None)"
    and clock: "mono (en_clock env)" "s_now s = en_clock env 0"
    and run: "pool_state env (th_buffer t) (th_account t) (th_proxy t) (s_pool s) = (g, p')"
  shows "\<exists>s'. go_step\<^sup>*\<^sup>* s s' \<and> s_pool s' = p' \<and> s_held s' = s_held s
    \<and> s_threads s' = (s_threads s)[i := t\<lparr>th_phase := Finished g\<rparr>]"
proof -
  have i: "i < length (s_threads s)" and t: "t = s_threads s ! i" "th_phase t = Start" using at by (auto simp: at_phase_def)
  let ?p = "s_pool s" and ?h = "s_held s"
  define q where "q = lookup_now t s"
  have q: "stored_session (en_clock env 0) (th_account t) (th_proxy t) ?p = (q, ?p)"
    using stored_session_fst clock(2) by (simp add: q_def lookup_now_def)
  have sp: "set_phase i ph s = alone s i ph ?p ?h (en_clock env 0)" for ph
    using clock(2) by (simp add: set_phase_def alone_def)
  have "\<exists>n. go_step\<^sup>*\<^sup>* s (alone s i (Finished g) p' ?h n)"
  proof (cases "q = Ok None")
    case False
    with run q have "g = go_of q" "p' = ?p" by (cases q; auto simp: pool_state_def split: option.splits)+
    with first_return [OF at q_def [symmetric] False] show ?thesis by (auto simp: sp)
  next
    case True
    obtain l ls where l: "lockFor (th_key t) (p_locks ?p) = (l, ls)" by fastforce
    let ?p1 = "?p\<lparr>p_locks := ls\<rparr>"
    have "go_step s (alone s i AskLock ?p ?h (en_clock env 0))"
      using first_miss [OF at] q_def True by (simp add: sp)
    moreover have "go_step (alone s i AskLock ?p ?h (en_clock env 0)) (alone s i (WaitLock l) ?p1 ?h (en_clock env 0))"
      using ask_lock [OF at_alone [OF i], of ?p ?h "en_clock env 0" l ls] l t(1)
      by (simp add: alone_moves [OF i] th_key_def)
    moreover have "go_step (alone s i (WaitLock l) ?p1 ?h (en_clock env 0)) (alone s i (Locked l) ?p1 (?h(l \<mapsto> i)) (en_clock env 0))"
      using lock [OF at_alone [OF i], of l ?p1 ?h "en_clock env 0"] free by (simp add: alone_moves [OF i])
    moreover have "go_step (alone s i (Locked l) ?p1 (?h(l \<mapsto> i)) (en_clock env 0)) (alone s i (Locked l) ?p1 (?h(l \<mapsto> i)) (en_clock env 1))"
      using alone_tick clock(1) by (simp add: monoD)
    moreover have "\<exists>n. go_step\<^sup>*\<^sup>* (alone s i (Locked l) ?p1 (?h(l \<mapsto> i)) (en_clock env 1))
        (alone s i (Finished g) p' ((?h(l \<mapsto> i))(l := None)) n)"
      by (rule alone_locked [OF i t(1) clock(1)])
         (use run q True l in \<open>simp add: pool_state_def th_key_def\<close>)
    moreover have "(?h(l \<mapsto> i))(l := None) = ?h" using free by auto
    ultimately show ?thesis by (metis (no_types, lifting) converse_rtranclp_into_rtranclp)
  qed
  then show ?thesis using t by (auto simp: alone_def)
qed

section \<open>Sample runs\<close>

lemma reach_login:
  assumes at: "at_phase i t Start s" and miss: "no_session (s_now s) (th_account t) (th_proxy t) (sys_db s)"
    and acc: "GetAccount (th_account t) (sys_db s) = Ok acc"
    and l: "lockFor (th_key t) (p_locks (s_pool s)) = (l, ls)" "s_held s l = None"
    and cap: "int (p_loginSem (s_pool s)) < MaxLoginConcurrency (p_cfg (s_pool s))"
  shows "go_step\<^sup>*\<^sup>* s (alone s i (LoggingIn l acc)
    ((s_pool s)\<lparr>p_locks := ls, p_loginSem := Suc (p_loginSem (s_pool s))\<rparr>) ((s_held s)(l \<mapsto> i)) (s_now s))"
proof -
  have i: "i < length (s_threads s)" and t: "t = s_threads s ! i" using at by (auto simp: at_phase_def)
  let ?p = "s_pool s" and ?h = "s_held s" and ?n = "s_now s"
  let ?p1 = "?p\<lparr>p_locks := ls\<rparr>" and ?h1 = "?h(l \<mapsto> i)"
  have look: "lookup_now (t\<lparr>th_phase := ph\<rparr>) (alone s i ph' (?p\<lparr>p_locks := q\<rparr>) h ?n) = Ok None" for ph ph' q h
    using miss unfolding lookup_now_None by simp
  have "go_step\<^sup>*\<^sup>* s (alone s i AskLock ?p ?h ?n)"
    using first_miss [OF at] miss by (simp add: lookup_now_None set_phase_def alone_def r_into_rtranclp)
  also have "go_step\<^sup>*\<^sup>* \<dots> (alone s i (WaitLock l) ?p1 ?h ?n)"
    using ask_lock [OF at_alone [OF i], of ?p ?h ?n l ls] l t by (simp add: alone_moves [OF i] th_key_def r_into_rtranclp)
  also have "go_step\<^sup>*\<^sup>* \<dots> (alone s i (Locked l) ?p1 ?h1 ?n)"
    using lock [OF at_alone [OF i], of l ?p1 ?h ?n] l by (simp add: alone_moves [OF i] r_into_rtranclp)
  also have "go_step\<^sup>*\<^sup>* \<dots> (alone s i (WantSlot l acc) ?p1 ?h1 ?n)"
    using second_miss [OF at_alone [OF i], of l ?p1 ?h1 ?n acc] look acc t by (simp add: alone_moves [OF i] r_into_rtranclp)
  also have "go_step\<^sup>*\<^sup>* \<dots> (alone s i (LoggingIn l acc) (?p1\<lparr>p_loginSem := Suc (p_loginSem ?p)\<rparr>) ?h1 ?n)"
    using slot [OF at_alone [OF i], of l acc ?p1 ?h1 ?n "?p1\<lparr>p_loginSem := Suc (p_loginSem ?p)\<rparr>"] cap
    by (simp add: alone_moves [OF i] acquireLogin_def acquire_def r_into_rtranclp)
  finally show ?thesis .
qed

text \<open>Two requests for the sample account, one of them over a proxy.\<close>

definition two_requests :: sys where
  "two_requests = start_sys sample_pool [(sample_login_buffer, 1, []), (sample_login_buffer, 1, ''p'')] 10"

lemma two_requests_reachable: "go_step\<^sup>*\<^sup>* two_requests s \<Longrightarrow> reachable_sys DefaultConfig s"
  unfolding reachable_sys_def two_requests_def using sample_db_ok
  by (intro exI [of _ sample_db] exI [of _ sample_pool])
     (auto simp: NewPool_def with_defaults_def or_default_def DefaultConfig_def sample_pool_def second_def Let_def)

lemma two_requests_threads:
  "at_phase 0 (new_thread sample_login_buffer 1 []) Start two_requests"
  "at_phase 1 (new_thread sample_login_buffer 1 ''p'') Start two_requests"
  by (simp_all add: at_phase_def two_requests_def start_sys_def new_thread_def)

lemma sample_account: obtains acc where "GetAccount 1 sample_db = Ok acc"
  by (simp add: sample_db_def GetAccount_def find_account_def)

lemma two_logins:
  obtains s l1 l2 acc where "go_step\<^sup>*\<^sup>* two_requests s" "length (s_threads s) = 2"
    "th_phase (s_threads s ! 0) = LoggingIn l1 acc" "th_phase (s_threads s ! 1) = LoggingIn l2 acc"
proof -
  obtain acc where acc: "GetAccount 1 sample_db = Ok acc" using sample_account .
  let ?k1 = "lock_key 1 []" and ?k2 = "lock_key 1 ''p''"
  let ?s1 = "alone two_requests 0 (LoggingIn 0 acc) (sample_pool\<lparr>p_locks := [(?k1, 0)], p_loginSem := 1\<rparr>) [0 \<mapsto> 0] 10"
  have init: "s_pool two_requests = sample_pool" "s_held two_requests = (\<lambda>_. None)" "s_now two_requests = 10"
    by (simp_all add: two_requests_def start_sys_def)
  have none: "no_session 10 1 px (p_db (sample_pool\<lparr>p_locks := q, p_loginSem := m\<rparr>))"
    "no_session 10 1 px (p_db sample_pool)" for px q m
    by (simp_all add: no_session_def sample_pool_def sample_db_def)
  have sp: "p_locks sample_pool = []" "p_loginSem sample_pool = 0" "p_db sample_pool = sample_db"
    "MaxLoginConcurrency (p_cfg sample_pool) = 32" by (simp_all add: sample_pool_def DefaultConfig_def)
  have k: "?k1 \<noteq> ?k2" by (simp add: lock_key_inj)
  have r1: "go_step\<^sup>*\<^sup>* two_requests ?s1"
    using reach_login [OF two_requests_threads(1), of acc 0 "[(?k1, 0)]"] acc none sp
    by (simp add: init new_thread_def th_key_def lockFor_def)
  have at2: "at_phase 1 (new_thread sample_login_buffer 1 ''p'') Start ?s1"
    using two_requests_threads(2) by (simp add: at_phase_def alone_def)
  have r2: "\<exists>p h. go_step\<^sup>*\<^sup>* ?s1 (alone ?s1 1 (LoggingIn 1 acc) p h 10)"
    using reach_login [OF at2, of acc 1 "[(?k2, 1), (?k1, 0)]"] acc none sp k
    by (auto simp: new_thread_def th_key_def lockFor_def)
  then obtain p h where r2: "go_step\<^sup>*\<^sup>* ?s1 (alone ?s1 1 (LoggingIn 1 acc) p h 10)" by blast
  have ts: "length (s_threads two_requests) = 2" by (simp add: two_requests_def start_sys_def)
  have "go_step\<^sup>*\<^sup>* two_requests (alone ?s1 1 (LoggingIn 1 acc) p h 10)" using r1 r2 by (rule rtranclp_trans)
  moreover have "th_phase (s_threads (alone ?s1 1 (LoggingIn 1 acc) p h 10) ! 0) = LoggingIn 0 acc"
    "th_phase (s_threads (alone ?s1 1 (LoggingIn 1 acc) p h 10) ! 1) = LoggingIn 1 acc"
    "length (s_threads (alone ?s1 1 (LoggingIn 1 acc) p h 10)) = 2"
    using ts by (simp_all add: alone_def)
  ultimately show ?thesis using that by blast
qed

theorem logins_exclusive_witness:
  "\<exists>s l1 l2 acc. reachable_sys DefaultConfig s \<and> th_phase (s_threads s ! 0) = LoggingIn l1 acc
     \<and> th_phase (s_threads s ! 1) = LoggingIn l2 acc
     \<and> (th_account (s_threads s ! 0), th_proxy (s_threads s ! 0))
       \<noteq> (th_account (s_threads s ! 1), th_proxy (s_threads s ! 1))"
proof -
  obtain s l1 l2 acc where s: "go_step\<^sup>*\<^sup>* two_requests s" "length (s_threads s) = 2"
    "th_phase (s_threads s ! 0) = LoggingIn l1 acc" "th_phase (s_threads s ! 1) = LoggingIn l2 acc"
    using two_logins .
  note r = two_requests_reachable [OF s(1)]
  have "(th_account (s_threads s ! 0), th_proxy (s_threads s ! 0)) \<noteq> (th_account (s_threads s ! 1), th_proxy (s_threads s ! 1))"
    by (rule logins_exclusive [OF r]) (simp_all add: s(2-4) del: One_nat_def)
  with r s(3,4) show ?thesis by blast
qed

theorem logins_bounded_witness:
  "\<exists>s. reachable_sys DefaultConfig s \<and> slots_used s = 2 \<and> p_loginSem (s_pool s) = 2"
proof -
  obtain s l1 l2 acc where s: "go_step\<^sup>*\<^sup>* two_requests s" "length (s_threads s) = 2"
    "th_phase (s_threads s ! 0) = LoggingIn l1 acc" "th_phase (s_threads s ! 1) = LoggingIn l2 acc"
    using two_logins .
  then obtain t u where "s_threads s = [t, u]" by (auto simp: length_Suc_conv numeral_2_eq_2)
  with s have "slots_used s = 2" by simp
  with logins_bounded [OF two_requests_reachable [OF s(1)]] two_requests_reachable [OF s(1)] show ?thesis by auto
qed

theorem login_needed_witness:
  "\<exists>s t l st. reachable_sys DefaultConfig s \<and> at_phase 0 t (Storing l st) s
     \<and> GetSession (s_now s) (th_account t) (th_proxy t) (sys_db s) = Err ErrNoRows"
proof -
  obtain reply st where l: "loginAndSession (sample_net reply) 10 sample_login_buffer [] = Ok st"
    "storable st" using sample_login .
  obtain acc where acc: "GetAccount 1 sample_db = Ok acc" using sample_account .
  have i: "0 < length (s_threads two_requests)" by (simp add: two_requests_def start_sys_def)
  have t: "s_threads two_requests ! 0 = new_thread sample_login_buffer 1 []"
    by (simp add: two_requests_def start_sys_def)
  have "\<exists>p h. go_step\<^sup>*\<^sup>* two_requests (alone two_requests 0 (LoggingIn 0 acc) p h 10)"
    using reach_login [OF two_requests_threads(1), of acc 0 "[(lock_key 1 [], 0)]"] acc
    by (auto simp: two_requests_def start_sys_def new_thread_def th_key_def lockFor_def sample_pool_def
        no_session_def sample_db_def DefaultConfig_def)
  then obtain p h where r: "go_step\<^sup>*\<^sup>* two_requests (alone two_requests 0 (LoggingIn 0 acc) p h 10)" by blast
  have "go_step (alone two_requests 0 (LoggingIn 0 acc) p h 10) (alone two_requests 0 (GotSession 0 acc st) p h 10)"
    using logged_in [OF at_alone [OF i], where net = "sample_net reply" and st = st] l(1) t
    by (simp add: alone_moves [OF i] new_thread_def)
  moreover have "\<exists>q. go_step (alone two_requests 0 (GotSession 0 acc st) p h 10) (alone two_requests 0 (Storing 0 st) q h 10)"
    using uin_set [OF at_alone [OF i], of 0 acc st p h 10] by (auto simp: alone_moves [OF i])
  ultimately obtain q where "go_step\<^sup>*\<^sup>* two_requests (alone two_requests 0 (Storing 0 st) q h 10)"
    using r by (meson rtranclp.rtrancl_into_rtrancl)
  note re = two_requests_reachable [OF this]
  from login_needed [OF re at_alone [OF i]] re at_alone [OF i, of "Storing 0 st" q h 10] show ?thesis by blast
qed

theorem requests_progress_witness:
  "\<exists>s'. go_step two_requests s' \<and> sys_rank s' < sys_rank two_requests"
  using requests_progress [OF two_requests_reachable _ two_requests_threads(1)]
  by (simp add: with_defaults_def or_default_def DefaultConfig_def Let_def)

theorem requests_finish_witness:
  "\<exists>s'. go_step\<^sup>*\<^sup>* two_requests s' \<and> (\<forall>t \<in> set (s_threads s'). \<exists>g. th_phase t = Finished g)"
  using requests_finish [OF two_requests_reachable [OF rtranclp.rtrancl_refl]]
  by (auto simp: with_defaults_def or_default_def DefaultConfig_def Let_def)

theorem pool_state_simulated_witness:
  "\<exists>g p' s'. pool_state (sample_env [] 10) sample_login_buffer 1 [] sample_pool = (g, p')
     \<and> go_step\<^sup>*\<^sup>* two_requests s' \<and> s_pool s' = p'"
proof -
  obtain g p' where g: "pool_state (sample_env [] 10) sample_login_buffer 1 [] sample_pool = (g, p')" by fastforce
  have "mono (en_clock (sample_env [] 10))" by (simp add: sample_env_def mono_def)
  with pool_state_simulated [OF two_requests_threads(1), of "sample_env [] 10" g p'] g show ?thesis
    by (auto simp: two_requests_def start_sys_def new_thread_def sample_env_def)
qed

end
