(* ===== verification/Go_Time.thy ===== *)
theory Go_Time
  imports Go_Prelude
begin

text \<open>
  The parts of package \<open>time\<close> that the scheduler reads off an instant: month, day of the
  month, day of the week, hour and minute. An instant is its number of seconds since 1970;
  the local time zone is an argument, the offset from UTC in force at an instant.
\<close>

definition day_secs :: int where "day_secs = 86400"

text \<open>
  The day that is \<open>z\<close> days after 1970-01-01, in years that begin in March: cycles of 400,
  100, 4 and 1 years are cut off, and the last cycle of the second and of the fourth kind
  takes the day that is left over.
\<close>

definition cut4 :: "int \<Rightarrow> int" where
  "cut4 n = n - n div 4"

definition year_of_days :: "int \<Rightarrow> int \<times> int" where
  "year_of_days z =
     (let d = z + 719468;
          n400 = d div 146097; d = d - 146097 * n400;
          n100 = cut4 (d div 36524); d = d - 36524 * n100;
          n4 = d div 1461; d = d - 1461 * n4;
          n1 = cut4 (d div 365); d = d - 365 * n1 in
      (400 * n400 + 100 * n100 + 4 * n4 + n1, d))"

definition day_of_year :: "int \<Rightarrow> int" where
  "day_of_year z = snd (year_of_days z)"

definition march_month :: "int \<Rightarrow> int" where
  "march_month z = (5 * day_of_year z + 2) div 153"

definition civil_day :: "int \<Rightarrow> int" where
  "civil_day z = day_of_year z - (153 * march_month z + 2) div 5 + 1"

definition civil_month :: "int \<Rightarrow> int" where
  "civil_month z = (let mp = march_month z in if mp < 10 then mp + 3 else mp - 9)"

definition civil_year :: "int \<Rightarrow> int" where
  "civil_year z =
     fst (year_of_days z) + (if civil_month z \<le> 2 then 1 else 0)"

text \<open>1970-01-01 was a Thursday.\<close>

definition civil_weekday :: "int \<Rightarrow> int" where
  "civil_weekday z = (z + 4) mod 7"

definition local_days :: "(int \<Rightarrow> int) \<Rightarrow> int \<Rightarrow> int" where
  "local_days zone t = (t + zone t) div day_secs"

definition t_Month :: "(int \<Rightarrow> int) \<Rightarrow> int \<Rightarrow> int" where
  "t_Month zone t = civil_month (local_days zone t)"

definition t_Day :: "(int \<Rightarrow> int) \<Rightarrow> int \<Rightarrow> int" where
  "t_Day zone t = civil_day (local_days zone t)"

definition t_Weekday :: "(int \<Rightarrow> int) \<Rightarrow> int \<Rightarrow> int" where
  "t_Weekday zone t = civil_weekday (local_days zone t)"

definition t_Hour :: "(int \<Rightarrow> int) \<Rightarrow> int \<Rightarrow> int" where
  "t_Hour zone t = (t + zone t) mod day_secs div 3600"

definition t_Minute :: "(int \<Rightarrow> int) \<Rightarrow> int \<Rightarrow> int" where
  "t_Minute zone t = (t + zone t) mod 3600 div 60"

section \<open>Ranges\<close>

lemma cut4_small: "0 \<le> n \<Longrightarrow> n < 4 \<Longrightarrow> cut4 n = n" "cut4 4 = 3"
  by (simp_all add: cut4_def)

lemma cut_range:
  assumes "0 \<le> d" "d < 4 * k + 1" "0 < k"
  shows "0 \<le> d - k * cut4 (d div k) \<and> d - k * cut4 (d div k) \<le> k"
proof -
  define q where "q = d div k"
  define r where "r = d mod k"
  have d: "d = k * q + r" "0 \<le> r" "r < k" using assms(3) by (simp_all add: q_def r_def)
  have q: "0 \<le> q" using assms by (simp add: q_def pos_imp_zdiv_nonneg_iff)
  show ?thesis
  proof (cases "q < 4")
    case True
    then show ?thesis using d q by (simp add: cut4_small flip: q_def)
  next
    case False
    have "q \<le> 4"
    proof (rule ccontr)
      assume "\<not> q \<le> 4"
      then have "k * 5 \<le> k * q" using assms(3) by (intro mult_left_mono) simp_all
      with assms(2,3) d show False by linarith
    qed
    with False have "q = 4" by simp
    then show ?thesis using d assms(2) by (simp add: cut4_small flip: q_def)
  qed
qed

lemma day_of_year_range: "0 \<le> day_of_year z \<and> day_of_year z \<le> 365"
proof -
  define d1 where "d1 = z + 719468 - 146097 * ((z + 719468) div 146097)"
  define d2 where "d2 = d1 - 36524 * cut4 (d1 div 36524)"
  define d3 where "d3 = d2 - 1461 * (d2 div 1461)"
  have "d1 = (z + 719468) mod 146097" by (simp add: d1_def minus_mult_div_eq_mod)
  then have "0 \<le> d1" "d1 < 146097" by simp_all
  then have "0 \<le> d2" unfolding d2_def using cut_range [of d1 36524] by simp
  have "d3 = d2 mod 1461" by (simp add: d3_def minus_mult_div_eq_mod)
  then have "0 \<le> d3" "d3 < 1461" by simp_all
  moreover have "day_of_year z = d3 - 365 * cut4 (d3 div 365)"
    by (simp only: day_of_year_def year_of_days_def Let_def d1_def d2_def d3_def snd_conv)
  ultimately show ?thesis using cut_range [of d3 365] by simp
qed

lemma civil_ranges:
  "1 \<le> civil_month z \<and> civil_month z \<le> 12 \<and> 1 \<le> civil_day z \<and> civil_day z \<le> 31"
proof -
  define d where "d = day_of_year z"
  define m where "m = march_month z"
  define k where "k = (153 * m + 2) div 5"
  have d: "0 \<le> d" "d \<le> 365" using day_of_year_range by (simp_all add: d_def)
  have "5 * d + 2 = 153 * m + (5 * d + 2) mod 153" by (simp add: m_def march_month_def d_def)
  moreover have "0 \<le> (5 * d + 2) mod 153" "(5 * d + 2) mod 153 < 153" by simp_all
  ultimately have m: "153 * m \<le> 5 * d + 2" "5 * d + 2 < 153 * m + 153" by linarith+
  have "153 * m + 2 = 5 * k + (153 * m + 2) mod 5" by (simp add: k_def)
  moreover have "0 \<le> (153 * m + 2) mod 5" "(153 * m + 2) mod 5 < 5" by simp_all
  ultimately have k: "5 * k \<le> 153 * m + 2" "153 * m + 2 < 5 * k + 5" by linarith+
  have "0 \<le> m" "m \<le> 11" "0 \<le> d - k" "d - k \<le> 30" using d m k by linarith+
  then show ?thesis
    by (simp add: civil_month_def civil_day_def flip: m_def d_def k_def)
qed

lemma time_ranges:
  "1 \<le> t_Month zone t" "t_Month zone t \<le> 12" "1 \<le> t_Day zone t" "t_Day zone t \<le> 31"
  "0 \<le> t_Weekday zone t" "t_Weekday zone t \<le> 6" "0 \<le> t_Hour zone t" "t_Hour zone t \<le> 23"
  "0 \<le> t_Minute zone t" "t_Minute zone t \<le> 59"
proof -
  have "0 \<le> (t + zone t) mod day_secs" "(t + zone t) mod day_secs < 86400" by (simp_all add: day_secs_def)
  moreover have "0 \<le> (t + zone t) mod 3600" "(t + zone t) mod 3600 < 3600" by simp_all
  ultimately show "0 \<le> t_Hour zone t" "t_Hour zone t \<le> 23" "0 \<le> t_Minute zone t" "t_Minute zone t \<le> 59"
    unfolding t_Hour_def t_Minute_def by linarith+
  have "0 \<le> (local_days zone t + 4) mod 7" "(local_days zone t + 4) mod 7 < 7" by simp_all
  then show "0 \<le> t_Weekday zone t" "t_Weekday zone t \<le> 6"
    unfolding t_Weekday_def civil_weekday_def by linarith+
qed (simp_all add: t_Month_def t_Day_def civil_ranges)

text \<open>Two leap days and the turn of a century.\<close>

lemma civil_samples:
  "(civil_year 0, civil_month 0, civil_day 0, civil_weekday 0) = (1970, 1, 1, 4)"
  "(civil_year 11016, civil_month 11016, civil_day 11016, civil_weekday 11016) = (2000, 2, 29, 2)"
  "(civil_year 19782, civil_month 19782, civil_day 19782, civil_weekday 19782) = (2024, 2, 29, 4)"
  "(civil_year 47540, civil_month 47540, civil_day 47540, civil_weekday 47540) = (2100, 2, 28, 0)"
  "(civil_year 47541, civil_month 47541, civil_day 47541) = (2100, 3, 1)"
  by code_simp+

end
