(* ===== verification/Cron.thy ===== *)
theory Cron
  imports Go_Time Go_Path
begin

text \<open>
  Model of \<open>internal/scriptrunner/cron.go\<close>: cron expressions of five fields and the search
  for the next instant at which one fires. Instants are in seconds; \<open>zone\<close> is the local
  time zone. The error texts, which are in Chinese, are given in English.
\<close>

record cronStep =
  st_start :: int
  st_end :: int
  st_step :: int

record cronField =
  cf_min :: int
  cf_max :: int
  cf_steps :: "cronStep list"

record Schedule =
  sc_raw :: string
  sc_minutes :: cronField
  sc_hours :: cronField
  sc_days :: cronField
  sc_months :: cronField
  sc_weekdays :: cronField

definition Raw :: "Schedule \<Rightarrow> string" where
  "Raw s = sc_raw s"

section \<open>Parsing\<close>

definition empty_part_err :: go_error where "empty_part_err = Errorf ''empty part''"
definition step_err :: go_error where "step_err = Errorf ''step %q is invalid''"
definition span_err :: go_error where "span_err = Errorf ''range %q is invalid''"
definition value_err :: go_error where "value_err = Errorf ''value %q is invalid''"
definition bounds_err :: go_error where "bounds_err = Errorf ''value %d-%d is out of the range %d-%d''"

text \<open>The part before a slash and the step after it.\<close>

definition split_step :: "string \<Rightarrow> (string \<times> int) go" where
  "split_step part =
     (case str_index part ''/'' of
        None \<Rightarrow> Ok (part, 1)
      | Some i \<Rightarrow>
          (case atoi (drop (i + 1) part) of
             None \<Rightarrow> Err step_err
           | Some n \<Rightarrow> if n \<le> 0 then Err step_err else Ok (take i part, n)))"

text \<open>\<open>strings.SplitN(base, "-", 2)\<close> gives what is before and after the first hyphen.\<close>

definition parse_base :: "int \<Rightarrow> int \<Rightarrow> string \<Rightarrow> (int \<times> int) go" where
  "parse_base mn mx base =
     (if base = ''*'' \<or> base = ''?'' then Ok (mn, mx)
      else
        case str_index base ''-'' of
          Some i \<Rightarrow>
            (case (atoi (take i base), atoi (drop (i + 1) base)) of
               (Some lo, Some hi) \<Rightarrow> Ok (lo, hi)
             | _ \<Rightarrow> Err span_err)
        | None \<Rightarrow> (case atoi base of Some v \<Rightarrow> Ok (v, v) | None \<Rightarrow> Err value_err))"

definition parse_part :: "int \<Rightarrow> int \<Rightarrow> string \<Rightarrow> cronStep go" where
  "parse_part mn mx part =
     (if part = [] then Err empty_part_err
      else
        go_bind (split_step part) (\<lambda>(base, stp).
        go_bind (parse_base mn mx base) (\<lambda>(lo, hi).
        if lo < mn \<or> hi > mx \<or> lo > hi then Err bounds_err
        else Ok \<lparr>st_start = lo, st_end = hi, st_step = stp\<rparr>)))"

fun parse_parts :: "int \<Rightarrow> int \<Rightarrow> string list \<Rightarrow> cronStep list go" where
  "parse_parts mn mx [] = Ok []"
| "parse_parts mn mx (p # ps) =
     go_bind (parse_part mn mx p) (\<lambda>s. go_bind (parse_parts mn mx ps) (\<lambda>ss. Ok (s # ss)))"

definition parseCronField :: "string \<Rightarrow> int \<Rightarrow> int \<Rightarrow> cronField go" where
  "parseCronField raw mn mx =
     go_bind (parse_parts mn mx (split_on (CHR '','') raw)) (\<lambda>ss.
     Ok \<lparr>cf_min = mn, cf_max = mx, cf_steps = ss\<rparr>)"

fun wrap_err :: "string \<Rightarrow> 'a go \<Rightarrow> 'a go" where
  "wrap_err msg (Err e) = Err (Wrapf msg e)"
| "wrap_err msg g = g"

abbreviation space_sep :: "string list \<Rightarrow> string" where
  "space_sep \<equiv> join_with (CHR '' '')"

definition parseCron :: "string \<Rightarrow> Schedule go" where
  "parseCron raw =
     (let parts = str_fields raw in
      if length parts \<noteq> 5 then Err (Errorf ''cron needs 5 fields (minute hour day month weekday), such as %q'')
      else
        go_bind (wrap_err ''minute field %q is invalid: %w'' (parseCronField (parts ! 0) 0 59)) (\<lambda>mi.
        go_bind (wrap_err ''hour field %q is invalid: %w'' (parseCronField (parts ! 1) 0 23)) (\<lambda>ho.
        go_bind (wrap_err ''day field %q is invalid: %w'' (parseCronField (parts ! 2) 1 31)) (\<lambda>da.
        go_bind (wrap_err ''month field %q is invalid: %w'' (parseCronField (parts ! 3) 1 12)) (\<lambda>mo.
        go_bind (wrap_err ''weekday field %q is invalid: %w'' (parseCronField (parts ! 4) 0 6)) (\<lambda>we.
        Ok \<lparr>sc_raw = space_sep parts, sc_minutes = mi, sc_hours = ho, sc_days = da,
            sc_months = mo, sc_weekdays = we\<rparr>))))))"

section \<open>Matching\<close>

text \<open>The remainder panics for a step of 0, which the parser does not let through.\<close>

fun match_steps :: "cronStep list \<Rightarrow> int \<Rightarrow> bool go" where
  "match_steps [] v = Ok False"
| "match_steps (s # ss) v =
     (if st_start s \<le> v \<and> v \<le> st_end s then
        (if st_step s = 0 then Panic
         else if (v - st_start s) mod st_step s = 0 then Ok True else match_steps ss v)
      else match_steps ss v)"

definition field_match :: "cronField \<Rightarrow> int \<Rightarrow> bool go" where
  "field_match f v = match_steps (cf_steps f) v"

definition restricted :: "cronField \<Rightarrow> bool" where
  "restricted f =
     (case cf_steps f of
        [s] \<Rightarrow> st_start s \<noteq> cf_min f \<or> st_end s \<noteq> cf_max f \<or> st_step s \<noteq> 1
      | _ \<Rightarrow> True)"

definition matchDay :: "(int \<Rightarrow> int) \<Rightarrow> Schedule \<Rightarrow> int \<Rightarrow> bool go" where
  "matchDay zone s t =
     go_bind (field_match (sc_days s) (t_Day zone t)) (\<lambda>dayOK.
     go_bind (field_match (sc_weekdays s) (t_Weekday zone t)) (\<lambda>weekdayOK.
     Ok (if restricted (sc_days s) \<and> restricted (sc_weekdays s) then dayOK \<or> weekdayOK
         else dayOK \<and> weekdayOK)))"

definition go_and :: "bool go \<Rightarrow> bool go \<Rightarrow> bool go" where
  "go_and a b = go_bind a (\<lambda>x. if x then b else Ok False)"

definition fires :: "(int \<Rightarrow> int) \<Rightarrow> Schedule \<Rightarrow> int \<Rightarrow> bool go" where
  "fires zone s t =
     go_and (field_match (sc_months s) (t_Month zone t))
       (go_and (matchDay zone s t)
         (go_and (field_match (sc_hours s) (t_Hour zone t))
           (field_match (sc_minutes s) (t_Minute zone t))))"

section \<open>The next instant\<close>

function next_loop :: "(int \<Rightarrow> int) \<Rightarrow> Schedule \<Rightarrow> int \<Rightarrow> int \<Rightarrow> int option go" where
  "next_loop zone s limit t =
     (if t > limit then Ok None
      else go_bind (fires zone s t) (\<lambda>hit. if hit then Ok (Some t) else next_loop zone s limit (t + 60)))"
  by pat_completeness auto
termination
  by (relation "measure (\<lambda>(zone, s, limit, t). nat (limit + 1 - t))") auto

declare next_loop.simps [simp del]

definition sched_next :: "(int \<Rightarrow> int) \<Rightarrow> Schedule \<Rightarrow> int \<Rightarrow> int option go" where
  "sched_next zone s after =
     next_loop zone s (after + 366 * day_secs) (after - after mod 60 + 60)"

section \<open>What a parsed expression means\<close>

definition field_ok :: "int \<Rightarrow> int \<Rightarrow> cronField \<Rightarrow> bool" where
  "field_ok mn mx f \<longleftrightarrow> cf_min f = mn \<and> cf_max f = mx \<and> cf_steps f \<noteq> []
     \<and> (\<forall>s \<in> set (cf_steps f). mn \<le> st_start s \<and> st_start s \<le> st_end s \<and> st_end s \<le> mx \<and> 0 < st_step s)"

definition schedule_ok :: "Schedule \<Rightarrow> bool" where
  "schedule_ok s \<longleftrightarrow> field_ok 0 59 (sc_minutes s) \<and> field_ok 0 23 (sc_hours s) \<and> field_ok 1 31 (sc_days s)
     \<and> field_ok 1 12 (sc_months s) \<and> field_ok 0 6 (sc_weekdays s)"

text \<open>The values that a field stands for, and the instants that an expression stands for.\<close>

definition step_values :: "cronStep \<Rightarrow> int set" where
  "step_values s = {v. st_start s \<le> v \<and> v \<le> st_end s \<and> st_step s dvd v - st_start s}"

definition field_values :: "cronField \<Rightarrow> int set" where
  "field_values f = \<Union> (step_values ` set (cf_steps f))"

definition day_hits :: "(int \<Rightarrow> int) \<Rightarrow> Schedule \<Rightarrow> int \<Rightarrow> bool" where
  "day_hits zone s t \<longleftrightarrow>
     (let d = t_Day zone t \<in> field_values (sc_days s); w = t_Weekday zone t \<in> field_values (sc_weekdays s) in
      if restricted (sc_days s) \<and> restricted (sc_weekdays s) then d \<or> w else d \<and> w)"

definition hits :: "(int \<Rightarrow> int) \<Rightarrow> Schedule \<Rightarrow> int \<Rightarrow> bool" where
  "hits zone s t \<longleftrightarrow> t_Month zone t \<in> field_values (sc_months s) \<and> day_hits zone s t
     \<and> t_Hour zone t \<in> field_values (sc_hours s) \<and> t_Minute zone t \<in> field_values (sc_minutes s)"

lemma split_step_ok: "split_step p = Ok (b, n) \<Longrightarrow> 0 < n"
  by (auto simp: split_step_def split: option.splits if_splits)

lemma parse_part_ok:
  "parse_part mn mx p = Ok s \<Longrightarrow> mn \<le> st_start s \<and> st_start s \<le> st_end s \<and> st_end s \<le> mx \<and> 0 < st_step s"
  by (auto simp: parse_part_def go_bind_Ok_iff split: if_splits dest: split_step_ok)

lemma parse_parts_ok:
  "parse_parts mn mx ps = Ok ss \<Longrightarrow> length ss = length ps
    \<and> (\<forall>s \<in> set ss. mn \<le> st_start s \<and> st_start s \<le> st_end s \<and> st_end s \<le> mx \<and> 0 < st_step s)"
  by (induction ps arbitrary: ss) (auto simp: go_bind_Ok_iff dest!: parse_part_ok)

lemma parseCronField_ok: "parseCronField raw mn mx = Ok f \<Longrightarrow> field_ok mn mx f"
  using split_on_nonempty [of "CHR '',''" raw]
  by (auto simp: parseCronField_def go_bind_Ok_iff field_ok_def dest!: parse_parts_ok)

lemma wrap_err_Ok_iff [simp]: "wrap_err m g = Ok x \<longleftrightarrow> g = Ok x"
  by (cases g) simp_all

lemma parseCron_OkD:
  assumes "parseCron raw = Ok s"
  shows "length (str_fields raw) = 5" "sc_raw s = space_sep (str_fields raw)"
    "parseCronField (str_fields raw ! 0) 0 59 = Ok (sc_minutes s)"
    "parseCronField (str_fields raw ! 1) 0 23 = Ok (sc_hours s)"
    "parseCronField (str_fields raw ! 2) 1 31 = Ok (sc_days s)"
    "parseCronField (str_fields raw ! 3) 1 12 = Ok (sc_months s)"
    "parseCronField (str_fields raw ! 4) 0 6 = Ok (sc_weekdays s)"
  using assms by (auto simp: parseCron_def Let_def go_bind_Ok_iff split: if_splits)

lemma parseCron_ok: "parseCron raw = Ok s \<Longrightarrow> schedule_ok s"
  using parseCron_OkD(3-7) [of raw s] by (simp add: schedule_ok_def parseCronField_ok)

lemma match_steps_values:
  "\<forall>s \<in> set ss. 0 < st_step s \<Longrightarrow> match_steps ss v = Ok (v \<in> \<Union> (step_values ` set ss))"
  by (induction ss) (auto simp: step_values_def mod_eq_0_iff_dvd)

lemma field_match_values: "field_ok mn mx f \<Longrightarrow> field_match f v = Ok (v \<in> field_values f)"
  by (simp add: field_match_def field_values_def field_ok_def match_steps_values)

lemma fires_hits: "schedule_ok s \<Longrightarrow> fires zone s t = Ok (hits zone s t)"
  by (auto simp: fires_def hits_def day_hits_def go_and_def matchDay_def schedule_ok_def Let_def
      field_match_values)

section \<open>The search finds the first instant\<close>

text \<open>What a search from \<open>t\<close> up to \<open>limit\<close> should return.\<close>

inductive search_spec :: "(int \<Rightarrow> int) \<Rightarrow> Schedule \<Rightarrow> int \<Rightarrow> int \<Rightarrow> int option go \<Rightarrow> bool" where
  found: "t \<le> u \<Longrightarrow> u \<le> limit \<Longrightarrow> 60 dvd u \<Longrightarrow> hits zone s u \<Longrightarrow>
    (\<And>v. t \<le> v \<and> 60 dvd v \<Longrightarrow> v < u \<Longrightarrow> \<not> hits zone s v) \<Longrightarrow> search_spec zone s t limit (Ok (Some u))"
| not_found: "(\<And>v. t \<le> v \<and> 60 dvd v \<Longrightarrow> v \<le> limit \<Longrightarrow> \<not> hits zone s v) \<Longrightarrow> search_spec zone s t limit (Ok None)"

lemma next_minute:
  assumes "60 dvd (t :: int)" "t \<le> v" "60 dvd v"
  shows "v = t \<or> t + 60 \<le> v"
proof (cases "v = t")
  case False
  from assms(1,3) have "60 dvd v - t" by simp
  with False assms(2) have "60 \<le> v - t" by (intro zdvd_imp_le) simp_all
  then show ?thesis by simp
qed simp

lemma search_spec_skip:
  assumes "search_spec zone s (t + 60) limit r" "\<not> hits zone s t" "60 dvd t"
  shows "search_spec zone s t limit r"
  using assms(1)
proof cases
  case (found u)
  then show ?thesis
    using next_minute [OF assms(3)] assms(2) by (auto intro!: search_spec.found)
next
  case not_found
  then show ?thesis
    using next_minute [OF assms(3)] assms(2) by (auto intro!: search_spec.not_found)
qed

lemma next_loop_first:
  assumes "schedule_ok s" "60 dvd t"
  shows "search_spec zone s t limit (next_loop zone s limit t)"
  using assms
proof (induction zone s limit t rule: next_loop.induct)
  case (1 zone s limit t)
  consider "t > limit" | "t \<le> limit" "hits zone s t" | "t \<le> limit" "\<not> hits zone s t" by linarith
  then show ?case
  proof cases
    case 3
    have "search_spec zone s (t + 60) limit (next_loop zone s limit (t + 60))"
      using 3 "1.prems" by (intro "1.IH" [of False]) (simp_all add: fires_hits)
    then have "search_spec zone s t limit (next_loop zone s limit (t + 60))"
      by (rule search_spec_skip [OF _ 3(2) "1.prems"(2)])
    then show ?thesis using 3 by (simp add: next_loop.simps [of zone s limit t] fires_hits "1.prems"(1))
  qed (use "1.prems" in \<open>auto simp: next_loop.simps [of zone s limit t] fires_hits intro!: search_spec.intros\<close>)
qed

lemma minute_after:
  fixes t :: int
  shows "60 dvd t - t mod 60 + 60" "t < t - t mod 60 + 60"
    "60 dvd v \<Longrightarrow> t < v \<Longrightarrow> t - t mod 60 + 60 \<le> v"
proof -
  have d: "60 dvd t - t mod 60" by (rule dvd_minus_mod)
  then show "60 dvd t - t mod 60 + 60" by simp
  have r: "0 \<le> t mod 60" "t mod 60 < 60" by simp_all
  then show "t < t - t mod 60 + 60" by simp
  assume "60 dvd v" "t < v"
  with next_minute [OF d, of v] r show "t - t mod 60 + 60 \<le> v" by simp
qed

lemma sched_next_spec:
  "parseCron raw = Ok s \<Longrightarrow>
   search_spec zone s (after - after mod 60 + 60) (after + 366 * day_secs) (sched_next zone s after)"
  unfolding sched_next_def by (rule next_loop_first [OF parseCron_ok minute_after(1)])

lemma sched_next_after: "parseCron raw = Ok s \<Longrightarrow> sched_next zone s now = Ok (Some t) \<Longrightarrow> now < t"
  by (drule sched_next_spec [of raw s zone now]) (auto elim!: search_spec.cases simp: minute_after(2) intro: less_le_trans)

text \<open>
  C15: For every expression that is accepted, the search returns the first whole minute after
  the given instant at which the expression fires in local time, or none exactly when there
  is none within 366 days.
\<close>

theorem sched_next_first:
  assumes "parseCron raw = Ok s"
  shows "case sched_next zone s after of
      Ok (Some t) \<Rightarrow> after < t \<and> t \<le> after + 366 * day_secs \<and> 60 dvd t \<and> hits zone s t
        \<and> (\<forall>u. after < u \<and> u < t \<and> 60 dvd u \<longrightarrow> \<not> hits zone s u)
    | Ok None \<Rightarrow> \<forall>u. after < u \<and> u \<le> after + 366 * day_secs \<and> 60 dvd u \<longrightarrow> \<not> hits zone s u
    | _ \<Rightarrow> False"
proof -
  let ?t = "after - after mod 60 + 60"
  have m: "after < v \<and> 60 dvd v \<longleftrightarrow> ?t \<le> v \<and> 60 dvd v" for v
    using minute_after(2) [of after] minute_after(3) [of v after] by auto
  from sched_next_spec [OF assms, of zone after] show ?thesis
    by (cases rule: search_spec.cases) (use m in auto)
qed

section \<open>The stored text\<close>

text \<open>No white space begins inside \<open>p\<close> when \<open>rest\<close> follows it.\<close>

definition solid :: "string \<Rightarrow> string \<Rightarrow> bool" where
  "solid p rest \<longleftrightarrow> (\<forall>i < length p. strip_one space_encodings (drop i p @ rest) = None)"

lemma solid_Cons: "solid (c # p) rest \<longleftrightarrow> strip_one space_encodings (c # p @ rest) = None \<and> solid p rest"
  by (auto simp: solid_def less_Suc_eq_0_disj)

lemma solid_nil [simp]: "solid [] rest"
  by (simp add: solid_def)

lemma solid_prefix: "solid p rest \<Longrightarrow> solid p []"
  using strip_one_prefix_None by (fastforce simp: solid_def)

lemma solid_snoc: "solid p (c # s) \<Longrightarrow> strip_one space_encodings (c # s) = None \<Longrightarrow> solid (p @ [c]) s"
  by (auto simp: solid_def less_Suc_eq)

lemma fields_loop_solid: "solid cur s \<Longrightarrow> p \<in> set (fields_loop cur s) \<Longrightarrow> p \<noteq> [] \<and> solid p []"
proof (induction cur s rule: fields_loop.induct)
  case (1 cur s)
  show ?case
  proof (cases "strip_one space_encodings s")
    case (Some s')
    with 1 show ?thesis
      by (subst (asm) fields_loop.simps) (auto split: if_splits dest: solid_prefix)
  next
    case None
    show ?thesis
    proof (cases s)
      case Nil
      with 1 None show ?thesis by (subst (asm) fields_loop.simps) (auto split: if_splits dest: solid_prefix)
    next
      case (Cons c s')
      with 1 None have "solid (cur @ [c]) s'" "p \<in> set (fields_loop (cur @ [c]) s')"
        by (simp_all add: solid_snoc fields_loop.simps [of cur "c # s'"])
      with "1.IH" None Cons show ?thesis by blast
    qed
  qed
qed

lemma str_fields_solid: "p \<in> set (str_fields s) \<Longrightarrow> p \<noteq> [] \<and> solid p []"
  unfolding str_fields_def by (rule fields_loop_solid) simp_all

lemma fields_loop_take: "solid p rest \<Longrightarrow> fields_loop cur (p @ rest) = fields_loop (cur @ p) rest"
proof (induction p arbitrary: cur)
  case (Cons c p)
  then show ?case by (subst fields_loop.simps) (simp add: solid_Cons)
qed simp

lemma space_encodings_blank: "e \<in> set space_encodings \<Longrightarrow> CHR '' '' \<in> set e \<Longrightarrow> e = '' ''"
proof -
  assume e: "e \<in> set space_encodings" "CHR '' '' \<in> set e"
  have b: "(of_char (CHR '' '') :: nat) = 32" by simp
  with e(2) have "(32 :: nat) \<in> of_char ` set e" by (metis imageI)
  with space_codes [OF e(1)] have "map of_char e = [32 :: nat]" by simp
  then obtain c where "e = [c]" "(of_char c :: nat) = of_char (CHR '' '')" by (auto simp: b)
  then show "e = '' ''" by (simp only: of_char_eq_iff)
qed

lemma blank_space: "'' '' \<in> set space_encodings"
proof -
  have "(of_char (char_of (32 :: nat)) :: nat) = of_char (CHR '' '')" by simp
  then have "char_of (32 :: nat) = CHR '' ''" by (simp only: of_char_eq_iff)
  then show ?thesis by (simp add: space_encodings_def)
qed

lemma strip_one_blank: "strip_one space_encodings (CHR '' '' # rest) = Some rest"
proof -
  let ?P = "\<lambda>e. e \<noteq> [] \<and> prefix e (CHR '' '' # rest)"
  have "'' '' \<in> set space_encodings" by (rule blank_space)
  moreover have "?P '' ''" by simp
  ultimately obtain e where e: "find ?P space_encodings = Some e" by (metis (lifting) find_None_iff not_None_eq)
  then have i: "e \<in> set space_encodings" and "?P e" by (auto simp: find_Some_iff)
  from this(2) have "CHR '' '' \<in> set e" by (cases e) auto
  then have "e = '' ''" by (rule space_encodings_blank [OF i])
  with e show ?thesis by (simp add: strip_one_def)
qed

lemma strip_one_before_blank:
  assumes "q \<noteq> []" "strip_one space_encodings q = None"
  shows "strip_one space_encodings (q @ CHR '' '' # rest) = None"
proof (rule ccontr)
  assume "strip_one space_encodings (q @ CHR '' '' # rest) \<noteq> None"
  then obtain e where e: "e \<in> set space_encodings" "e \<noteq> []" "prefix e (q @ CHR '' '' # rest)"
    by (auto simp: strip_one_def find_None_iff)
  have "\<not> prefix e q" using assms(2) e by (auto simp: strip_one_def find_None_iff)
  with e(3) obtain r where "e = q @ CHR '' '' # r" by (auto simp: prefix_append prefix_Cons)
  then have "CHR '' '' \<in> set e" "length e \<noteq> 1" using assms(1) by (cases q; simp)+
  with space_encodings_blank [OF e(1)] show False by simp
qed

lemma solid_before_blank: "solid p [] \<Longrightarrow> solid p (CHR '' '' # rest)"
  by (auto simp: solid_def intro!: strip_one_before_blank)

lemma str_fields_space_sep: "\<forall>p \<in> set ps. p \<noteq> [] \<and> solid p [] \<Longrightarrow> str_fields (space_sep ps) = ps"
proof (induction "CHR '' ''" ps rule: join_with.induct)
  case (2 x)
  have "strip_one space_encodings [] = None" by (auto simp: strip_one_def find_None_iff)
  with 2 fields_loop_take [of x "[]" "[]"] show ?case
    by (simp add: str_fields_def fields_loop.simps [of _ "[]"])
next
  case (3 x y ps)
  have "str_fields (space_sep (x # y # ps)) = fields_loop x (CHR '' '' # space_sep (y # ps))"
    using fields_loop_take [OF solid_before_blank, of x "[]" "space_sep (y # ps)"] 3 by (simp add: str_fields_def)
  also have "\<dots> = x # str_fields (space_sep (y # ps))"
    using 3 by (subst fields_loop.simps) (simp add: strip_one_blank str_fields_def)
  finally show ?case using 3 by simp
next
  case 1
  show ?case by code_simp
qed

lemma parse_Raw: "parseCron raw = Ok s \<Longrightarrow> parseCron (Raw s) = parseCron raw"
proof -
  assume p: "parseCron raw = Ok s"
  have "str_fields (Raw s) = str_fields raw"
    unfolding Raw_def parseCron_OkD(2) [OF p]
    by (rule str_fields_space_sep) (use str_fields_solid in blast)
  then show ?thesis by (simp add: parseCron_def)
qed

text \<open>
  The text that a schedule keeps is accepted again and gives the same schedule: what
  \<open>SetSchedule\<close> writes, \<open>loadSchedules\<close> reads back.
\<close>

theorem cron_raw_roundtrip:
  assumes "parseCron raw = Ok s"
  shows "parseCron (Raw s) = Ok s"
  using assms by (simp add: parse_Raw)

text \<open>
  An accepted expression has in every field only values of that field, and no step of 0:
  matching never panics.
\<close>

theorem parseCron_wellformed:
  assumes "parseCron raw = Ok s"
  shows "schedule_ok s \<and> fires zone s t = Ok (hits zone s t)"
  using parseCron_ok [OF assms] fires_hits by blast

section \<open>Samples\<close>

text \<open>Fields of visible ASCII characters.\<close>

definition visible :: "string \<Rightarrow> bool" where
  "visible p \<longleftrightarrow> p \<noteq> [] \<and> list_all (\<lambda>c. 32 < (of_char c :: nat) \<and> of_char c < (128 :: nat)) p"

lemma visible_solid: "visible p \<Longrightarrow> solid p []"
proof -
  have n: "strip_one space_encodings (c # q) = None" if "32 < (of_char c :: nat)" "of_char c < (128 :: nat)" for c q
    using that space_codes by (fastforce simp: strip_one_def find_None_iff prefix_Cons)
  assume "visible p"
  then show "solid p []"
    by (auto simp: solid_def visible_def list_all_length n simp flip: Cons_nth_drop_Suc)
qed

lemma parse_visible:
  assumes "list_all visible [a, b, c, d, e]"
  shows "str_fields (space_sep [a, b, c, d, e]) = [a, b, c, d, e]"
  by (rule str_fields_space_sep) (use assms in \<open>auto simp: visible_solid visible_def\<close>)

lemma sample_fields:
  "str_fields ''32 16 * * 1-5'' = [''32'', ''16'', ''*'', ''*'', ''1-5'']"
  "str_fields ''* * * * 7'' = [''*'', ''*'', ''*'', ''*'', ''7'']"
  using parse_visible [of "''32''" "''16''" "''*''" "''*''" "''1-5''"]
    parse_visible [of "''*''" "''*''" "''*''" "''*''" "''7''"]
  by (simp_all add: visible_def)

lemma sample_field_values:
  "is_ok (parseCronField ''32'' 0 59)" "is_ok (parseCronField ''16'' 0 23)" "is_ok (parseCronField ''*'' 1 31)"
  "is_ok (parseCronField ''*'' 1 12)" "is_ok (parseCronField ''1-5'' 0 6)"
  "\<not> is_ok (parseCronField ''7'' 0 6)" "\<not> is_ok (parseCronField ''*/0'' 0 59)" "\<not> is_ok (parseCronField '','' 0 59)"
  by code_simp+

lemma is_ok_ex: "is_ok g \<longleftrightarrow> (\<exists>x. g = Ok x)"
  by (cases g) simp_all

lemma sample_cron: obtains s where "parseCron ''32 16 * * 1-5'' = Ok s"
  using sample_field_values(1-5) by (auto simp: parseCron_def sample_fields is_ok_ex)

theorem sched_next_first_witness:
  "\<exists>s. parseCron ''32 16 * * 1-5'' = Ok s
     \<and> (\<forall>t. sched_next (\<lambda>_. 28800) s 0 = Ok (Some t) \<longrightarrow> 0 < t \<and> hits (\<lambda>_. 28800) s t)"
proof -
  obtain s where s: "parseCron ''32 16 * * 1-5'' = Ok s" using sample_cron .
  with sched_next_first [OF s, where zone = "\<lambda>_. 28800" and after = 0] show ?thesis by auto
qed

theorem cron_raw_roundtrip_witness:
  "\<exists>s. parseCron ''32 16 * * 1-5'' = Ok s \<and> parseCron (Raw s) = Ok s"
proof -
  obtain s where s: "parseCron ''32 16 * * 1-5'' = Ok s" using sample_cron .
  with cron_raw_roundtrip [OF s] show ?thesis by blast
qed

theorem parseCron_wellformed_witness:
  "\<exists>s. parseCron ''32 16 * * 1-5'' = Ok s \<and> schedule_ok s"
proof -
  obtain s where s: "parseCron ''32 16 * * 1-5'' = Ok s" using sample_cron .
  with parseCron_wellformed [OF s] show ?thesis by blast
qed

end
