(* ===== verification/Runner.thy ===== *)
theory Runner
  imports Cron Go_Path Go_Json Go_State Loginbuffer "HOL-Library.AList"
begin

text \<open>
  Model of \<open>internal/scriptrunner/runner.go\<close>: the scripts, their runs, their logs and their
  schedules. The operating system is an argument where it decides (whether a file can be
  made, what a program's path is); the files of the runner are part of the state. Error
  texts are given in English. Unicode's letters and numbers beyond ASCII are a parameter.
\<close>

section \<open>Names\<close>

definition rune_value :: "bytes \<Rightarrow> nat" where
  "rune_value s =
     (case map unat s of
        [a] \<Rightarrow> a
      | [a, b] \<Rightarrow> (a mod 32) * 64 + b mod 64
      | [a, b, c] \<Rightarrow> (a mod 16) * 4096 + (b mod 64) * 64 + c mod 64
      | [a, b, c, d] \<Rightarrow> (a mod 8) * 262144 + (b mod 64) * 4096 + (c mod 64) * 64 + d mod 64
      | _ \<Rightarrow> 0)"

text \<open>The runes that a loop over a string meets; a byte that is no rune reads as U+FFFD.\<close>

function decode_runes :: "bytes \<Rightarrow> nat list" where
  "decode_runes s =
     (if s = [] then []
      else case rune_len s of
        Some n \<Rightarrow> rune_value (take n s) # decode_runes (drop n s)
      | None \<Rightarrow> 0xFFFD # decode_runes (tl s))"
  by pat_completeness auto
termination
  by (relation "measure length") (auto simp: rune_len_def split: if_splits)

declare decode_runes.simps [simp del]

definition word_rune :: "(nat \<Rightarrow> bool) \<Rightarrow> nat \<Rightarrow> bool" where
  "word_rune uni r \<longleftrightarrow>
     (if r < 128 then (48 \<le> r \<and> r \<le> 57) \<or> (65 \<le> r \<and> r \<le> 90) \<or> (97 \<le> r \<and> r \<le> 122)
      else r \<noteq> 0xFFFD \<and> uni r)"

definition name_rune :: "(nat \<Rightarrow> bool) \<Rightarrow> nat \<Rightarrow> bool" where
  "name_rune uni r \<longleftrightarrow> word_rune uni r \<or> r = 46 \<or> r = 95 \<or> r = 45"

text \<open>
  The expression \<open>validScriptName\<close>: a letter or number, at most 127 more characters, and
  the suffix \<open>.py\<close>.
\<close>

definition ValidName :: "(nat \<Rightarrow> bool) \<Rightarrow> string \<Rightarrow> bool" where
  "ValidName uni name =
     (case decode_runes (bytes_of name) of
        [] \<Rightarrow> False
      | r # rs \<Rightarrow>
          word_rune uni r \<and> suffix [46, 112, 121] rs
          \<and> length rs - 3 \<le> 127 \<and> list_all (name_rune uni) (take (length rs - 3) rs))"

section \<open>Log streams\<close>

text \<open>A subscriber's channel holds at most 256 chunks; a full one loses the next chunk.\<close>

type_synonym logStream = "(nat \<times> bytes list) list"

definition chan_cap :: nat where "chan_cap = 256"

definition subscribe :: "nat \<Rightarrow> logStream \<Rightarrow> logStream" where
  "subscribe ch s = AList.update ch [] s"

definition unsubscribe :: "nat \<Rightarrow> logStream \<Rightarrow> logStream" where
  "unsubscribe ch s = AList.delete ch s"

definition publish :: "bytes \<Rightarrow> logStream \<Rightarrow> logStream" where
  "publish p s = map (\<lambda>(ch, q). (ch, if length q < chan_cap then q @ [p] else q)) s"

text \<open>\<open>broadcastWriter.Write\<close>: \<open>n\<close> bytes reach the file, the others are lost with an error.\<close>

definition broadcast_Write :: "nat \<Rightarrow> bytes \<Rightarrow> bytes \<times> logStream \<Rightarrow> bytes \<times> logStream" where
  "broadcast_Write n p = (\<lambda>(file, s). (file @ take n p, if take n p = [] then s else publish (take n p) s))"

section \<open>State\<close>

record RunnerConfig =
  rc_ScriptsDir :: string
  rc_SdkDir :: string
  rc_LogDir :: string
  rc_PythonCommand :: string
  rc_ServerURL :: string
  rc_SecretKey :: string

record scheduleEntry =
  se_Cron :: string
  se_Next :: int

record runState =
  rs_startedAt :: int
  rs_finishedAt :: int
  rs_finished :: bool
  rs_exitCode :: int
  rs_errMsg :: string
  rs_cancelled :: bool
  rs_stream :: logStream

record script_file =
  sf_dir :: bool
  sf_Size :: int
  sf_ModTime :: int

text \<open>
  The state: every run ever made, the latest one of each script, the schedules, and the
  files. The file \<open>schedules.json\<close> is the map that it encodes, None when it is absent or
  not readable as one.
\<close>

record runner =
  r_cfg :: RunnerConfig
  r_objs :: "runState list"
  r_runs :: "(string \<times> nat) list"
  r_schedules :: "(string \<times> scheduleEntry) list"
  r_woken :: bool
  r_python :: string
  fs_scripts :: "(string \<times> script_file) list"
  fs_logs :: "(string \<times> bytes) list"
  fs_sched :: "(string \<times> scheduleEntry) list option"

record os_env =
  os_MkdirAll :: "unit go"
  os_Create :: "unit go"
  os_Remove :: "unit go"
  os_WriteFile :: "unit go"
  os_ReadFile :: "unit go"
  os_LookPath :: "string \<Rightarrow> string option"

definition run_of :: "string \<Rightarrow> runner \<Rightarrow> runState option" where
  "run_of name r = map_option (\<lambda>i. r_objs r ! i) (map_of (r_runs r) name)"

definition running :: "string \<Rightarrow> runner \<Rightarrow> bool" where
  "running name r = (case run_of name r of Some st \<Rightarrow> \<not> rs_finished st | None \<Rightarrow> False)"

definition wake :: "runner \<Rightarrow> runner" where
  "wake r = r\<lparr>r_woken := True\<rparr>"

text \<open>The first of the configured command, \<open>python\<close> and \<open>python3\<close> that is found is kept.\<close>

fun look_python :: "(string \<Rightarrow> string option) \<Rightarrow> string list \<Rightarrow> string list \<Rightarrow> string" where
  "look_python look seen [] = []"
| "look_python look seen (c # cs) =
     (let cmd = trimSpace c in
      if cmd = [] \<or> cmd \<in> set seen then look_python look seen cs
      else case look cmd of
        Some path \<Rightarrow> path
      | None \<Rightarrow> look_python look (cmd # seen) cs)"

definition Python :: "os_env \<Rightarrow> runner \<Rightarrow> string \<times> runner" where
  "Python os r =
     (if r_python r \<noteq> [] then (r_python r, r)
      else
        let p = look_python (os_LookPath os) [] [rc_PythonCommand (r_cfg r), ''python'', ''python3''] in
        (p, r\<lparr>r_python := p\<rparr>))"

section \<open>Runs\<close>

definition name_err :: go_error where "name_err = Errorf ''script name not allowed: %s''"
definition missing_err :: go_error where "missing_err = Errorf ''script does not exist: %s''"
definition python_err :: go_error where "python_err = Errorf ''no Python found''"
definition busy_err :: go_error where "busy_err = Errorf ''script is running: %s''"
definition not_running_err :: go_error where "not_running_err = Errorf ''script is not running: %s''"

definition finish :: "int \<Rightarrow> nat \<Rightarrow> int \<Rightarrow> string \<Rightarrow> runner \<Rightarrow> runner" where
  "finish now i code message r =
     r\<lparr>r_objs := (r_objs r)[i := (r_objs r ! i)\<lparr>rs_finished := True, rs_finishedAt := now,
                                                 rs_exitCode := code, rs_errMsg := message\<rparr>]\<rparr>"

definition error_text :: "go_error \<Rightarrow> string" where
  "error_text e = (case e of Errorf s \<Rightarrow> s | Wrapf s _ \<Rightarrow> s)"

definition new_run :: "int \<Rightarrow> runState" where
  "new_run now = \<lparr>rs_startedAt = now, rs_finishedAt = 0, rs_finished = False, rs_exitCode = 0,
     rs_errMsg = [], rs_cancelled = False, rs_stream = []\<rparr>"

text \<open>
  The part of \<open>RunArgs\<close> up to the start of the command; its end is a later step. The name
  is taken under the lock before any file is made.
\<close>

definition RunArgs :: "os_env \<Rightarrow> (nat \<Rightarrow> bool) \<Rightarrow> int \<Rightarrow> string \<Rightarrow> (runner, unit) act" where
  "RunArgs os uni now name r =
     (if \<not> ValidName uni name then (Err name_err, r)
      else if map_of (fs_scripts r) name = None then (Err missing_err, r)
      else
        let (python, r) = Python os r in
        if python = [] then (Err python_err, r)
        else if running name r then (Err busy_err, r)
        else
          let i = length (r_objs r);
              r = r\<lparr>r_objs := r_objs r @ [new_run now], r_runs := AList.update name i (r_runs r)\<rparr> in
          (case os_MkdirAll os of
             Err e \<Rightarrow> (Err e, finish now i (-1) (error_text e) r)
           | Panic \<Rightarrow> (Panic, r)
           | Ok _ \<Rightarrow>
               (case os_Create os of
                  Err e \<Rightarrow> (Err e, finish now i (-1) (error_text e) r)
                | Panic \<Rightarrow> (Panic, r)
                | Ok _ \<Rightarrow> (Ok (), r\<lparr>fs_logs := AList.update name [] (fs_logs r)\<rparr>))))"

text \<open>How a command ended: well, with an exit code, or with another error.\<close>

datatype command_end = Exited_ok | Exit_code int | Run_failed string

definition command_done :: "int \<Rightarrow> nat \<Rightarrow> command_end \<Rightarrow> runner \<Rightarrow> runner" where
  "command_done now i e r =
     (case e of
        Exited_ok \<Rightarrow> finish now i 0 [] r
      | _ \<Rightarrow>
          if rs_cancelled (r_objs r ! i) then finish now i (-1) ''stopped'' r
          else (case e of
                  Exit_code n \<Rightarrow> finish now i n [] r
                | Run_failed msg \<Rightarrow> finish now i (-1) msg r
                | Exited_ok \<Rightarrow> finish now i 0 [] r))"

definition StopRun :: "string \<Rightarrow> (runner, unit) act" where
  "StopRun name r =
     (case map_of (r_runs r) name of
        None \<Rightarrow> (Err not_running_err, r)
      | Some i \<Rightarrow>
          if rs_finished (r_objs r ! i) then (Err not_running_err, r)
          else (Ok (), r\<lparr>r_objs := (r_objs r)[i := (r_objs r ! i)\<lparr>rs_cancelled := True\<rparr>]\<rparr>))"

text \<open>The command writes \<open>p\<close>, of which \<open>n\<close> bytes reach the log.\<close>

definition command_write :: "nat \<Rightarrow> string \<Rightarrow> nat \<Rightarrow> bytes \<Rightarrow> runner \<Rightarrow> runner" where
  "command_write n name i p r =
     (let (file, s) = broadcast_Write n p
            (case map_of (fs_logs r) name of Some b \<Rightarrow> b | None \<Rightarrow> [], rs_stream (r_objs r ! i)) in
      r\<lparr>fs_logs := AList.update name file (fs_logs r),
        r_objs := (r_objs r)[i := (r_objs r ! i)\<lparr>rs_stream := s\<rparr>]\<rparr>)"

definition maxScriptLogTail :: nat where "maxScriptLogTail = 256 * 1024"

definition Logs :: "(nat \<Rightarrow> bool) \<Rightarrow> os_env \<Rightarrow> string \<Rightarrow> int \<Rightarrow> runner \<Rightarrow> bytes go" where
  "Logs uni os name limitBytes r =
     (if \<not> ValidName uni name then Err name_err
      else
        case map_of (fs_logs r) name of
          None \<Rightarrow> Ok []
        | Some data \<Rightarrow>
            go_bind (os_ReadFile os) (\<lambda>_.
            Ok (if limitBytes > 0 \<and> int (length data) > limitBytes
                then drop (nat (int (length data) - limitBytes)) data else data)))"

text \<open>
  \<open>Subscribe\<close> takes a channel first and reads the file afterwards; \<open>between\<close> is what the
  command does in the meantime.
\<close>

definition Subscribe ::
  "(nat \<Rightarrow> bool) \<Rightarrow> os_env \<Rightarrow> nat \<Rightarrow> (runner \<Rightarrow> runner) \<Rightarrow> string \<Rightarrow> (runner, bytes \<times> nat option) act" where
  "Subscribe uni os ch between name r =
     (if \<not> ValidName uni name then (Err name_err, r)
      else
        case map_of (r_runs r) name of
          None \<Rightarrow> (go_bind (Logs uni os name (int maxScriptLogTail) r) (\<lambda>b. Ok (b, None)), r)
        | Some i \<Rightarrow>
            if rs_finished (r_objs r ! i)
            then (go_bind (Logs uni os name (int maxScriptLogTail) r) (\<lambda>b. Ok (b, None)), r)
            else
              let add = (\<lambda>f r. r\<lparr>r_objs := (r_objs r)[i := (r_objs r ! i)\<lparr>rs_stream := f (rs_stream (r_objs r ! i))\<rparr>]\<rparr>);
                  r = between (add (subscribe ch) r) in
              (case Logs uni os name (int maxScriptLogTail) r of
                 Ok b \<Rightarrow> (Ok (b, Some i), r)
               | Err e \<Rightarrow> (Err e, add (unsubscribe ch) r)
               | Panic \<Rightarrow> (Panic, r)))"

section \<open>Schedules\<close>

definition saveSchedules :: "os_env \<Rightarrow> (runner, unit) act" where
  "saveSchedules os r =
     (case os_MkdirAll os of
        Ok _ \<Rightarrow>
          (case os_WriteFile os of
             Ok _ \<Rightarrow> (Ok (), r\<lparr>fs_sched := Some (r_schedules r)\<rparr>)
           | Err e \<Rightarrow> (Err e, r)
           | Panic \<Rightarrow> (Panic, r))
      | Err e \<Rightarrow> (Err e, r)
      | Panic \<Rightarrow> (Panic, r))"

fun load_entries :: "(nat \<Rightarrow> bool) \<Rightarrow> (string \<times> scheduleEntry) list \<Rightarrow> (string \<times> scheduleEntry) list \<Rightarrow>
  (string \<times> scheduleEntry) list" where
  "load_entries uni [] m = m"
| "load_entries uni ((name, e) # raw) m =
     load_entries uni raw
       (if ValidName uni name \<and> is_ok (parseCron (se_Cron e)) then AList.update name e m else m)"

definition loadSchedules :: "(nat \<Rightarrow> bool) \<Rightarrow> runner \<Rightarrow> runner" where
  "loadSchedules uni r =
     (case fs_sched r of
        None \<Rightarrow> r
      | Some raw \<Rightarrow> r\<lparr>r_schedules := load_entries uni raw (r_schedules r)\<rparr>)"

definition no_fire_err :: go_error where "no_fire_err = Errorf ''this cron does not fire within a year''"

definition SetSchedule ::
  "os_env \<Rightarrow> (nat \<Rightarrow> bool) \<Rightarrow> (int \<Rightarrow> int) \<Rightarrow> int \<Rightarrow> string \<Rightarrow> string \<Rightarrow> (runner, unit) act" where
  "SetSchedule os uni zone now name cron r =
     (if \<not> ValidName uni name then (Err name_err, r)
      else if map_of (fs_scripts r) name = None then (Err missing_err, r)
      else
        case parseCron cron of
          Err e \<Rightarrow> (Err e, r)
        | Panic \<Rightarrow> (Panic, r)
        | Ok schedule \<Rightarrow>
            (case sched_next zone schedule now of
               Ok (Some next) \<Rightarrow>
                 saveSchedules os (wake (r\<lparr>r_schedules :=
                   AList.update name \<lparr>se_Cron = Raw schedule, se_Next = next\<rparr> (r_schedules r)\<rparr>))
             | Ok None \<Rightarrow> (Err no_fire_err, r)
             | Err e \<Rightarrow> (Err e, r)
             | Panic \<Rightarrow> (Panic, r)))"

definition ClearSchedule :: "os_env \<Rightarrow> string \<Rightarrow> (runner, unit) act" where
  "ClearSchedule os name r =
     saveSchedules os (wake (r\<lparr>r_schedules := AList.delete name (r_schedules r)\<rparr>))"

text \<open>An error of \<open>StopRun\<close> says that the script is not running, which does not matter here.\<close>

definition Delete :: "os_env \<Rightarrow> (nat \<Rightarrow> bool) \<Rightarrow> string \<Rightarrow> (runner, unit) act" where
  "Delete os uni name r =
     (if \<not> ValidName uni name then (Err name_err, r)
      else
        case StopRun name r of (g, r) \<Rightarrow>
        if \<not> is_ok g \<and> g \<noteq> Err not_running_err then (g, r)
        else
          let present = (map_of (fs_scripts r) name \<noteq> None) in
          if present \<and> \<not> is_ok (os_Remove os) then (os_Remove os, r)
          else
            saveSchedules os (wake
              (r\<lparr>fs_scripts := AList.delete name (fs_scripts r), fs_logs := AList.delete name (fs_logs r),
                 r_schedules := AList.delete name (r_schedules r)\<rparr>)))"

section \<open>The scheduler\<close>

definition due_names :: "int \<Rightarrow> runner \<Rightarrow> string list" where
  "due_names now r =
     map fst (filter (\<lambda>(name, e). \<not> (se_Next e \<le> 0 \<or> now < se_Next e) \<and> \<not> running name r) (r_schedules r))"

text \<open>The entry of a script that was started moves to its next instant.\<close>

definition advance :: "(int \<Rightarrow> int) \<Rightarrow> int \<Rightarrow> string \<Rightarrow> runner \<Rightarrow> runner \<times> bool" where
  "advance zone now name r =
     (let entry = (case map_of (r_schedules r) name of Some e \<Rightarrow> e | None \<Rightarrow> \<lparr>se_Cron = [], se_Next = 0\<rparr>) in
      case parseCron (se_Cron entry) of
        Ok schedule \<Rightarrow>
          (case sched_next zone schedule now of
             Ok (Some next) \<Rightarrow>
               (r\<lparr>r_schedules := AList.update name (entry\<lparr>se_Next := next\<rparr>) (r_schedules r)\<rparr>, True)
           | _ \<Rightarrow> (r, False))
      | _ \<Rightarrow> (r, False))"

fun run_due :: "os_env \<Rightarrow> (nat \<Rightarrow> bool) \<Rightarrow> (int \<Rightarrow> int) \<Rightarrow> int \<Rightarrow> string list \<Rightarrow> runner \<Rightarrow> runner \<times> bool" where
  "run_due os uni zone now [] r = (r, False)"
| "run_due os uni zone now (name # names) r =
     (case RunArgs os uni now name r of
        (Ok _, r) \<Rightarrow>
          (let (r, changed) = advance zone now name r; (r, later) = run_due os uni zone now names r in
           (r, changed \<or> later))
      | (_, r) \<Rightarrow> run_due os uni zone now names r)"

definition schedulerTick :: "os_env \<Rightarrow> (nat \<Rightarrow> bool) \<Rightarrow> (int \<Rightarrow> int) \<Rightarrow> int \<Rightarrow> runner \<Rightarrow> runner" where
  "schedulerTick os uni zone now r =
     (let (r, changed) = run_due os uni zone now (due_names now r) r in
      if changed then snd (saveSchedules os r) else r)"

definition earliest_next :: "(string \<times> scheduleEntry) list \<Rightarrow> int" where
  "earliest_next m =
     foldl (\<lambda>acc (name, e). if se_Next e > 0 \<and> (acc = 0 \<or> se_Next e < acc) then se_Next e else acc) 0 m"

definition nano :: int where "nano = 10 ^ 9"

text \<open>The delay in nanoseconds; \<open>now\<close> is in nanoseconds too.\<close>

definition nextWakeDelay :: "int \<Rightarrow> runner \<Rightarrow> int" where
  "nextWakeDelay now r =
     (let maxDelay = 60 * nano; earliest = earliest_next (r_schedules r) in
      if earliest = 0 then maxDelay
      else
        let delay = earliest * nano - now in
        if delay < 0 then 0 else if delay > maxDelay then maxDelay else delay)"

text \<open>
  One turn of \<open>schedulerLoop\<close>: the tick, and how long the loop then waits unless it is
  woken; a wake-up that has come in already ends the wait at once.
\<close>

definition scheduler_turn ::
  "os_env \<Rightarrow> (nat \<Rightarrow> bool) \<Rightarrow> (int \<Rightarrow> int) \<Rightarrow> int \<Rightarrow> int \<Rightarrow> runner \<Rightarrow> int \<times> runner" where
  "scheduler_turn os uni zone now now_ns r =
     (let r = schedulerTick os uni zone now r in
      (if r_woken r then 0 else nextWakeDelay now_ns r, r\<lparr>r_woken := False\<rparr>))"

fun stop_all :: "string list \<Rightarrow> runner \<Rightarrow> runner" where
  "stop_all [] r = r"
| "stop_all (n # ns) r = stop_all ns (snd (StopRun n r))"

text \<open>\<open>Stop\<close>, after the loop has ended.\<close>

definition runner_Stop :: "runner \<Rightarrow> runner" where
  "runner_Stop r = stop_all (map fst (r_runs r)) r"

definition Start :: "(nat \<Rightarrow> bool) \<Rightarrow> runner \<Rightarrow> runner" where
  "Start uni r = loadSchedules uni r"

section \<open>The list of scripts\<close>

record Script =
  sr_Name :: string
  sr_Size :: int
  sr_UpdatedAt :: int
  sr_Running :: bool
  sr_StartedAt :: int
  sr_FinishedAt :: int
  sr_ExitCode :: "int option"
  sr_LastError :: string
  sr_Schedule :: string
  sr_NextRunAt :: int

definition script_entry :: "runner \<Rightarrow> string \<times> script_file \<Rightarrow> Script" where
  "script_entry r = (\<lambda>(name, f).
     let s = \<lparr>sr_Name = name, sr_Size = sf_Size f, sr_UpdatedAt = sf_ModTime f, sr_Running = False,
              sr_StartedAt = 0, sr_FinishedAt = 0, sr_ExitCode = None, sr_LastError = [],
              sr_Schedule = [], sr_NextRunAt = 0\<rparr>;
         s = (case run_of name r of
                None \<Rightarrow> s
              | Some st \<Rightarrow>
                  (let s = s\<lparr>sr_Running := \<not> rs_finished st, sr_StartedAt := rs_startedAt st\<rparr> in
                   if rs_finished st
                   then s\<lparr>sr_FinishedAt := rs_finishedAt st, sr_ExitCode := Some (rs_exitCode st),
                          sr_LastError := rs_errMsg st\<rparr>
                   else s)) in
     case map_of (r_schedules r) name of
       None \<Rightarrow> s
     | Some e \<Rightarrow> s\<lparr>sr_Schedule := se_Cron e, sr_NextRunAt := se_Next e\<rparr>)"

definition List_scripts :: "(nat \<Rightarrow> bool) \<Rightarrow> runner \<Rightarrow> Script list" where
  "List_scripts uni r =
     sort_key sr_Name (map (script_entry r)
       (filter (\<lambda>(name, f). \<not> sf_dir f \<and> suffix ''.py'' name \<and> ValidName uni name) (fs_scripts r)))"

definition Status :: "(nat \<Rightarrow> bool) \<Rightarrow> string \<Rightarrow> runner \<Rightarrow> Script option" where
  "Status uni name r = find (\<lambda>s. sr_Name s = name) (List_scripts uni r)"

section \<open>Paths, environment and arguments\<close>

definition ScriptPath :: "runner \<Rightarrow> string \<Rightarrow> string" where
  "ScriptPath r name = path_Join [rc_ScriptsDir (r_cfg r), name]"

text \<open>\<open>cwd\<close> is the working directory, which \<open>filepath.Abs\<close> asks for.\<close>

definition absDir :: "string go \<Rightarrow> string \<Rightarrow> string" where
  "absDir cwd path =
     (if path = [] then []
      else if path_IsAbs path then path_Clean path
      else case cwd of Ok d \<Rightarrow> path_Clean (path_Join [d, path]) | _ \<Rightarrow> path_Clean path)"

definition new_runner :: "string go \<Rightarrow> RunnerConfig \<Rightarrow> (string \<times> script_file) list \<Rightarrow>
  (string \<times> scheduleEntry) list option \<Rightarrow> runner" where
  "new_runner cwd cfg files sched =
     \<lparr>r_cfg = \<lparr>rc_ScriptsDir = absDir cwd (rc_ScriptsDir cfg), rc_SdkDir = absDir cwd (rc_SdkDir cfg),
               rc_LogDir = absDir cwd (rc_LogDir cfg), rc_PythonCommand = rc_PythonCommand cfg,
               rc_ServerURL = rc_ServerURL cfg, rc_SecretKey = rc_SecretKey cfg\<rparr>,
      r_objs = [], r_runs = [], r_schedules = [], r_woken = False, r_python = [],
      fs_scripts = files, fs_logs = [], fs_sched = sched\<rparr>"

text \<open>
  The environment of a script: \<open>environ\<close> is the server's own, \<open>sdk\<close> whether the SDK
  directory is there and \<open>pypath\<close> the value of \<open>PYTHONPATH\<close>.
\<close>

definition scriptEnv :: "RunnerConfig \<Rightarrow> string list \<Rightarrow> bool \<Rightarrow> string \<Rightarrow> string \<Rightarrow> string list \<Rightarrow> string list" where
  "scriptEnv cfg environ sdk pypath name args =
     environ
     @ (if rc_ServerURL cfg \<noteq> [] then [''YYB_SERVER='' @ rc_ServerURL cfg, ''YYB_BASE_URL='' @ rc_ServerURL cfg] else [])
     @ [''YYB_SCRIPT_NAME='' @ name, ''YYB_SCRIPTS_DIR='' @ rc_ScriptsDir cfg]
     @ (if args \<noteq> [] then [''YYB_SCRIPT_ARGS='' @ space_sep args] else [])
     @ [''PYTHONUTF8=1'', ''PYTHONIOENCODING=utf-8'', ''PYTHONUNBUFFERED=1'']
     @ (if rc_SecretKey cfg \<noteq> [] then [''YYB_SECRET_KEY='' @ rc_SecretKey cfg] else [])
     @ (if rc_SdkDir cfg \<noteq> [] \<and> sdk
        then [''PYTHONPATH='' @ rc_SdkDir cfg @ (if pypath \<noteq> [] then '':'' @ pypath else [])] else [])"

text \<open>
  The loop of \<open>SplitArgs\<close>. It goes over runes, but all that it looks for is ASCII, so the
  bytes of a longer rune are copied one by one; ill-formed UTF-8 is repaired before.
\<close>

record split_state =
  sp_args :: "string list"
  sp_cur :: string
  sp_single :: bool
  sp_double :: bool
  sp_escaped :: bool

definition sp_flush :: "split_state \<Rightarrow> split_state" where
  "sp_flush s = (if sp_cur s \<noteq> [] then s\<lparr>sp_args := sp_args s @ [sp_cur s], sp_cur := []\<rparr> else s)"

definition split_char :: "char \<Rightarrow> split_state \<Rightarrow> split_state" where
  "split_char c s =
     (if sp_escaped s then s\<lparr>sp_cur := sp_cur s @ [c], sp_escaped := False\<rparr>
      else if c = CHR 0x5C \<and> \<not> sp_single s then s\<lparr>sp_escaped := True\<rparr>
      else if c = CHR 0x27 \<and> \<not> sp_double s then s\<lparr>sp_single := \<not> sp_single s\<rparr>
      else if c = CHR 0x22 \<and> \<not> sp_single s then s\<lparr>sp_double := \<not> sp_double s\<rparr>
      else if (c = CHR '' '' \<or> c = CHR 0x09 \<or> c = CHR 0x0A \<or> c = CHR 0x0D) \<and> \<not> sp_single s \<and> \<not> sp_double s
      then sp_flush s
      else s\<lparr>sp_cur := sp_cur s @ [c]\<rparr>)"

definition split_start :: split_state where
  "split_start = \<lparr>sp_args = [], sp_cur = [], sp_single = False, sp_double = False, sp_escaped = False\<rparr>"

definition SplitArgs :: "string \<Rightarrow> string list" where
  "SplitArgs raw =
     (let raw = trimSpace raw in
      if raw = [] then []
      else
        let s = fold split_char (json_norm_string raw) split_start;
            s = (if sp_escaped s then s\<lparr>sp_cur := sp_cur s @ [CHR 0x5C]\<rparr> else s) in
        sp_args (sp_flush s))"

end
