(* ===== verification/Runner_Props.thy ===== *)
theory Runner_Props
  imports Runner
begin

text \<open>
  Correctness of the script runner: names stay inside the script directory, arguments that
  are quoted come back, a script has at most one live run, schedules survive a restart, and
  what the scheduler does with an entry that it cannot serve.
\<close>

section \<open>Names and paths\<close>

lemma rune_len_ascii: "b < 0x80 \<Longrightarrow> rune_len (b # s) = Some 1"
  by (simp add: rune_len_def)

lemma rune_value_ascii: "rune_value [b] = unat b"
  by (simp add: rune_value_def)

lemma cont_byte_ge: "cont_byte b \<Longrightarrow> 0x80 \<le> b"
  by (simp add: cont_byte_def)

text \<open>A rune of more than one byte has no byte below 128.\<close>

lemma rune_bytes_ge:
  assumes "rune_len s = Some n" "n \<noteq> 1" "x \<in> set (take n s)"
  shows "0x80 \<le> x"
proof -
  obtain a s1 where s: "s = a # s1" using assms by (cases s) (auto simp: rune_len_def)
  have a: "0x80 \<le> a" using assms(1,2) s rune_len_ascii [of a s1] by (cases "a < 0x80") auto
  consider b s2 where "n = 2" "s1 = b # s2" "utf8_valid [a, b]"
    | b c s2 where "n = 3" "s1 = b # c # s2" "utf8_valid [a, b, c]" "\<not> utf8_valid [a, b]"
    | b c d s2 where "n = 4" "s1 = b # c # d # s2" "utf8_valid [a, b, c, d]" "\<not> utf8_valid [a, b]" "\<not> utf8_valid [a, b, c]"
    using assms(1,2) s
    by (auto simp: rune_len_def Suc_le_length_iff numeral_eq_Suc simp del: utf8_valid.simps split: if_splits)
  then show ?thesis
    by cases (use a s assms(3) in \<open>auto simp: numeral_eq_Suc not_less cont_byte_ge split: if_splits\<close>)
qed

lemma ascii_byte_rune: "b \<in> set s \<Longrightarrow> b < 0x80 \<Longrightarrow> unat b \<in> set (decode_runes s)"
proof (induction s rule: decode_runes.induct)
  case (1 s)
  from "1.prems"(1) obtain a s1 where s: "s = a # s1" by (cases s) auto
  show ?case
  proof (cases "rune_len s")
    case None
    with s have "\<not> a < 0x80" using rune_len_ascii by auto
    with "1.prems" s have "b \<in> set (tl s)" by auto
    with "1.IH"(1) None s "1.prems"(2) show ?thesis by (subst decode_runes.simps) simp
  next
    case (Some n)
    have n: "0 < n" using Some by (auto simp: rune_len_def split: if_splits)
    show ?thesis
    proof (cases "b \<in> set (take n s)")
      case True
      then have "n = 1" using rune_bytes_ge [OF Some _ True] "1.prems"(2) by (meson leD)
      with True s have "b = a" by simp
      then show ?thesis using s Some \<open>n = 1\<close> by (subst decode_runes.simps) (simp add: rune_value_ascii)
    next
      case False
      then have "b \<in> set (drop n s)" using "1.prems"(1) by (metis UnE append_take_drop_id set_append)
      with "1.IH"(2) Some s "1.prems"(2) show ?thesis by (subst decode_runes.simps) simp
    qed
  qed
qed

lemma decode_runes_nonempty: "s \<noteq> [] \<Longrightarrow> decode_runes s \<noteq> []"
  by (subst decode_runes.simps) (simp split: option.split)

lemma ValidName_runes:
  assumes "ValidName uni name" "r \<in> set (decode_runes (bytes_of name))"
  shows "name_rune uni r"
proof -
  from assms(1) obtain r0 rs where d: "decode_runes (bytes_of name) = r0 # rs" "word_rune uni r0"
    "suffix [46, 112, 121] rs" "list_all (name_rune uni) (take (length rs - 3) rs)"
    by (auto simp: ValidName_def split: list.splits)
  from d(3) obtain zs where zs: "rs = zs @ [46, 112, 121]" by (auto simp: suffix_def)
  with d(4) assms(2) d(1,2) show ?thesis by (auto simp: list_all_iff name_rune_def word_rune_def)
qed

lemma ValidName_chars:
  assumes "ValidName uni name" "c \<in> set name"
  shows "of_char c \<ge> (128 :: nat) \<or> name_rune uni (of_char c)"
proof (cases "of_char c < (128 :: nat)")
  case True
  have "(of_char c :: byte) \<in> set (bytes_of name)" using assms(2) by (simp add: bytes_of_def)
  from ascii_byte_rune [OF this ascii_byte [OF True]]
  have "unat (of_char c :: byte) \<in> set (decode_runes (bytes_of name))" .
  moreover have "unat (of_char c :: byte) = of_char c" using True by (simp add: of_char_word unat_of_nat)
  ultimately show ?thesis using ValidName_runes [OF assms(1)] by simp
qed simp

lemma ValidName_plain:
  assumes "ValidName uni name"
  shows "plain_element name" "CHR 0x5C \<notin> set name" "CHR 0x00 \<notin> set name"
proof -
  have bad: "c \<notin> set name" if "of_char c < (128 :: nat)" "\<not> name_rune uni (of_char c)" for c
    using ValidName_chars [OF assms, of c] that by auto
  have "CHR ''/'' \<notin> set name" "CHR 0x5C \<notin> set name" "CHR 0x00 \<notin> set name"
    by (rule bad; simp add: name_rune_def word_rune_def)+
  moreover have "name \<noteq> []"
    using assms by (auto simp: ValidName_def bytes_of_def decode_runes.simps)
  moreover have "name \<noteq> ''.'' \<and> name \<noteq> ''..''"
  proof -
    have "hd name = CHR ''.'' \<Longrightarrow> False"
    proof -
      assume h: "hd name = CHR ''.''"
      with \<open>name \<noteq> []\<close> obtain s where "name = CHR ''.'' # s" by (cases name) auto
      then have "bytes_of name = 0x2E # bytes_of s" by (simp add: bytes_of_def)
      then have "\<exists>rs. decode_runes (bytes_of name) = 46 # rs"
        by (subst decode_runes.simps) (simp add: rune_len_ascii rune_value_ascii)
      with assms show False by (auto simp: ValidName_def word_rune_def)
    qed
    then show ?thesis by auto
  qed
  ultimately show "plain_element name" "CHR 0x5C \<notin> set name" "CHR 0x00 \<notin> set name"
    by (simp_all add: plain_element_def)
qed

lemma takeWhile_without: "c \<notin> set ys \<Longrightarrow> takeWhile (\<lambda>x. x \<noteq> c) ys = ys"
  by (induction ys) auto


section \<open>Arguments\<close>

text \<open>Double quotes around an argument, with a backslash before each quote and backslash.\<close>

definition escape_char :: "char \<Rightarrow> string" where
  "escape_char c = (if c = CHR 0x22 \<or> c = CHR 0x5C then [CHR 0x5C, c] else [c])"

definition quote_arg :: "string \<Rightarrow> string" where
  "quote_arg a = CHR 0x22 # concat (map escape_char a) @ [CHR 0x22]"

definition between_args :: "string list \<Rightarrow> split_state" where
  "between_args as = \<lparr>sp_args = as, sp_cur = [], sp_single = False, sp_double = False, sp_escaped = False\<rparr>"

definition inside_arg :: "string list \<Rightarrow> string \<Rightarrow> split_state" where
  "inside_arg as cur = \<lparr>sp_args = as, sp_cur = cur, sp_single = False, sp_double = True, sp_escaped = False\<rparr>"

lemma fold_escaped: "fold split_char (concat (map escape_char a)) (inside_arg as cur) = inside_arg as (cur @ a)"
proof (induction a arbitrary: cur)
  case (Cons c a)
  have "fold split_char (escape_char c) (inside_arg as cur) = inside_arg as (cur @ [c])"
    by (auto simp: escape_char_def split_char_def inside_arg_def)
  with Cons show ?case by simp
qed simp

lemma fold_quoted:
  "fold split_char (quote_arg a) (between_args as) = (between_args as)\<lparr>sp_cur := a\<rparr>"
proof -
  have "split_char (CHR 0x22) (between_args as) = inside_arg as []"
    by (simp add: split_char_def between_args_def inside_arg_def)
  moreover have "split_char (CHR 0x22) (inside_arg as a) = (between_args as)\<lparr>sp_cur := a\<rparr>"
    by (simp add: split_char_def between_args_def inside_arg_def)
  ultimately show ?thesis using fold_escaped [of a as "[]"] by (simp add: quote_arg_def)
qed

lemma fold_args:
  "\<forall>a \<in> set qs. a \<noteq> [] \<Longrightarrow> a \<noteq> [] \<Longrightarrow>
   sp_flush (fold split_char (space_sep (map quote_arg (a # qs))) (between_args as)) = between_args (as @ a # qs)
   \<and> \<not> sp_escaped (fold split_char (space_sep (map quote_arg (a # qs))) (between_args as))"
proof (induction qs arbitrary: a as)
  case Nil
  then show ?case by (simp add: fold_quoted) (simp add: sp_flush_def between_args_def)
next
  case (Cons b qs)
  have "split_char (CHR '' '') ((between_args as)\<lparr>sp_cur := a\<rparr>) = between_args (as @ [a])"
    using Cons.prems by (simp add: split_char_def between_args_def sp_flush_def)
  then show ?case
    using Cons.IH [of b "as @ [a]"] Cons.prems by (simp add: fold_quoted)
qed

lemma trimSpace_quoted: "trimSpace (CHR 0x22 # s @ [CHR 0x22]) = CHR 0x22 # s @ [CHR 0x22]"
  by (rule trimSpace_solid) simp_all

lemma space_sep_ends: "\<exists>s. space_sep (map quote_arg (a # qs)) = CHR 0x22 # s @ [CHR 0x22]"
proof (induction qs arbitrary: a)
  case Nil
  show ?case by (auto simp: quote_arg_def)
next
  case (Cons b qs)
  from Cons.IH [of b] obtain s where "space_sep (map quote_arg (b # qs)) = CHR 0x22 # s @ [CHR 0x22]" by blast
  then have "space_sep (map quote_arg (a # b # qs)) = CHR 0x22 # (concat (map escape_char a) @ CHR 0x22 # CHR '' '' # CHR 0x22 # s) @ [CHR 0x22]"
    by (simp add: quote_arg_def [of a])
  then show ?case by blast
qed

text \<open>Arguments that are not empty and are written in double quotes, with a backslash before
  every quote and backslash, come back as they were, whatever blanks they hold.\<close>

theorem SplitArgs_quoted:
  assumes "[] \<notin> set qs" "json_norm_string (space_sep (map quote_arg qs)) = space_sep (map quote_arg qs)"
  shows "SplitArgs (space_sep (map quote_arg qs)) = qs"
proof (cases qs)
  case Nil
  then show ?thesis by (simp add: SplitArgs_def trimSpace_def trim_right_def trim_left_id strip_one_nil)
next
  case (Cons a ps)
  let ?raw = "space_sep (map quote_arg qs)"
  obtain s where "?raw = CHR 0x22 # s @ [CHR 0x22]" using space_sep_ends [of a ps] Cons by auto
  then have t: "trimSpace ?raw = ?raw" "?raw \<noteq> []" by (simp_all add: trimSpace_quoted)
  have "split_start = between_args []" by (simp add: split_start_def between_args_def)
  moreover have "\<forall>b \<in> set ps. b \<noteq> []" "a \<noteq> []" using assms(1) Cons by auto
  ultimately have "sp_flush (fold split_char ?raw split_start) = between_args qs \<and> \<not> sp_escaped (fold split_char ?raw split_start)"
    using fold_args [of ps a "[]"] Cons by simp
  then show ?thesis using t assms(2) by (simp add: SplitArgs_def between_args_def)
qed

theorem SplitArgs_quoted_witness: "SplitArgs (space_sep (map quote_arg [''a b'', ''c''])) = [''a b'', ''c'']"
  by (rule SplitArgs_quoted, simp, rule json_norm_ascii) (simp add: quote_arg_def escape_char_def)

text \<open>
  A shell passes an empty argument in quotes on; this loop drops it.
\<close>

lemma SplitArgs_drops_empty: "SplitArgs [CHR ''a'', CHR '' '', CHR 0x22, CHR 0x22, CHR '' '', CHR ''b''] = [''a'', ''b'']"
proof -
  let ?s = "[CHR ''a'', CHR '' '', CHR 0x22, CHR 0x22, CHR '' '', CHR ''b'']"
  have "trimSpace ?s = ?s" by (rule trimSpace_solid) simp_all
  moreover have "json_norm_string ?s = ?s" by code_simp
  ultimately show ?thesis
    by (simp add: SplitArgs_def split_char_def split_start_def sp_flush_def)
qed

section \<open>One live run for each script\<close>

definition runs_ok :: "runner \<Rightarrow> bool" where
  "runs_ok r \<longleftrightarrow> distinct (map fst (r_runs r)) \<and> distinct (map snd (r_runs r))
     \<and> (\<forall>i \<in> set (map snd (r_runs r)). i < length (r_objs r))
     \<and> (\<forall>i < length (r_objs r). \<not> rs_finished (r_objs r ! i) \<longrightarrow> i \<in> set (map snd (r_runs r)))"

text \<open>What every operation but the start of a run does to the runs.\<close>

definition runs_kept :: "runner \<Rightarrow> runner \<Rightarrow> bool" where
  "runs_kept r r' \<longleftrightarrow> r_runs r' = r_runs r \<and> length (r_objs r') = length (r_objs r)
     \<and> (\<forall>i < length (r_objs r). rs_finished (r_objs r ! i) \<longrightarrow> rs_finished (r_objs r' ! i))"

lemma runs_kept_refl [simp]: "runs_kept r r"
  by (simp add: runs_kept_def)

lemma runs_kept_trans: "runs_kept r s \<Longrightarrow> runs_kept s t \<Longrightarrow> runs_kept r t"
  by (simp add: runs_kept_def)

lemma runs_kept_ok: "runs_kept r r' \<Longrightarrow> runs_ok r \<Longrightarrow> runs_ok r'"
  by (auto simp: runs_kept_def runs_ok_def)

lemma runs_kept_same [simp]: "r_runs r' = r_runs r \<Longrightarrow> r_objs r' = r_objs r \<Longrightarrow> runs_kept r r'"
  by (simp add: runs_kept_def)

lemma nth_update_cases: "j < length xs \<Longrightarrow> xs[i := x] ! j = (if i = j then x else xs ! j)"
  by simp

lemma runs_kept_update:
  "(rs_finished (r_objs r ! i) \<Longrightarrow> rs_finished x) \<Longrightarrow> runs_kept r (r\<lparr>r_objs := (r_objs r)[i := x]\<rparr>)"
  by (auto simp: runs_kept_def nth_update_cases)

lemma finish_kept: "runs_kept r (finish now i code msg r)"
  unfolding finish_def by (rule runs_kept_update) simp

lemma command_done_kept: "runs_kept r (command_done now i e r)"
  by (simp add: command_done_def finish_kept split: command_end.split)

lemma command_write_kept: "runs_kept r (command_write n name i p r)"
  by (auto simp: command_write_def runs_kept_def nth_update_cases split: prod.split)

lemma StopRun_kept: "runs_kept r (snd (StopRun name r))"
  by (auto simp: StopRun_def intro: runs_kept_update split: option.split)

lemma stop_all_kept: "runs_kept r (stop_all ns r)"
  by (induction ns arbitrary: r) (auto intro: runs_kept_trans StopRun_kept)

lemma saveSchedules_kept: "runs_kept r (snd (saveSchedules os r))"
  by (simp add: saveSchedules_def split: go.split)

lemma same_saved: "r_runs r' = r_runs r \<Longrightarrow> r_objs r' = r_objs r \<Longrightarrow> runs_kept r (snd (saveSchedules os r'))"
  by (rule runs_kept_trans [OF runs_kept_same saveSchedules_kept])

lemma SetSchedule_kept: "runs_kept r (snd (SetSchedule os uni zone now name cron r))"
  by (auto simp: SetSchedule_def wake_def same_saved split: go.split option.split)

lemma ClearSchedule_kept: "runs_kept r (snd (ClearSchedule os name r))"
  by (simp add: ClearSchedule_def wake_def same_saved)

lemma Delete_kept: "runs_kept r (snd (Delete os uni name r))"
proof -
  obtain g r' where s: "StopRun name r = (g, r')" by (cases "StopRun name r")
  then have k: "runs_kept r r'" using StopRun_kept [of r name] by simp
  show ?thesis
    by (auto simp: Delete_def s wake_def Let_def k intro!: runs_kept_trans [OF k] same_saved)
qed

lemma Python_runs: "Python os r = (p, r') \<Longrightarrow> r_runs r' = r_runs r \<and> r_objs r' = r_objs r"
  by (auto simp: Python_def Let_def split: if_splits)

lemma update_values:
  "distinct (map snd m) \<Longrightarrow> k \<notin> set (map snd m) \<Longrightarrow> distinct (map fst m) \<Longrightarrow>
   distinct (map snd (AList.update name k m))
   \<and> set (map snd (AList.update name k m)) = insert k (set (map snd m) - set_option (map_of m name))"
proof (induction m)
  case (Cons p m)
  obtain a b where p: "p = (a, b)" by (cases p)
  have n: "map_of m a = None" using Cons.prems p by (auto simp: map_of_eq_None_iff)
  have i: "v \<in> snd ` set m" if "map_of m name = Some v" for v using that by (force dest: map_of_SomeD)
  show ?case
  proof (cases "name = a")
    case True
    then show ?thesis using Cons.prems p n by auto
  next
    case False
    moreover from this Cons p have "distinct (map snd (AList.update name k m))
       \<and> set (map snd (AList.update name k m)) = insert k (set (map snd m) - set_option (map_of m name))" by simp
    ultimately show ?thesis using Cons.prems p i by (cases "map_of m name") auto
  qed
qed simp

lemma new_run_ok:
  assumes ok: "runs_ok r" and idle: "\<not> running name r"
  shows "runs_ok (r\<lparr>r_objs := r_objs r @ [new_run now], r_runs := AList.update name (length (r_objs r)) (r_runs r)\<rparr>)"
    (is "runs_ok ?r")
proof -
  let ?n = "length (r_objs r)"
  have d: "distinct (map fst (r_runs r))" and less: "\<And>i. i \<in> set (map snd (r_runs r)) \<Longrightarrow> i < ?n"
    using ok by (auto simp: runs_ok_def)
  have fresh: "?n \<notin> set (map snd (r_runs r))" using less by blast
  have new: "distinct (map snd (r_runs ?r))"
    "set (map snd (r_runs ?r)) = insert ?n (set (map snd (r_runs r)) - set_option (map_of (r_runs r) name))"
    using update_values [of "r_runs r" ?n name] fresh ok by (simp_all add: runs_ok_def)
  have "rs_finished (r_objs r ! i)" if "map_of (r_runs r) name = Some i" for i
    using idle that by (simp add: running_def run_of_def)
  with new ok show ?thesis
    by (auto simp: runs_ok_def distinct_update nth_append less_Suc_eq new_run_def)
qed

lemma RunArgs_ok:
  assumes "runs_ok r"
  shows "runs_ok (snd (RunArgs os uni now name r))"
proof -
  obtain p r1 where py: "Python os r = (p, r1)" by (cases "Python os r")
  then have ok: "runs_ok r1" and r: "running name r1 = running name r"
    using Python_runs [OF py] assms by (auto simp: runs_ok_def running_def run_of_def)
  let ?r = "r1\<lparr>r_objs := r_objs r1 @ [new_run now], r_runs := AList.update name (length (r_objs r1)) (r_runs r1)\<rparr>"
  have new: "runs_ok ?r" if "\<not> running name r1" by (rule new_run_ok [OF ok that])
  have "runs_ok (?r\<lparr>fs_logs := l\<rparr>)" if "\<not> running name r1" for l
    using new [OF that] by (simp add: runs_ok_def)
  with new ok assms show ?thesis
    by (auto simp: RunArgs_def py Let_def intro: runs_kept_ok [OF finish_kept] split: go.split)
qed

lemma advance_frame: "advance zone now name r = (r', b) \<Longrightarrow> r_runs r' = r_runs r \<and> r_objs r' = r_objs r"
  by (auto simp: advance_def Let_def split: go.splits option.splits)

lemma run_due_ok: "runs_ok r \<Longrightarrow> runs_ok (fst (run_due os uni zone now ns r))"
proof (induction ns arbitrary: r)
  case (Cons n ns)
  obtain g r1 where run: "RunArgs os uni now n r = (g, r1)" by (cases "RunArgs os uni now n r")
  with RunArgs_ok [OF Cons.prems, of os uni now n] have ok: "runs_ok r1" by simp
  obtain r2 b where adv: "advance zone now n r1 = (r2, b)" by (cases "advance zone now n r1")
  with ok have "runs_ok r2" using advance_frame [OF adv] by (simp add: runs_ok_def)
  obtain r3 c where later: "run_due os uni zone now ns r2 = (r3, c)" by (cases "run_due os uni zone now ns r2")
  with Cons.IH [OF \<open>runs_ok r2\<close>] ok Cons.IH show ?case by (simp add: run adv split: go.split)
qed simp

lemma schedulerTick_ok: "runs_ok r \<Longrightarrow> runs_ok (schedulerTick os uni zone now r)"
  using run_due_ok [of r os uni zone now "due_names now r"]
  by (auto simp: schedulerTick_def split: prod.split intro: runs_kept_ok [OF saveSchedules_kept])

lemma new_runner_ok: "runs_ok (new_runner cwd cfg files sched)"
  by (simp add: runs_ok_def new_runner_def)

lemma Start_kept: "runs_kept r (Start uni r)"
  by (simp add: Start_def loadSchedules_def split: option.split)

text \<open>
  What happens to a runner: calls from the handlers, turns of the scheduler, and the command
  of a live run that writes or ends. A call is one step, since it holds the mutex.
\<close>

inductive runner_step :: "os_env \<Rightarrow> (nat \<Rightarrow> bool) \<Rightarrow> (int \<Rightarrow> int) \<Rightarrow> runner \<Rightarrow> runner \<Rightarrow> bool"
  for os uni zone where
  run: "runner_step os uni zone r (snd (RunArgs os uni now name r))"
| stop: "runner_step os uni zone r (snd (StopRun name r))"
| writes: "i < length (r_objs r) \<Longrightarrow> \<not> rs_finished (r_objs r ! i) \<Longrightarrow>
    runner_step os uni zone r (command_write n name i p r)"
| ends: "i < length (r_objs r) \<Longrightarrow> \<not> rs_finished (r_objs r ! i) \<Longrightarrow>
    runner_step os uni zone r (command_done now i e r)"
| set_schedule: "runner_step os uni zone r (snd (SetSchedule os uni zone now name cron r))"
| clear_schedule: "runner_step os uni zone r (snd (ClearSchedule os name r))"
| delete: "runner_step os uni zone r (snd (Delete os uni name r))"
| turn: "runner_step os uni zone r (snd (scheduler_turn os uni zone now now_ns r))"
| shutdown: "runner_step os uni zone r (runner_Stop r)"
| new_script: "runner_step os uni zone r (r\<lparr>fs_scripts := AList.update name f (fs_scripts r)\<rparr>)"

inductive_cases runner_stepE: "runner_step os uni zone r r'"

lemma runner_step_ok: "runner_step os uni zone r r' \<Longrightarrow> runs_ok r \<Longrightarrow> runs_ok r'"
proof (erule runner_stepE)
  fix now now_ns
  assume "r' = snd (scheduler_turn os uni zone now now_ns r)" "runs_ok r"
  then show "runs_ok r'"
    using schedulerTick_ok [of r os uni zone now] by (simp add: scheduler_turn_def Let_def runs_ok_def)
next
  fix name f
  assume "r' = r\<lparr>fs_scripts := AList.update name f (fs_scripts r)\<rparr>" "runs_ok r"
  then show "runs_ok r'" by (simp add: runs_ok_def)
qed (auto intro: RunArgs_ok runs_kept_ok StopRun_kept command_write_kept command_done_kept
      SetSchedule_kept ClearSchedule_kept Delete_kept stop_all_kept simp: runner_Stop_def)

lemma runner_steps_ok: "(runner_step os uni zone)\<^sup>*\<^sup>* r r' \<Longrightarrow> runs_ok r \<Longrightarrow> runs_ok r'"
  by (induction rule: rtranclp_induct) (auto intro: runner_step_ok)

lemma started_ok: "runs_ok (Start uni (new_runner cwd cfg files sched))"
  by (rule runs_kept_ok [OF Start_kept new_runner_ok])

text \<open>C8: However calls, scheduler and commands interleave, a run that has not ended is the
  current run of exactly one script: a script never has two live runs, and no run is
  forgotten while its command lives, so it can always be stopped.\<close>

theorem one_live_run:
  assumes "(runner_step os uni zone)\<^sup>*\<^sup>* (Start uni (new_runner cwd cfg files sched)) r"
    and "i < length (r_objs r)" "\<not> rs_finished (r_objs r ! i)"
  shows "\<exists>!name. map_of (r_runs r) name = Some i"
proof -
  have ok: "runs_ok r" by (rule runner_steps_ok [OF assms(1) started_ok])
  then have d: "distinct (map fst (r_runs r))" "distinct (map snd (r_runs r))" by (simp_all add: runs_ok_def)
  from ok assms(2,3) obtain name where "(name, i) \<in> set (r_runs r)" by (auto simp: runs_ok_def)
  moreover have "a = b" if "(a, i) \<in> set (r_runs r)" "(b, i) \<in> set (r_runs r)" for a b
    using inj_onD [of snd "set (r_runs r)" "(a, i)" "(b, i)"] d(2) that by (simp add: distinct_map)
  ultimately show ?thesis using d(1) by (auto simp: map_of_eq_Some_iff)
qed

section \<open>Schedules\<close>

definition schedules_ok :: "(nat \<Rightarrow> bool) \<Rightarrow> (string \<times> scheduleEntry) list \<Rightarrow> bool" where
  "schedules_ok uni m \<longleftrightarrow> distinct (map fst m)
     \<and> (\<forall>(name, e) \<in> set m. ValidName uni name \<and> is_ok (parseCron (se_Cron e)))"

lemma update_in: "(a, b) \<in> set (AList.update k v m) \<Longrightarrow> (a, b) = (k, v) \<or> (a, b) \<in> set m"
  by (induction m) (auto split: if_splits)

lemma schedules_update:
  "schedules_ok uni m \<Longrightarrow> ValidName uni name \<Longrightarrow> is_ok (parseCron (se_Cron e)) \<Longrightarrow>
   schedules_ok uni (AList.update name e m)"
  using update_in by (fastforce simp: schedules_ok_def distinct_update)

lemma schedules_delete: "schedules_ok uni m \<Longrightarrow> schedules_ok uni (AList.delete name m)"
  by (auto simp: schedules_ok_def AList.delete_eq distinct_map_filter)

lemma update_fresh: "k \<notin> fst ` set m \<Longrightarrow> AList.update k v m = m @ [(k, v)]"
  by (induction m) auto

lemma load_entries_ok: "schedules_ok uni m \<Longrightarrow> schedules_ok uni (load_entries uni raw m)"
  by (induction uni raw m rule: load_entries.induct) (auto simp: schedules_update)

lemma load_entries_all:
  "schedules_ok uni raw \<Longrightarrow> fst ` set m \<inter> fst ` set raw = {} \<Longrightarrow> load_entries uni raw m = m @ raw"
proof (induction uni raw m rule: load_entries.induct)
  case (2 uni name e raw m)
  have "AList.update name e m = m @ [(name, e)]"
    using "2.prems"(2) by (intro update_fresh) auto
  with 2 show ?case by (auto simp: schedules_ok_def)
qed simp

lemma saveSchedules_frame:
  "saveSchedules os r = (g, r') \<Longrightarrow> r_schedules r' = r_schedules r \<and> (g = Ok () \<longrightarrow> fs_sched r' = Some (r_schedules r))"
  by (auto simp: saveSchedules_def split: go.splits)

lemma saveSchedules_schedules [simp]: "r_schedules (snd (saveSchedules os r)) = r_schedules r"
  using saveSchedules_frame [of os r] by (cases "saveSchedules os r") simp

lemma saveSchedules_running: "running name (snd (saveSchedules os r)) = running name r"
proof -
  have "r_runs (snd (saveSchedules os r)) = r_runs r \<and> r_objs (snd (saveSchedules os r)) = r_objs r"
    by (simp add: saveSchedules_def split: go.split)
  then show ?thesis by (simp add: running_def run_of_def)
qed

lemma finish_frame [simp]: "r_schedules (finish now i c m r) = r_schedules r" "fs_scripts (finish now i c m r) = fs_scripts r"
  "r_runs (finish now i c m r) = r_runs r" "r_cfg (finish now i c m r) = r_cfg r" "r_python (finish now i c m r) = r_python r"
  by (simp_all add: finish_def)

lemma Python_frame: "Python os r = (p, r') \<Longrightarrow> r_schedules r' = r_schedules r \<and> fs_scripts r' = fs_scripts r \<and> r_cfg r' = r_cfg r"
  by (auto simp: Python_def Let_def split: if_splits)

lemma RunArgs_frame: "r_schedules (snd (RunArgs os uni now name r)) = r_schedules r"
  by (auto simp: RunArgs_def Let_def dest: Python_frame split: prod.split go.split)

lemma StopRun_frame: "r_schedules (snd (StopRun name r)) = r_schedules r"
  by (simp add: StopRun_def split: option.split)

lemma stop_all_frame: "r_schedules (stop_all ns r) = r_schedules r"
  by (induction ns arbitrary: r) (simp_all add: StopRun_frame)

lemma advance_ok: "schedules_ok uni (r_schedules r) \<Longrightarrow> schedules_ok uni (r_schedules (fst (advance zone now name r)))"
  (is "?ok \<Longrightarrow> ?goal")
proof -
  assume ok: ?ok
  show ?goal
  proof (cases "map_of (r_schedules r) name")
    case None
    have "\<not> is_ok (parseCron [])" by code_simp
    with None ok show ?thesis by (auto simp: advance_def Let_def split: go.split)
  next
    case (Some e)
    then have "ValidName uni name" "is_ok (parseCron (se_Cron e))"
      using ok map_of_SomeD [OF Some] by (auto simp: schedules_ok_def)
    with Some ok show ?thesis by (auto simp: advance_def Let_def schedules_update split: go.split option.split)
  qed
qed

lemma run_due_schedules:
  "schedules_ok uni (r_schedules r) \<Longrightarrow> schedules_ok uni (r_schedules (fst (run_due os uni zone now ns r)))"
proof (induction ns arbitrary: r)
  case (Cons n ns)
  obtain g r1 where run: "RunArgs os uni now n r = (g, r1)" by (cases "RunArgs os uni now n r")
  with RunArgs_frame [of os uni now n r] Cons.prems have ok: "schedules_ok uni (r_schedules r1)" by simp
  obtain r2 b where adv: "advance zone now n r1 = (r2, b)" by (cases "advance zone now n r1")
  then have ok2: "schedules_ok uni (r_schedules r2)" using advance_ok [OF ok, of zone now n] by simp
  obtain r3 c where later: "run_due os uni zone now ns r2 = (r3, c)" by (cases "run_due os uni zone now ns r2")
  with Cons.IH [OF ok2] ok Cons.IH show ?case by (simp add: run adv split: go.split)
qed simp

lemma runner_step_schedules:
  "runner_step os uni zone r r' \<Longrightarrow> schedules_ok uni (r_schedules r) \<Longrightarrow> schedules_ok uni (r_schedules r')"
proof (erule runner_stepE)
  fix now name cron
  assume r': "r' = snd (SetSchedule os uni zone now name cron r)" and ok: "schedules_ok uni (r_schedules r)"
  have "is_ok (parseCron (Raw s))" if "parseCron cron = Ok s" for s using parse_Raw [OF that] that by simp
  with r' ok show "schedules_ok uni (r_schedules r')"
    by (auto simp: SetSchedule_def wake_def schedules_update split: go.split option.split)
next
  fix name
  assume "r' = snd (Delete os uni name r)" "schedules_ok uni (r_schedules r)"
  moreover obtain g r1 where "StopRun name r = (g, r1)" by (cases "StopRun name r")
  ultimately show "schedules_ok uni (r_schedules r')"
    using StopRun_frame [of name r] by (auto simp: Delete_def Let_def wake_def schedules_delete)
next
  fix now now_ns
  assume r': "r' = snd (scheduler_turn os uni zone now now_ns r)" and ok: "schedules_ok uni (r_schedules r)"
  then show "schedules_ok uni (r_schedules r')"
    using run_due_schedules [OF ok, of os zone now "due_names now r"]
    by (auto simp: scheduler_turn_def schedulerTick_def Let_def split: prod.split)
qed (auto simp: RunArgs_frame StopRun_frame command_write_def command_done_def ClearSchedule_def wake_def
      schedules_delete runner_Stop_def stop_all_frame split: prod.split command_end.split)

lemma runner_steps_schedules:
  "(runner_step os uni zone)\<^sup>*\<^sup>* r r' \<Longrightarrow> schedules_ok uni (r_schedules r) \<Longrightarrow> schedules_ok uni (r_schedules r')"
  by (induction rule: rtranclp_induct) (auto intro: runner_step_schedules)

lemma started_schedules: "schedules_ok uni (r_schedules (Start uni (new_runner cwd cfg files sched)))"
  using load_entries_ok [of uni "[]"] by (simp add: Start_def loadSchedules_def new_runner_def schedules_ok_def split: option.split)

lemma reload: "schedules_ok uni m \<Longrightarrow> r_schedules (Start uni (new_runner cwd cfg files (Some m))) = m"
  by (simp add: Start_def loadSchedules_def new_runner_def load_entries_all)


section \<open>What the scheduler does with an entry\<close>

definition os_fine :: "os_env \<Rightarrow> bool" where
  "os_fine os \<longleftrightarrow> os_MkdirAll os = Ok () \<and> os_Create os = Ok ()"

lemma Python_keeps:
  assumes "Python os r = (p, r1)" "r_cfg r2 = r_cfg r1" "r_python r2 = r_python r1"
  shows "fst (Python os r2) = p"
proof (cases "r_python r = []")
  case True
  let ?p = "look_python (os_LookPath os) [] [rc_PythonCommand (r_cfg r), ''python'', ''python3'']"
  from True assms(1) have "p = ?p" "r_python r1 = ?p" "r_cfg r1 = r_cfg r"
    by (auto simp: Python_def Let_def simp del: look_python.simps)
  with assms(2,3) show ?thesis by (simp add: Python_def Let_def del: look_python.simps)
qed (use assms in \<open>auto simp: Python_def\<close>)

lemma RunArgs_starts:
  assumes "ValidName uni name" "map_of (fs_scripts r) name \<noteq> None" "fst (Python os r) \<noteq> []" "\<not> running name r" "os_fine os"
  obtains r' where "RunArgs os uni now name r = (Ok (), r')" "running name r'" "r_schedules r' = r_schedules r"
proof -
  obtain p r1 where py: "Python os r = (p, r1)" by (cases "Python os r")
  let ?i = "length (r_objs r1)"
  let ?r = "r1\<lparr>r_objs := r_objs r1 @ [new_run now], r_runs := AList.update name ?i (r_runs r1),
    fs_logs := AList.update name [] (fs_logs r1)\<rparr>"
  note f = Python_runs [OF py] Python_frame [OF py]
  then have "\<not> running name r1" using assms(4) by (simp add: running_def run_of_def)
  then have "RunArgs os uni now name r = (Ok (), ?r)"
    using assms(1,2,3,5) f by (simp add: RunArgs_def py os_fine_def Let_def)
  moreover have "running name ?r" by (simp add: running_def run_of_def update_conv' new_run_def)
  ultimately show thesis using that [of ?r] f by simp
qed

lemma RunArgs_other:
  assumes ok: "runs_ok r" and n: "n \<noteq> name"
  shows "running name (snd (RunArgs os uni now n r)) = running name r
    \<and> fs_scripts (snd (RunArgs os uni now n r)) = fs_scripts r
    \<and> fst (Python os (snd (RunArgs os uni now n r))) = fst (Python os r)"
proof -
  obtain p r1 where py: "Python os r = (p, r1)" by (cases "Python os r")
  note f = Python_runs [OF py] Python_frame [OF py]
  have less: "i < length (r_objs r1)" if "map_of (r_runs r1) name = Some i" for i
    using ok f map_of_SomeD [OF that] by (force simp: runs_ok_def)
  have "running name r2 = running name r1" if "r_objs r2 = r_objs r1 @ [x]" "r_runs r2 = AList.update n (length (r_objs r1)) (r_runs r1)" for r2 x
    using less that n by (auto simp: running_def run_of_def update_conv' nth_append split: option.split)
  moreover have "running name r1 = running name r" using f by (simp add: running_def run_of_def)
  ultimately show ?thesis
    using f Python_keeps [OF py]
    by (auto simp: RunArgs_def py Let_def finish_def split: go.split)
qed

lemma advance_other:
  "advance zone now n r = (r', b) \<Longrightarrow> n \<noteq> name \<Longrightarrow> map_of (r_schedules r') name = map_of (r_schedules r) name"
  by (auto simp: advance_def Let_def update_conv' split: go.splits option.splits)

lemma advance_rest: "advance zone now n r = (r', b) \<Longrightarrow>
    fs_scripts r' = fs_scripts r \<and> r_cfg r' = r_cfg r \<and> r_python r' = r_python r"
  by (auto simp: advance_def Let_def split: go.splits option.splits)

text \<open>What serving another entry leaves as it is for the script \<open>name\<close>.\<close>

definition same_for :: "os_env \<Rightarrow> string \<Rightarrow> runner \<Rightarrow> runner \<Rightarrow> bool" where
  "same_for os name r r' \<longleftrightarrow> runs_ok r' \<and> running name r' = running name r
     \<and> map_of (fs_scripts r') name = map_of (fs_scripts r) name
     \<and> (fst (Python os r') = []) = (fst (Python os r) = [])
     \<and> map_of (r_schedules r') name = map_of (r_schedules r) name"

lemma RunArgs_same:
  "runs_ok r \<Longrightarrow> n \<noteq> name \<Longrightarrow> RunArgs os uni now n r = (g, r') \<Longrightarrow> same_for os name r r'"
  using RunArgs_other [of r n name os uni now] RunArgs_ok [of r os uni now n] RunArgs_frame [of os uni now n r]
  by (simp add: same_for_def)

lemma advance_same:
  assumes "runs_ok r" "n \<noteq> name" "advance zone now n r = (r', b)"
  shows "same_for os name r r'"
proof -
  note f = advance_frame [OF assms(3)] advance_rest [OF assms(3)]
  then have "Python os r' = (fst (Python os r), r'\<lparr>r_python := fst (Python os r)\<rparr>)"
    by (auto simp: Python_def Let_def simp del: look_python.simps)
  with f assms(1) advance_other [OF assms(3,2)] show ?thesis
    by (simp add: same_for_def running_def run_of_def runs_ok_def)
qed

lemma same_for_trans: "same_for os name r s \<Longrightarrow> same_for os name s t \<Longrightarrow> same_for os name r t"
  by (simp add: same_for_def)

lemma run_due_same:
  "runs_ok r \<Longrightarrow> name \<notin> set ns \<Longrightarrow> same_for os name r (fst (run_due os uni zone now ns r))"
proof (induction ns arbitrary: r)
  case Nil
  then show ?case by (simp add: same_for_def)
next
  case (Cons n ns)
  obtain g r1 where run: "RunArgs os uni now n r = (g, r1)" by (cases "RunArgs os uni now n r")
  obtain r2 b where adv: "advance zone now n r1 = (r2, b)" by (cases "advance zone now n r1")
  from Cons.prems have n: "n \<noteq> name" "name \<notin> set ns" by auto
  have s1: "same_for os name r r1" by (rule RunArgs_same [OF Cons.prems(1) n(1) run])
  then have s2: "same_for os name r r2"
    using advance_same [OF _ n(1) adv, of os] same_for_trans by (auto simp: same_for_def)
  obtain r3 c where later: "run_due os uni zone now ns r2 = (r3, c)" by (cases "run_due os uni zone now ns r2")
  from Cons.IH [OF _ n(2), of r1] Cons.IH [OF _ n(2), of r2] s1 s2 later show ?case
    by (simp add: run adv same_for_def split: go.split)
qed

lemma run_due_starts:
  assumes "name \<in> set ns" "distinct ns" "runs_ok r" "ValidName uni name" "map_of (fs_scripts r) name \<noteq> None"
    "fst (Python os r) \<noteq> []" "\<not> running name r" "os_fine os" "map_of (r_schedules r) name = Some e"
    "parseCron (se_Cron e) = Ok s" "sched_next zone s now = Ok (Some t)"
  shows "running name (fst (run_due os uni zone now ns r))
    \<and> map_of (r_schedules (fst (run_due os uni zone now ns r))) name = Some (e\<lparr>se_Next := t\<rparr>)"
  using assms(1-3,5-7,9)
proof (induction ns arbitrary: r)
  case (Cons n ns)
  obtain g r1 where run: "RunArgs os uni now n r = (g, r1)" by (cases "RunArgs os uni now n r")
  obtain r2 b where adv: "advance zone now n r1 = (r2, b)" by (cases "advance zone now n r1")
  obtain r3 c where later: "run_due os uni zone now ns r2 = (r3, c)" by (cases "run_due os uni zone now ns r2")
  show ?case
  proof (cases "n = name")
    case True
    have r1: "g = Ok ()" "running name r1" "r_schedules r1 = r_schedules r" "runs_ok r1"
      using RunArgs_starts [OF assms(4) Cons.prems(4-6) assms(8), of now] RunArgs_ok [OF Cons.prems(3), of os uni now name]
        run True by auto
    then have "runs_ok r2 \<and> running name r2 \<and> map_of (r_schedules r2) name = Some (e\<lparr>se_Next := t\<rparr>)"
      using advance_frame [OF adv] adv Cons.prems(7) assms(10,11) True
      by (auto simp: advance_def Let_def running_def run_of_def update_conv' runs_ok_def)
    moreover have "same_for os name r2 r3" if "runs_ok r2"
      using run_due_same [OF that, of name ns os uni zone now] Cons.prems(2) True later by simp
    ultimately show ?thesis by (simp add: run adv later r1 same_for_def)
  next
    case False
    have s1: "same_for os name r r1" by (rule RunArgs_same [OF Cons.prems(3) False run])
    then have s2: "same_for os name r r2"
      using advance_same [OF _ False adv, of os] same_for_trans by (auto simp: same_for_def)
    have "name \<in> set ns" "distinct ns" using Cons.prems False by auto
    with Cons.IH [of r1] Cons.IH [of r2] s1 s2 Cons.prems later show ?thesis
      by (simp add: run adv same_for_def split: go.split)
  qed
qed simp

text \<open>C23: A turn of the scheduler starts every script that is due, idle and startable, and moves
  its entry to the next instant after now, whatever happens to the other scripts.\<close>

theorem tick_starts_due:
  assumes "(runner_step os uni zone)\<^sup>*\<^sup>* (Start uni (new_runner cwd cfg files sched)) r"
    and "map_of (r_schedules r) name = Some e" "0 < se_Next e" "se_Next e \<le> now"
    and "\<not> running name r" "map_of (fs_scripts r) name \<noteq> None" "fst (Python os r) \<noteq> []" "os_fine os"
    and "parseCron (se_Cron e) = Ok s" "sched_next zone s now = Ok (Some t)"
  shows "running name (schedulerTick os uni zone now r) \<and> now < t
    \<and> map_of (r_schedules (schedulerTick os uni zone now r)) name = Some (e\<lparr>se_Next := t\<rparr>)"
proof -
  have ok: "runs_ok r" by (rule runner_steps_ok [OF assms(1) started_ok])
  have sok: "schedules_ok uni (r_schedules r)" by (rule runner_steps_schedules [OF assms(1) started_schedules])
  then have d: "distinct (due_names now r)" "ValidName uni name"
    using map_of_SomeD [OF assms(2)] by (auto simp: due_names_def schedules_ok_def distinct_map_filter)
  have "name \<in> set (due_names now r)"
    using map_of_SomeD [OF assms(2)] assms(3-5) by (force simp: due_names_def)
  from run_due_starts [OF this d(1) ok d(2) assms(6,7,5,8,2,9,10)] sched_next_after [OF assms(9,10)]
  show ?thesis
    by (cases "run_due os uni zone now (due_names now r) r") (simp add: schedulerTick_def saveSchedules_running)
qed

text \<open>
  An entry whose script still runs, or cannot be started, keeps its past instant: the tick
  leaves it, the wait is 0, and the loop spins until the run ends. The comment of the loop
  says that it sleeps until the next instant.
\<close>

definition earlier :: "int \<Rightarrow> string \<times> scheduleEntry \<Rightarrow> int" where
  "earlier acc p = (let t = se_Next (snd p) in if t > 0 \<and> (acc = 0 \<or> t < acc) then t else acc)"

lemma earliest_next_fold: "earliest_next m = foldl earlier 0 m"
  by (simp add: earliest_next_def earlier_def [abs_def] Let_def case_prod_unfold)

lemma earlier_le: "0 \<le> a \<Longrightarrow> 0 \<le> earlier a p \<and> (0 < a \<longrightarrow> 0 < earlier a p \<and> earlier a p \<le> a)
    \<and> (0 < se_Next (snd p) \<longrightarrow> 0 < earlier a p \<and> earlier a p \<le> se_Next (snd p))"
  by (auto simp: earlier_def Let_def)

lemma foldl_earlier: "0 \<le> a \<Longrightarrow> 0 \<le> foldl earlier a m \<and> (0 < a \<longrightarrow> 0 < foldl earlier a m \<and> foldl earlier a m \<le> a)"
proof (induction m arbitrary: a)
  case (Cons p m)
  from Cons.IH [of "earlier a p"] earlier_le [OF Cons.prems, of p] show ?case by (simp, linarith)
qed simp

lemma foldl_earlier_le:
  "0 \<le> a \<Longrightarrow> p \<in> set m \<Longrightarrow> 0 < se_Next (snd p) \<Longrightarrow> 0 < foldl earlier a m \<and> foldl earlier a m \<le> se_Next (snd p)"
proof (induction m arbitrary: a)
  case (Cons q m)
  note q = earlier_le [OF Cons.prems(1), of q]
  show ?case
  proof (cases "p = q")
    case True
    with q foldl_earlier [of "earlier a q" m] Cons.prems(3) show ?thesis by simp
  next
    case False
    with q Cons.prems Cons.IH [of "earlier a q"] show ?thesis by simp
  qed
qed simp

lemma earliest_le: "(name, e) \<in> set m \<Longrightarrow> 0 < se_Next e \<Longrightarrow> 0 < earliest_next m \<and> earliest_next m \<le> se_Next e"
  using foldl_earlier_le [of 0 "(name, e)" m] by (simp add: earliest_next_fold)

lemma overdue_running_spins:
  assumes "map_of (r_schedules r) name = Some e" "0 < se_Next e" "se_Next e * nano \<le> now_ns"
    and "due_names now r = []" "\<not> r_woken r"
  shows "scheduler_turn os uni zone now now_ns r = (0, r)"
  using earliest_le [OF map_of_SomeD [OF assms(1)] assms(2)] assms(3-5)
  by (simp add: scheduler_turn_def schedulerTick_def nextWakeDelay_def Let_def nano_def)

text \<open>
  Output that comes between the subscription and the read of the file is delivered twice:
  with the text of the file and through the channel.
\<close>

lemma Subscribe_duplicates:
  assumes "ValidName uni name" "map_of (r_runs r) name = Some i" "i < length (r_objs r)"
    "\<not> rs_finished (r_objs r ! i)" "map_of (fs_logs r) name = Some []" "os_ReadFile os = Ok ()"
    "rs_stream (r_objs r ! i) = []" "p \<noteq> []" "length p \<le> maxScriptLogTail"
  shows "\<exists>r'. Subscribe uni os ch (command_write (length p) name i p) name r = (Ok (p, Some i), r')
    \<and> rs_stream (r_objs r' ! i) = [(ch, [p])]"
  using assms
  by (auto simp: Subscribe_def command_write_def broadcast_Write_def Logs_def subscribe_def publish_def
      chan_cap_def update_conv' maxScriptLogTail_def)

section \<open>Samples\<close>

definition sample_cfg :: RunnerConfig where
  "sample_cfg = \<lparr>rc_ScriptsDir = ''/opt/scripts'', rc_SdkDir = [], rc_LogDir = ''/var/log'',
     rc_PythonCommand = [], rc_ServerURL = [], rc_SecretKey = []\<rparr>"

definition sample_os :: os_env where
  "sample_os = \<lparr>os_MkdirAll = Ok (), os_Create = Ok (), os_Remove = Ok (), os_WriteFile = Ok (),
     os_ReadFile = Ok (), os_LookPath = (\<lambda>_. Some ''/bin/python'')\<rparr>"

definition no_uni :: "nat \<Rightarrow> bool" where "no_uni r = False"

definition sample_runner :: runner where
  "sample_runner = Start no_uni (new_runner (Ok ''/'') sample_cfg
     [(''a.py'', \<lparr>sf_dir = False, sf_Size = 1, sf_ModTime = 0\<rparr>)] None)"

lemma sample_name: "ValidName no_uni ''a.py''"
proof -
  have "bytes_of ''a.py'' = [0x61, 0x2E, 0x70, 0x79]" by (simp add: bytes_of_def)
  moreover have "decode_runes [0x61, 0x2E, 0x70, 0x79] = [0x61, 0x2E, 0x70, 0x79]"
    by (simp add: decode_runes.simps rune_len_ascii rune_value_ascii)
  ultimately show ?thesis by (simp add: ValidName_def word_rune_def)
qed

lemma python_samples: "trimSpace [] = []" "trimSpace ''python'' = ''python''" "trimSpace ''python3'' = ''python3''"
proof -
  show "trimSpace [] = []" by (simp add: trimSpace_def trim_right_def trim_left_id strip_one_nil)
qed (rule trimSpace_solid; simp)+

lemma sample_Python: "r_python r = [] \<Longrightarrow> rc_PythonCommand (r_cfg r) = [] \<Longrightarrow>
    Python sample_os r = (''/bin/python'', r\<lparr>r_python := ''/bin/python''\<rparr>)"
  by (simp add: Python_def Let_def python_samples sample_os_def)

lemma sample_runner_simps [simp]: "r_python sample_runner = []" "rc_PythonCommand (r_cfg sample_runner) = []"
  "r_runs sample_runner = []" "r_objs sample_runner = []" "r_schedules sample_runner = []" "fs_logs sample_runner = []"
  "map_of (fs_scripts sample_runner) ''a.py'' = Some \<lparr>sf_dir = False, sf_Size = 1, sf_ModTime = 0\<rparr>"
  by (simp_all add: sample_runner_def Start_def loadSchedules_def new_runner_def sample_cfg_def)


lemma sample_run:
  "RunArgs sample_os no_uni 5 ''a.py'' sample_runner =
   (Ok (), sample_runner\<lparr>r_python := ''/bin/python'', r_objs := [new_run 5], r_runs := [(''a.py'', 0)],
      fs_logs := [(''a.py'', [])]\<rparr>)"
proof -
  have os: "os_MkdirAll sample_os = Ok ()" "os_Create sample_os = Ok ()" by (simp_all add: sample_os_def)
  show ?thesis by (simp add: RunArgs_def sample_name sample_Python running_def run_of_def Let_def os)
qed

theorem one_live_run_witness:
  "\<exists>!name. map_of (r_runs (snd (RunArgs sample_os no_uni 5 ''a.py'' sample_runner))) name = Some 0"
proof -
  let ?r = "snd (RunArgs sample_os no_uni 5 ''a.py'' sample_runner)"
  have step: "(runner_step sample_os no_uni (\<lambda>_. 0))\<^sup>*\<^sup>* (Start no_uni (new_runner (Ok ''/'') sample_cfg
     [(''a.py'', \<lparr>sf_dir = False, sf_Size = 1, sf_ModTime = 0\<rparr>)] None)) ?r"
    using runner_step.run [of sample_os no_uni "\<lambda>_. 0" sample_runner 5 "''a.py''"]
    unfolding sample_runner_def by (rule r_into_rtranclp)
  have "0 < length (r_objs ?r)" "\<not> rs_finished (r_objs ?r ! 0)"
    by (simp_all add: sample_run new_run_def)
  then show ?thesis by (rule one_live_run [OF step])
qed

lemma sample_schedule:
  obtains s where "parseCron ''* * * * *'' = Ok s" "\<And>t. 60 dvd t \<Longrightarrow> sched_next (\<lambda>_. 0) s t = Ok (Some (t + 60))"
proof -
  let ?f = "\<lambda>mn mx. \<lparr>cf_min = mn, cf_max = mx, cf_steps = [\<lparr>st_start = mn, st_end = mx, st_step = 1\<rparr>]\<rparr>"
  have f: "str_fields ''* * * * *'' = [''*'', ''*'', ''*'', ''*'', ''*'']"
    using parse_visible [of "''*''" "''*''" "''*''" "''*''" "''*''"] by (simp add: visible_def)
  have p: "parseCronField ''*'' mn mx = Ok (?f mn mx)" if "mn \<le> mx" for mn mx
    using that by (simp add: parseCronField_def parse_part_def split_step_def parse_base_def)
  obtain s where s: "parseCron ''* * * * *'' = Ok s" "sc_minutes s = ?f 0 59" "sc_hours s = ?f 0 23"
    "sc_days s = ?f 1 31" "sc_months s = ?f 1 12" "sc_weekdays s = ?f 0 6"
    by (simp add: parseCron_def f p)
  have v: "v \<in> field_values (?f mn mx) \<longleftrightarrow> mn \<le> v \<and> v \<le> mx" for v mn mx
    by (simp add: field_values_def step_values_def)
  have "hits (\<lambda>_. 0) s t" for t
    by (simp add: hits_def day_hits_def s v time_ranges)
  then have "fires (\<lambda>_. 0) s t = Ok True" for t by (simp add: fires_hits [OF parseCron_ok [OF s(1)]])
  then have "sched_next (\<lambda>_. 0) s t = Ok (Some (t + 60))" if "60 dvd t" for t
    using that unfolding sched_next_def by (subst next_loop.simps) (simp add: day_secs_def dvd_eq_mod_eq_0)
  with s(1) that show thesis by blast
qed

lemma sample_set:
  obtains s r' where "parseCron ''* * * * *'' = Ok s" "\<And>t. 60 dvd t \<Longrightarrow> sched_next (\<lambda>_. 0) s t = Ok (Some (t + 60))"
    "SetSchedule sample_os no_uni (\<lambda>_. 0) 0 ''a.py'' ''* * * * *'' sample_runner = (Ok (), r')"
    "r' = sample_runner\<lparr>r_schedules := [(''a.py'', \<lparr>se_Cron = Raw s, se_Next = 60\<rparr>)], r_woken := True,
       fs_sched := Some [(''a.py'', \<lparr>se_Cron = Raw s, se_Next = 60\<rparr>)]\<rparr>"
proof -
  obtain s where s: "parseCron ''* * * * *'' = Ok s" "\<And>t. 60 dvd t \<Longrightarrow> sched_next (\<lambda>_. 0) s t = Ok (Some (t + 60))"
    using sample_schedule by blast
  have os: "os_MkdirAll sample_os = Ok ()" "os_WriteFile sample_os = Ok ()" by (simp_all add: sample_os_def)
  show thesis
    by (rule that [OF s(1) _ _ refl], erule s(2)) (simp add: SetSchedule_def sample_name s(1) s(2) [of 0, simplified] saveSchedules_def wake_def os)
qed


theorem tick_starts_due_witness:
  "\<exists>r. map_of (r_schedules r) ''a.py'' \<noteq> None \<and> running ''a.py'' (schedulerTick sample_os no_uni (\<lambda>_. 0) 60 r)"
proof -
  obtain s r' where s: "parseCron ''* * * * *'' = Ok s" "\<And>t. 60 dvd t \<Longrightarrow> sched_next (\<lambda>_. 0) s t = Ok (Some (t + 60))"
    and set: "SetSchedule sample_os no_uni (\<lambda>_. 0) 0 ''a.py'' ''* * * * *'' sample_runner = (Ok (), r')"
    and r': "r' = sample_runner\<lparr>r_schedules := [(''a.py'', \<lparr>se_Cron = Raw s, se_Next = 60\<rparr>)], r_woken := True,
       fs_sched := Some [(''a.py'', \<lparr>se_Cron = Raw s, se_Next = 60\<rparr>)]\<rparr>"
    using sample_set by blast
  have step: "(runner_step sample_os no_uni (\<lambda>_. 0))\<^sup>*\<^sup>* (Start no_uni (new_runner (Ok ''/'') sample_cfg
     [(''a.py'', \<lparr>sf_dir = False, sf_Size = 1, sf_ModTime = 0\<rparr>)] None)) r'"
    using runner_step.set_schedule [of sample_os no_uni "\<lambda>_. 0" sample_runner 0 "''a.py''" "''* * * * *''"] set
    unfolding sample_runner_def by auto
  have u: "parseCron (Raw s) = Ok s" "sched_next (\<lambda>_. 0) s 60 = Ok (Some 120)"
    using parse_Raw [OF s(1)] s by simp_all
  have m: "map_of (r_schedules r') ''a.py'' = Some \<lparr>se_Cron = Raw s, se_Next = 60\<rparr>" by (simp add: r')
  have "running ''a.py'' (schedulerTick sample_os no_uni (\<lambda>_. 0) 60 r')"
    using tick_starts_due [OF step m, of 60 s 120] u
    by (simp add: r' running_def run_of_def sample_Python os_fine_def) (simp add: sample_os_def)
  with m show ?thesis by auto
qed

end
