(* ===== verification/Go_Http.thy ===== *)
theory Go_Http
  imports Go_Json Go_Path
begin

text \<open>
  What the program uses of \<open>net\<close>, \<open>net/url\<close> and \<open>net/http\<close>: addresses, escaping, the parts
  of a request that handlers look at, and the answer that they give. Also
  \<open>json.Decoder.Decode\<close> into a struct.
\<close>

section \<open>Evaluation of JSON samples\<close>

lemma utf8_repair_byte: "b < 0x80 \<Longrightarrow> utf8_repair (b # s) = b # utf8_repair s"
  by (subst utf8_repair.simps) (simp add: rune_len_def)

lemma utf8_repair_Nil: "utf8_repair [] = []"
  by (subst utf8_repair.simps) simp

lemma string_of_step: "string_of [] = []" "string_of (b # s) = char_of (unat b) # string_of s"
  by (simp_all add: string_of_def)

text \<open>Simplification with the first of these bundles and then with the second parses a text of
  ASCII characters that is given in full.\<close>

lemmas json_eval = json_Unmarshal_map_def json_Unmarshal_any_def json_parse_def json_string_def numeral_eq_Suc

lemmas text_eval = utf8_repair_byte utf8_repair_Nil string_of_step char_of_def bit_0

section \<open>Addresses\<close>

definition last_index :: "char \<Rightarrow> string \<Rightarrow> nat option" where
  "last_index c s = map_option (\<lambda>i. length s - 1 - i) (str_index (rev s) [c])"

definition addr_err :: "string \<Rightarrow> go_error" where
  "addr_err why = Errorf (''address: '' @ why)"

text \<open>\<open>net.SplitHostPort\<close>; a host with a colon stands in brackets.\<close>

definition SplitHostPort :: "string \<Rightarrow> (string \<times> string) go" where
  "SplitHostPort hp =
     (case last_index (CHR '':'') hp of
        None \<Rightarrow> Err (addr_err ''missing port in address'')
      | Some i \<Rightarrow>
          go_bind
            (if prefix ''['' hp then
               (case str_index hp '']'' of
                  None \<Rightarrow> Err (addr_err ''missing bracket in address'')
                | Some n \<Rightarrow>
                    if n + 1 = length hp then Err (addr_err ''missing port in address'')
                    else if n + 1 = i then Ok (slice hp 1 n, 1, n + 1)
                    else if hp ! (n + 1) = CHR '':'' then Err (addr_err ''too many colons in address'')
                    else Err (addr_err ''missing port in address''))
             else if CHR '':'' \<in> set (take i hp) then Err (addr_err ''too many colons in address'')
             else Ok (take i hp, 0, 0))
            (\<lambda>(host, j, k).
            if CHR ''['' \<in> set (drop j hp) \<or> CHR '']'' \<in> set (drop k hp)
            then Err (addr_err ''unexpected bracket in address'')
            else Ok (host, drop (i + 1) hp)))"

definition JoinHostPort :: "string \<Rightarrow> string \<Rightarrow> string" where
  "JoinHostPort host port =
     (if CHR '':'' \<in> set host \<or> CHR ''%'' \<in> set host then ''['' @ host @ '']:'' @ port else host @ '':'' @ port)"

section \<open>Escaping\<close>

definition upper_hex_char :: "nat \<Rightarrow> char" where
  "upper_hex_char n = (if n < 10 then char_of (48 + n) else char_of (55 + n))"

definition unreserved :: "char \<Rightarrow> bool" where
  "unreserved c \<longleftrightarrow>
     (let n = (of_char c :: nat) in
      (48 \<le> n \<and> n \<le> 57) \<or> (65 \<le> n \<and> n \<le> 90) \<or> (97 \<le> n \<and> n \<le> 122) \<or> c \<in> set ''-_.~'')"

definition QueryEscape :: "string \<Rightarrow> string" where
  "QueryEscape s =
     concat (map (\<lambda>c. if unreserved c then [c] else if c = CHR '' '' then ''+''
       else [CHR ''%'', upper_hex_char (of_char c div 16), upper_hex_char (of_char c mod 16)]) s)"

text \<open>\<open>url.PathUnescape\<close>: None for a percent sign without two hexadecimal digits.\<close>

fun PathUnescape :: "string \<Rightarrow> string option" where
  "PathUnescape [] = Some []"
| "PathUnescape (c # s) =
     (if c \<noteq> CHR ''%'' then map_option ((#) c) (PathUnescape s)
      else case s of
        a # b # r \<Rightarrow>
          (case (hex_val a, hex_val b) of
             (Some x, Some y) \<Rightarrow> map_option ((#) (char_of (16 * x + y))) (PathUnescape r)
           | _ \<Rightarrow> None)
      | _ \<Rightarrow> None)"

text \<open>\<open>base64.RawURLEncoding\<close>: the other alphabet, and no padding.\<close>

definition b64RawURLEncode :: "bytes \<Rightarrow> string" where
  "b64RawURLEncode b =
     map (\<lambda>c. if c = CHR ''+'' then CHR ''-'' else if c = CHR ''/'' then CHR ''_'' else c)
       (filter (\<lambda>c. c \<noteq> CHR ''='') (b64Encode b))"

section \<open>Requests and answers\<close>

text \<open>
  \<open>rq_Query\<close> and \<open>rq_Header\<close> give the first value of a parameter or header (the empty text
  when there is none), \<open>rq_Cookie\<close> the value of a cookie.
\<close>

record request =
  rq_Method :: string
  rq_Path :: string
  rq_RequestURI :: string
  rq_Query :: "string \<Rightarrow> string"
  rq_Header :: "string \<Rightarrow> string"
  rq_Cookie :: "string \<Rightarrow> string option"
  rq_Body :: bytes
  rq_RemoteAddr :: string

record set_cookie =
  ck_Name :: string
  ck_Value :: string
  ck_MaxAge :: int
  ck_Secure :: bool

text \<open>An answer: JSON, a file that is served, a fixed page, or nothing.\<close>

datatype body = JSON gval | File string | Page string | No_body

record answer =
  an_Status :: int
  an_Cookies :: "set_cookie list"
  an_Location :: "string option"
  an_Body :: body

definition plain_answer :: "int \<Rightarrow> body \<Rightarrow> answer" where
  "plain_answer status b = \<lparr>an_Status = status, an_Cookies = [], an_Location = None, an_Body = b\<rparr>"

definition http_Redirect :: "string \<Rightarrow> int \<Rightarrow> answer" where
  "http_Redirect url status = (plain_answer status No_body)\<lparr>an_Location := Some url\<rparr>"

definition with_cookie :: "set_cookie \<Rightarrow> answer \<Rightarrow> answer" where
  "with_cookie c a = a\<lparr>an_Cookies := c # an_Cookies a\<rparr>"

section \<open>Decoding a body into a struct\<close>

text \<open>
  The first JSON value of the text: None when there is only white space (\<open>io.EOF\<close>). What
  follows the value is not looked at.
\<close>

definition json_decode_first :: "bytes \<Rightarrow> gval option go" where
  "json_decode_first b =
     (let s = string_of b in
      if skip_ws s = [] then Ok None
      else case json_value (2 * length s + 2) 0 s of
        None \<Rightarrow> Err (Errorf ''invalid JSON'')
      | Some (v, _) \<Rightarrow> Ok (Some v))"

datatype field_kind = String_field | Map_field | Any_field | Bool_field | Int_field

fun zero_value :: "field_kind \<Rightarrow> gval" where
  "zero_value String_field = GStr []"
| "zero_value Bool_field = GBool False"
| "zero_value Int_field = GInt KInt64 0"
| "zero_value _ = GNil"

definition type_err :: go_error where
  "type_err = Errorf ''json: cannot unmarshal into Go struct field''"

text \<open>
  Null leaves a text, number or truth value as it is; an object is added to a map that is
  there already; a number for an int64 must be written as a whole number and be in range.
\<close>

definition store_field :: "field_kind \<Rightarrow> gval \<Rightarrow> gval \<Rightarrow> gval go" where
  "store_field kind old v =
     (case kind of
        String_field \<Rightarrow> (case v of GStr s \<Rightarrow> Ok v | GNil \<Rightarrow> Ok old | _ \<Rightarrow> Err type_err)
      | Bool_field \<Rightarrow> (case v of GBool b \<Rightarrow> Ok v | GNil \<Rightarrow> Ok old | _ \<Rightarrow> Err type_err)
      | Int_field \<Rightarrow>
          (case v of
             GInt k z \<Rightarrow> if min_int64 \<le> z \<and> z \<le> max_int64 then Ok (GInt KInt64 z) else Err type_err
           | GNil \<Rightarrow> Ok old
           | _ \<Rightarrow> Err type_err)
      | Map_field \<Rightarrow>
          (case v of
             GMap m \<Rightarrow> of_opt type_err (map_option GMap
               (json_store_members m (case old of GMap m0 \<Rightarrow> m0 | _ \<Rightarrow> [])))
           | GNil \<Rightarrow> Ok GNil
           | _ \<Rightarrow> Err type_err)
      | Any_field \<Rightarrow> of_opt type_err (json_store v))"

text \<open>Keys match fields without regard to case; a member that matches none is skipped, or refused.\<close>

fun store_members :: "bool \<Rightarrow> (string \<times> field_kind) list \<Rightarrow> gmap \<Rightarrow> gmap \<Rightarrow> gmap go" where
  "store_members strict fs [] acc = Ok acc"
| "store_members strict fs ((k, v) # m) acc =
     (case find (\<lambda>f. fst f = k) fs of
        Some (n, kind) \<Rightarrow> go_bind (store_field kind (gget acc n) v) (\<lambda>w. store_members strict fs m (AList.update n w acc))
      | None \<Rightarrow>
          (case find (\<lambda>f. equalFold (fst f) k) fs of
             Some (n, kind) \<Rightarrow> go_bind (store_field kind (gget acc n) v) (\<lambda>w. store_members strict fs m (AList.update n w acc))
           | None \<Rightarrow> if strict then Err (Errorf ''json: unknown field'') else store_members strict fs m acc))"

definition decode_struct :: "bool \<Rightarrow> (string \<times> field_kind) list \<Rightarrow> gval \<Rightarrow> gmap go" where
  "decode_struct strict fs v =
     (let zero = map (\<lambda>(n, kind). (n, zero_value kind)) fs in
      case v of
        GMap m \<Rightarrow> store_members strict fs m zero
      | GNil \<Rightarrow> Ok zero
      | _ \<Rightarrow> Err type_err)"

definition str_field :: "gmap \<Rightarrow> string \<Rightarrow> string" where
  "str_field m n = (case gget m n of GStr s \<Rightarrow> s | _ \<Rightarrow> [])"

definition int_field :: "gmap \<Rightarrow> string \<Rightarrow> int" where
  "int_field m n = (case gget m n of GInt k z \<Rightarrow> z | _ \<Rightarrow> 0)"

definition bool_field :: "gmap \<Rightarrow> string \<Rightarrow> bool" where
  "bool_field m n = (gget m n = GBool True)"

end
