(* ===== verification/Auth.thy ===== *)
theory Auth
  imports Go_Http
begin

text \<open>
  Model of \<open>internal/httpapi/auth.go\<close>, with the answers of \<open>app.go\<close> that all handlers
  share: the sessions of the console, the lock-out after failed logins, and the check that
  stands before the protected routes. Times are in nanoseconds; \<open>clk\<close> gives the readings of
  the clock in one call. Texts in Chinese are given in English.
\<close>

section \<open>Answers\<close>

definition apiEnvelope :: "int \<Rightarrow> string \<Rightarrow> gval \<Rightarrow> gval" where
  "apiEnvelope code msg data = GMap [(''code'', GInt KInt code), (''msg'', GStr msg), (''data'', data)]"

definition writeRawJSON :: "int \<Rightarrow> gval \<Rightarrow> answer" where
  "writeRawJSON status v = plain_answer status (JSON v)"

definition writeJSON :: "int \<Rightarrow> gval \<Rightarrow> answer" where
  "writeJSON status v = writeRawJSON status (apiEnvelope 0 ''success'' v)"

definition writeError :: "int \<Rightarrow> string \<Rightarrow> answer" where
  "writeError status detail = writeRawJSON status (apiEnvelope status detail GNil)"

definition method_err :: answer where
  "method_err = writeError 405 ''method not allowed''"

text \<open>\<open>present\<close> tells which files are there.\<close>

definition serveFileOrText :: "(string \<Rightarrow> bool) \<Rightarrow> string \<Rightarrow> string \<Rightarrow> answer" where
  "serveFileOrText present path fallback = plain_answer 200 (if present path then File path else Page fallback)"

text \<open>A body that is empty leaves the zero values.\<close>

definition decodeOptionalJSON :: "request \<Rightarrow> (string \<times> field_kind) list \<Rightarrow> gmap go" where
  "decodeOptionalJSON r fs =
     go_bind (json_decode_first (rq_Body r)) (\<lambda>o'.
     case o' of None \<Rightarrow> decode_struct False fs GNil | Some v \<Rightarrow> decode_struct False fs v)"

section \<open>State\<close>

definition sessionCookie :: string where "sessionCookie = ''yyb_session''"
definition secretKeyHeader :: string where "secretKeyHeader = ''X-Secret-Key''"

record loginAttempt =
  la_Failures :: int
  la_Start :: int

record sessionUser =
  su_Username :: string
  su_DisplayName :: string
  su_Role :: string
  su_Enabled :: bool

record adminSession =
  ad_Username :: string
  ad_ExpiresAt :: int

record auth =
  au_SecretKey :: string
  au_SessionDuration :: int
  au_CookieSecure :: bool
  au_Templates :: string
  au_sessions :: "(string \<times> adminSession) list"
  au_attempts :: "(string \<times> loginAttempt) list"

definition minute :: int where "minute = 60 * 10 ^ 9"

definition authEnabled :: "auth \<Rightarrow> bool" where
  "authEnabled a \<longleftrightarrow> au_SecretKey a \<noteq> []"

definition user_named :: "string \<Rightarrow> string \<Rightarrow> sessionUser" where
  "user_named name display = \<lparr>su_Username = name, su_DisplayName = display, su_Role = ''admin'', su_Enabled = True\<rparr>"

definition user_json :: "sessionUser \<Rightarrow> gval" where
  "user_json u = GMap [(''username'', GStr (su_Username u)), (''display_name'', GStr (su_DisplayName u)),
     (''role'', GStr (su_Role u)), (''enabled'', GBool (su_Enabled u))]"

section \<open>Sessions\<close>

text \<open>\<open>raw\<close> are the 32 random bytes, None when the generator fails.\<close>

definition createSession :: "int \<Rightarrow> bytes option \<Rightarrow> string \<Rightarrow> auth \<Rightarrow> string \<times> auth" where
  "createSession now raw username a =
     (let token = b64RawURLEncode (case raw of Some b \<Rightarrow> b | None \<Rightarrow> replicate 32 0x78) in
      (token, a\<lparr>au_sessions := AList.update token
         \<lparr>ad_Username = username, ad_ExpiresAt = now + au_SessionDuration a\<rparr> (au_sessions a)\<rparr>))"

definition deleteSessionToken :: "string \<Rightarrow> auth \<Rightarrow> auth" where
  "deleteSessionToken token a = a\<lparr>au_sessions := AList.delete token (au_sessions a)\<rparr>"

definition userBySessionToken :: "int \<Rightarrow> string \<Rightarrow> auth \<Rightarrow> sessionUser option \<times> auth" where
  "userBySessionToken now token a =
     (case map_of (au_sessions a) token of
        None \<Rightarrow> (None, deleteSessionToken token a)
      | Some s \<Rightarrow>
          if now > ad_ExpiresAt s then (None, deleteSessionToken token a)
          else (Some (user_named (ad_Username s) (ad_Username s)), a))"

definition setSessionCookie :: "string \<Rightarrow> bool \<Rightarrow> int \<Rightarrow> set_cookie" where
  "setSessionCookie token secure ttl =
     \<lparr>ck_Name = sessionCookie, ck_Value = token, ck_MaxAge = ttl div 10 ^ 9, ck_Secure = secure\<rparr>"

definition clearSessionCookie :: "bool \<Rightarrow> set_cookie" where
  "clearSessionCookie secure = \<lparr>ck_Name = sessionCookie, ck_Value = [], ck_MaxAge = -1, ck_Secure = secure\<rparr>"

section \<open>Failed logins\<close>

definition clientIP :: "request \<Rightarrow> string" where
  "clientIP r =
     (let v = trimSpace (split_on (CHR '','') (rq_Header r ''X-Forwarded-For'') ! 0) in
      if v \<noteq> [] then v
      else case SplitHostPort (rq_RemoteAddr r) of
        Ok (host, _) \<Rightarrow> host
      | _ \<Rightarrow> rq_RemoteAddr r)"

definition clearLoginFailures :: "string \<Rightarrow> auth \<Rightarrow> auth" where
  "clearLoginFailures key a = a\<lparr>au_attempts := AList.delete key (au_attempts a)\<rparr>"

definition allowLogin :: "int \<Rightarrow> string \<Rightarrow> auth \<Rightarrow> bool \<times> auth" where
  "allowLogin now key a =
     (case map_of (au_attempts a) key of
        None \<Rightarrow> (True, clearLoginFailures key a)
      | Some t \<Rightarrow>
          if now - la_Start t \<ge> 15 * minute then (True, clearLoginFailures key a)
          else (la_Failures t < 8, a))"

text \<open>An entry always has a start: the zero time stands for a missing entry.\<close>

definition recordLoginFailure :: "int \<Rightarrow> string \<Rightarrow> auth \<Rightarrow> auth" where
  "recordLoginFailure now key a =
     (let fresh = \<lparr>la_Failures = 0, la_Start = now\<rparr>;
          t = (case map_of (au_attempts a) key of
                 None \<Rightarrow> fresh
               | Some t \<Rightarrow> if now - la_Start t \<ge> 15 * minute then fresh else t) in
      a\<lparr>au_attempts := AList.update key (t\<lparr>la_Failures := la_Failures t + 1\<rparr>) (au_attempts a)\<rparr>)"

section \<open>The check before protected routes\<close>

definition isAPIRequest :: "string \<Rightarrow> bool" where
  "isAPIRequest path =
     list_ex (\<lambda>p. path = p \<or> prefix (p @ ''/'') path)
       [''/accounts'', ''/wxapp'', ''/scripts'', ''/qr'', ''/activity'', ''/features'', ''/auth/me'']"

text \<open>A request goes on, with the user that it stands for, or is answered.\<close>

datatype verdict = Pass "sessionUser option" | Answer answer

text \<open>\<open>unescape\<close> is what gin does to the value of a cookie.\<close>

definition requireBrowserSession ::
  "(string \<Rightarrow> string) \<Rightarrow> int \<Rightarrow> request \<Rightarrow> auth \<Rightarrow> verdict \<times> auth" where
  "requireBrowserSession unescape now r a =
     (if \<not> authEnabled a then (Pass None, a)
      else
        let header = trimSpace (rq_Header r secretKeyHeader) in
        if header \<noteq> [] \<and> header = au_SecretKey a
        then (Pass (Some (user_named ''secret-key'' ''API call'')), a)
        else
          let (user, a) = (case rq_Cookie r sessionCookie of
                             Some v \<Rightarrow> userBySessionToken now (unescape v) a
                           | None \<Rightarrow> (None, a)) in
          case user of
            Some u \<Rightarrow> (Pass (Some u), a)
          | None \<Rightarrow>
              (Answer (with_cookie (clearSessionCookie (au_CookieSecure a))
                 (if isAPIRequest (rq_Path r) then writeError 401 ''please log in first''
                  else http_Redirect (''/login?next='' @ QueryEscape (rq_RequestURI r)) 303)), a))"

section \<open>Handlers\<close>

definition safeNext :: "string \<Rightarrow> string" where
  "safeNext v = (if prefix ''/'' v \<and> \<not> prefix ''//'' v then v else ''/'')"

definition login_fields :: "(string \<times> field_kind) list" where
  "login_fields = [(''secret_key'', String_field), (''next'', String_field)]"

definition handleLogin ::
  "(string \<Rightarrow> bool) \<Rightarrow> (nat \<Rightarrow> int) \<Rightarrow> bytes option \<Rightarrow> request \<Rightarrow> auth \<Rightarrow> answer \<times> auth" where
  "handleLogin present clk raw r a =
     (if \<not> authEnabled a then (http_Redirect ''/'' 303, a)
      else if rq_Method r = ''GET'' then
        (let (user, a) = (case rq_Cookie r sessionCookie of
                            Some v \<Rightarrow> userBySessionToken (clk 0) v a
                          | None \<Rightarrow> (None, a)) in
         if user \<noteq> None then (http_Redirect ''/'' 303, a)
         else (serveFileOrText present (path_Join [au_Templates a, ''login.html'']) ''login'', a))
      else if rq_Method r \<noteq> ''POST'' then (method_err, a)
      else
        case decodeOptionalJSON r login_fields of
          Ok b \<Rightarrow>
            (let key = clientIP r; (allowed, a) = allowLogin (clk 0) key a in
             if \<not> allowed then (writeError 429 ''too many failures, try again in 15 minutes'', a)
             else if str_field b ''secret_key'' = [] \<or> str_field b ''secret_key'' \<noteq> au_SecretKey a
             then (writeError 401 ''wrong secret key'', recordLoginFailure (clk 1) key a)
             else
               let a = clearLoginFailures key a; (token, a) = createSession (clk 1) raw ''admin'' a in
               (with_cookie (setSessionCookie token (au_CookieSecure a) (au_SessionDuration a))
                  (writeJSON 200 (GMap
                     [(''user'', user_json (user_named ''admin'' ''administrator'')),
                      (''next'', GStr (safeNext (str_field b ''next'')))])), a))
        | _ \<Rightarrow> (writeError 400 ''malformed request'', a))"

definition handleLogout :: "request \<Rightarrow> auth \<Rightarrow> answer \<times> auth" where
  "handleLogout r a =
     (if rq_Method r \<noteq> ''POST'' then (method_err, a)
      else
        let a = (case rq_Cookie r sessionCookie of Some v \<Rightarrow> deleteSessionToken v a | None \<Rightarrow> a) in
        (with_cookie (clearSessionCookie (au_CookieSecure a))
           (writeJSON 200 (GMap [(''logged_out'', GBool True)])), a))"

definition currentAuthUser :: "verdict \<Rightarrow> sessionUser option" where
  "currentAuthUser v = (case v of Pass u \<Rightarrow> u | Answer _ \<Rightarrow> None)"

definition handleAuthMe :: "verdict \<Rightarrow> request \<Rightarrow> auth \<Rightarrow> answer" where
  "handleAuthMe v r a =
     (if rq_Method r \<noteq> ''GET'' then method_err
      else if \<not> authEnabled a then
        writeJSON 200 (GMap [(''auth_enabled'', GBool False),
          (''user'', user_json (user_named ''local'' ''local administrator''))])
      else
        case currentAuthUser v of
          None \<Rightarrow> writeError 401 ''please log in first''
        | Some u \<Rightarrow> writeJSON 200 (GMap [(''auth_enabled'', GBool True), (''user'', user_json u)]))"

end
