(* ===== verification/Auth_Props.thy ===== *)
theory Auth_Props
  imports Auth
begin

text \<open>
  Correctness of the access control: which requests pass, how many wrong keys a client can
  try, and how long a session lives.
\<close>

section \<open>Which requests pass\<close>

definition valid_session :: "int \<Rightarrow> string \<Rightarrow> auth \<Rightarrow> bool" where
  "valid_session now token a \<longleftrightarrow> (\<exists>s. map_of (au_sessions a) token = Some s \<and> now \<le> ad_ExpiresAt s)"

lemma userBySessionToken_facts:
  "fst (userBySessionToken now token a) \<noteq> None \<longleftrightarrow> valid_session now token a"
  "valid_session now token a \<Longrightarrow> snd (userBySessionToken now token a) = a"
  by (auto simp: userBySessionToken_def valid_session_def split: option.split)

lemma guard_cases:
  "case requireBrowserSession unescape now r a of
     (Pass u, a') \<Rightarrow> a' = a \<and> (\<not> authEnabled a \<or> trimSpace (rq_Header r secretKeyHeader) = au_SecretKey a
       \<or> (\<exists>v. rq_Cookie r sessionCookie = Some v \<and> valid_session now (unescape v) a))
   | (Answer an, a') \<Rightarrow> authEnabled a \<and> trimSpace (rq_Header r secretKeyHeader) \<noteq> au_SecretKey a
       \<and> (\<forall>v. rq_Cookie r sessionCookie = Some v \<longrightarrow> \<not> valid_session now (unescape v) a)
       \<and> an_Status an = (if isAPIRequest (rq_Path r) then 401 else 303)
       \<and> (\<not> isAPIRequest (rq_Path r) \<longrightarrow> an_Location an = Some (''/login?next='' @ QueryEscape (rq_RequestURI r)))"
proof -
  have a: "an_Status (with_cookie c (writeError s m)) = s" "an_Status (with_cookie c (http_Redirect u s)) = s"
    "an_Location (with_cookie c (http_Redirect u s)) = Some u" for c s m u
    by (simp_all add: with_cookie_def writeError_def writeRawJSON_def plain_answer_def http_Redirect_def)
  show ?thesis
  proof (cases "\<not> authEnabled a \<or> trimSpace (rq_Header r secretKeyHeader) = au_SecretKey a")
    case True
    then show ?thesis by (auto simp: requireBrowserSession_def authEnabled_def Let_def)
  next
    case no_key: False
    show ?thesis
    proof (cases "rq_Cookie r sessionCookie")
      case None
      with no_key show ?thesis by (simp add: requireBrowserSession_def Let_def a)
    next
      case (Some v)
      obtain u a' where u: "userBySessionToken now (unescape v) a = (u, a')" by (cases "userBySessionToken now (unescape v) a")
      from userBySessionToken_facts [of now "unescape v" a] no_key Some show ?thesis
        by (cases u) (simp_all add: requireBrowserSession_def Let_def a u)
    qed
  qed
qed

text \<open>C26: The check lets a request through exactly when access control is off, or the request
  carries the secret key, or its cookie names a session that has not expired; every other
  request is answered at once, with 401 for the API and a redirection to the login page
  otherwise.\<close>

theorem guard_exact:
  "case requireBrowserSession unescape now r a of
     (Pass u, a') \<Rightarrow> a' = a \<and> (\<not> authEnabled a \<or> trimSpace (rq_Header r secretKeyHeader) = au_SecretKey a
       \<or> (\<exists>v. rq_Cookie r sessionCookie = Some v \<and> valid_session now (unescape v) a))
   | (Answer an, a') \<Rightarrow> authEnabled a \<and> trimSpace (rq_Header r secretKeyHeader) \<noteq> au_SecretKey a
       \<and> (\<forall>v. rq_Cookie r sessionCookie = Some v \<longrightarrow> \<not> valid_session now (unescape v) a)
       \<and> an_Status an = (if isAPIRequest (rq_Path r) then 401 else 303)
       \<and> (\<not> isAPIRequest (rq_Path r) \<longrightarrow> an_Location an = Some (''/login?next='' @ QueryEscape (rq_RequestURI r)))"
  by (rule guard_cases)

section \<open>Sessions\<close>

text \<open>The request is a login with the right key by a client that is not locked out.\<close>

definition good_login :: "(nat \<Rightarrow> int) \<Rightarrow> request \<Rightarrow> auth \<Rightarrow> bool" where
  "good_login clk r a \<longleftrightarrow> authEnabled a \<and> rq_Method r = ''POST'' \<and> fst (allowLogin (clk 0) (clientIP r) a)
     \<and> (\<exists>b. decodeOptionalJSON r login_fields = Ok b \<and> str_field b ''secret_key'' = au_SecretKey a)"

lemma allowLogin_frame: "allowLogin now key a = (ok, a') \<Longrightarrow>
    au_sessions a' = au_sessions a \<and> au_SecretKey a' = au_SecretKey a \<and> au_SessionDuration a' = au_SessionDuration a
    \<and> au_CookieSecure a' = au_CookieSecure a"
  by (auto simp: allowLogin_def clearLoginFailures_def split: option.splits if_splits)

lemma handleLogin_good:
  assumes "good_login clk r a"
  shows "\<exists>an a'. handleLogin present clk raw r a =
      (with_cookie (setSessionCookie (fst (createSession (clk 1) raw ''admin'' a)) (au_CookieSecure a) (au_SessionDuration a)) an, a')
    \<and> an_Status an = 200 \<and> an_Cookies an = [] \<and> au_SecretKey a' = au_SecretKey a
    \<and> au_sessions a' = au_sessions (snd (createSession (clk 1) raw ''admin'' a))"
proof -
  obtain b where b: "decodeOptionalJSON r login_fields = Ok b" "str_field b ''secret_key'' = au_SecretKey a"
    and en: "authEnabled a" "rq_Method r = ''POST''" "fst (allowLogin (clk 0) (clientIP r) a)"
    using assms by (auto simp: good_login_def)
  obtain a1 where a1: "allowLogin (clk 0) (clientIP r) a = (True, a1)"
    using en(3) by (cases "allowLogin (clk 0) (clientIP r) a") simp
  let ?an = "writeJSON 200 (GMap [(''user'', user_json (user_named ''admin'' ''administrator'')),
    (''next'', GStr (safeNext (str_field b ''next'')))])"
  let ?c = "createSession (clk 1) raw ''admin''"
  let ?a' = "snd (?c (clearLoginFailures (clientIP r) a1))"
  note f = allowLogin_frame [OF a1]
  have "handleLogin present clk raw r a =
    (with_cookie (setSessionCookie (fst (?c a)) (au_CookieSecure a) (au_SessionDuration a)) ?an, ?a')"
    using b en(1,2) f by (simp add: handleLogin_def a1 Let_def createSession_def clearLoginFailures_def authEnabled_def)
  moreover have "an_Status ?an = 200 \<and> an_Cookies ?an = []" by (simp add: writeJSON_def writeRawJSON_def plain_answer_def)
  moreover have "au_SecretKey ?a' = au_SecretKey a \<and> au_sessions ?a' = au_sessions (snd (?c a))"
    using f by (simp add: createSession_def clearLoginFailures_def Let_def)
  ultimately show ?thesis by blast
qed

text \<open>A login with the right key gives a cookie whose session is let through until it
  expires, and a logout with that cookie ends it at once.\<close>

theorem login_session_logout:
  assumes login: "good_login clk r a" "handleLogin present clk raw r a = (an, a1)"
    and cookie: "an_Cookies an = c # cs" "rq_Cookie q sessionCookie = Some (ck_Value c)" "unescape (ck_Value c) = ck_Value c"
    and out: "rq_Cookie q' sessionCookie = Some (ck_Value c)" "rq_Method q' = ''POST''"
  shows "an_Status an = 200
    \<and> (\<forall>now. now \<le> clk 1 + au_SessionDuration a \<longrightarrow>
         (\<exists>u. requireBrowserSession unescape now q a1 = (Pass u, a1)))
    \<and> (\<forall>now. trimSpace (rq_Header q secretKeyHeader) \<noteq> au_SecretKey a \<longrightarrow>
         (\<exists>an' a'. requireBrowserSession unescape now q (snd (handleLogout q' a1)) = (Answer an', a')))"
proof -
  let ?t = "fst (createSession (clk 1) raw ''admin'' a)"
  obtain an0 where h: "an = with_cookie (setSessionCookie ?t (au_CookieSecure a) (au_SessionDuration a)) an0"
    "an_Status an0 = 200" "au_sessions a1 = au_sessions (snd (createSession (clk 1) raw ''admin'' a))" "au_SecretKey a1 = au_SecretKey a"
    using handleLogin_good [OF login(1), of present raw] login(2) by auto
  then have t: "ck_Value c = ?t" "an_Status an = 200"
    using cookie(1) by (auto simp: with_cookie_def setSessionCookie_def)
  have valid: "valid_session now ?t a1" if "now \<le> clk 1 + au_SessionDuration a" for now
    using that h(3) by (simp add: valid_session_def createSession_def Let_def update_conv')
  have passes: "\<exists>u. requireBrowserSession unescape now q a1 = (Pass u, a1)" if "now \<le> clk 1 + au_SessionDuration a" for now
    using guard_cases [where unescape = unescape and now = now and r = q and a = a1] valid [OF that] cookie(2,3) t(1)
    by (auto split: prod.splits verdict.splits)
  let ?a2 = "snd (handleLogout q' a1)"
  have a2: "map_of (au_sessions ?a2) ?t = None" "au_SecretKey ?a2 = au_SecretKey a"
    using out t(1) h(4) by (simp_all add: handleLogout_def Let_def deleteSessionToken_def delete_conv)
  have refused: "\<exists>an' a'. requireBrowserSession unescape now q ?a2 = (Answer an', a')"
    if "trimSpace (rq_Header q secretKeyHeader) \<noteq> au_SecretKey a" for now
    using guard_cases [where unescape = unescape and now = now and r = q and a = ?a2] a2 that cookie(2,3) t(1) login(1)
    by (auto simp: valid_session_def authEnabled_def good_login_def split: prod.splits verdict.splits)
  show ?thesis using t(2) passes refused by blast
qed

section \<open>Wrong keys\<close>

text \<open>What happens to the access control: logins, logouts and checks.\<close>

inductive auth_step :: "auth \<Rightarrow> auth \<Rightarrow> bool" where
  login: "auth_step a (snd (handleLogin present clk raw r a))"
| logout: "auth_step a (snd (handleLogout r a))"
| check: "auth_step a (snd (requireBrowserSession unescape now r a))"

inductive_cases auth_stepE: "auth_step a a'"

definition attempts_ok :: "auth \<Rightarrow> bool" where
  "attempts_ok a \<longleftrightarrow> (\<forall>key t. map_of (au_attempts a) key = Some t \<longrightarrow> 1 \<le> la_Failures t \<and> la_Failures t \<le> 8)"

lemma deleteSessionToken_attempts [simp]: "au_attempts (deleteSessionToken t a) = au_attempts a"
  by (simp add: deleteSessionToken_def)

lemma userBySessionToken_attempts: "userBySessionToken now t a = (u, a') \<Longrightarrow> au_attempts a' = au_attempts a \<and> au_SecretKey a' = au_SecretKey a"
  by (auto simp: userBySessionToken_def deleteSessionToken_def split: option.splits if_splits)

text \<open>
  A login leaves the counters alone, clears that of its client, or counts one more failure
  for a client that was not locked out.
\<close>

lemma handleLogin_attempts:
  assumes "handleLogin present clk raw r a = (an, a')"
  shows "(au_attempts a' = au_attempts a \<and> an_Status an \<noteq> 401)
    \<or> (au_attempts a' = AList.delete (clientIP r) (au_attempts a) \<and> good_login clk r a)
    \<or> (\<exists>a1. allowLogin (clk 0) (clientIP r) a = (True, a1)
         \<and> au_attempts a' = au_attempts (recordLoginFailure (clk 1) (clientIP r) a1) \<and> an_Status an = 401)"
proof -
  have st: "an_Status (writeError n m) = n" "an_Status (http_Redirect u n) = n" "an_Status (serveFileOrText f p q) = 200" for n m u f p q
    by (simp_all add: writeError_def writeRawJSON_def plain_answer_def http_Redirect_def serveFileOrText_def)
  obtain ok a1 where al: "allowLogin (clk 0) (clientIP r) a = (ok, a1)" by (cases "allowLogin (clk 0) (clientIP r) a")
  have no: "\<not> ok \<Longrightarrow> a1 = a" using al by (auto simp: allowLogin_def split: option.splits if_splits)
  have del: "au_attempts (clearLoginFailures (clientIP r) a1) = AList.delete (clientIP r) (au_attempts a)"
    using al by (auto simp: allowLogin_def clearLoginFailures_def delete_idem split: option.splits if_splits)
  consider "\<not> authEnabled a \<or> rq_Method r \<noteq> ''POST'' \<or> \<not> is_ok (decodeOptionalJSON r login_fields)"
    | b where "authEnabled a" "rq_Method r = ''POST''" "decodeOptionalJSON r login_fields = Ok b"
    by (cases "decodeOptionalJSON r login_fields") auto
  then show ?thesis
  proof cases
    case 1
    then have "au_attempts a' = au_attempts a \<and> an_Status an \<noteq> 401"
      using assms st userBySessionToken_attempts
      by (auto simp: handleLogin_def method_err_def split: if_splits option.splits prod.splits go.splits)
    then show ?thesis ..
  next
    case 2
    have s: "str_field b ''secret_key'' = au_SecretKey a1 \<longleftrightarrow> str_field b ''secret_key'' = au_SecretKey a"
      using allowLogin_frame [OF al] by simp
    have "au_SecretKey a \<noteq> []" using 2(1) by (simp add: authEnabled_def)
    with 2 al no del s assms show ?thesis
      by (auto simp: handleLogin_def Let_def st createSession_def good_login_def split: if_splits)
  qed
qed

lemma handleLogin_key: "handleLogin present clk raw r a = (an, a') \<Longrightarrow> au_SecretKey a' = au_SecretKey a"
  using userBySessionToken_attempts allowLogin_frame
  by (auto simp: handleLogin_def Let_def createSession_def clearLoginFailures_def recordLoginFailure_def
      split: if_splits option.splits prod.splits go.splits)

lemma attempts_record:
  assumes "allowLogin t0 key a = (True, a1)" "attempts_ok a"
  shows "\<forall>k t. map_of (au_attempts (recordLoginFailure now key a1)) k = Some t \<longrightarrow> 1 \<le> la_Failures t \<and> la_Failures t \<le> 8"
  using assms
  by (auto simp: allowLogin_def attempts_ok_def recordLoginFailure_def clearLoginFailures_def update_conv' delete_conv'
      Let_def split: option.splits if_splits) force+

lemma auth_step_attempts: "auth_step a a' \<Longrightarrow> attempts_ok a \<Longrightarrow> attempts_ok a'"
proof (erule auth_stepE)
  fix present clk raw r
  assume a': "a' = snd (handleLogin present clk raw r a)" and ok: "attempts_ok a"
  obtain an where "handleLogin present clk raw r a = (an, a')" using a' by (cases "handleLogin present clk raw r a") simp
  from handleLogin_attempts [OF this] show "attempts_ok a'"
  proof (elim disjE exE conjE)
    fix a1
    assume al: "allowLogin (clk 0) (clientIP r) a = (True, a1)"
      and "au_attempts a' = au_attempts (recordLoginFailure (clk 1) (clientIP r) a1)"
    with attempts_record [OF al ok, of "clk 1"] show "attempts_ok a'" by (simp add: attempts_ok_def)
  qed (use ok in \<open>auto simp: attempts_ok_def delete_conv' split: if_splits\<close>)
next
  fix unescape now r
  assume "a' = snd (requireBrowserSession unescape now r a)" "attempts_ok a"
  moreover have "au_attempts (snd (requireBrowserSession unescape now r a)) = au_attempts a"
    by (simp add: requireBrowserSession_def userBySessionToken_def Let_def split: option.split)
  ultimately show "attempts_ok a'" by (simp add: attempts_ok_def)
qed (auto simp: handleLogout_def attempts_ok_def Let_def split: option.splits if_splits)

lemma auth_steps_attempts: "auth_step\<^sup>*\<^sup>* a a' \<Longrightarrow> attempts_ok a \<Longrightarrow> attempts_ok a'"
  by (induction rule: rtranclp_induct) (auto intro: auth_step_attempts)

text \<open>How many of a series of logins reach the comparison with the secret key, for one client.\<close>

type_synonym login = "(string \<Rightarrow> bool) \<times> (nat \<Rightarrow> int) \<times> bytes option \<times> request"

fun wrong_keys :: "string \<Rightarrow> login list \<Rightarrow> auth \<Rightarrow> nat" where
  "wrong_keys ip [] a = 0"
| "wrong_keys ip ((present, clk, raw, r) # ls) a =
     (case handleLogin present clk raw r a of
        (an, a') \<Rightarrow> (if clientIP r = ip \<and> an_Status an = 401 then 1 else 0) + wrong_keys ip ls a')"

text \<open>What is left to a client of the window that it is in and of the next one.\<close>

definition tries_left :: "int \<Rightarrow> string \<Rightarrow> auth \<Rightarrow> nat" where
  "tries_left T ip a =
     (case map_of (au_attempts a) ip of
        None \<Rightarrow> 8
      | Some t \<Rightarrow> if la_Start t < T then nat (16 - la_Failures t) else nat (8 - la_Failures t))"

lemma tries_left_cong: "map_of (au_attempts a') ip = map_of (au_attempts a) ip \<Longrightarrow> tries_left T ip a' = tries_left T ip a"
  by (simp add: tries_left_def)

lemma tries_left_record:
  assumes ok: "attempts_ok a" and al: "allowLogin t0 ip a = (True, a1)"
    and t: "T \<le> t0" "t0 \<le> t1" "t1 < T + 15 * minute"
  shows "tries_left T ip (recordLoginFailure t1 ip a1) < tries_left T ip a"
proof (cases "map_of (au_attempts a) ip")
  case None
  then have "a1 = clearLoginFailures ip a" using al by (simp add: allowLogin_def)
  with None t show ?thesis
    by (simp add: allowLogin_def clearLoginFailures_def recordLoginFailure_def tries_left_def update_conv' delete_conv' Let_def)
next
  case (Some e)
  then have e: "1 \<le> la_Failures e" "la_Failures e \<le> 8" using ok by (auto simp: attempts_ok_def)
  show ?thesis
  proof (cases "t0 - la_Start e \<ge> 15 * minute")
    case True
    with Some al have "a1 = clearLoginFailures ip a" by (simp add: allowLogin_def)
    with Some t e True show ?thesis
      by (simp add: allowLogin_def clearLoginFailures_def recordLoginFailure_def tries_left_def update_conv' delete_conv' Let_def)
  next
    case False
    with Some al have "a1 = a" "la_Failures e < 8" by (simp_all add: allowLogin_def)
    with Some t e show ?thesis
      by (auto simp: recordLoginFailure_def tries_left_def update_conv' Let_def)
  qed
qed

lemma wrong_keys_left:
  assumes "attempts_ok a"
    and "\<forall>(present, clk, raw, r) \<in> set ls. T \<le> clk 0 \<and> clk 0 \<le> clk 1 \<and> clk 1 < T + 15 * minute"
    and "\<forall>(present, clk, raw, r) \<in> set ls. \<forall>b. decodeOptionalJSON r login_fields = Ok b \<longrightarrow> str_field b ''secret_key'' \<noteq> au_SecretKey a"
  shows "wrong_keys ip ls a \<le> tries_left T ip a"
  using assms
proof (induction ls arbitrary: a)
  case (Cons l ls)
  obtain present clk raw r where l: "l = (present, clk, raw, r)" by (cases l)
  obtain an a' where h: "handleLogin present clk raw r a = (an, a')" by (cases "handleLogin present clk raw r a")
  have key: "au_SecretKey a' = au_SecretKey a" by (rule handleLogin_key [OF h])
  have ok: "attempts_ok a'" using auth_step_attempts [OF auth_step.login [of a present clk raw r] Cons.prems(1)] h by simp
  have IH: "wrong_keys ip ls a' \<le> tries_left T ip a'"
    using Cons.IH [OF ok] Cons.prems(2,3) key by simp
  have t: "T \<le> clk 0" "clk 0 \<le> clk 1" "clk 1 < T + 15 * minute" using Cons.prems(2) l by auto
  have bad: "\<not> good_login clk r a" using Cons.prems(3) l by (auto simp: good_login_def)
  from handleLogin_attempts [OF h] bad show ?case
  proof (elim disjE exE conjE)
    assume "au_attempts a' = au_attempts a" "an_Status an \<noteq> 401"
    with IH tries_left_cong [of a' ip a T] show ?thesis by (simp add: l h)
  next
    fix a1
    assume al: "allowLogin (clk 0) (clientIP r) a = (True, a1)"
      and at: "au_attempts a' = au_attempts (recordLoginFailure (clk 1) (clientIP r) a1)" and "an_Status an = 401"
    show ?thesis
    proof (cases "clientIP r = ip")
      case True
      have "tries_left T ip a' < tries_left T ip a"
        using tries_left_record [OF Cons.prems(1) al [unfolded True] t] tries_left_cong at by (metis True)
      with IH show ?thesis by (simp add: l h)
    next
      case False
      have "map_of (au_attempts a1) ip = map_of (au_attempts a) ip"
        using al False by (auto simp: allowLogin_def clearLoginFailures_def delete_conv' split: option.splits if_splits)
      then have "map_of (au_attempts a') ip = map_of (au_attempts a) ip"
        using False by (simp add: at recordLoginFailure_def update_conv' Let_def)
      with IH tries_left_cong [of a' ip a T] False show ?thesis by (simp add: l h)
    qed
  qed simp
qed simp


text \<open>
  The check and the count are two critical sections: requests that arrive together all pass
  the check before the first failure is counted, so the bound holds only one by one. And the
  client is named by a header of its own, so a client can be as many as it likes.
\<close>

lemma allowLogin_again: "allowLogin now key a = (True, a') \<Longrightarrow> allowLogin now key a' = (True, a')"
  by (auto simp: allowLogin_def clearLoginFailures_def delete_conv' delete_idem split: option.splits if_splits)

lemma clientIP_chosen: "ip \<noteq> [] \<Longrightarrow> CHR '','' \<notin> set ip \<Longrightarrow> trimSpace ip = ip \<Longrightarrow>
    clientIP (r\<lparr>rq_Header := (rq_Header r)(''X-Forwarded-For'' := ip)\<rparr>) = ip"
  by (simp add: clientIP_def split_on_single)

text \<open>
  The target after a login begins with one slash and not with two; a slash and a backslash
  pass, which browsers read as two slashes.
\<close>

lemma safeNext_local: "prefix ''/'' (safeNext v) \<and> \<not> prefix ''//'' (safeNext v)"
  by (simp add: safeNext_def)

lemma safeNext_backslash: "safeNext (CHR ''/'' # CHR 0x5C # s) = CHR ''/'' # CHR 0x5C # s"
  by (simp add: safeNext_def)

section \<open>Samples\<close>

definition sample_auth :: auth where
  "sample_auth = \<lparr>au_SecretKey = ''k'', au_SessionDuration = 60 * minute, au_CookieSecure = False,
     au_Templates = ''t'', au_sessions = [], au_attempts = []\<rparr>"

definition login_request :: "string \<Rightarrow> request" where
  "login_request key = \<lparr>rq_Method = ''POST'', rq_Path = ''/login'', rq_RequestURI = ''/login'', rq_Query = (\<lambda>_. []),
     rq_Header = (\<lambda>_. []), rq_Cookie = (\<lambda>_. None),
     rq_Body = bytes_of (''{\"secret_key\":\"'' @ key @ ''\"}''),
     rq_RemoteAddr = ''10.0.0.1:80''\<rparr>"

lemma login_body:
  "decodeOptionalJSON (login_request ''k'') login_fields = Ok [(''secret_key'', GStr ''k''), (''next'', GStr [])]"
  by (simp add: decodeOptionalJSON_def login_request_def login_fields_def json_decode_first_def decode_struct_def json_eval)
    (simp add: text_eval store_field_def)

theorem guard_exact_witness:
  "\<exists>u. requireBrowserSession id 3 ((login_request [])\<lparr>rq_Cookie := (\<lambda>_. Some ''t'')\<rparr>)
     (sample_auth\<lparr>au_sessions := [(''t'', \<lparr>ad_Username = ''admin'', ad_ExpiresAt = 5\<rparr>)]\<rparr>)
   = (Pass u, sample_auth\<lparr>au_sessions := [(''t'', \<lparr>ad_Username = ''admin'', ad_ExpiresAt = 5\<rparr>)]\<rparr>)"
proof -
  let ?r = "(login_request [])\<lparr>rq_Cookie := (\<lambda>_. Some ''t'')\<rparr>"
  let ?a = "sample_auth\<lparr>au_sessions := [(''t'', \<lparr>ad_Username = ''admin'', ad_ExpiresAt = 5\<rparr>)]\<rparr>"
  have "rq_Cookie ?r sessionCookie = Some ''t''" "valid_session 3 (id ''t'') ?a"
    by (simp_all add: login_request_def valid_session_def)
  with guard_exact [where unescape = id and now = 3 and r = ?r and a = ?a] show ?thesis
    by (auto split: prod.splits verdict.splits)
qed

theorem login_session_logout_witness:
  "\<exists>an a1 c. handleLogin (\<lambda>_. False) (\<lambda>_. 0) (Some [1]) (login_request ''k'') sample_auth = (an, a1)
     \<and> an_Cookies an = [c] \<and> an_Status an = 200
     \<and> (\<exists>u. requireBrowserSession id 5 ((login_request [])\<lparr>rq_Cookie := (\<lambda>_. Some (ck_Value c))\<rparr>) a1 = (Pass u, a1))"
proof -
  have good: "good_login (\<lambda>_. 0) (login_request ''k'') sample_auth"
    using login_body by (simp add: good_login_def authEnabled_def sample_auth_def login_request_def allowLogin_def str_field_def gget_def)
  obtain an a1 c where h: "handleLogin (\<lambda>_. False) (\<lambda>_. 0) (Some [1]) (login_request ''k'') sample_auth = (an, a1)" "an_Cookies an = [c]"
    using handleLogin_good [OF good, of "\<lambda>_. False" "Some [1]"] by (auto simp: with_cookie_def)
  let ?q = "(login_request [])\<lparr>rq_Cookie := (\<lambda>_. Some (ck_Value c))\<rparr>"
  have q: "rq_Cookie ?q sessionCookie = Some (ck_Value c)" "id (ck_Value c) = ck_Value c" "rq_Method ?q = ''POST''"
    by (simp_all add: login_request_def)
  have "5 \<le> (0 :: int) + au_SessionDuration sample_auth" by (simp add: sample_auth_def minute_def)
  with login_session_logout [where unescape = id, OF good h q(1,2) q(1,3)] h show ?thesis by auto
qed


end
