(* ===== verification/Qr.thy ===== *)
theory Qr
  imports Loginbuffer Go_Http Go_State
begin

text \<open>
  Model of \<open>internal/qr/qr.go\<close>: a login by QR code. A session asks WeChat for a code, polls
  until it is scanned and authorized, and then exchanges the authorization for a login
  buffer. The network is an argument: what a GET of a URL with the cookies of the jar gives,
  and the jar that it leaves. A jar is what its method \<open>Cookies\<close> answers for a URL.
\<close>

type_synonym jar = "string \<Rightarrow> (string \<times> string) list"
type_synonym web = "string \<Rightarrow> jar \<Rightarrow> (int \<times> bytes) go \<times> jar"

definition oauthURL :: string where
  "oauthURL = ''https://open.weixin.qq.com/connect/qrconnect?appid=wxd44977328b36e647''
     @ ''&redirect_uri=https://yybadaccess.3g.qq.com/pc_yyb/pcyyb_oauth?login_type=WX''
     @ ''&response_type=code&scope=snsapi_login,snsapi_runtime_pcsdk''
     @ ''&state=web&fast_login=1&self_redirect=true''"
definition callbackURL :: string where "callbackURL = ''https://yybadaccess.3g.qq.com/pc_yyb/pcyyb_oauth''"
definition qrBase :: string where "qrBase = ''https://open.weixin.qq.com/connect/qrcode/''"
definition longPollBase :: string where "longPollBase = ''https://long.open.weixin.qq.com/connect/l/qrconnect''"

record Session =
  q_ID :: string
  q_WXUUID :: string
  q_QRCodeURL :: string
  q_CreatedAt :: int
  q_Jar :: jar
  q_AuthorizeCode :: string
  q_Credentials :: "credentials option"
  q_LoginBuffer :: string
  q_Status :: string
  q_Error :: string

definition Age :: "int \<Rightarrow> Session \<Rightarrow> int" where
  "Age now s = now - q_CreatedAt s"

record PollResult =
  pr_Status :: string
  pr_ErrCode :: "int option"
  pr_Code :: string
  pr_Message :: string

section \<open>The three patterns\<close>

text \<open>The leftmost place at which \<open>m\<close> matches.\<close>

fun leftmost :: "(string \<Rightarrow> 'a option) \<Rightarrow> string \<Rightarrow> 'a option" where
  "leftmost m s =
     (case m s of
        Some x \<Rightarrow> Some x
      | None \<Rightarrow> (case s of [] \<Rightarrow> None | c # r \<Rightarrow> leftmost m r))"

declare leftmost.simps [simp del]

definition re_space :: "char \<Rightarrow> bool" where
  "re_space c \<longleftrightarrow> of_char c \<in> {9, 10, 12, 13, 32 :: nat}"

definition after_literal :: "string \<Rightarrow> string \<Rightarrow> string option" where
  "after_literal l s = (if prefix l s then Some (drop (length l) s) else None)"

definition uuidRE :: "string \<Rightarrow> string option" where
  "uuidRE = leftmost (\<lambda>s.
     case after_literal ''/connect/qrcode/'' s of
       None \<Rightarrow> None
     | Some r \<Rightarrow>
         (let w = takeWhile (\<lambda>c. c \<noteq> CHR 0x22 \<and> c \<noteq> CHR 0x27 \<and> c \<noteq> CHR ''>'' \<and> \<not> re_space c) r in
          if w = [] then None else Some w))"

text \<open>A name, an equals sign with white space around it, and what follows.\<close>

definition assigned :: "string \<Rightarrow> string \<Rightarrow> string option" where
  "assigned name s =
     (case after_literal name s of
        None \<Rightarrow> None
      | Some r \<Rightarrow>
          (case dropWhile re_space r of
             c # r2 \<Rightarrow> if c = CHR ''='' then Some (dropWhile re_space r2) else None
           | [] \<Rightarrow> None))"

definition errRE :: "string \<Rightarrow> string option" where
  "errRE = leftmost (\<lambda>s.
     case assigned ''wx_errcode'' s of
       None \<Rightarrow> None
     | Some r \<Rightarrow> (let ds = takeWhile isDigitChar r in if ds = [] then None else Some ds))"

definition codeRE :: "string \<Rightarrow> string option" where
  "codeRE = leftmost (\<lambda>s.
     case assigned ''wx_code'' s of
       Some (c # r) \<Rightarrow>
         if c = CHR 0x27 then
           (let w = takeWhile (\<lambda>c. c \<noteq> CHR 0x27) r in
            if length w < length r then Some w else None)
         else None
     | _ \<Rightarrow> None)"

text \<open>A number out of range reads as the nearest bound, since the error is not looked at.\<close>

definition parsePoll :: "string \<Rightarrow> int option \<times> string" where
  "parsePoll text =
     (map_option (\<lambda>ds. fst (parseInt ds)) (errRE text), case codeRE text of Some c \<Rightarrow> c | None \<Rightarrow> [])"

section \<open>A new session\<close>

text \<open>\<open>raw\<close> are the random bytes of the id, None when the generator fails.\<close>

definition randomHex :: "bytes go \<Rightarrow> string go" where
  "randomHex raw = go_bind raw (\<lambda>b. Ok (hexEncode b))"

definition no_cookies :: jar where "no_cookies u = []"

definition CreateSession :: "web \<Rightarrow> bytes go \<Rightarrow> int \<Rightarrow> Session go" where
  "CreateSession web raw now =
     (case web oauthURL no_cookies of
        (Ok (status, body), jar) \<Rightarrow>
          (case uuidRE (string_of body) of
             None \<Rightarrow> Err (Errorf ''failed to parse WeChat QR uuid'')
           | Some wxuuid \<Rightarrow>
               go_bind (randomHex raw) (\<lambda>i.
               Ok \<lparr>q_ID = i, q_WXUUID = wxuuid, q_QRCodeURL = qrBase @ wxuuid, q_CreatedAt = now, q_Jar = jar,
                   q_AuthorizeCode = [], q_Credentials = None, q_LoginBuffer = [], q_Status = ''pending'', q_Error = []\<rparr>))
      | (Err e, _) \<Rightarrow> Err e
      | (Panic, _) \<Rightarrow> Panic)"

definition FetchQRCodeImage :: "web \<Rightarrow> (Session, bytes) act" where
  "FetchQRCodeImage web s =
     (case web (q_QRCodeURL s) (q_Jar s) of
        (r, jar) \<Rightarrow>
          (go_bind r (\<lambda>(status, body).
             if status < 200 \<or> status \<ge> 300 then Err (Errorf ''QR image HTTP %d'') else Ok body),
           s\<lparr>q_Jar := jar\<rparr>))"

definition GetQRCodeImage :: "web \<Rightarrow> bytes go \<Rightarrow> int \<Rightarrow> (Session \<times> bytes) go" where
  "GetQRCodeImage web raw now =
     go_bind (CreateSession web raw now) (\<lambda>s.
     case FetchQRCodeImage web s of
       (Ok data, s) \<Rightarrow> Ok (s, data)
     | (Err e, s) \<Rightarrow> Err e
     | (Panic, s) \<Rightarrow> Panic)"

section \<open>Polling\<close>

text \<open>\<open>url.Values.Encode\<close> sorts by key.\<close>

definition poll_url :: "int \<Rightarrow> Session \<Rightarrow> string" where
  "poll_url now_ms s = longPollBase @ ''?_='' @ QueryEscape (itoa now_ms) @ ''&uuid='' @ QueryEscape (q_WXUUID s)"

definition poll_answer :: "string \<Rightarrow> (Session, PollResult) act" where
  "poll_answer text s =
     (let (errcode, code) = parsePoll text;
          res = (\<lambda>st. Ok \<lparr>pr_Status = st, pr_ErrCode = errcode, pr_Code = code, pr_Message = []\<rparr>) in
      if errcode = Some 408 then (res ''pending'', s\<lparr>q_Status := ''pending''\<rparr>)
      else if errcode = Some 404 then (res ''scanned'', s\<lparr>q_Status := ''scanned''\<rparr>)
      else if errcode = Some 403 then (res ''cancelled'', s\<lparr>q_Status := ''cancelled''\<rparr>)
      else if errcode = Some 402 then (res ''expired'', s\<lparr>q_Status := ''expired''\<rparr>)
      else if errcode = Some 405 \<and> code \<noteq> []
      then (res ''authorized'', s\<lparr>q_AuthorizeCode := code, q_Status := ''authorized''\<rparr>)
      else
        let text = (if length text > 200 then take 200 text else text) in
        (Ok \<lparr>pr_Status = ''unknown'', pr_ErrCode = errcode, pr_Code = code, pr_Message = text\<rparr>,
         s\<lparr>q_Status := ''unknown'', q_Error := text\<rparr>))"

definition PollQRCode :: "web \<Rightarrow> int \<Rightarrow> (Session, PollResult) act" where
  "PollQRCode web now_ms s =
     (if q_LoginBuffer s \<noteq> []
      then (Ok \<lparr>pr_Status = ''confirmed'', pr_ErrCode = None, pr_Code = [], pr_Message = []\<rparr>, s)
      else if q_AuthorizeCode s \<noteq> []
      then (Ok \<lparr>pr_Status = ''authorized'', pr_ErrCode = Some 405, pr_Code = q_AuthorizeCode s, pr_Message = []\<rparr>, s)
      else
        case web (poll_url now_ms s) (q_Jar s) of
          (Ok (status, body), jar) \<Rightarrow> poll_answer (string_of body) (s\<lparr>q_Jar := jar\<rparr>)
        | (Err e, jar) \<Rightarrow> (Err e, s\<lparr>q_Jar := jar\<rparr>)
        | (Panic, jar) \<Rightarrow> (Panic, s\<lparr>q_Jar := jar\<rparr>))"

section \<open>The login buffer\<close>

definition cookie_value :: "(string \<times> string) list \<Rightarrow> string \<Rightarrow> string" where
  "cookie_value cookies name = (case map_of (rev cookies) name of Some v \<Rightarrow> v | None \<Rightarrow> [])"

definition credentialsFromJar :: "int \<Rightarrow> jar \<Rightarrow> string \<Rightarrow> credentials go" where
  "credentialsFromJar now jar rawURL =
     (let values = cookie_value (jar rawURL @ jar ''https://yybadaccess.3g.qq.com/'');
          openid = values ''openid''; accessToken = values ''accesstoken'' in
      if openid = [] \<or> accessToken = [] then Err (Errorf ''OAuth callback did not set required cookies'')
      else
        let expiresIn = (case parseInt (values ''expires_in'') of
              (n, err) \<Rightarrow> if values ''expires_in'' \<noteq> [] \<and> \<not> err \<and> n > 0 then n else 7200) in
        Ok \<lparr>c_OpenID = openid, c_AccessToken = accessToken, c_RefreshToken = values ''refreshtoken'',
            c_LoginType = defaultString (values ''logintype'') ''WX'', c_Nickname = values ''nickname'',
            c_ExpiresAt = add_int64 now expiresIn, c_ExpiresIn = expiresIn\<rparr>)"

definition callback_url :: "Session \<Rightarrow> string" where
  "callback_url s = callbackURL @ ''?code='' @ QueryEscape (q_AuthorizeCode s) @ ''&login_type=WX&state=web''"

definition GetLoginBuffer :: "web \<Rightarrow> http_client \<Rightarrow> string \<times> string \<Rightarrow> int \<Rightarrow> (Session, string \<times> credentials) act" where
  "GetLoginBuffer web http draw now s =
     (case (q_LoginBuffer s \<noteq> [], q_Credentials s) of
        (True, Some c) \<Rightarrow> (Ok (q_LoginBuffer s, c), s)
      | _ \<Rightarrow>
          if q_AuthorizeCode s = [] then (Err (Errorf ''QR session is not authorized yet''), s)
          else
            case web (callback_url s) (q_Jar s) of
              (Err e, jar) \<Rightarrow> (Err e, s\<lparr>q_Jar := jar\<rparr>)
            | (Panic, jar) \<Rightarrow> (Panic, s\<lparr>q_Jar := jar\<rparr>)
            | (Ok _, jar) \<Rightarrow>
                let s = s\<lparr>q_Jar := jar\<rparr> in
                (case go_bind (credentialsFromJar now jar (callback_url s)) (\<lambda>c.
                       go_bind (FetchLoginBuffer http (fst draw) (snd draw) c) (\<lambda>lb. Ok (lb, c))) of
                   Ok (lb, c) \<Rightarrow> (Ok (lb, c), s\<lparr>q_Credentials := Some c, q_LoginBuffer := lb, q_Status := ''confirmed''\<rparr>)
                 | Err e \<Rightarrow> (Err e, s)
                 | Panic \<Rightarrow> (Panic, s)))"

definition DataURIJPEG :: "bytes \<Rightarrow> string" where
  "DataURIJPEG data = ''data:image/jpeg;base64,'' @ b64Encode data"

end
