(* ===== verification/Qr_Props.thy ===== *)
theory Qr_Props
  imports Qr
begin

text \<open>
  Correctness of the login by QR code: reading the answer of a poll, and the life of a
  session.
\<close>

section \<open>Answers of a poll\<close>

lemma leftmost_here: "m s = Some x \<Longrightarrow> leftmost m s = Some x"
  by (subst leftmost.simps) simp

lemma leftmost_next: "m (c # s) = None \<Longrightarrow> leftmost m (c # s) = leftmost m s"
  by (subst leftmost.simps) simp

lemma leftmost_skip: "\<forall>c \<in> set p. \<forall>r. m (c # r) = None \<Longrightarrow> leftmost m (p @ s) = leftmost m s"
  by (induction p) (simp_all add: leftmost_next)

lemma takeWhile_stop: "\<forall>c \<in> set p. P c \<Longrightarrow> \<not> P x \<Longrightarrow> takeWhile P (p @ x # s) = p"
  by (induction p) auto

lemma digit_not_space: "isDigitChar c \<Longrightarrow> \<not> re_space c"
  by (auto simp: isDigitChar_def digit_val_def re_space_def Let_def split: if_splits)

lemma digit_not_w: "isDigitChar c \<Longrightarrow> c \<noteq> CHR ''w''"
  by (auto simp: isDigitChar_def digit_val_def)

text \<open>What WeChat answers to a poll is read as the code and the authorization that it
  carries, whatever characters but a quote the authorization has.\<close>

theorem parsePoll_answer:
  assumes "0 \<le> n" "n \<le> max_int64" "CHR 0x27 \<notin> set code"
  shows "parsePoll (''window.wx_errcode='' @ itoa n @ '';window.wx_code='' @ [CHR 0x27] @ code @ [CHR 0x27] @ rest)
    = (Some n, code)"
proof -
  let ?code = "''window.wx_code='' @ [CHR 0x27] @ code @ [CHR 0x27] @ rest"
  let ?ds = "nat_digits (nat n)"
  have ds: "itoa n = ?ds" "?ds \<noteq> []" "\<forall>c \<in> set ?ds. isDigitChar c"
    using assms(1) nat_digits_digits [of "nat n"] by (simp_all add: itoa_def list_all_iff)
  then obtain d ds' where d: "?ds = d # ds'" "\<not> re_space d" using digit_not_space by (cases ?ds) auto
  have semi: "\<not> isDigitChar (CHR '';'')" by (simp add: isDigitChar_def digit_val_def)
  have err: "errRE (''window.wx_errcode='' @ ?ds @ '';'' @ ?code) = Some ?ds"
  proof -
    have "takeWhile isDigitChar (?ds @ CHR '';'' # ?code) = ?ds" by (rule takeWhile_stop) (use ds semi in auto)
    moreover have "dropWhile re_space (?ds @ s) = ?ds @ s" for s using d by simp
    moreover have "\<not> re_space (CHR ''='')" by (simp add: re_space_def)
    ultimately show ?thesis
      using ds(2) by (simp add: errRE_def leftmost.simps assigned_def after_literal_def)
  qed
  have code: "codeRE (''window.wx_errcode='' @ ?ds @ '';'' @ ?code) = Some code"
  proof -
    let ?m = "\<lambda>s. case assigned ''wx_code'' s of
       Some (c # r) \<Rightarrow> if c = CHR 0x27 then
           (let w = takeWhile (\<lambda>c. c \<noteq> CHR 0x27) r in if length w < length r then Some w else None) else None
     | _ \<Rightarrow> None"
    have "leftmost ?m (''window.wx_errcode='' @ ?ds @ '';'' @ ?code) = leftmost ?m (?ds @ '';'' @ ?code)"
      by (simp add: leftmost_next assigned_def after_literal_def)
    also have "\<dots> = leftmost ?m ('';'' @ ?code)"
      by (rule leftmost_skip) (use ds(3) digit_not_w in \<open>auto simp: assigned_def after_literal_def\<close>)
    also have "\<dots> = Some code"
    proof -
      have "takeWhile (\<lambda>c. c \<noteq> CHR 0x27) (code @ CHR 0x27 # rest) = code" by (rule takeWhile_stop) (use assms(3) in auto)
      then show ?thesis
        by (simp add: leftmost_next leftmost_here assigned_def after_literal_def re_space_def)
    qed
    finally show ?thesis by (simp add: codeRE_def)
  qed
  have "fst (parseInt ?ds) = n"
    using parseInt_itoa [of n] assms(1,2) ds(1) by (simp add: min_int64_def)
  with err code ds(1) show ?thesis by (simp add: parsePoll_def)
qed

theorem parsePoll_answer_witness: "parsePoll (''window.wx_errcode='' @ itoa 405 @ '';window.wx_code='' @ [CHR 0x27] @ ''a=b'' @ [CHR 0x27] @ '';'') = (Some 405, ''a=b'')"
  by (rule parsePoll_answer) (simp_all add: max_int64_def)

section \<open>The life of a session\<close>

inductive qr_step :: "Session \<Rightarrow> Session \<Rightarrow> bool" where
  polls: "qr_step s (snd (PollQRCode web now_ms s))"
| confirms: "qr_step s (snd (GetLoginBuffer web http draw now s))"
| fetches: "qr_step s (snd (FetchQRCodeImage web s))"

inductive_cases qr_stepE: "qr_step s s'"

definition qr_inv :: "Session \<Rightarrow> bool" where
  "qr_inv s \<longleftrightarrow> (if q_LoginBuffer s \<noteq> [] then q_AuthorizeCode s \<noteq> [] \<and> q_Status s = ''confirmed'' \<and> q_Credentials s \<noteq> None
     else q_Credentials s = None \<and> (q_AuthorizeCode s \<noteq> [] \<longleftrightarrow> q_Status s = ''authorized''))"

lemma FetchLoginBuffer_nonempty: "FetchLoginBuffer http ts nonce c = Ok lb \<Longrightarrow> lb \<noteq> []"
  by (auto simp: FetchLoginBuffer_def go_bind_Ok_iff Let_def split: if_splits)

lemma poll_answer_fields:
  "q_LoginBuffer (snd (poll_answer text s)) = q_LoginBuffer s"
  "q_Credentials (snd (poll_answer text s)) = q_Credentials s"
  "q_AuthorizeCode s = [] \<Longrightarrow> q_AuthorizeCode (snd (poll_answer text s)) \<noteq> [] \<longleftrightarrow> q_Status (snd (poll_answer text s)) = ''authorized''"
  by (auto simp: poll_answer_def Let_def split: prod.splits if_splits)

lemma poll_inv: "qr_inv s \<Longrightarrow> qr_inv (snd (PollQRCode web now_ms s))"
proof -
  assume inv: "qr_inv s"
  obtain r jar where w: "web (poll_url now_ms s) (q_Jar s) = (r, jar)" by (cases "web (poll_url now_ms s) (q_Jar s)")
  show "qr_inv (snd (PollQRCode web now_ms s))"
  proof (cases "q_LoginBuffer s = [] \<and> q_AuthorizeCode s = []")
    case True
    with inv poll_answer_fields [where s = "s\<lparr>q_Jar := jar\<rparr>"] show ?thesis
      by (cases r) (auto simp: PollQRCode_def w qr_inv_def)
  qed (use inv in \<open>auto simp: PollQRCode_def\<close>)
qed

lemma callback_url_jar [simp]: "callback_url (s\<lparr>q_Jar := jar\<rparr>) = callback_url s"
  by (simp add: callback_url_def)

lemma confirm_inv: "qr_inv s \<Longrightarrow> qr_inv (snd (GetLoginBuffer web http draw now s))"
proof -
  assume inv: "qr_inv s"
  obtain r jar where w: "web (callback_url s) (q_Jar s) = (r, jar)" by (cases "web (callback_url s) (q_Jar s)")
  let ?g = "go_bind (credentialsFromJar now jar (callback_url s)) (\<lambda>c. go_bind (FetchLoginBuffer http (fst draw) (snd draw) c) (\<lambda>lb. Ok (lb, c)))"
  have ne: "lb \<noteq> []" if "?g = Ok (lb, c)" for lb c using that by (auto simp: go_bind_Ok_iff dest: FetchLoginBuffer_nonempty)
  consider c where "q_LoginBuffer s \<noteq> []" "q_Credentials s = Some c"
    | "q_LoginBuffer s = []" "q_AuthorizeCode s = []" | "q_LoginBuffer s = []" "q_AuthorizeCode s \<noteq> []"
    using inv by (auto simp: qr_inv_def split: if_splits)
  then show "qr_inv (snd (GetLoginBuffer web http draw now s))"
  proof cases
    case 3
    with inv ne show ?thesis
      by (cases r; cases ?g) (auto simp: GetLoginBuffer_def w qr_inv_def Let_def)
  qed (use inv in \<open>simp_all add: GetLoginBuffer_def\<close>)
qed

lemma fetch_same: "snd (FetchQRCodeImage web s) = s\<lparr>q_Jar := snd (web (q_QRCodeURL s) (q_Jar s))\<rparr>"
  by (simp add: FetchQRCodeImage_def split: prod.split)

lemma qr_step_inv: "qr_step s s' \<Longrightarrow> qr_inv s \<Longrightarrow> qr_inv s'"
  by (erule qr_stepE) (simp_all add: poll_inv confirm_inv, simp add: fetch_same qr_inv_def)

lemma qr_steps_inv: "qr_step\<^sup>*\<^sup>* s s' \<Longrightarrow> qr_inv s \<Longrightarrow> qr_inv s'"
  by (induction rule: rtranclp_induct) (auto intro: qr_step_inv)

lemma CreateSession_inv: "CreateSession web raw now = Ok s \<Longrightarrow> qr_inv s"
  by (auto simp: CreateSession_def go_bind_Ok_iff qr_inv_def split: prod.splits go.splits option.splits)

text \<open>A confirmed session answers from what it holds and does not change but for its cookies.\<close>

lemma confirmed_answers:
  assumes "q_LoginBuffer s = lb" "lb \<noteq> []" "q_Credentials s = Some c"
  shows "PollQRCode web now_ms s = (Ok \<lparr>pr_Status = ''confirmed'', pr_ErrCode = None, pr_Code = [], pr_Message = []\<rparr>, s)"
    "GetLoginBuffer web http draw now s = (Ok (lb, c), s)"
  using assms by (simp_all add: PollQRCode_def GetLoginBuffer_def)

lemma confirmed_step:
  "qr_step s s' \<Longrightarrow> q_LoginBuffer s = lb \<Longrightarrow> lb \<noteq> [] \<Longrightarrow> q_Credentials s = Some c \<Longrightarrow>
   q_LoginBuffer s' = lb \<and> q_Credentials s' = Some c"
  by (erule qr_stepE) (simp_all add: confirmed_answers fetch_same)


section \<open>A sample network\<close>

definition sample_web :: web where
  "sample_web url jar = (if url = oauthURL then (Ok (200, bytes_of ''/connect/qrcode/u1''), jar)
     else if prefix callbackURL url then (Ok (200, []), (\<lambda>_. [(''openid'', ''o''), (''accesstoken'', ''a'')]))
     else (Ok (200, bytes_of (''wx_errcode=405;wx_code='' @ [CHR 0x27] @ ''c'' @ [CHR 0x27])), jar))"

definition sample_reply :: bytes where
  "sample_reply = bytes_of ''{\"ext_info\":{\"list_s\":{\"login_buffer\":{\"value\":[\"B\"]}}}}''"

lemma sample_reply_map: "json_Unmarshal_map sample_reply = Some (Some
    [(''ext_info'', GMap [(''list_s'', GMap [(''login_buffer'', GMap [(''value'', GArr [GStr ''B''])])])])])"
    by (simp add: sample_reply_def json_eval) (simp add: text_eval)

text \<open>A session of this network after a poll, and what it then gives out.\<close>

definition sample_session :: Session where
  "sample_session = \<lparr>q_ID = ''01'', q_WXUUID = ''u1'', q_QRCodeURL = qrBase @ ''u1'', q_CreatedAt = 0, q_Jar = no_cookies,
     q_AuthorizeCode = [], q_Credentials = None, q_LoginBuffer = [], q_Status = ''pending'', q_Error = []\<rparr>"

lemma sample_created: "CreateSession sample_web (Ok [1]) 0 = Ok sample_session"
proof -
  have "uuidRE ''/connect/qrcode/u1'' = Some ''u1''"
    by (simp add: uuidRE_def leftmost_here after_literal_def re_space_def)
  moreover have "hexEncode [1] = ''01''" by code_simp
  ultimately show ?thesis
    by (simp add: CreateSession_def sample_web_def randomHex_def sample_session_def)
qed

lemma sample_authorized:
  "snd (PollQRCode sample_web 7 sample_session) = sample_session\<lparr>q_AuthorizeCode := ''c'', q_Status := ''authorized''\<rparr>"
proof -
  have u: "poll_url n s \<noteq> oauthURL" "\<not> prefix callbackURL (poll_url n s)" for n s
    by (simp_all add: poll_url_def longPollBase_def oauthURL_def callbackURL_def)
  have "parsePoll (''wx_errcode=405;wx_code='' @ [CHR 0x27] @ ''c'' @ [CHR 0x27]) = (Some 405, ''c'')"
    by code_simp
  then show ?thesis
    by (simp add: PollQRCode_def sample_session_def sample_web_def u poll_answer_def)
qed


end
