(* ===== verification/App_State.thy ===== *)
theory App_State
  imports Pool Loginbuffer Qr Auth Runner
begin

text \<open>
  The state of \<open>internal/httpapi/app.go\<close>, with \<open>resources.go\<close> and the profile of an account:
  what \<open>NewApp\<close> builds, the directories, nicknames and avatars. Files that the service keeps
  itself (avatars and pictures of QR codes) are a list of paths with their contents. What the
  operating system, the network and SQLite decide is an argument.
\<close>

section \<open>Configuration and directories\<close>

record AppConfig =
  ac_ResourceRoot :: string
  ac_AssetRoot :: string
  ac_DBFilename :: string
  ac_TCPProxy :: string
  ac_SessionTTL :: int
  ac_RequestTimeout :: int
  ac_AvatarTimeout :: int
  ac_ScanTimeout :: int
  ac_QRSessionTTL :: int
  ac_KeepAliveInterval :: int
  ac_KeepAliveAhead :: int
  ac_PythonCommand :: string
  ac_ScriptsServerURL :: string
  ac_SecretKey :: string
  ac_SessionDuration :: int
  ac_CookieSecure :: bool

record resources =
  res_Root :: string
  res_DB :: string
  res_Avatars :: string
  res_QR :: string
  res_Templates :: string
  res_Static :: string
  res_Scripts :: string
  res_ScriptSDK :: string
  res_ScriptLogs :: string

fun make_dirs :: "(string \<Rightarrow> unit go) \<Rightarrow> string list \<Rightarrow> unit go" where
  "make_dirs mkdir [] = Ok ()"
| "make_dirs mkdir (p # ps) = go_bind (mkdir p) (\<lambda>_. make_dirs mkdir ps)"

definition ensureResources :: "(string \<Rightarrow> unit go) \<Rightarrow> string \<Rightarrow> string \<Rightarrow> resources go" where
  "ensureResources mkdir dataRoot assetRoot =
     (let assetRoot = (if assetRoot = [] then dataRoot else assetRoot);
          res = \<lparr>res_Root = dataRoot, res_DB = path_Join [dataRoot, ''db''],
            res_Avatars = path_Join [dataRoot, ''avatars''], res_QR = path_Join [dataRoot, ''qr''],
            res_Templates = path_Join [assetRoot, ''templates''], res_Static = path_Join [assetRoot, ''static''],
            res_Scripts = path_Join [dataRoot, ''scripts''], res_ScriptSDK = path_Join [assetRoot, ''scripts'', ''sdk''],
            res_ScriptLogs = path_Join [dataRoot, ''scripts'', ''logs'']\<rparr> in
      go_bind (make_dirs mkdir [res_DB res, res_Avatars res, res_QR res, res_Scripts res, res_ScriptLogs res])
        (\<lambda>_. Ok res))"

definition name_char :: "char \<Rightarrow> bool" where
  "name_char c \<longleftrightarrow>
     (let n = (of_char c :: nat) in
      (97 \<le> n \<and> n \<le> 122) \<or> (65 \<le> n \<and> n \<le> 90) \<or> (48 \<le> n \<and> n \<le> 57) \<or> c = CHR ''-'' \<or> c = CHR ''_'')"

text \<open>Runes other than these have no byte below 128.\<close>

definition safeName :: "string \<Rightarrow> string" where
  "safeName s = filter name_char s"

definition avatarPath :: "resources \<Rightarrow> string \<Rightarrow> string" where
  "avatarPath r openid = path_Join [res_Avatars r, safeName openid @ ''.jpg'']"

definition qrPath :: "resources \<Rightarrow> string \<Rightarrow> string" where
  "qrPath r sessionID = path_Join [res_QR r, sessionID @ ''.jpg'']"

definition DefaultDBFilename :: string where "DefaultDBFilename = ''yyb.db''"

definition prepareDBPath :: "string \<Rightarrow> string \<Rightarrow> string" where
  "prepareDBPath dbDir filename =
     path_Join [dbDir, if filename = [] then DefaultDBFilename else filename]"

section \<open>The state\<close>

type_synonym files = "(string \<times> bytes) list"

record app =
  app_cfg :: AppConfig
  app_res :: resources
  app_pool :: pool \<comment> \<open>with the database, which the handlers share\<close>
  app_scripts :: runner
  app_auth :: auth
  app_qr :: "(string \<times> Session) list"
  app_locks :: "(int \<times> nat) list"
  app_retry :: "(int \<times> int) list"
  app_files :: files

definition app_db :: "app \<Rightarrow> db" where
  "app_db a = p_db (app_pool a)"

definition set_db :: "db \<Rightarrow> app \<Rightarrow> app" where
  "set_db d a = a\<lparr>app_pool := (app_pool a)\<lparr>p_db := d\<rparr>\<rparr>"

text \<open>What the start of the service meets.\<close>

record app_start =
  st_mkdir :: "string \<Rightarrow> unit go"
  st_open :: "string \<Rightarrow> db go"
  st_cwd :: "string go"
  st_scripts :: "(string \<times> script_file) list"
  st_sched :: "(string \<times> scheduleEntry) list option"
  st_files :: files

definition app_defaults :: "AppConfig \<Rightarrow> AppConfig" where
  "app_defaults cfg =
     cfg\<lparr>ac_ResourceRoot := (if ac_ResourceRoot cfg = [] then path_Join [''.'', ''resource''] else ac_ResourceRoot cfg),
         ac_DBFilename := (if ac_DBFilename cfg = [] then DefaultDBFilename else ac_DBFilename cfg),
         ac_RequestTimeout := or_default (ac_RequestTimeout cfg) (8 * second),
         ac_AvatarTimeout := or_default (ac_AvatarTimeout cfg) (10 * second),
         ac_SessionTTL := or_default (ac_SessionTTL cfg) (30 * minute),
         ac_QRSessionTTL := or_default (ac_QRSessionTTL cfg) (5 * minute),
         ac_KeepAliveAhead :=
           (if ac_KeepAliveInterval cfg > 0 \<and> ac_KeepAliveAhead cfg \<le> 0 then 45 * minute else ac_KeepAliveAhead cfg),
         ac_SessionDuration := or_default (ac_SessionDuration cfg) (24 * 60 * minute)\<rparr>"

definition NewApp :: "app_start \<Rightarrow> (nat \<Rightarrow> bool) \<Rightarrow> AppConfig \<Rightarrow> app go" where
  "NewApp st uni cfg =
     (let cfg = app_defaults cfg in
      go_bind (ensureResources (st_mkdir st) (ac_ResourceRoot cfg) (ac_AssetRoot cfg)) (\<lambda>res.
      go_bind (st_open st (prepareDBPath (res_DB res) (ac_DBFilename cfg))) (\<lambda>d.
      go_bind (NewPool (DefaultConfig\<lparr>SessionTTL := ac_SessionTTL cfg, ShortlinkTimeout := ac_RequestTimeout cfg,
                                      TCPProxy := ac_TCPProxy cfg\<rparr>) d) (\<lambda>p.
      Ok \<lparr>app_cfg = cfg, app_res = res, app_pool = p,
          app_scripts = Start uni (new_runner (st_cwd st)
            \<lparr>rc_ScriptsDir = res_Scripts res, rc_SdkDir = res_ScriptSDK res, rc_LogDir = res_ScriptLogs res,
             rc_PythonCommand = ac_PythonCommand cfg, rc_ServerURL = ac_ScriptsServerURL cfg,
             rc_SecretKey = ac_SecretKey cfg\<rparr> (st_scripts st) (st_sched st)),
          app_auth = \<lparr>au_SecretKey = ac_SecretKey cfg, au_SessionDuration = ac_SessionDuration cfg,
            au_CookieSecure = ac_CookieSecure cfg, au_Templates = res_Templates res,
            au_sessions = [], au_attempts = []\<rparr>,
          app_qr = [], app_locks = [], app_retry = [], app_files = st_files st\<rparr>))))"

section \<open>Actions on parts of the state\<close>

text \<open>\<open>fault\<close> is the error of a statement that SQLite does not carry out.\<close>

definition db_read :: "go_error option \<Rightarrow> (db \<Rightarrow> 'a go) \<Rightarrow> (app, 'a) act" where
  "db_read fault q a = ((case fault of Some e \<Rightarrow> Err e | None \<Rightarrow> q (app_db a)), a)"

definition db_write :: "go_error option \<Rightarrow> (db \<Rightarrow> db) \<Rightarrow> (app, unit) act" where
  "db_write fault f a =
     (case fault of Some e \<Rightarrow> (Err e, a) | None \<Rightarrow> (Ok (), set_db (f (app_db a)) a))"

definition on_pool :: "(pool, 'a) act \<Rightarrow> (app, 'a) act" where
  "on_pool m a = (case m (app_pool a) of (g, p) \<Rightarrow> (g, a\<lparr>app_pool := p\<rparr>))"

definition on_scripts :: "(runner, 'a) act \<Rightarrow> (app, 'a) act" where
  "on_scripts m a = (case m (app_scripts a) of (g, r) \<Rightarrow> (g, a\<lparr>app_scripts := r\<rparr>))"

text \<open>An error is looked at, not passed on.\<close>

definition act_catch :: "('s, 'a) act \<Rightarrow> (go_error \<Rightarrow> ('s, 'b) act) \<Rightarrow> ('a \<Rightarrow> ('s, 'b) act) \<Rightarrow> ('s, 'b) act" where
  "act_catch m h k s =
     (case m s of (Ok x, t) \<Rightarrow> k x t | (Err e, t) \<Rightarrow> h e t | (Panic, t) \<Rightarrow> (Panic, t))"

section \<open>The profile of an account\<close>

definition stringFromAny :: "gval \<Rightarrow> string" where
  "stringFromAny v = (case v of GStr s \<Rightarrow> s | _ \<Rightarrow> [])"

definition info_map :: "gmap option \<Rightarrow> gmap" where
  "info_map userInfo = (case userInfo of Some m \<Rightarrow> m | None \<Rightarrow> [])"

definition pickNickname :: "gmap option \<Rightarrow> string \<Rightarrow> string" where
  "pickNickname userInfo fallback =
     (let s = stringFromAny (gget (info_map userInfo) ''nick_name'') in if s \<noteq> [] then s else fallback)"

definition pickAvatarURL :: "gmap option \<Rightarrow> string" where
  "pickAvatarURL userInfo =
     (case filter (\<lambda>s. s \<noteq> []) (map (\<lambda>k. stringFromAny (gget (info_map userInfo) k))
        [''head_img_url'', ''head_url'', ''headimgurl'', ''avatar'']) of
        s # _ \<Rightarrow> s | [] \<Rightarrow> [])"

definition stringPtrMaybe :: "string \<Rightarrow> string option" where
  "stringPtrMaybe s = (if s = [] then None else Some s)"

definition deref :: "string option \<Rightarrow> string" where
  "deref s = (case s of None \<Rightarrow> [] | Some t \<Rightarrow> t)"

definition image_magics :: "bytes list" where
  "image_magics = [[0xff, 0xd8, 0xff], [0x89, 0x50, 0x4E, 0x47, 0x0D, 0x0A, 0x1A, 0x0A], bytes_of ''GIF87a'', bytes_of ''GIF89a'']"

definition looksLikeImage :: "bytes \<Rightarrow> bool" where
  "looksLikeImage data \<longleftrightarrow> length data \<ge> 64 \<and> list_ex (\<lambda>m. prefix m data) image_magics"

text \<open>How \<open>os.WriteFile\<close> ends: well, before the file is opened, or after some bytes.\<close>

datatype written = Written | Refused | Short nat

definition write_file :: "written \<Rightarrow> string \<Rightarrow> bytes \<Rightarrow> files \<Rightarrow> bool \<times> files" where
  "write_file w path data fs =
     (case w of
        Written \<Rightarrow> (True, AList.update path data fs)
      | Refused \<Rightarrow> (False, fs)
      | Short n \<Rightarrow> (False, AList.update path (take n data) fs))"

text \<open>\<open>fetch\<close> gives status and body for the address of a picture.\<close>

type_synonym fetcher = "string \<Rightarrow> (int \<times> bytes) go"

definition avatar_limit :: nat where "avatar_limit = 8 * 2 ^ 20"

definition downloadAvatar :: "fetcher \<Rightarrow> written \<Rightarrow> string \<Rightarrow> string \<Rightarrow> files \<Rightarrow> bool \<times> files" where
  "downloadAvatar fetch w url dest fs =
     (case fetch url of
        Ok (status, body) \<Rightarrow>
          (let data = take avatar_limit body in
           if status \<noteq> 200 \<or> \<not> looksLikeImage data then (False, fs) else write_file w dest data fs)
      | _ \<Rightarrow> (False, fs))"

definition resolveAvatar :: "fetcher \<Rightarrow> written \<Rightarrow> string \<Rightarrow> gmap option \<Rightarrow> app \<Rightarrow> string \<times> app" where
  "resolveAvatar fetch w openid userInfo a =
     (let u = pickAvatarURL userInfo; dest = avatarPath (app_res a) openid in
      if u = [] then ([], a)
      else case downloadAvatar fetch w u dest (app_files a) of
        (ok, fs) \<Rightarrow> (if ok then dest else u, a\<lparr>app_files := fs\<rparr>))"

end
