(* ===== verification/Keepalive.thy ===== *)
theory Keepalive
  imports App_State
begin

text \<open>
  Model of \<open>internal/httpapi/keepalive.go\<close>: accounts whose credentials run out are refreshed
  in the background or on demand. Times of the clock are in nanoseconds, those of the database
  in seconds. The workers of a round run one after the other here: each has an account of its
  own, and which accounts are taken is decided from the list read at the start of the round.
\<close>

section \<open>Which account is due\<close>

definition keepAliveRetryBackoff :: int where "keepAliveRetryBackoff = 5 * minute"

definition secs :: "int \<Rightarrow> int" where
  "secs t = t div second"

definition credentialsDueForRefresh :: "credentials \<Rightarrow> int \<Rightarrow> int \<Rightarrow> bool" where
  "credentialsDueForRefresh creds now ahead \<longleftrightarrow> c_ExpiresAt creds \<le> 0 \<or> secs (now + ahead) \<ge> c_ExpiresAt creds"

definition accountStatus :: "account \<Rightarrow> string" where
  "accountStatus acc = (case a_Status acc of None \<Rightarrow> ''unknown'' | Some s \<Rightarrow> if s = [] then ''unknown'' else s)"

definition setKeepAliveRetry :: "int \<Rightarrow> int \<Rightarrow> app \<Rightarrow> app" where
  "setKeepAliveRetry i t a = a\<lparr>app_retry := AList.update i t (app_retry a)\<rparr>"

definition clearKeepAliveRetry :: "int \<Rightarrow> app \<Rightarrow> app" where
  "clearKeepAliveRetry i a = a\<lparr>app_retry := AList.delete i (app_retry a)\<rparr>"

definition keepAliveShouldSkip :: "account \<Rightarrow> int \<Rightarrow> app \<Rightarrow> bool \<times> app" where
  "keepAliveShouldSkip acc now a =
     (if \<not> credentialsDueForRefresh (CredentialsFromMap (info_map (a_Credentials acc))) now (ac_KeepAliveAhead (app_cfg a))
      then (True, a)
      else case map_of (app_retry a) (a_ID acc) of
        None \<Rightarrow> (False, a)
      | Some retryAt \<Rightarrow> if \<not> now < retryAt then (False, clearKeepAliveRetry (a_ID acc) a) else (True, a))"

definition keepAliveAccountTimeout :: "int \<Rightarrow> int" where
  "keepAliveAccountTimeout t =
     (if t \<le> 0 then 30 * second else if t * 4 > 30 * second then t * 4 else 30 * second)"

section \<open>What a failure says of the account\<close>

text \<open>Six Chinese words as UTF-8: invalid, past its date, no longer valid; login, credential,
  authorization; log in again, authorize again.\<close>

definition utf8 :: "nat list \<Rightarrow> string" where "utf8 bs = map char_of bs"

definition zh_invalid :: "string list" where
  "zh_invalid = map utf8 [[0xE6, 0x97, 0xA0, 0xE6, 0x95, 0x88], [0xE8, 0xBF, 0x87, 0xE6, 0x9C, 0x9F], [0xE5, 0xA4, 0xB1, 0xE6, 0x95, 0x88]]"

definition zh_token :: "string list" where
  "zh_token = map utf8 [[0xE7, 0x99, 0xBB, 0xE5, 0xBD, 0x95], [0xE5, 0x87, 0xAD, 0xE8, 0xAF, 0x81], [0xE6, 0x8E, 0x88, 0xE6, 0x9D, 0x83]]"

definition zh_relogin :: "string list" where
  "zh_relogin = map utf8 [[0xE9, 0x87, 0x8D, 0xE6, 0x96, 0xB0, 0xE7, 0x99, 0xBB, 0xE5, 0xBD, 0x95],
     [0xE9, 0x87, 0x8D, 0xE6, 0x96, 0xB0, 0xE6, 0x8E, 0x88, 0xE6, 0x9D, 0x83]]"

definition definitiveRefreshMessage :: "string \<Rightarrow> bool" where
  "definitiveRefreshMessage raw =
     (let message = toLower (trimSpace raw); has = contains message in
      if has ''missing refresh token'' then True
      else if has ''42007'' \<and> has ''refresh_token'' then True
      else if has ''40188'' \<and> has ''invalid scope'' then True
      else
        let invalid = list_ex has ([''invalid'', ''expired'', ''expire''] @ zh_invalid);
            token = list_ex has (''token'' # zh_token);
            relogin = list_ex has ([''relogin'', ''re-login''] @ zh_relogin) in
        relogin \<or> (invalid \<and> token))"

text \<open>\<open>json\<close> is the text of the error of \<open>encoding/json\<close>, if there is one in the error.\<close>

definition definitiveCredentialFailure :: "string \<Rightarrow> go_error \<Rightarrow> bool" where
  "definitiveCredentialFailure json e = definitiveRefreshMessage (err_text json e)"

definition refreshFailureStatus :: "string \<Rightarrow> string \<Rightarrow> credentials \<Rightarrow> go_error \<Rightarrow> int \<Rightarrow> string" where
  "refreshFailureStatus json current creds e now =
     (if definitiveCredentialFailure json e then ''expired''
      else if c_ExpiresAt creds > secs now then current
      else ''unknown'')"

section \<open>The refresh of an account\<close>

text \<open>
  What one refresh meets: the readings of the clock, the network, the time stamps and nonces
  of the two requests, the error of the n-th statement, the picture and how it is written.
\<close>

record refresh_env =
  re_clock :: "nat \<Rightarrow> int"
  re_http :: http_client
  re_json :: string
  re_draw1 :: "string \<times> string"
  re_draw2 :: "string \<times> string"
  re_db :: "nat \<Rightarrow> go_error option"
  re_fetch :: fetcher
  re_write :: written

definition refreshLockFor :: "int \<Rightarrow> (int \<times> nat) list \<Rightarrow> nat \<times> (int \<times> nat) list" where
  "refreshLockFor i locks =
     (case map_of locks i of
        Some l \<Rightarrow> (l, locks)
      | None \<Rightarrow> (length locks, (i, length locks) # locks))"

text \<open>The status, whether a refresh was made, and an error.\<close>

type_synonym refreshed = "string \<times> bool \<times> go_error option"

definition update_err :: "refresh_env \<Rightarrow> go_error \<Rightarrow> go_error \<Rightarrow> go_error" where
  "update_err env e e2 = Errorf (err_text (re_json env) e @ ''; update status: '' @ err_text (re_json env) e2)"

text \<open>After a failed refresh the status is noted; an error of that is added to the first.\<close>

definition note_status :: "refresh_env \<Rightarrow> account \<Rightarrow> string \<Rightarrow> go_error \<Rightarrow> (app, refreshed) act" where
  "note_status env acc status e =
     act_catch (db_write (re_db env 1) (SetAccountStatus (secs (re_clock env 3)) (a_ID acc) status))
       (\<lambda>e2. act_ret (status, False, Some (update_err env e e2)))
       (\<lambda>_. act_ret (status, False, Some e))"

definition store_avatar :: "refresh_env \<Rightarrow> account \<Rightarrow> app \<Rightarrow> app" where
  "store_avatar env acc a =
     (let (avatar, a) = resolveAvatar (re_fetch env) (re_write env) (a_OpenID acc) (a_UserInfo acc) a in
      if avatar = [] then a
      else snd (db_write (re_db env 3)
             (SetAccountProfile (secs (re_clock env 5)) (a_ID acc) (a_Nickname acc) (Some avatar) (a_UserInfo acc)) a))"

definition store_refreshed :: "refresh_env \<Rightarrow> account \<Rightarrow> LoginBufferResult \<Rightarrow> (app, refreshed) act" where
  "store_refreshed env acc result =
     act_catch (db_write (re_db env 1) (SetAccountCredential (secs (re_clock env 3)) (a_ID acc)
         (lb_LoginBuffer result) (Some (ToMap (secs (re_clock env 3)) (lb_Credentials result)))))
       (\<lambda>e. act_ret (''expired'', False, Some e)) (\<lambda>_.
     act_catch (db_write (re_db env 2) (SetAccountStatus (secs (re_clock env 4)) (a_ID acc) ''alive''))
       (\<lambda>e. act_ret (''expired'', False, Some e)) (\<lambda>_.
     act_bind (act_mod (store_avatar env acc)) (\<lambda>_.
     act_ret (''alive'', True, None))))"

definition refresh_row :: "refresh_env \<Rightarrow> bool \<Rightarrow> account \<Rightarrow> (app, refreshed) act" where
  "refresh_row env force latest =
     (if accountStatus latest = ''expired'' then act_ret (''expired'', False, None)
      else case a_Credentials latest of
        None \<Rightarrow> note_status env latest ''unknown'' (Errorf ''credentials are missing'')
      | Some m \<Rightarrow>
          act_bind (act_get (\<lambda>a. ac_KeepAliveAhead (app_cfg a))) (\<lambda>ahead.
          let creds = CredentialsFromMap m in
          if \<not> force \<and> \<not> credentialsDueForRefresh creds (re_clock env 0) ahead
          then act_ret (accountStatus latest, False, None)
          else
            act_catch (act_lift (RefreshLoginBuffer (re_http env) (re_draw1 env) (re_draw2 env) (secs (re_clock env 1)) creds))
              (\<lambda>e. note_status env latest
                 (refreshFailureStatus (re_json env) (accountStatus latest) creds e (re_clock env 2)) e)
              (store_refreshed env latest)))"

definition refreshAccount :: "refresh_env \<Rightarrow> account \<Rightarrow> bool \<Rightarrow> (app, refreshed) act" where
  "refreshAccount env acc force =
     act_bind (act_mod (\<lambda>a. a\<lparr>app_locks := snd (refreshLockFor (a_ID acc) (app_locks a))\<rparr>)) (\<lambda>_.
     act_catch (db_read (re_db env 0) (GetAccount (a_ID acc)))
       (\<lambda>e. act_ret (''unknown'', False, Some e)) (refresh_row env force))"

section \<open>Rounds in the background\<close>

record keep_env =
  ke_list :: "go_error option" \<comment> \<open>the error of the list\<close>
  ke_done :: "nat \<Rightarrow> bool" \<comment> \<open>the service ends before the n-th account\<close>
  ke_clock :: "nat \<Rightarrow> int" \<comment> \<open>when the n-th account is looked at\<close>
  ke_after :: "nat \<Rightarrow> int" \<comment> \<open>when its refresh has failed\<close>
  ke_refresh :: "nat \<Rightarrow> refresh_env"

definition keep_worker :: "keep_env \<Rightarrow> nat \<Rightarrow> account \<Rightarrow> (app, unit) act" where
  "keep_worker env n acc =
     act_bind (refreshAccount (ke_refresh env n) acc False) (\<lambda>(status, refreshed, err).
     case err of
       Some e \<Rightarrow> act_mod (setKeepAliveRetry (a_ID acc) (ke_after env n + keepAliveRetryBackoff))
     | None \<Rightarrow> act_mod (clearKeepAliveRetry (a_ID acc)))"

fun keep_accounts :: "keep_env \<Rightarrow> nat \<Rightarrow> account list \<Rightarrow> (app, unit) act" where
  "keep_accounts env n [] a = (Ok (), a)"
| "keep_accounts env n (acc # accs) a =
     (if ke_done env n then (Ok (), a)
      else if accountStatus acc = ''expired'' then keep_accounts env (Suc n) accs a
      else
        let (skip, a) = keepAliveShouldSkip acc (ke_clock env n) a in
        if skip then keep_accounts env (Suc n) accs a
        else act_bind (keep_worker env n acc) (\<lambda>_. keep_accounts env (Suc n) accs) a)"

definition refreshDueAccounts :: "keep_env \<Rightarrow> (app, unit) act" where
  "refreshDueAccounts env =
     act_catch (db_read (ke_list env) (\<lambda>d. Ok (ListAccounts d))) (\<lambda>e. act_ret ()) (keep_accounts env 0)"

text \<open>A round at once, and one for every tick until the service ends.\<close>

fun keepAliveLoop :: "keep_env list \<Rightarrow> (app, unit) act" where
  "keepAliveLoop [] a = (Ok (), a)"
| "keepAliveLoop (env # envs) a = act_bind (refreshDueAccounts env) (\<lambda>_. keepAliveLoop envs) a"

definition startKeepAlive :: "keep_env list \<Rightarrow> (app, unit) act" where
  "startKeepAlive envs a = (if ac_KeepAliveInterval (app_cfg a) \<le> 0 then (Ok (), a) else keepAliveLoop envs a)"

section \<open>At the start of the service\<close>

text \<open>The error of the deletion of the n-th account is \<open>del n\<close>.\<close>

definition refreshLiveness :: "refresh_env \<Rightarrow> account \<Rightarrow> (app, string) act" where
  "refreshLiveness env acc = act_bind (refreshAccount env acc False) (\<lambda>(status, refreshed, err). act_ret status)"

fun startup_accounts :: "(nat \<Rightarrow> refresh_env) \<Rightarrow> (nat \<Rightarrow> go_error option) \<Rightarrow> nat \<Rightarrow> account list \<Rightarrow> (app, unit) act" where
  "startup_accounts env del n [] a = (Ok (), a)"
| "startup_accounts env del n (acc # accs) a =
     act_bind (refreshLiveness (env n) acc) (\<lambda>status a.
       if status \<noteq> ''expired'' then startup_accounts env del (Suc n) accs a
       else startup_accounts env del (Suc n) accs (snd (db_write (del n) (DeleteAccount (a_ID acc)) a))) a"

definition RefreshAccountsOnStartup ::
  "go_error option \<Rightarrow> (nat \<Rightarrow> refresh_env) \<Rightarrow> (nat \<Rightarrow> go_error option) \<Rightarrow> (app, unit) act" where
  "RefreshAccountsOnStartup fault env del =
     act_catch (db_read fault (\<lambda>d. Ok (ListAccounts d))) (\<lambda>e. act_ret ()) (startup_accounts env del 0)"

end
