(* ===== verification/Keepalive_Props.thy ===== *)
theory Keepalive_Props
  imports Keepalive Runner_Props Qr_Props
begin

text \<open>
  Correctness of the refresh of accounts: what a refresh leaves in the database, that it
  touches one row only, that failed accounts are left alone for a while and expired ones for
  ever, and two ways in which an account that is in order is taken for an expired one.
\<close>

section \<open>Parts of the state\<close>

lemma set_db_simps [simp]:
  "app_db (set_db d a) = d" "set_db d (set_db d' a) = set_db d a" "set_db (app_db a) a = a"
  "app_cfg (set_db d a) = app_cfg a" "app_res (set_db d a) = app_res a" "app_retry (set_db d a) = app_retry a"
  "app_scripts (set_db d a) = app_scripts a" "app_auth (set_db d a) = app_auth a" "app_qr (set_db d a) = app_qr a"
  "app_locks (set_db d a) = app_locks a" "app_files (set_db d a) = app_files a"
  by (simp_all add: set_db_def app_db_def)

lemma app_db_updates [simp]:
  "app_db (a\<lparr>app_locks := l\<rparr>) = app_db a" "app_db (a\<lparr>app_files := fs\<rparr>) = app_db a"
  "app_db (a\<lparr>app_retry := r\<rparr>) = app_db a" "app_db (a\<lparr>app_qr := q\<rparr>) = app_db a"
  "app_db (a\<lparr>app_pool := p\<rparr>) = p_db p" "app_db (a\<lparr>app_auth := u\<rparr>) = app_db a" "app_db (a\<lparr>app_scripts := s\<rparr>) = app_db a"
  by (simp_all add: app_db_def)

lemma db_write_simps [simp]:
  "db_write None f a = (Ok (), set_db (f (app_db a)) a)" "db_write (Some e) f a = (Err e, a)"
  "db_read None q a = (q (app_db a), a)" "db_read (Some e) q a = (Err e, a)"
  by (simp_all add: db_write_def db_read_def)

lemma act_catch_simps [simp]:
  "m s = (Ok x, t) \<Longrightarrow> act_catch m h k s = k x t" "m s = (Err e, t) \<Longrightarrow> act_catch m h k s = h e t"
  "m s = (Panic, t) \<Longrightarrow> act_catch m h k s = (Panic, t)"
  by (simp_all add: act_catch_def)

lemma keeps_catch:
  assumes "keeps I m" "\<And>s x t. m s = (Ok x, t) \<Longrightarrow> V x" "\<And>e. keeps I (h e)" "\<And>x. V x \<Longrightarrow> keeps I (k x)"
  shows "keeps I (act_catch m h k)"
proof (rule hoareI)
  fix s assume s: "I s"
  have "I t" if "act_catch m h k s = (g, t)" for g t
  proof -
    obtain r u where m: "m s = (r, u)" by (cases "m s")
    with assms(1) s have u: "I u" by (rule keepsD)
    show ?thesis
    proof (cases r)
      case (Ok x)
      with m that have "k x u = (g, t)" by simp
      with assms(4) [of x] assms(2) m Ok u show ?thesis by (auto dest: keepsD)
    next
      case (Err e)
      with m that have "h e u = (g, t)" by simp
      with assms(3) [of e] u show ?thesis by (auto dest: keepsD)
    qed (use m that u in simp)
  qed
  then show "act_catch m h k s = (Ok x, t) \<Longrightarrow> I t" "act_catch m h k s = (Err e, t) \<Longrightarrow> I t" "act_catch m h k s = (Panic, t) \<Longrightarrow> I t"
    for x e t by auto
qed

section \<open>A refresh touches one row\<close>

text \<open>From \<open>a\<close> to \<open>a'\<close> only the row with id \<open>i\<close>, pictures and locks have changed.\<close>

definition only_row :: "int \<Rightarrow> app \<Rightarrow> app \<Rightarrow> bool" where
  "only_row i a a' \<longleftrightarrow>
     (\<exists>f. (\<forall>x. a_ID (f x) = a_ID x \<and> a_OpenID (f x) = a_OpenID x)
        \<and> app_db a' = update_account (\<lambda>x. a_ID x = i) f (app_db a))
     \<and> a' = a\<lparr>app_pool := (app_pool a)\<lparr>p_db := app_db a'\<rparr>, app_locks := app_locks a', app_files := app_files a'\<rparr>"

lemma update_account_twice:
  assumes "\<And>x. a_ID (f x) = a_ID x"
  shows "update_account (\<lambda>x. a_ID x = i) g (update_account (\<lambda>x. a_ID x = i) f d)
    = update_account (\<lambda>x. a_ID x = i) (g \<circ> f) d"
  using assms by (auto simp: update_account_def)

lemma update_account_id: "update_account P (\<lambda>x. x) d = d"
  by (simp add: update_account_def)

lemma only_row_refl: "only_row i a a"
  unfolding only_row_def by (intro conjI exI [of _ "\<lambda>x. x"]) (simp_all add: update_account_id app_db_def)

lemma only_row_db:
  assumes "only_row i a b" "\<And>x. a_ID (f x) = a_ID x" "\<And>x. a_OpenID (f x) = a_OpenID x"
  shows "only_row i a (set_db (update_account (\<lambda>x. a_ID x = i) f (app_db b)) b)"
proof -
  from assms(1) obtain g where g: "\<forall>x. a_ID (g x) = a_ID x \<and> a_OpenID (g x) = a_OpenID x"
    "app_db b = update_account (\<lambda>x. a_ID x = i) g (app_db a)"
    and b: "b = a\<lparr>app_pool := (app_pool a)\<lparr>p_db := app_db b\<rparr>, app_locks := app_locks b, app_files := app_files b\<rparr>"
    by (auto simp: only_row_def)
  have "update_account (\<lambda>x. a_ID x = i) f (app_db b) = update_account (\<lambda>x. a_ID x = i) (f \<circ> g) (app_db a)"
    using g update_account_twice [of g i f] by simp
  moreover have "set_db d b = a\<lparr>app_pool := (app_pool a)\<lparr>p_db := d\<rparr>, app_locks := app_locks b, app_files := app_files b\<rparr>" for d
    by (subst b) (simp add: set_db_def)
  ultimately show ?thesis using g(1) assms(2,3)
    unfolding only_row_def by (intro conjI exI [of _ "f \<circ> g"]) simp_all
qed

lemma only_row_other:
  assumes "only_row i a b"
  shows "only_row i a (b\<lparr>app_locks := l\<rparr>)" "only_row i a (b\<lparr>app_files := fs\<rparr>)"
proof -
  from assms have f: "\<exists>f. (\<forall>x. a_ID (f x) = a_ID x \<and> a_OpenID (f x) = a_OpenID x)
        \<and> app_db b = update_account (\<lambda>x. a_ID x = i) f (app_db a)"
    and b: "b = a\<lparr>app_pool := (app_pool a)\<lparr>p_db := app_db b\<rparr>, app_locks := app_locks b, app_files := app_files b\<rparr>"
    by (auto simp: only_row_def)
  show "only_row i a (b\<lparr>app_locks := l\<rparr>)"
    using f unfolding only_row_def by (intro conjI) (simp, subst b, simp)
  show "only_row i a (b\<lparr>app_files := fs\<rparr>)"
    using f unfolding only_row_def by (intro conjI) (simp, subst b, simp)
qed

lemma keeps_row_write:
  assumes "\<And>x. a_ID (f x) = a_ID x" "\<And>x. a_OpenID (f x) = a_OpenID x"
  shows "keeps (only_row i a) (db_write fault (update_account (\<lambda>x. a_ID x = i) f))"
  using only_row_db [where f = f, OF _ assms] by (cases fault) (auto simp: hoare_def)

lemma keeps_note_status: "keeps (only_row (a_ID acc) a) (note_status env acc status e)"
  unfolding note_status_def SetAccountStatus_def
  by (rule keeps_catch [where V = "\<lambda>_. True"]) (auto intro!: keeps_row_write keeps_basic)

lemma keeps_store_avatar: "only_row (a_ID acc) a b \<Longrightarrow> only_row (a_ID acc) a (store_avatar env acc b)"
proof -
  assume b: "only_row (a_ID acc) a b"
  obtain avatar c where r: "resolveAvatar (re_fetch env) (re_write env) (a_OpenID acc) (a_UserInfo acc) b = (avatar, c)"
    by (cases "resolveAvatar (re_fetch env) (re_write env) (a_OpenID acc) (a_UserInfo acc) b")
  then have c: "only_row (a_ID acc) a c"
    using b by (auto simp: resolveAvatar_def Let_def split: if_splits prod.splits intro: only_row_other)
  have "keeps (only_row (a_ID acc) a) (db_write (re_db env 3)
      (SetAccountProfile (secs (re_clock env 5)) (a_ID acc) (a_Nickname acc) (Some avatar) (a_UserInfo acc)))"
    unfolding SetAccountProfile_def by (rule keeps_row_write) simp_all
  then have "only_row (a_ID acc) a (snd (db_write (re_db env 3)
      (SetAccountProfile (secs (re_clock env 5)) (a_ID acc) (a_Nickname acc) (Some avatar) (a_UserInfo acc)) c))"
    using c by (metis keepsD prod.collapse)
  with c r show ?thesis by (simp add: store_avatar_def)
qed

lemma keeps_store_refreshed: "keeps (only_row (a_ID acc) a) (store_refreshed env acc result)"
  unfolding store_refreshed_def SetAccountCredential_def SetAccountStatus_def
  by (intro keeps_catch [where V = "\<lambda>_. True"] keeps_intros keeps_row_write keeps_store_avatar) simp_all

lemma GetAccount_ID: "GetAccount i d = Ok x \<Longrightarrow> a_ID x = i"
  by (auto simp: GetAccount_def find_account_def find_Some_iff)

lemma db_read_Ok: "db_read fault q s = (Ok x, t) \<Longrightarrow> q (app_db s) = Ok x \<and> t = s"
  by (cases fault) auto

lemma keeps_refresh_row: "keeps (only_row (a_ID latest) a) (refresh_row env force latest)"
  unfolding refresh_row_def Let_def
  by (intro keeps_intros keeps_catch [where V = "\<lambda>_. True"] keeps_note_status keeps_store_refreshed TrueI)

lemma keeps_refreshAccount: "keeps (only_row (a_ID acc) a) (refreshAccount env acc force)"
  unfolding refreshAccount_def
proof (intro keeps_bind keeps_catch [where V = "\<lambda>latest. a_ID latest = a_ID acc"])
  show "keeps (only_row (a_ID acc) a) (act_mod (\<lambda>a. a\<lparr>app_locks := snd (refreshLockFor (a_ID acc) (app_locks a))\<rparr>))"
    by (rule keeps_mod) (rule only_row_other)
  show "keeps (only_row (a_ID acc) a) (db_read (re_db env 0) (GetAccount (a_ID acc)))"
    by (cases "re_db env 0") (auto simp: hoare_def split: go.splits)
  show "a_ID x = a_ID acc" if "db_read (re_db env 0) (GetAccount (a_ID acc)) s = (Ok x, t)" for s x t
    using db_read_Ok [OF that] GetAccount_ID by blast
  show "keeps (only_row (a_ID acc) a) (refresh_row env force latest)" if "a_ID latest = a_ID acc" for latest
    using keeps_refresh_row [of latest] that by simp
qed (rule keeps_basic)

lemma refreshAccount_row: "refreshAccount env acc force a = (g, a') \<Longrightarrow> only_row (a_ID acc) a a'"
  using keepsD [OF keeps_refreshAccount only_row_refl] by blast

section \<open>What a refresh leaves behind\<close>

lemma GetAccount_update:
  assumes "\<And>x. a_ID (f x) = a_ID x"
  shows "GetAccount j (update_account (\<lambda>x. a_ID x = i) f d) = (if j = i then go_bind (GetAccount i d) (\<lambda>x. Ok (f x)) else GetAccount j d)"
proof -
  let ?h = "\<lambda>x. if a_ID x = i then f x else x"
  have "find (\<lambda>x. a_ID x = j) (map ?h xs) = map_option ?h (find (\<lambda>x. a_ID x = j) xs)" for xs
    by (induction xs) (auto simp: assms)
  moreover have "map_option ?h (find (\<lambda>x. a_ID x = j) xs)
      = (if j = i then map_option f (find (\<lambda>x. a_ID x = i) xs) else find (\<lambda>x. a_ID x = j) xs)" for xs
    by (cases "find (\<lambda>x. a_ID x = j) xs") (auto dest: find_SomeD)
  ultimately show ?thesis
    by (cases "find (\<lambda>x. a_ID x = i) (accounts d)") (simp_all add: GetAccount_def find_account_def update_account_def)
qed

lemma update_account_sessions [simp]: "sessions (update_account P f d) = sessions d"
  by (simp add: update_account_def)

lemma only_row_frame:
  assumes "only_row i a a'"
  shows "j \<noteq> i \<Longrightarrow> GetAccount j (app_db a') = GetAccount j (app_db a)" "sessions (app_db a') = sessions (app_db a)"
    "map a_ID (accounts (app_db a')) = map a_ID (accounts (app_db a))"
    "app_cfg a' = app_cfg a" "app_retry a' = app_retry a" "app_res a' = app_res a"
    "db_ok (app_db a) \<Longrightarrow> db_ok (app_db a')"
proof -
  from assms obtain f where f: "\<And>x. a_ID (f x) = a_ID x" "\<And>x. a_OpenID (f x) = a_OpenID x"
    "app_db a' = update_account (\<lambda>x. a_ID x = i) f (app_db a)"
    and a': "a' = a\<lparr>app_pool := (app_pool a)\<lparr>p_db := app_db a'\<rparr>, app_locks := app_locks a', app_files := app_files a'\<rparr>"
    unfolding only_row_def by blast
  show "j \<noteq> i \<Longrightarrow> GetAccount j (app_db a') = GetAccount j (app_db a)" "sessions (app_db a') = sessions (app_db a)"
    "db_ok (app_db a) \<Longrightarrow> db_ok (app_db a')"
    using GetAccount_update [of f] f by (simp_all add: update_account_ok)
  show "map a_ID (accounts (app_db a')) = map a_ID (accounts (app_db a))"
    using f by (auto simp: update_account_def)
  show "app_cfg a' = app_cfg a" "app_retry a' = app_retry a" "app_res a' = app_res a" by (subst a', simp)+
qed

lemma accountStatus_set [simp]: "s \<noteq> [] \<Longrightarrow> accountStatus (x\<lparr>a_Status := Some s, a_LastCheckedAt := t, a_UpdatedAt := u\<rparr>) = s"
  by (simp add: accountStatus_def)

lemma accountStatus_ne [simp]: "accountStatus x \<noteq> []"
  by (simp add: accountStatus_def split: option.split)

lemma refreshFailureStatus_ne [simp]: "current \<noteq> [] \<Longrightarrow> refreshFailureStatus json current creds e now \<noteq> []"
  by (simp add: refreshFailureStatus_def)

text \<open>A failed refresh changes nothing of the row but the status and when it was looked at.\<close>

lemma note_status_result:
  assumes "re_db env = (\<lambda>_. None)" "GetAccount (a_ID acc) (app_db b) = Ok acc" "status \<noteq> []"
    and "note_status env acc status e b = (Ok (st, renewed, err), a')"
  shows "st = status \<and> \<not> renewed \<and> err = Some e \<and> (\<exists>new. GetAccount (a_ID acc) (app_db a') = Ok new
    \<and> accountStatus new = status \<and> a_LoginBuffer new = a_LoginBuffer acc \<and> a_Credentials new = a_Credentials acc)"
  using assms by (auto simp: note_status_def SetAccountStatus_def GetAccount_update)

lemma store_avatar_row:
  assumes "GetAccount (a_ID acc) (app_db b) = Ok x"
  shows "\<exists>new. GetAccount (a_ID acc) (app_db (store_avatar env acc b)) = Ok new \<and> a_Status new = a_Status x
    \<and> a_LoginBuffer new = a_LoginBuffer x \<and> a_Credentials new = a_Credentials x"
proof -
  obtain avatar c where r: "resolveAvatar (re_fetch env) (re_write env) (a_OpenID acc) (a_UserInfo acc) b = (avatar, c)"
    by (cases "resolveAvatar (re_fetch env) (re_write env) (a_OpenID acc) (a_UserInfo acc) b")
  then have "app_db c = app_db b" by (auto simp: resolveAvatar_def Let_def split: if_splits prod.splits)
  with r assms show ?thesis
    by (cases "re_db env 3") (simp_all add: store_avatar_def SetAccountProfile_def GetAccount_update)
qed

lemma store_refreshed_result:
  assumes "re_db env = (\<lambda>_. None)" "GetAccount (a_ID acc) (app_db b) = Ok acc"
    and "store_refreshed env acc res b = (Ok (st, renewed, err), a')"
  shows "st = ''alive'' \<and> renewed \<and> err = None \<and> (\<exists>new. GetAccount (a_ID acc) (app_db a') = Ok new
    \<and> accountStatus new = ''alive'' \<and> a_LoginBuffer new = lb_LoginBuffer res
    \<and> a_Credentials new = json_column (Some (ToMap (secs (re_clock env 3)) (lb_Credentials res))))"
proof -
  let ?d = "SetAccountStatus (secs (re_clock env 4)) (a_ID acc) ''alive''
     (SetAccountCredential (secs (re_clock env 3)) (a_ID acc) (lb_LoginBuffer res)
       (Some (ToMap (secs (re_clock env 3)) (lb_Credentials res))) (app_db b))"
  have res: "st = ''alive''" "renewed" "err = None" "a' = store_avatar env acc (set_db ?d b)"
    using assms(1,3) by (auto simp: store_refreshed_def)
  have "\<exists>x. GetAccount (a_ID acc) ?d = Ok x \<and> a_Status x = Some ''alive'' \<and> a_LoginBuffer x = lb_LoginBuffer res
      \<and> a_Credentials x = json_column (Some (ToMap (secs (re_clock env 3)) (lb_Credentials res)))"
    using assms(2) by (simp add: SetAccountStatus_def SetAccountCredential_def GetAccount_update)
  then obtain x where x: "GetAccount (a_ID acc) (app_db (set_db ?d b)) = Ok x" "a_Status x = Some ''alive''"
    "a_LoginBuffer x = lb_LoginBuffer res" "a_Credentials x = json_column (Some (ToMap (secs (re_clock env 3)) (lb_Credentials res)))"
    by auto
  from store_avatar_row [OF x(1), of env] obtain new where
    "GetAccount (a_ID acc) (app_db (store_avatar env acc (set_db ?d b))) = Ok new" "a_Status new = a_Status x"
    "a_LoginBuffer new = a_LoginBuffer x" "a_Credentials new = a_Credentials x" by blast
  with x(2-) res show ?thesis by (simp add: accountStatus_def)
qed

text \<open>C14: When the database works, the status that a refresh reports is the one that it leaves
  in the row of the account. A refresh that was made leaves the login buffer and the
  credentials that the service gave, any other leaves those that were there; no other
  account and no session changes.\<close>

theorem refresh_outcome:
  assumes "re_db env = (\<lambda>_. None)" "GetAccount (a_ID acc) (app_db a) = Ok old"
    and "refreshAccount env acc force a = (Ok (st, renewed, err), a')"
  shows "\<exists>new. GetAccount (a_ID acc) (app_db a') = Ok new \<and> accountStatus new = st
    \<and> (if renewed then st = ''alive'' \<and> err = None \<and> (\<exists>res m. a_Credentials old = Some m
            \<and> RefreshLoginBuffer (re_http env) (re_draw1 env) (re_draw2 env) (secs (re_clock env 1)) (CredentialsFromMap m) = Ok res
            \<and> a_LoginBuffer new = lb_LoginBuffer res
            \<and> a_Credentials new = json_column (Some (ToMap (secs (re_clock env 3)) (lb_Credentials res))))
        else a_LoginBuffer new = a_LoginBuffer old \<and> a_Credentials new = a_Credentials old)
    \<and> (\<forall>j. j \<noteq> a_ID acc \<longrightarrow> GetAccount j (app_db a') = GetAccount j (app_db a))
    \<and> sessions (app_db a') = sessions (app_db a)"
proof -
  let ?b = "a\<lparr>app_locks := snd (refreshLockFor (a_ID acc) (app_locks a))\<rparr>"
  note frame = only_row_frame(1,2) [OF refreshAccount_row [OF assms(3)]]
  have id: "a_ID old = a_ID acc" using assms(2) by (rule GetAccount_ID)
  from assms have r: "refresh_row env force old ?b = (Ok (st, renewed, err), a')"
    by (simp add: refreshAccount_def)
  have b: "GetAccount (a_ID old) (app_db ?b) = Ok old" using assms(2) id by simp
  consider "st = accountStatus old" "\<not> renewed" "a' = ?b"
    | e status where "note_status env old status e ?b = (Ok (st, renewed, err), a')" "status \<noteq> []"
    | m res where "a_Credentials old = Some m" "store_refreshed env old res ?b = (Ok (st, renewed, err), a')"
        "RefreshLoginBuffer (re_http env) (re_draw1 env) (re_draw2 env) (secs (re_clock env 1)) (CredentialsFromMap m) = Ok res"
  proof (cases "accountStatus old = ''expired''")
    case False
    show thesis
    proof (cases "a_Credentials old")
      case None
      with False r that(2) show thesis by (simp add: refresh_row_def)
    next
      case (Some m)
      show thesis
      proof (cases "RefreshLoginBuffer (re_http env) (re_draw1 env) (re_draw2 env) (secs (re_clock env 1)) (CredentialsFromMap m)")
        case (Ok res)
        with False Some r that(1,3) show thesis by (simp add: refresh_row_def Let_def split: if_splits)
      next
        case (Err e)
        with False Some r that(1,2) show thesis by (simp add: refresh_row_def Let_def split: if_splits)
      qed (use False Some r that(1) in \<open>simp add: refresh_row_def Let_def split: if_splits\<close>)
    qed
  qed (use r that(1) in \<open>simp add: refresh_row_def\<close>)
  then show ?thesis
  proof cases
    case 1
    with assms(2) show ?thesis by simp
  next
    case 2
    from note_status_result [OF assms(1) b 2(2,1)] id frame show ?thesis by auto
  next
    case 3
    from store_refreshed_result [OF assms(1) b 3(2)] 3(1,3) id frame show ?thesis by auto
  qed
qed

section \<open>Rounds\<close>

lemma only_row_worker:
  assumes "keep_worker env n acc a = (g, a')"
  shows "j \<noteq> a_ID acc \<Longrightarrow> GetAccount j (app_db a') = GetAccount j (app_db a)"
    "j \<noteq> a_ID acc \<Longrightarrow> map_of (app_retry a') j = map_of (app_retry a) j"
proof -
  obtain r b where b: "refreshAccount (ke_refresh env n) acc False a = (r, b)"
    by (cases "refreshAccount (ke_refresh env n) acc False a")
  have r: "(\<exists>st d e. r = Ok (st, d, e)) \<or> (\<exists>e. r = Err e) \<or> r = Panic" by (cases r) auto
  have "app_db a' = app_db b \<and> (j \<noteq> a_ID acc \<longrightarrow> map_of (app_retry a') j = map_of (app_retry b) j)"
    using assms b r
    by (auto simp: keep_worker_def setKeepAliveRetry_def clearKeepAliveRetry_def update_conv' delete_conv' split: option.splits)
  with only_row_frame(1,5) [OF refreshAccount_row [OF b]]
  show "j \<noteq> a_ID acc \<Longrightarrow> GetAccount j (app_db a') = GetAccount j (app_db a)"
    "j \<noteq> a_ID acc \<Longrightarrow> map_of (app_retry a') j = map_of (app_retry a) j" by simp_all
qed

lemma skip_same_db: "app_db (snd (keepAliveShouldSkip acc now a)) = app_db a"
  by (simp add: keepAliveShouldSkip_def clearKeepAliveRetry_def split: option.split)

text \<open>What every look at an account and every worker keeps, a sequence of rounds keeps.\<close>

lemma keep_accounts_inv:
  assumes "\<And>n acc s. Q s \<Longrightarrow> Q (snd (keepAliveShouldSkip acc (ke_clock env n) s))"
    and "\<And>n acc s. Q s \<Longrightarrow> \<not> fst (keepAliveShouldSkip acc (ke_clock env n) s) \<Longrightarrow>
       Q (snd (keep_worker env n acc (snd (keepAliveShouldSkip acc (ke_clock env n) s))))"
  shows "Q a \<Longrightarrow> Q (snd (keep_accounts env n accs a))"
proof (induction accs arbitrary: n a)
  case (Cons acc accs)
  obtain skip b where b: "keepAliveShouldSkip acc (ke_clock env n) a = (skip, b)" by (cases "keepAliveShouldSkip acc (ke_clock env n) a")
  obtain r c where c: "keep_worker env n acc b = (r, c)" by (cases "keep_worker env n acc b")
  have "Q b" using assms(1) [OF Cons.prems, of acc n] b by simp
  moreover have "Q c" if "\<not> skip" using assms(2) [OF Cons.prems, of acc n] b c that by simp
  ultimately show ?case using Cons b c by (cases r) (simp_all add: act_bind_def)
qed simp

lemma rounds_inv:
  assumes "Q a"
    and "\<And>env n acc s. env \<in> set envs \<Longrightarrow> Q s \<Longrightarrow> Q (snd (keepAliveShouldSkip acc (ke_clock env n) s))"
    and "\<And>env n acc s. env \<in> set envs \<Longrightarrow> Q s \<Longrightarrow> \<not> fst (keepAliveShouldSkip acc (ke_clock env n) s) \<Longrightarrow>
       Q (snd (keep_worker env n acc (snd (keepAliveShouldSkip acc (ke_clock env n) s))))"
  shows "Q (snd (keepAliveLoop envs a))"
  using assms
proof (induction envs arbitrary: a)
  case (Cons env envs)
  have "Q (snd (keep_accounts env 0 accs a))" for accs
    by (rule keep_accounts_inv) (use Cons.prems in auto)
  then have "Q (snd (refreshDueAccounts env a))"
    using Cons.prems(1) by (cases "ke_list env") (simp_all add: refreshDueAccounts_def)
  with Cons show ?case
    by (cases "refreshDueAccounts env a"; cases "fst (refreshDueAccounts env a)") (auto simp: act_bind_def)
qed simp

text \<open>C29: After a refresh has failed, the rounds of the next five minutes leave the account alone:
  its row and the time of its next turn stay as they are, whatever becomes of the others.\<close>

theorem failed_backs_off:
  assumes "refreshAccount (ke_refresh env n) acc False a = (Ok (st, renewed, Some e), b)"
    and "keep_worker env n acc a = (Ok (), a1)"
    and "\<And>later k. later \<in> set rounds \<Longrightarrow> ke_clock later k < ke_after env n + 5 * minute"
  shows "GetAccount (a_ID acc) (app_db (snd (keepAliveLoop rounds a1))) = GetAccount (a_ID acc) (app_db b)
    \<and> map_of (app_retry (snd (keepAliveLoop rounds a1))) (a_ID acc) = Some (ke_after env n + 5 * minute)"
proof -
  let ?t = "ke_after env n + 5 * minute"
  let ?Q = "\<lambda>s. GetAccount (a_ID acc) (app_db s) = GetAccount (a_ID acc) (app_db b) \<and> map_of (app_retry s) (a_ID acc) = Some ?t"
  have "a1 = setKeepAliveRetry (a_ID acc) ?t b"
    using assms(1,2) by (simp add: keep_worker_def keepAliveRetryBackoff_def)
  then have "?Q a1" by (simp add: setKeepAliveRetry_def update_conv')
  then show ?thesis
  proof (rule rounds_inv [where Q = ?Q and envs = rounds])
    fix later :: keep_env and k x s assume later: "later \<in> set rounds" and Q: "?Q s"
    have skip: "fst (keepAliveShouldSkip x (ke_clock later k) s)" if "a_ID x = a_ID acc"
      using that Q assms(3) [OF later, of k] by (simp add: keepAliveShouldSkip_def)
    show Q': "?Q (snd (keepAliveShouldSkip x (ke_clock later k) s))"
      using Q assms(3) [OF later, of k]
      by (cases "a_ID x = a_ID acc") (auto simp: keepAliveShouldSkip_def clearKeepAliveRetry_def delete_conv' split: option.splits)
    assume "\<not> fst (keepAliveShouldSkip x (ke_clock later k) s)"
    with skip have ne: "a_ID acc \<noteq> a_ID x" by metis
    obtain r c where "keep_worker later k x (snd (keepAliveShouldSkip x (ke_clock later k) s)) = (r, c)" by fastforce
    with only_row_worker [OF this ne] Q' show "?Q (snd (keep_worker later k x (snd (keepAliveShouldSkip x (ke_clock later k) s))))"
      by simp
  qed
qed

section \<open>Expired accounts\<close>

lemma expired_untouched:
  assumes "GetAccount (a_ID acc) (app_db a) = Ok old" "accountStatus old = ''expired''"
  shows "app_db (snd (refreshAccount env acc force a)) = app_db a"
    "re_db env 0 = None \<Longrightarrow> fst (refreshAccount env acc force a) = Ok (''expired'', False, None)"
  using assms by (cases "re_db env 0"; simp add: refreshAccount_def refresh_row_def)+

text \<open>C28: An account that is marked as expired stays as it is: no number of background rounds
  changes its row, and even a forced refresh answers without asking the service.\<close>

theorem expired_stays:
  assumes "GetAccount i (app_db a) = Ok old" "accountStatus old = ''expired''"
  shows "GetAccount i (app_db (snd (keepAliveLoop rounds a))) = Ok old
    \<and> (re_db env 0 = None \<longrightarrow> fst (refreshAccount env old force a) = Ok (''expired'', False, None))"
proof
  have id: "a_ID old = i" using assms(1) by (rule GetAccount_ID)
  with assms expired_untouched(2) [of old] show "re_db env 0 = None \<longrightarrow> fst (refreshAccount env old force a) = Ok (''expired'', False, None)"
    by simp
  let ?Q = "\<lambda>s. GetAccount i (app_db s) = Ok old"
  show "?Q (snd (keepAliveLoop rounds a))"
  proof (rule rounds_inv [where Q = ?Q and envs = rounds])
    fix later :: keep_env and k x s assume Q: "?Q s"
    then show Q': "?Q (snd (keepAliveShouldSkip x (ke_clock later k) s))" by (simp add: skip_same_db)
    let ?s = "snd (keepAliveShouldSkip x (ke_clock later k) s)"
    obtain r c where c: "keep_worker later k x ?s = (r, c)" by fastforce
    show "?Q (snd (keep_worker later k x ?s))"
    proof (cases "i = a_ID x")
      case True
      obtain g b where b: "refreshAccount (ke_refresh later k) x False ?s = (g, b)" by fastforce
      then have "app_db b = app_db ?s" using expired_untouched(1) [of x ?s old] Q' True assms(2) by (metis snd_conv)
      then have "app_db c = app_db ?s" using c b
        by (cases g) (auto simp: keep_worker_def act_bind_def setKeepAliveRetry_def clearKeepAliveRetry_def split: option.splits)
      with Q' c show ?thesis by simp
    next
      case False
      with only_row_worker(1) [OF c] Q' c show ?thesis by simp
    qed
  qed (rule assms(1))
qed

section \<open>Accounts that are taken for expired ones\<close>

text \<open>What Go reports when the certificate of the service does not fit the clock of the host.\<close>

definition certificate_text :: string where
  "certificate_text = ''Post '' @ [CHR 0x22] @ refreshTokenURL @ [CHR 0x22]
     @ '': tls: failed to verify certificate: x509: certificate has expired or is not yet valid''"

lemma contains_mid: "contains (p @ sub @ q) sub"
  unfolding contains_def list_ex_iff by (rule bexI [of _ "sub @ q"]) (auto simp: suffix_def)

lemma certificate_definitive: "definitiveRefreshMessage certificate_text"
proof -
  let ?host = "''Post '' @ [CHR 0x22] @ yybHost @ ''/pc_yyb_auth/pcyyb_refresh_''"
  let ?mid = "''_auth'' @ [CHR 0x22] @ '': tls: failed to verify certificate: x509: certificate has ''"
  have eq: "certificate_text = ?host @ ''token'' @ ?mid @ ''expired'' @ '' or is not yet valid''"
    by (simp add: certificate_text_def refreshTokenURL_def)
  have low: "map lower_char ''token'' = ''token''" "map lower_char ''expired'' = ''expired''" by code_simp+
  have "trimSpace certificate_text = certificate_text"
    by (rule trimSpace_solid) (simp_all add: certificate_text_def)
  moreover have "toLower certificate_text = map lower_char certificate_text"
    by (rule toLower_ascii) code_simp
  moreover have "contains (map lower_char certificate_text) ''expired''"
    using contains_mid [of "map lower_char (?host @ ''token'' @ ?mid)" "''expired''" "map lower_char '' or is not yet valid''"]
    by (simp only: eq map_append low append_assoc)
  moreover have "contains (map lower_char certificate_text) ''token''"
    using contains_mid [of "map lower_char ?host" "''token''" "map lower_char (?mid @ ''expired'' @ '' or is not yet valid'')"]
    by (simp only: eq map_append low append_assoc)
  ultimately show ?thesis by (simp add: definitiveRefreshMessage_def Let_def)
qed

lemma certificate_failure: "definitiveCredentialFailure json (Errorf certificate_text)"
proof -
  have "Errorf certificate_text \<noteq> ErrJSON" by (simp add: ErrJSON_def certificate_text_def)
  then show ?thesis by (simp add: definitiveCredentialFailure_def certificate_definitive)
qed

lemma certificate_row:
  assumes "re_db env = (\<lambda>_. None)" "\<And>req. re_http env req = Err (Errorf certificate_text)"
    and "GetAccount (a_ID acc) (app_db a) = Ok acc" "accountStatus acc \<noteq> ''expired''" "a_Credentials acc = Some m"
    and "c_RefreshToken (CredentialsFromMap m) \<noteq> []"
    and "credentialsDueForRefresh (CredentialsFromMap m) (re_clock env 0) (ac_KeepAliveAhead (app_cfg a))"
  shows "fst (refreshLiveness env acc a) = Ok ''expired''"
proof -
  have "RefreshLoginBuffer (re_http env) d1 d2 t (CredentialsFromMap m) = Err (Errorf certificate_text)" for d1 d2 t
    using assms(2,6) by (simp add: RefreshLoginBuffer_def RefreshCredentials_def requestJSON_def requestJSON_map_def Let_def)
  then show ?thesis
    using assms by (simp add: refreshLiveness_def refreshAccount_def refresh_row_def note_status_def act_bind_def
        refreshFailureStatus_def certificate_failure Let_def)
qed

definition renewable :: "(nat \<Rightarrow> refresh_env) \<Rightarrow> int \<Rightarrow> account \<Rightarrow> bool" where
  "renewable env ahead x \<longleftrightarrow> accountStatus x \<noteq> ''expired'' \<and>
     (\<exists>m. a_Credentials x = Some m \<and> c_RefreshToken (CredentialsFromMap m) \<noteq> []
        \<and> (\<forall>n. credentialsDueForRefresh (CredentialsFromMap m) (re_clock (env n) 0) ahead))"

lemma DeleteAccount_accounts [simp]: "accounts (DeleteAccount i d) = filter (\<lambda>x. a_ID x \<noteq> i) (accounts d)"
  by (simp add: DeleteAccount_def resetAutoincrementIfEmpty_def)

lemma GetAccount_delete: "j \<noteq> i \<Longrightarrow> GetAccount j (DeleteAccount i d) = GetAccount j d"
proof -
  have "find (\<lambda>x. a_ID x = j) (filter (\<lambda>x. a_ID x \<noteq> i) xs) = find (\<lambda>x. a_ID x = j) xs" if "j \<noteq> i" for xs :: "account list"
    using that by (induction xs) auto
  then show "j \<noteq> i \<Longrightarrow> ?thesis"
    by (simp add: GetAccount_def find_account_def)
qed

lemma certificate_startup:
  assumes "\<And>n. re_db (env n) = (\<lambda>_. None)" "\<And>n req. re_http (env n) req = Err (Errorf certificate_text)"
  shows "distinct (map a_ID accs) \<Longrightarrow>
    (\<And>x. x \<in> set accs \<Longrightarrow> GetAccount (a_ID x) (app_db a) = Ok x \<and> renewable env (ac_KeepAliveAhead (app_cfg a)) x) \<Longrightarrow>
    map a_ID (accounts (app_db (snd (startup_accounts env (\<lambda>_. None) n accs a))))
    = filter (\<lambda>i. i \<notin> a_ID ` set accs) (map a_ID (accounts (app_db a)))"
proof (induction accs arbitrary: n a)
  case (Cons x accs)
  obtain r b where b: "refreshAccount (env n) x False a = (r, b)" by fastforce
  note frame = only_row_frame [OF refreshAccount_row [OF b]]
  let ?c = "set_db (DeleteAccount (a_ID x) (app_db b)) b"
  have "fst (refreshLiveness (env n) x a) = Ok ''expired''"
    using Cons.prems(2) [of x] assms certificate_row [of "env n" x a] by (auto simp: renewable_def)
  then have live: "refreshLiveness (env n) x a = (Ok ''expired'', b)"
    using b by (cases r) (auto simp: refreshLiveness_def act_bind_def)
  have keep: "GetAccount (a_ID y) (app_db ?c) = Ok y \<and> renewable env (ac_KeepAliveAhead (app_cfg ?c)) y" if "y \<in> set accs" for y
  proof -
    have "a_ID x \<notin> a_ID ` set accs" using Cons.prems(1) by simp
    then have "a_ID y \<noteq> a_ID x" using that by (metis imageI)
    with that Cons.prems(2) [of y] frame(1,4) show ?thesis by (simp add: GetAccount_delete)
  qed
  have "map a_ID (accounts (DeleteAccount (a_ID x) d)) = filter (\<lambda>i. i \<noteq> a_ID x) (map a_ID (accounts d))" for d
    by (simp add: filter_map comp_def)
  then have ids: "map a_ID (accounts (app_db ?c)) = filter (\<lambda>i. i \<noteq> a_ID x) (map a_ID (accounts (app_db a)))"
    using frame(3) by simp
  have "snd (startup_accounts env (\<lambda>_. None) n (x # accs) a) = snd (startup_accounts env (\<lambda>_. None) (Suc n) accs ?c)"
    using live by simp
  with Cons.IH [of ?c "Suc n"] Cons.prems(1) keep ids show ?case
    by (simp add: filter_filter conj_commute)
qed simp


text \<open>A write that fails after a refresh that worked is reported as expired too, and the new
  tokens are lost; the start of the service then deletes the account.\<close>

lemma write_fault_expired:
  assumes "re_db env 0 = None" "re_db env 1 = Some e" "GetAccount (a_ID acc) (app_db a) = Ok acc"
    and "accountStatus acc \<noteq> ''expired''" "a_Credentials acc = Some m"
    and "credentialsDueForRefresh (CredentialsFromMap m) (re_clock env 0) (ac_KeepAliveAhead (app_cfg a))"
    and "RefreshLoginBuffer (re_http env) (re_draw1 env) (re_draw2 env) (secs (re_clock env 1)) (CredentialsFromMap m) = Ok res"
  shows "fst (refreshAccount env acc False a) = Ok (''expired'', False, Some e) \<and> app_db (snd (refreshAccount env acc False a)) = app_db a"
  using assms by (simp add: refreshAccount_def refresh_row_def store_refreshed_def Let_def)

text \<open>When the second request fails, the tokens that the first has brought are not stored,
  although the service may have withdrawn the old ones.\<close>

lemma renewed_tokens_dropped:
  assumes "re_db env = (\<lambda>_. None)" "GetAccount (a_ID acc) (app_db a) = Ok acc" "a_Credentials acc = Some m"
    and "RefreshCredentials (re_http env) (fst (re_draw1 env)) (snd (re_draw1 env)) (secs (re_clock env 1)) (CredentialsFromMap m) = Ok creds"
    and "FetchLoginBuffer (re_http env) (fst (re_draw2 env)) (snd (re_draw2 env)) creds = Err e"
    and "accountStatus acc \<noteq> ''expired''"
  shows "\<exists>new. GetAccount (a_ID acc) (app_db (snd (refreshAccount env acc True a))) = Ok new \<and> a_Credentials new = a_Credentials acc"
proof -
  have "RefreshLoginBuffer (re_http env) (re_draw1 env) (re_draw2 env) (secs (re_clock env 1)) (CredentialsFromMap m) = Err e"
    using assms(4,5) by (simp add: RefreshLoginBuffer_def)
  with assms show ?thesis
    by (simp add: refreshAccount_def refresh_row_def note_status_def SetAccountStatus_def GetAccount_update Let_def)
qed

section \<open>Samples\<close>

definition sample_row :: account where
  "sample_row = \<lparr>a_ID = 1, a_OpenID = ''o'', a_UIN = None, a_Alias = None, a_Nickname = None, a_Avatar = None,
     a_UserInfo = None, a_LoginBuffer = ''old'', a_Credentials = Some [(''refreshtoken'', GStr ''r'')], a_Status = Some ''alive'',
     a_LastCheckedAt = None, a_CreatedAt = 0, a_UpdatedAt = 0\<rparr>"

definition sample_cfg :: AppConfig where
  "sample_cfg = app_defaults \<lparr>ac_ResourceRoot = [], ac_AssetRoot = [], ac_DBFilename = [], ac_TCPProxy = [], ac_SessionTTL = 0,
     ac_RequestTimeout = 0, ac_AvatarTimeout = 0, ac_ScanTimeout = 0, ac_QRSessionTTL = 0, ac_KeepAliveInterval = minute,
     ac_KeepAliveAhead = 0, ac_PythonCommand = [], ac_ScriptsServerURL = [], ac_SecretKey = ''k'', ac_SessionDuration = 0,
     ac_CookieSecure = False\<rparr>"

definition sample_res :: resources where
  "sample_res = \<lparr>res_Root = ''/d'', res_DB = ''/d/db'', res_Avatars = ''/d/avatars'', res_QR = ''/d/qr'', res_Templates = ''/d/templates'',
     res_Static = ''/d/static'', res_Scripts = ''/d/scripts'', res_ScriptSDK = ''/d/scripts/sdk'', res_ScriptLogs = ''/d/scripts/logs''\<rparr>"

definition sample_db :: "account list \<Rightarrow> db" where
  "sample_db xs = \<lparr>accounts = xs, sessions = [], acc_seq = 1, sess_seq = 0\<rparr>"

definition sample_app :: "account list \<Rightarrow> app" where
  "sample_app xs = \<lparr>app_cfg = sample_cfg, app_res = sample_res,
     app_pool = \<lparr>p_cfg = DefaultConfig, p_db = sample_db xs, p_locks = [], p_loginSem = 0, p_shortlinkSem = 0\<rparr>,
     app_scripts = new_runner (Ok ''/'') \<lparr>rc_ScriptsDir = [], rc_SdkDir = [], rc_LogDir = [], rc_PythonCommand = [],
       rc_ServerURL = [], rc_SecretKey = []\<rparr> [] None,
     app_auth = \<lparr>au_SecretKey = ''k'', au_SessionDuration = 0, au_CookieSecure = False, au_Templates = [], au_sessions = [], au_attempts = []\<rparr>,
     app_qr = [], app_locks = [], app_retry = [], app_files = []\<rparr>"

definition sample_refresh :: "http_client \<Rightarrow> refresh_env" where
  "sample_refresh http = \<lparr>re_clock = (\<lambda>_. 0), re_http = http, re_json = [], re_draw1 = (''1'', ''2''), re_draw2 = (''3'', ''4''),
     re_db = (\<lambda>_. None), re_fetch = (\<lambda>_. Err ErrNoRows), re_write = Refused\<rparr>"

lemma sample_app_fields [simp]:
  "app_db (sample_app xs) = sample_db xs" "app_retry (sample_app xs) = []" "app_cfg (sample_app xs) = sample_cfg"
  "accounts (sample_db xs) = xs"
  "a_ID sample_row = 1" "a_Status sample_row = Some ''alive''" "a_Credentials sample_row = Some [(''refreshtoken'', GStr ''r'')]"
  "a_UserInfo sample_row = None"
  "re_clock (sample_refresh http) = (\<lambda>_. 0)" "re_http (sample_refresh http) = http" "re_db (sample_refresh http) = (\<lambda>_. None)"
  by (simp_all add: sample_app_def sample_db_def sample_row_def sample_refresh_def app_db_def)

lemma sample_GetAccount: "a_ID x = 1 \<Longrightarrow> GetAccount 1 (sample_db [x]) = Ok x"
  by (simp add: GetAccount_def find_account_def)

definition sample_service :: http_client where
  "sample_service req = (if URL req = refreshTokenURL then Ok (200, refresh_reply) else Ok (200, sample_reply))"

lemma sample_refreshed:
  "\<exists>res. RefreshLoginBuffer sample_service d1 d2 t (CredentialsFromMap [(''refreshtoken'', GStr ''r'')]) = Ok res"
proof -
  have "refreshTokenURL \<noteq> loginBufferURL" by (simp add: refreshTokenURL_def loginBufferURL_def)
  moreover have "\<exists>c. RefreshCredentials sample_service ts nonce t (CredentialsFromMap [(''refreshtoken'', GStr ''r'')]) = Ok c" for ts nonce
    by (simp add: RefreshCredentials_def requestJSON_def requestJSON_map_def refresh_reply_map CredentialsFromMap_def sample_service_def
        gget_def intFromAny_def stringFromMap_def Let_def)
  then obtain c where "RefreshCredentials sample_service (fst d1) (snd d1) t (CredentialsFromMap [(''refreshtoken'', GStr ''r'')]) = Ok c" by blast
  moreover have "FetchLoginBuffer sample_service ts nonce c = Ok ''B''" for ts nonce
    using calculation(1) by (simp add: FetchLoginBuffer_def requestJSON_def requestJSON_map_def sample_service_def sample_reply_map Let_def gget_def
        intFromAny_def stringSlicePath_def)
  ultimately show ?thesis by (simp add: RefreshLoginBuffer_def)
qed

theorem refresh_outcome_witness:
  "\<exists>a' new. refreshAccount (sample_refresh sample_service) sample_row True (sample_app [sample_row]) = (Ok (''alive'', True, None), a')
     \<and> GetAccount 1 (app_db a') = Ok new \<and> accountStatus new = ''alive''"
proof -
  let ?a = "sample_app [sample_row]"
  obtain res where res: "RefreshLoginBuffer sample_service (''1'', ''2'') (''3'', ''4'') 0 (CredentialsFromMap [(''refreshtoken'', GStr ''r'')]) = Ok res"
    using sample_refreshed by blast
  obtain a' where a': "refreshAccount (sample_refresh sample_service) sample_row True ?a = (Ok (''alive'', True, None), a')"
    using res by (simp add: refreshAccount_def refresh_row_def sample_GetAccount accountStatus_def Let_def store_refreshed_def
        sample_refresh_def secs_def)
  have "re_db (sample_refresh sample_service) = (\<lambda>_. None)" "GetAccount (a_ID sample_row) (app_db ?a) = Ok sample_row"
    by (simp_all add: sample_GetAccount)
  from refresh_outcome [OF this a'] a' show ?thesis by auto
qed

definition sample_keep :: "int \<Rightarrow> keep_env" where
  "sample_keep t = \<lparr>ke_list = None, ke_done = (\<lambda>_. False), ke_clock = (\<lambda>_. t), ke_after = (\<lambda>_. t),
     ke_refresh = (\<lambda>_. sample_refresh (\<lambda>_. Err (Errorf ''timeout'')))\<rparr>"

theorem expired_stays_witness:
  "GetAccount 1 (app_db (snd (keepAliveLoop [sample_keep 5] (sample_app [sample_row\<lparr>a_Status := Some ''expired''\<rparr>]))))
     = Ok (sample_row\<lparr>a_Status := Some ''expired''\<rparr>)"
  using expired_stays [of 1 "sample_app [sample_row\<lparr>a_Status := Some ''expired''\<rparr>]" "sample_row\<lparr>a_Status := Some ''expired''\<rparr>" "[sample_keep 5]"]
  by (simp add: sample_GetAccount accountStatus_def)

lemma timeout_not_definitive: "\<not> definitiveCredentialFailure json (Errorf ''timeout'')"
proof -
  have "trimSpace ''timeout'' = ''timeout''" by (rule trimSpace_solid) simp_all
  moreover have "toLower ''timeout'' = ''timeout''" by code_simp
  moreover have "\<not> list_ex (contains ''timeout'') ([''missing refresh token'', ''42007'', ''40188'', ''relogin'', ''re-login'', ''token'']
      @ zh_relogin @ zh_token)" by code_simp
  ultimately show ?thesis
    by (simp add: definitiveCredentialFailure_def definitiveRefreshMessage_def ErrJSON_def Let_def)
qed

theorem failed_backs_off_witness:
  "\<exists>a1 b. refreshAccount (ke_refresh (sample_keep 0) 0) sample_row False (sample_app [sample_row]) = (Ok (''unknown'', False, Some (Errorf ''timeout'')), b)
     \<and> keep_worker (sample_keep 0) 0 sample_row (sample_app [sample_row]) = (Ok (), a1)
     \<and> map_of (app_retry (snd (keepAliveLoop [sample_keep minute, sample_keep (2 * minute)] a1))) 1 = Some (5 * minute)"
proof -
  have "RefreshLoginBuffer (\<lambda>_. Err (Errorf ''timeout'')) d1 d2 t (CredentialsFromMap [(''refreshtoken'', GStr ''r'')]) = Err (Errorf ''timeout'')" for d1 d2 t
    by (simp add: RefreshLoginBuffer_def RefreshCredentials_def requestJSON_def requestJSON_map_def CredentialsFromMap_def stringFromMap_def gget_def Let_def)
  moreover have "c_ExpiresAt (CredentialsFromMap [(''refreshtoken'', GStr ''r'')]) = 0"
    by (simp add: CredentialsFromMap_def int64FromMap_def gget_def)
  ultimately obtain b where b: "refreshAccount (ke_refresh (sample_keep 0) 0) sample_row False (sample_app [sample_row])
      = (Ok (''unknown'', False, Some (Errorf ''timeout'')), b)"
    by (simp add: sample_keep_def refreshAccount_def refresh_row_def sample_GetAccount accountStatus_def Let_def note_status_def
        credentialsDueForRefresh_def refreshFailureStatus_def timeout_not_definitive secs_def)
  then obtain a1 where a1: "keep_worker (sample_keep 0) 0 sample_row (sample_app [sample_row]) = (Ok (), a1)"
    by (simp add: keep_worker_def)
  let ?rounds = "[sample_keep minute, sample_keep (2 * minute)]"
  have "ke_clock later k < ke_after (sample_keep 0) 0 + 5 * minute" if "later \<in> set ?rounds" for later k
    using that by (auto simp: sample_keep_def minute_def)
  then have "map_of (app_retry (snd (keepAliveLoop ?rounds a1))) (a_ID sample_row) = Some (ke_after (sample_keep 0) 0 + 5 * minute)"
    using failed_backs_off [where rounds = ?rounds, OF b a1] by blast
  moreover have "ke_after (sample_keep 0) 0 = 0" by (simp add: sample_keep_def)
  ultimately have "map_of (app_retry (snd (keepAliveLoop ?rounds a1))) 1 = Some (5 * minute)" by (simp del: keepAliveLoop.simps)
  with a1 b show ?thesis by blast
qed


end
