(* ===== verification/Activity_Sign.thy ===== *)
theory Activity_Sign
  imports Auth Go_Crypto Go_Fmt
begin

text \<open>
  Model of \<open>internal/crypto/activity_sign.go\<close> and of its handler in
  \<open>internal/httpapi/activity_sign.go\<close>: signatures over a time stamp and a nonce. The buffers that
  the random generator fills are an argument.
\<close>

definition activityNonceAlphabet :: string where
  "activityNonceAlphabet = ''0123456789abcdefghijklmnopqrstuvwxyz''"

record ActivitySignature =
  as_Timestamp :: string
  as_Nonce :: string
  as_Sign :: string

definition hmacSHA256Hex :: "bytes \<Rightarrow> bytes \<Rightarrow> string" where
  "hmacSHA256Hex key message = hexEncode (hmac key message)"

definition deriveActivityNonce :: "string \<Rightarrow> string \<Rightarrow> string \<Rightarrow> string" where
  "deriveActivityNonce timestamp token seed = take 16 (hmacSHA256Hex (bytes_of timestamp) (bytes_of (seed @ token)))"

definition BuildActivitySignature :: "string \<Rightarrow> string \<Rightarrow> string \<Rightarrow> ActivitySignature go" where
  "BuildActivitySignature signKey timestamp nonce =
     (let signKey = trimSpace signKey; timestamp = trimSpace timestamp; nonce = trimSpace nonce in
      if signKey = [] then Err (Errorf ''sign_key must not be empty'')
      else if timestamp = [] then Err (Errorf ''signTimestamp must not be empty'')
      else if nonce = [] then Err (Errorf ''signNonce must not be empty'')
      else
        let raw = ''timestamp='' @ timestamp @ ''&nonce='' @ nonce in
        Ok \<lparr>as_Timestamp = timestamp, as_Nonce = nonce, as_Sign = hmacSHA256Hex (bytes_of signKey) (bytes_of raw)\<rparr>)"

section \<open>The random seed\<close>

text \<open>The characters that one buffer adds: a byte from 252 on is passed over.\<close>

fun base36_take :: "nat \<Rightarrow> bytes \<Rightarrow> string \<Rightarrow> string" where
  "base36_take len [] out = out"
| "base36_take len (v # vs) out =
     (if unat v \<ge> 252 then base36_take len vs out
      else
        let out = out @ [activityNonceAlphabet ! (unat v mod length activityNonceAlphabet)] in
        if length out = len then out else base36_take len vs out)"

text \<open>None when more buffers would be read than are given.\<close>

fun base36_loop :: "nat \<Rightarrow> bytes go list \<Rightarrow> string \<Rightarrow> string go option" where
  "base36_loop len bufs out =
     (if length out \<ge> len then Some (Ok out)
      else case bufs of
        [] \<Rightarrow> None
      | b # bs \<Rightarrow>
          (case b of
             Ok buf \<Rightarrow> base36_loop len bs (base36_take len buf out)
           | Err e \<Rightarrow> Some (Err (Wrapf ''no random bytes: %w'' e))
           | Panic \<Rightarrow> Some Panic))"

declare base36_loop.simps [simp del]

definition randomBase36 :: "bytes go list \<Rightarrow> int \<Rightarrow> string go option" where
  "randomBase36 bufs len =
     (if len < 1 then Some (Err (Errorf ''the length must be greater than 0''))
      else base36_loop (nat len) bufs [])"

definition GenerateActivitySignature ::
  "int \<Rightarrow> bytes go list \<Rightarrow> string \<Rightarrow> string \<Rightarrow> ActivitySignature go option" where
  "GenerateActivitySignature now_ms bufs signKey token =
     (let timestamp = itoa now_ms in
      map_option (\<lambda>r. go_bind r (\<lambda>seed.
        BuildActivitySignature signKey timestamp (deriveActivityNonce timestamp token seed))) (randomBase36 bufs 16))"

section \<open>The handler\<close>

definition sign_fields :: "(string \<times> field_kind) list" where
  "sign_fields = [(''sign_key'', String_field), (''token'', String_field),
     (''sign_timestamp'', String_field), (''sign_nonce'', String_field)]"

definition sign_json :: "ActivitySignature \<Rightarrow> gval" where
  "sign_json s = GMap [(''signTimestamp'', GStr (as_Timestamp s)), (''signNonce'', GStr (as_Nonce s)), (''sign'', GStr (as_Sign s))]"

definition handleActivitySign :: "int \<Rightarrow> bytes go list \<Rightarrow> request \<Rightarrow> answer go option" where
  "handleActivitySign now_ms bufs r =
     (if rq_Method r \<noteq> ''POST'' then Some (Ok method_err)
      else case decodeOptionalJSON r sign_fields of
        Ok b \<Rightarrow>
          (let key = trimSpace (str_field b ''sign_key''); ts = trimSpace (str_field b ''sign_timestamp'');
               nonce = trimSpace (str_field b ''sign_nonce'') in
           if (ts \<noteq> [] \<or> nonce \<noteq> []) \<and> (ts = [] \<or> nonce = [])
           then Some (Ok (writeError 400 ''sign_timestamp and sign_nonce go together''))
           else
             map_option (\<lambda>res.
               case res of
                 Ok s \<Rightarrow> Ok (writeJSON 200 (sign_json s))
               | Err e \<Rightarrow> Ok (writeError 400 (err_text [] e))
               | Panic \<Rightarrow> Panic)
             (if ts \<noteq> [] \<or> nonce \<noteq> [] then Some (BuildActivitySignature key ts nonce)
              else GenerateActivitySignature now_ms bufs key (str_field b ''token'')))
      | Err e \<Rightarrow> Some (Ok (writeError 400 (''invalid JSON: '' @ err_text [] e)))
      | Panic \<Rightarrow> Some Panic)"

section \<open>Correctness\<close>

text \<open>The characters of the seed that the bytes given stand for, in order.\<close>

definition base36_chars :: "bytes \<Rightarrow> string" where
  "base36_chars buf = map (\<lambda>v. activityNonceAlphabet ! (unat v mod 36)) (filter (\<lambda>v. unat v < 252) buf)"

lemma alphabet_length [simp]: "length activityNonceAlphabet = 36"
  by (simp add: activityNonceAlphabet_def)

lemma base36_take_spec:
  "length out < len \<Longrightarrow> base36_take len buf out = take len (out @ base36_chars buf)"
proof (induction buf arbitrary: out)
  case (Cons v vs)
  then show ?case
  proof (cases "unat v < 252 \<and> length out + 1 < len")
    case True
    with Cons.IH [of "out @ [activityNonceAlphabet ! (unat v mod 36)]"] Cons.prems show ?thesis
      by (simp add: base36_chars_def Let_def)
  next
    case False
    with Cons show ?thesis by (auto simp: base36_chars_def Let_def take_append)
  qed
qed (simp add: base36_chars_def)

text \<open>C37: The seed is the text of the first usable random bytes, whatever the size of the buffers
  in which they come, and it is there as soon as enough of them have come.\<close>

theorem randomBase36_exact:
  assumes "0 < len" "nat len \<le> length (base36_chars (concat bufs))"
  shows "randomBase36 (map Ok bufs @ rest) len = Some (Ok (take (nat len) (base36_chars (concat bufs))))"
proof -
  have chars: "base36_chars (xs @ ys) = base36_chars xs @ base36_chars ys" for xs ys by (simp add: base36_chars_def)
  have "base36_loop n (map Ok bufs @ rest) out = Some (Ok (take n (out @ base36_chars (concat bufs))))"
    if "n \<le> length (out @ base36_chars (concat bufs))" "length out \<le> n" for n out
    using that
  proof (induction bufs arbitrary: out)
    case Nil
    then show ?case by (subst base36_loop.simps) (simp add: base36_chars_def)
  next
    case (Cons buf bufs)
    show ?case
    proof (cases "length out = n")
      case False
      with Cons.prems have lt: "length out < n" by simp
      let ?out = "take n (out @ base36_chars buf)"
      have "base36_loop n (map Ok (buf # bufs) @ rest) out = base36_loop n (map Ok bufs @ rest) ?out"
        using lt by (subst base36_loop.simps) (simp add: base36_take_spec)
      also have "\<dots> = Some (Ok (take n (?out @ base36_chars (concat bufs))))"
        by (rule Cons.IH) (use Cons.prems in \<open>auto simp: chars\<close>)
      also have "take n (?out @ base36_chars (concat bufs)) = take n (out @ base36_chars (concat (buf # bufs)))"
        using lt by (simp add: chars min_absorb1) (cases "n \<le> length out + length (base36_chars buf)"; simp)
      finally show ?thesis .
    qed (subst base36_loop.simps, simp)
  qed
  from this [of "nat len" "[]"] assms show ?thesis by (simp add: randomBase36_def)
qed

theorem randomBase36_exact_witness: "randomBase36 [Ok [0, 255, 10], Ok [251, 35]] 3 = Some (Ok ''0az'')"
proof -
  have "base36_chars (concat [[0, 255, 10], [251, 35]]) = ''0azz''" by code_simp
  then show ?thesis using randomBase36_exact [of 3 "[[0, 255, 10], [251, 35]]" "[]"] by simp
qed

definition hex_digit :: "char \<Rightarrow> bool" where
  "hex_digit c \<longleftrightarrow> c \<in> set ''0123456789abcdef''"

lemma hex_digit_char: "n < 16 \<Longrightarrow> hex_digit (hex_char n)"
proof -
  assume "n < 16"
  then have "n \<in> set [0 ..< 16]" by simp
  moreover have "list_all (\<lambda>n. hex_digit (hex_char n)) [0 ..< 16]" by code_simp
  ultimately show ?thesis by (simp add: list_all_iff del: set_upt)
qed

lemma hex_digit_visible: "hex_digit c \<Longrightarrow> 32 < (of_char c :: nat) \<and> of_char c < (128 :: nat)"
proof -
  have "list_all (\<lambda>c. 32 < (of_char c :: nat) \<and> of_char c < (128 :: nat)) ''0123456789abcdef''" by code_simp
  then show "hex_digit c \<Longrightarrow> ?thesis" unfolding hex_digit_def list_all_iff by blast
qed

lemma hexEncode_digits: "list_all hex_digit (hexEncode b)"
proof (induction b)
  case (Cons x b)
  have "unat x div 16 < 16" "unat x mod 16 < 16" using unat_byte_less [of x] by simp_all
  then have "hex_digit (hex_char (unat x div 16))" "hex_digit (hex_char (unat x mod 16))"
    by (simp_all only: hex_digit_char)
  with Cons show ?case by (simp add: hexEncode_def)
qed (simp add: hexEncode_def)

lemma length_hexEncode [simp]: "length (hexEncode b) = 2 * length b"
  by (induction b) (simp_all add: hexEncode_def)

lemma trimSpace_digits: "s \<noteq> [] \<Longrightarrow> list_all hex_digit s \<Longrightarrow> trimSpace s = s"
  using hex_digit_visible by (intro trimSpace_solid) (auto simp: list_all_iff)

lemma nat_digits_hex: "list_all hex_digit (nat_digits m)"
proof -
  have "hex_digit c" if "isDigitChar c" for c
  proof -
    have "48 \<le> (of_char c :: nat)" "of_char c \<le> (57 :: nat)"
      using that by (auto simp: isDigitChar_def digit_val_def Let_def split: if_splits)
    then have "(of_char c :: nat) \<in> set [48 ..< 58]" by (simp del: upt_rec_numeral)
    moreover have "list_all (\<lambda>k. hex_digit (char_of (k :: nat))) [48 ..< 58]" by code_simp
    ultimately have "hex_digit (char_of (of_char c :: nat))" by (simp only: list_all_iff)
    then show ?thesis by simp
  qed
  then show ?thesis using nat_digits_digits [of m] by (auto simp: list_all_iff)
qed

lemma trimSpace_itoa: "0 \<le> n \<Longrightarrow> trimSpace (itoa n) = itoa n"
  by (simp add: itoa_def trimSpace_digits nat_digits_hex)

lemma nonce_digits:
  "list_all hex_digit (deriveActivityNonce t k seed)" "length (deriveActivityNonce t k seed) = 16"
  using hexEncode_digits by (auto simp: deriveActivityNonce_def hmacSHA256Hex_def list_all_iff dest: in_set_takeD)

lemma trimSpace_nonce: "trimSpace (deriveActivityNonce t k seed) = deriveActivityNonce t k seed"
proof (rule trimSpace_digits)
  show "deriveActivityNonce t k seed \<noteq> []" using nonce_digits(2) [of t k seed] by fastforce
qed (rule nonce_digits)

text \<open>A signature that is generated is the one that its own time stamp and nonce give, so it
  can be made again from the answer; its nonce has 16 and its sign 64 hexadecimal digits.\<close>

theorem generated_signature_verifies:
  assumes "GenerateActivitySignature now_ms bufs signKey token = Some (Ok s)" "0 \<le> now_ms"
  shows "BuildActivitySignature signKey (as_Timestamp s) (as_Nonce s) = Ok s
    \<and> as_Timestamp s = itoa now_ms \<and> length (as_Nonce s) = 16 \<and> length (as_Sign s) = 64"
proof -
  from assms(1) obtain seed where b: "BuildActivitySignature signKey (itoa now_ms) (deriveActivityNonce (itoa now_ms) token seed) = Ok s"
    by (auto simp: GenerateActivitySignature_def go_bind_Ok_iff Let_def)
  then have "as_Timestamp s = itoa now_ms" "as_Nonce s = deriveActivityNonce (itoa now_ms) token seed" "length (as_Sign s) = 64"
    by (auto simp: BuildActivitySignature_def trimSpace_nonce trimSpace_itoa [OF assms(2)] Let_def hmacSHA256Hex_def split: if_splits)
  with b nonce_digits(2) show ?thesis by simp
qed

theorem generated_signature_verifies_witness:
  "\<exists>s. GenerateActivitySignature 5 [Ok [0, 1, 2, 3, 4, 5, 6, 7, 8, 9, 10, 11, 12, 13, 14, 15]] ''k'' ''t'' = Some (Ok s)
     \<and> BuildActivitySignature ''k'' (as_Timestamp s) (as_Nonce s) = Ok s"
proof -
  have "randomBase36 (map Ok [[0, 1, 2, 3, 4, 5, 6, 7, 8, 9, 10, 11, 12, 13, 14, 15]] @ []) 16
      = Some (Ok (take (nat 16) (base36_chars (concat [[0, 1, 2, 3, 4, 5, 6, 7, 8, 9, 10, 11, 12, 13, 14, 15]]))))"
    by (rule randomBase36_exact) (simp_all add: base36_chars_def)
  moreover have "trimSpace ''k'' = ''k''" by (rule trimSpace_solid) simp_all
  moreover have "trimSpace (itoa 5) = itoa 5" "itoa 5 \<noteq> []" by (rule trimSpace_itoa, simp) (simp add: itoa_def)
  moreover have "deriveActivityNonce t k seed \<noteq> []" for t k seed using nonce_digits(2) [of t k seed] by fastforce
  ultimately obtain s where "GenerateActivitySignature 5 [Ok [0, 1, 2, 3, 4, 5, 6, 7, 8, 9, 10, 11, 12, 13, 14, 15]] ''k'' ''t'' = Some (Ok s)"
    by (simp add: GenerateActivitySignature_def BuildActivitySignature_def trimSpace_nonce Let_def)
  with generated_signature_verifies [OF this] show ?thesis by auto
qed

end
