(* ===== verification/Service_Config.thy ===== *)
theory Service_Config
  imports App_State
begin

text \<open>
  Model of \<open>internal/serviceconfig/config.go\<close> and of the start of \<open>cmd/yyb-go/main.go\<close>: where
  the configuration is looked for, how it is read and checked, and the application that is
  made of it. Files are functions of their paths.
\<close>

section \<open>Reading the configuration\<close>

record ServiceConfig =
  sc_ListenAddress :: string
  sc_DataRoot :: string
  sc_AssetRoot :: string
  sc_DatabaseFilename :: string
  sc_TCPProxy :: string
  sc_KeepAliveIntervalMinute :: int
  sc_KeepAliveAheadMinute :: int
  sc_PythonCommand :: string
  sc_SecretKey :: string
  sc_SessionDurationMinute :: int
  sc_CookieSecure :: bool

definition sc_fields :: "(string \<times> field_kind) list" where
  "sc_fields =
     [(''listen_address'', String_field), (''data_root'', String_field), (''asset_root'', String_field),
      (''database_filename'', String_field), (''tcp_proxy'', String_field),
      (''keepalive_interval_minutes'', Int_field), (''keepalive_ahead_minutes'', Int_field),
      (''python_command'', String_field), (''secret_key'', String_field),
      (''session_duration_minutes'', Int_field), (''cookie_secure'', Bool_field)]"

definition sc_of :: "gmap \<Rightarrow> ServiceConfig" where
  "sc_of m =
     \<lparr>sc_ListenAddress = str_field m ''listen_address'', sc_DataRoot = str_field m ''data_root'',
      sc_AssetRoot = str_field m ''asset_root'', sc_DatabaseFilename = str_field m ''database_filename'',
      sc_TCPProxy = str_field m ''tcp_proxy'',
      sc_KeepAliveIntervalMinute = int_field m ''keepalive_interval_minutes'',
      sc_KeepAliveAheadMinute = int_field m ''keepalive_ahead_minutes'',
      sc_PythonCommand = str_field m ''python_command'', sc_SecretKey = str_field m ''secret_key'',
      sc_SessionDurationMinute = int_field m ''session_duration_minutes'',
      sc_CookieSecure = bool_field m ''cookie_secure''\<rparr>"

definition validateListenAddress :: "string \<Rightarrow> unit go" where
  "validateListenAddress address =
     (case SplitHostPort address of
        Ok (host, rawPort) \<Rightarrow>
          if trimSpace host = [] then Err (Errorf ''listen_address must be host:port'')
          else (case atoi rawPort of
                  Some port \<Rightarrow> if port < 1 \<or> port > 65535 then Err (Errorf ''listen_address: port out of range'') else Ok ()
                | None \<Rightarrow> Err (Errorf ''listen_address: port out of range''))
      | Err _ \<Rightarrow> Err (Errorf ''listen_address must be host:port'')
      | Panic \<Rightarrow> Panic)"

definition trimmed :: "ServiceConfig \<Rightarrow> ServiceConfig" where
  "trimmed c =
     c\<lparr>sc_ListenAddress := trimSpace (sc_ListenAddress c),
       sc_DataRoot := path_Clean (trimSpace (sc_DataRoot c)), sc_AssetRoot := path_Clean (trimSpace (sc_AssetRoot c)),
       sc_DatabaseFilename := trimSpace (sc_DatabaseFilename c), sc_TCPProxy := trimSpace (sc_TCPProxy c),
       sc_PythonCommand := trimSpace (sc_PythonCommand c), sc_SecretKey := trimSpace (sc_SecretKey c)\<rparr>"

definition normalizeAndValidate :: "ServiceConfig \<Rightarrow> ServiceConfig go" where
  "normalizeAndValidate c =
     (let c = trimmed c in
      go_bind (validateListenAddress (sc_ListenAddress c)) (\<lambda>_.
      if sc_DataRoot c = ''.'' \<or> sc_AssetRoot c = ''.'' then Err (Errorf ''data_root and asset_root must be given'')
      else if sc_DatabaseFilename c = [] \<or> path_Base (sc_DatabaseFilename c) \<noteq> sc_DatabaseFilename c
      then Err (Errorf ''database_filename must be a file name without directories'')
      else if sc_KeepAliveIntervalMinute c < 0 \<or> sc_KeepAliveAheadMinute c < 0
      then Err (Errorf ''keepalive: minutes must not be negative'')
      else
        let c = c\<lparr>sc_KeepAliveIntervalMinute := or_default (sc_KeepAliveIntervalMinute c) 1,
                  sc_KeepAliveAheadMinute := or_default (sc_KeepAliveAheadMinute c) 45,
                  sc_PythonCommand := defaultString (sc_PythonCommand c) ''python''\<rparr> in
        if sc_SessionDurationMinute c < 0 then Err (Errorf ''session_duration_minutes must not be negative'')
        else Ok (c\<lparr>sc_SessionDurationMinute := or_default (sc_SessionDurationMinute c) 1440\<rparr>)))"

text \<open>What follows the first value: nothing, another value, or something else.\<close>

definition ensureJSONEnd :: "string \<Rightarrow> unit go" where
  "ensureJSONEnd rest =
     (if skip_ws rest = [] then Ok ()
      else if json_value (2 * length rest + 2) 0 rest = None then Err (Wrapf ''trailing text: %w'' ErrJSON)
      else Err (Errorf ''only one JSON object is allowed''))"

definition maximumConfigSize :: nat where "maximumConfigSize = 2 ^ 20"

text \<open>\<open>file\<close> is the error of opening, or what reading gives.\<close>

definition Load :: "bytes go go \<Rightarrow> ServiceConfig go" where
  "Load file =
     (case file of
        Err e \<Rightarrow> Err (Wrapf ''cannot open: %w'' e)
      | Panic \<Rightarrow> Panic
      | Ok (Err e) \<Rightarrow> Err (Wrapf ''cannot read: %w'' e)
      | Ok Panic \<Rightarrow> Panic
      | Ok (Ok content) \<Rightarrow>
          (let raw = take (maximumConfigSize + 1) content; s = string_of raw in
           if length raw > maximumConfigSize then Err (Errorf ''larger than 1 MiB'')
           else case json_value (2 * length s + 2) 0 s of
             None \<Rightarrow> Err (Wrapf ''cannot parse: %w'' ErrJSON)
           | Some (v, rest) \<Rightarrow>
               (case decode_struct True sc_fields v of
                  Err e \<Rightarrow> Err (Wrapf ''cannot parse: %w'' e)
                | Panic \<Rightarrow> Panic
                | Ok m \<Rightarrow> go_bind (ensureJSONEnd rest) (\<lambda>_. normalizeAndValidate (sc_of m)))))"

section \<open>Finding the configuration\<close>

definition serviceConfigFilename :: string where "serviceConfigFilename = ''config/service.json''"

text \<open>From a directory upwards; the fuel is a bound on the number of its parents.\<close>

fun climb :: "(string \<Rightarrow> bool) \<Rightarrow> nat \<Rightarrow> string \<Rightarrow> string list \<Rightarrow> string option \<times> string list" where
  "climb is_file 0 dir seen = (None, seen)"
| "climb is_file (Suc f) dir seen =
     (if dir \<in> set seen then (None, seen)
      else
        let seen = dir # seen; file = path_Join [dir, serviceConfigFilename]; parent = path_Dir dir in
        if is_file file then (Some file, seen)
        else if parent = dir then (None, seen)
        else climb is_file f parent seen)"

text \<open>\<open>absp\<close> is \<open>filepath.Abs\<close>; a start without an absolute path is passed over.\<close>

fun locate_from :: "(string \<Rightarrow> bool) \<Rightarrow> (string \<Rightarrow> string go) \<Rightarrow> string list \<Rightarrow> string list \<Rightarrow> string go" where
  "locate_from is_file absp [] seen = Err (Errorf ''config/service.json not found'')"
| "locate_from is_file absp (start # starts) seen =
     (case absp start of
        Ok dir \<Rightarrow>
          (case climb is_file (length dir + 1) dir seen of
             (Some file, seen) \<Rightarrow> Ok file
           | (None, seen) \<Rightarrow> locate_from is_file absp starts seen)
      | _ \<Rightarrow> locate_from is_file absp starts seen)"

definition locateServiceConfig ::
  "(string \<Rightarrow> bool) \<Rightarrow> (string \<Rightarrow> string go) \<Rightarrow> string go \<Rightarrow> string go \<Rightarrow> string go" where
  "locateServiceConfig is_file absp cwd exe =
     locate_from is_file absp
       ((case cwd of Ok d \<Rightarrow> [d] | _ \<Rightarrow> []) @ (case exe of Ok e \<Rightarrow> [path_Dir e] | _ \<Rightarrow> [])) []"

section \<open>The start\<close>

definition listenBaseURL :: "string \<Rightarrow> string" where
  "listenBaseURL addr =
     (case SplitHostPort addr of
        Ok (host, port) \<Rightarrow>
          if port = [] then ''http://127.0.0.1:8000''
          else
            let host = (if host = [] \<or> host = ''0.0.0.0'' \<or> host = ''::'' then ''127.0.0.1'' else host) in
            ''http://'' @ JoinHostPort host port
      | _ \<Rightarrow> ''http://127.0.0.1:8000'')"

text \<open>\<open>time.Duration(m) * time.Minute\<close> is a product of int64 values.\<close>

definition minutes :: "int \<Rightarrow> int" where
  "minutes m = sint (word_of_int (m * minute) :: u64)"

definition app_config :: "string \<Rightarrow> ServiceConfig \<Rightarrow> AppConfig" where
  "app_config configPath c =
     (let projectRoot = path_Dir (path_Dir configPath);
          rooted = (\<lambda>p. if path_IsAbs p then p else path_Join [projectRoot, p]) in
      \<lparr>ac_ResourceRoot = rooted (sc_DataRoot c), ac_AssetRoot = rooted (sc_AssetRoot c),
       ac_DBFilename = sc_DatabaseFilename c, ac_TCPProxy = sc_TCPProxy c, ac_SessionTTL = 30 * minute,
       ac_RequestTimeout = 8 * second, ac_AvatarTimeout = 10 * second, ac_ScanTimeout = 180 * second,
       ac_QRSessionTTL = 5 * minute, ac_KeepAliveInterval = minutes (sc_KeepAliveIntervalMinute c),
       ac_KeepAliveAhead = minutes (sc_KeepAliveAheadMinute c), ac_PythonCommand = sc_PythonCommand c,
       ac_ScriptsServerURL = listenBaseURL (sc_ListenAddress c), ac_SecretKey = sc_SecretKey c,
       ac_SessionDuration = minutes (sc_SessionDurationMinute c), ac_CookieSecure = sc_CookieSecure c\<rparr>)"

text \<open>The part of \<open>run\<close> before the server listens.\<close>

definition run_start ::
  "(string \<Rightarrow> bytes go go) \<Rightarrow> (string \<Rightarrow> string go) \<Rightarrow> (string \<Rightarrow> bool) \<Rightarrow> string go \<Rightarrow> string go
   \<Rightarrow> app_start \<Rightarrow> (nat \<Rightarrow> bool) \<Rightarrow> app go" where
  "run_start file absp is_file cwd exe st uni =
     go_bind (locateServiceConfig is_file absp cwd exe) (\<lambda>path.
     go_bind (Load (file path)) (\<lambda>c.
     case NewApp st uni (app_config path c) of
       Err e \<Rightarrow> Err (Wrapf ''cannot start: %w'' e)
     | r \<Rightarrow> r))"

end
