(* ===== verification/Service_Config_Props.thy ===== *)
theory Service_Config_Props
  imports Service_Config
begin

text \<open>
  Correctness of the configuration: what an accepted one satisfies, which file is taken, and
  the address that scripts are given.
\<close>

section \<open>Accepted configurations\<close>

definition sc_valid :: "ServiceConfig \<Rightarrow> bool" where
  "sc_valid c \<longleftrightarrow>
     (\<exists>host port n. SplitHostPort (sc_ListenAddress c) = Ok (host, port) \<and> host \<noteq> [] \<and> atoi port = Some n \<and> 1 \<le> n \<and> n \<le> 65535)
     \<and> sc_DataRoot c \<noteq> ''.'' \<and> sc_AssetRoot c \<noteq> ''.''
     \<and> sc_DatabaseFilename c \<noteq> [] \<and> (CHR ''/'' \<notin> set (sc_DatabaseFilename c) \<or> sc_DatabaseFilename c = ''/'')
     \<and> 1 \<le> sc_KeepAliveIntervalMinute c \<and> 1 \<le> sc_KeepAliveAheadMinute c \<and> 1 \<le> sc_SessionDurationMinute c
     \<and> sc_PythonCommand c \<noteq> [] \<and> trimSpace (sc_SecretKey c) = sc_SecretKey c"

lemma path_Base_no_sep: "path_Base p = p \<Longrightarrow> CHR ''/'' \<notin> set p \<or> p = ''/''"
proof -
  assume b: "path_Base p = p"
  let ?q = "rev (dropWhile (\<lambda>c. c = CHR ''/'') (rev p))"
  show ?thesis
  proof (cases "p = [] \<or> ?q = []")
    case False
    then have "path_Base p = rev (takeWhile (\<lambda>c. c \<noteq> CHR ''/'') (rev ?q))"
      unfolding path_Base_def Let_def by (simp only: de_Morgan_disj if_False)
    then have "CHR ''/'' \<notin> set (path_Base p)" by (auto dest: set_takeWhileD)
    with b show ?thesis by simp
  next
    case True
    then show ?thesis
    proof
      assume "?q = []"
      then have "path_Base p = ''/'' \<or> p = []" unfolding path_Base_def Let_def by (simp only: if_True split: if_split) simp
      with b show ?thesis by auto
    qed simp
  qed
qed

lemma validateListenAddress_Ok:
  "validateListenAddress a = Ok u \<Longrightarrow>
   \<exists>host port n. SplitHostPort a = Ok (host, port) \<and> host \<noteq> [] \<and> atoi port = Some n \<and> 1 \<le> n \<and> n \<le> 65535"
  by (auto simp: validateListenAddress_def split: go.splits if_splits option.splits)

lemma normalizeAndValidate_valid: "normalizeAndValidate c = Ok c' \<Longrightarrow> sc_valid c'"
proof -
  assume n: "normalizeAndValidate c = Ok c'"
  then obtain u where u: "validateListenAddress (sc_ListenAddress (trimmed c)) = Ok u"
    unfolding normalizeAndValidate_def Let_def go_bind_Ok_iff by blast
  let ?t = "trimmed c"
  have f: "sc_DataRoot ?t \<noteq> ''.''" "sc_AssetRoot ?t \<noteq> ''.''" "sc_DatabaseFilename ?t \<noteq> []"
    "path_Base (sc_DatabaseFilename ?t) = sc_DatabaseFilename ?t" "\<not> sc_KeepAliveIntervalMinute ?t < 0"
    "\<not> sc_KeepAliveAheadMinute ?t < 0" "\<not> sc_SessionDurationMinute ?t < 0"
    using n u by (simp_all add: normalizeAndValidate_def Let_def split: if_splits)
  then have c': "c' = ?t\<lparr>sc_KeepAliveIntervalMinute := or_default (sc_KeepAliveIntervalMinute ?t) 1,
      sc_KeepAliveAheadMinute := or_default (sc_KeepAliveAheadMinute ?t) 45,
      sc_PythonCommand := defaultString (sc_PythonCommand ?t) ''python'',
      sc_SessionDurationMinute := or_default (sc_SessionDurationMinute ?t) 1440\<rparr>"
    using n u by (simp add: normalizeAndValidate_def Let_def)
  have "trimSpace (sc_SecretKey ?t) = sc_SecretKey ?t" by (simp add: trimmed_def)
  moreover have "1 \<le> or_default m d" if "\<not> m < 0" "1 \<le> d" for m d using that by (simp add: or_default_def)
  moreover have "defaultString s ''python'' \<noteq> []" for s by (simp add: defaultString_def)
  ultimately show ?thesis
    using f path_Base_no_sep [OF f(4)] validateListenAddress_Ok [OF u] by (simp add: c' sc_valid_def)
qed


definition sample_config :: string where
  "sample_config = ''{\"listen_address\":\"h:1\",\"data_root\":\"d\",\"asset_root\":\"a\",\"database_filename\":\"f\"}''"


section \<open>Addresses\<close>

lemma str_index_char: "c \<notin> set xs \<Longrightarrow> str_index (xs @ c # ys) [c] = Some (length xs)"
  by (induction xs) auto

lemma last_index_char: "c \<notin> set p \<Longrightarrow> last_index c (h @ c # p) = Some (length h)"
  using str_index_char [of c "rev p" "rev h"] by (simp add: last_index_def)

lemma SplitHostPort_Join:
  assumes "CHR ''['' \<notin> set host" "CHR '']'' \<notin> set host" "set port \<inter> set ''[]:'' = {}"
  shows "SplitHostPort (JoinHostPort host port) = Ok (host, port)"
proof (cases "CHR '':'' \<in> set host \<or> CHR ''%'' \<in> set host")
  case True
  let ?hp = "''['' @ host @ '']:'' @ port"
  have "last_index (CHR '':'') ?hp = Some (length host + 2)"
    using last_index_char [of "CHR '':''" port "''['' @ host @ '']''"] assms(3) by simp
  moreover have "str_index ?hp '']'' = Some (length host + 1)"
    using str_index_char [of "CHR '']''" "''['' @ host" "'':'' @ port"] assms(2) by simp
  ultimately show ?thesis
    using True assms by (simp add: SplitHostPort_def JoinHostPort_def slice_def)
next
  case False
  have "last_index (CHR '':'') (host @ '':'' @ port) = Some (length host)"
    using last_index_char [of "CHR '':''" port host] assms(3) by simp
  moreover have "\<not> prefix ''['' (host @ '':'' @ port)" using assms(1) by (cases host) auto
  ultimately show ?thesis
    using False assms by (simp add: SplitHostPort_def JoinHostPort_def)
qed

definition loopback_for :: "string \<Rightarrow> string" where
  "loopback_for host = (if host = ''0.0.0.0'' \<or> host = ''::'' then ''127.0.0.1'' else host)"

text \<open>Scripts are given the address on which the service listens: its host, or the loopback
  address when it listens on all, and its port, in a form from which both are read back.\<close>

theorem listenBaseURL_reaches:
  assumes "host \<noteq> []" "port \<noteq> []" "CHR ''['' \<notin> set host" "CHR '']'' \<notin> set host" "set port \<inter> set ''[]:'' = {}"
  shows "listenBaseURL (JoinHostPort host port) = ''http://'' @ JoinHostPort (loopback_for host) port
    \<and> SplitHostPort (JoinHostPort (loopback_for host) port) = Ok (loopback_for host, port)"
proof
  show "listenBaseURL (JoinHostPort host port) = ''http://'' @ JoinHostPort (loopback_for host) port"
    using assms by (simp add: listenBaseURL_def SplitHostPort_Join loopback_for_def)
  have "CHR ''['' \<notin> set (loopback_for host)" "CHR '']'' \<notin> set (loopback_for host)"
    using assms(3,4) by (simp_all add: loopback_for_def)
  with assms(5) show "SplitHostPort (JoinHostPort (loopback_for host) port) = Ok (loopback_for host, port)"
    by (rule SplitHostPort_Join [rotated 2])
qed

theorem listenBaseURL_reaches_witness:
  "listenBaseURL (JoinHostPort ''::'' ''8000'') = ''http://'' @ JoinHostPort ''127.0.0.1'' ''8000''"
  using listenBaseURL_reaches [of "''::''" "''8000''"] by (simp add: loopback_for_def)

text \<open>Minutes up to 153722867 are exact; one more wraps around to a negative duration, although
  the configuration accepts every number that is not negative.\<close>

lemma minutes_exact: "0 \<le> m \<Longrightarrow> m \<le> 153722867 \<Longrightarrow> minutes m = m * minute"
proof -
  assume "0 \<le> m" "m \<le> 153722867"
  then have "signed_take_bit 63 (m * minute) = m * minute"
    by (intro signed_take_bit_int_eq_self) (simp_all add: minute_def)
  then show ?thesis by (simp only: minutes_def sint_sbintrunc' size_word.rep_eq) simp
qed

lemma minutes_overflow: "minutes 153722868 < 0"
  by (simp add: minutes_def minute_def)

section \<open>The file that is taken\<close>

definition dir_of :: "string list \<Rightarrow> string" where
  "dir_of es = ''/'' @ join_with (CHR ''/'') es"

lemma split_join: "es \<noteq> [] \<Longrightarrow> list_all plain_element es \<Longrightarrow> split_on (CHR ''/'') (join_with (CHR ''/'') es) = es"
proof (induction es rule: rev_induct)
  case (snoc e es)
  then show ?case
    by (cases "es = []") (simp_all add: split_on_single plain_element_def join_with_snoc split_on_snoc)
qed simp

lemma clean_plain: "list_all plain_element es \<Longrightarrow> clean_parts r st es = rev es @ st"
  by (induction es arbitrary: st) (auto simp: plain_element_def)

lemma Clean_dir:
  assumes "list_all plain_element es"
  shows "path_Clean (dir_of es) = dir_of es" "es \<noteq> [] \<Longrightarrow> path_Clean (dir_of es @ ''/'') = dir_of es"
proof -
  have s: "split_on (CHR ''/'') (dir_of es) = [] # (if es = [] then [[]] else es)"
    using split_join [OF _ assms] by (simp add: dir_of_def)
  then show "path_Clean (dir_of es) = dir_of es"
    using assms by (simp add: path_Clean_def path_IsAbs_def dir_of_def clean_plain)
  show "path_Clean (dir_of es @ ''/'') = dir_of es" if "es \<noteq> []"
  proof -
    have "split_on (CHR ''/'') (dir_of es @ ''/'') = [] # es @ [[]]"
      using split_on_snoc [of "CHR ''/''" "[]" "dir_of es"] s that by simp
    moreover have "clean_parts True [] (es @ [[]]) = rev es"
    proof -
      have "clean_parts r st (es @ [[]]) = rev es @ st" for r st
        using assms by (induction es arbitrary: st) (auto simp: plain_element_def)
      then show ?thesis by simp
    qed
    ultimately show ?thesis by (simp add: path_Clean_def path_IsAbs_def dir_of_def)
  qed
qed

lemma dropWhile_to_sep: "CHR ''/'' \<notin> set e \<Longrightarrow> rev (dropWhile (\<lambda>c. c \<noteq> CHR ''/'') (rev (p @ CHR ''/'' # e))) = p @ ''/''"
  by (simp add: dropWhile_append)

lemma Dir_dir: "list_all plain_element (es @ [e]) \<Longrightarrow> path_Dir (dir_of (es @ [e])) = dir_of es"
proof (cases "es = []")
  case True
  assume "list_all plain_element (es @ [e])"
  then have "path_Dir (dir_of (es @ [e])) = path_Clean ''/''"
    using True dropWhile_to_sep [of e "[]"] by (simp add: path_Dir_def dir_of_def plain_element_def)
  with True Clean_dir(1) [of "[]"] show ?thesis by (simp add: dir_of_def)
next
  case False
  assume p: "list_all plain_element (es @ [e])"
  then have "path_Dir (dir_of (es @ [e])) = path_Clean (dir_of es @ ''/'')"
    using dropWhile_to_sep [of e "dir_of es"] False by (simp add: path_Dir_def dir_of_def join_with_snoc plain_element_def)
  with False p Clean_dir(2) [of es] show ?thesis by simp
qed

lemma length_dir: "list_all plain_element es \<Longrightarrow> length es < length (dir_of es)"
proof (induction es rule: rev_induct)
  case (snoc e es)
  then show ?case
    by (cases "es = []") (auto simp: dir_of_def join_with_snoc plain_element_def Suc_le_eq)
qed (simp add: dir_of_def)

lemma climb_nearest:
  "list_all plain_element es \<Longrightarrow> length es < n \<Longrightarrow> \<forall>s \<in> set seen. length (dir_of es) < length s \<Longrightarrow>
   fst (climb is_file n (dir_of es) seen)
   = find is_file (map (\<lambda>d. path_Join [dir_of d, serviceConfigFilename]) (rev (prefixes es)))"
proof (induction es arbitrary: n seen rule: rev_induct)
  case Nil
  then obtain k where n: "n = Suc k" by (cases n) auto
  have "path_Dir (dir_of []) = dir_of []" by (simp add: dir_of_def) code_simp
  with Nil n show ?case by (auto simp: Let_def)
next
  case (snoc e es)
  then obtain k where n: "n = Suc k" by (cases n) auto
  have dir: "path_Dir (dir_of (es @ [e])) = dir_of es" by (rule Dir_dir) (use snoc.prems in simp)
  have less: "length (dir_of es) < length (dir_of (es @ [e]))"
    using snoc.prems(1) by (cases "es = []") (auto simp: dir_of_def plain_element_def join_with_snoc)
  then have ne: "dir_of es \<noteq> dir_of (es @ [e])" by auto
  have "fst (climb is_file k (dir_of es) (dir_of (es @ [e]) # seen))
      = find is_file (map (\<lambda>d. path_Join [dir_of d, serviceConfigFilename]) (rev (prefixes es)))"
    by (rule snoc.IH) (use snoc.prems n less in auto)
  with snoc.prems(3) ne show ?case by (auto simp: n dir Let_def prefixes_snoc)
qed

text \<open>The configuration is the nearest one: of the working directory and the directories above
  it, the first that has the file decides, and the place of the program does not matter then.\<close>

theorem locate_nearest:
  assumes "list_all plain_element es" "absp d = Ok (dir_of es)" "dir \<in> set (prefixes es)"
    and "is_file (path_Join [dir_of dir, serviceConfigFilename])"
    and "\<And>below. below \<in> set (prefixes es) \<Longrightarrow> length dir < length below \<Longrightarrow> \<not> is_file (path_Join [dir_of below, serviceConfigFilename])"
  shows "locateServiceConfig is_file absp (Ok d) exe = Ok (path_Join [dir_of dir, serviceConfigFilename])"
proof -
  let ?f = "\<lambda>d. path_Join [dir_of d, serviceConfigFilename]"
  from assms(3) obtain more where es: "es = dir @ more" by (auto simp: prefix_def)
  have "find is_file (map ?f (rev (prefixes (dir @ more)))) = Some (?f dir)"
    if "\<And>below. below \<in> set (prefixes (dir @ more)) \<Longrightarrow> length dir < length below \<Longrightarrow> \<not> is_file (?f below)" for more
    using that
  proof (induction more rule: rev_induct)
    case Nil
    then show ?case using assms(4) by (cases dir rule: rev_cases) (simp_all add: prefixes_snoc)
  next
    case (snoc e more)
    have "\<not> is_file (?f (dir @ more @ [e]))" by (rule snoc.prems) simp_all
    moreover have "find is_file (map ?f (rev (prefixes (dir @ more)))) = Some (?f dir)"
    proof (rule snoc.IH)
      fix below assume "below \<in> set (prefixes (dir @ more))" "length dir < length below"
      moreover from this(1) have "prefix below (dir @ more @ [e])" by (metis append_assoc in_set_prefixes prefix_prefix)
      ultimately show "\<not> is_file (?f below)" using snoc.prems [of below] by simp
    qed
    ultimately show ?case using prefixes_snoc [of "dir @ more" e] by simp
  qed
  then have "find is_file (map ?f (rev (prefixes es))) = Some (?f dir)" using assms(5) unfolding es by blast
  with climb_nearest [OF assms(1), of "length (dir_of es) + 1" "[]" is_file] length_dir [OF assms(1)]
  have "fst (climb is_file (length (dir_of es) + 1) (dir_of es) []) = Some (?f dir)" by simp
  then show ?thesis
    using assms(2) by (cases "climb is_file (length (dir_of es) + 1) (dir_of es) []") (auto simp: locateServiceConfig_def)
qed

theorem locate_nearest_witness:
  "locateServiceConfig (\<lambda>f. f = ''/srv/config/service.json'') Ok (Ok ''/srv/bin'') (Err ErrJSON) = Ok ''/srv/config/service.json''"
proof -
  have j: "path_Join [dir_of [''srv''], serviceConfigFilename] = ''/srv/config/service.json''"
    "path_Join [dir_of [''srv'', ''bin''], serviceConfigFilename] = ''/srv/bin/config/service.json''"
    "dir_of [''srv'', ''bin''] = ''/srv/bin''" by code_simp+
  have "\<not> path_Join [dir_of below, serviceConfigFilename] = ''/srv/config/service.json''"
    if "below \<in> set (prefixes [''srv'', ''bin''])" "length [''srv''] < length below" for below
  proof -
    have "below = [''srv'', ''bin'']" using that by auto
    then show ?thesis by (simp only: j(2)) simp
  qed
  with locate_nearest [of "[''srv'', ''bin'']" Ok "''/srv/bin''" "[''srv'']" "\<lambda>f. f = ''/srv/config/service.json''" "Err ErrJSON"]
  show ?thesis by (simp add: j plain_element_def)
qed

end
