(* ===== verification/Openapi.thy ===== *)
theory Openapi
  imports Go_Values
begin

text \<open>
  Model of \<open>internal/httpapi/openapi.go\<close>: the description of the API that the service gives out.
  The function that builds it is one literal, given here in parts (the head, the paths and the
  schemas); texts that are Chinese in the source are in English. A \<open>[]string\<close> is a list of
  texts, which JSON does not tell from it.
\<close>

section \<open>Building blocks\<close>

definition refSchema :: "string \<Rightarrow> gmap" where
  "refSchema name = [(''$ref'', GStr (''#/components/schemas/'' @ name))]"

definition arraySchema :: "gmap \<Rightarrow> gmap" where
  "arraySchema item = [(''type'', GStr ''array''), (''items'', GMap item)]"

definition objectSchema :: "string list \<Rightarrow> gmap \<Rightarrow> gmap" where
  "objectSchema required properties =
     [(''type'', GStr ''object''), (''properties'', GMap properties)]
     @ (if required = [] then [] else [(''required'', GArr (map GStr required))])"

definition oneOfSchema :: "gmap list \<Rightarrow> gmap" where
  "oneOfSchema schemas = [(''oneOf'', GMaps schemas)]"

definition freeFormObjectSchema :: "string \<Rightarrow> gmap" where
  "freeFormObjectSchema description =
     [(''type'', GStr ''object''), (''description'', GStr description), (''additionalProperties'', GBool True), (''nullable'', GBool True)]"

definition nullableObjectSchema :: "string \<Rightarrow> gmap" where
  "nullableObjectSchema description =
     [(''type'', GStr ''object''), (''description'', GStr description), (''additionalProperties'', GBool True), (''nullable'', GBool True)]"

definition nullableStringSchema :: "string \<Rightarrow> gmap" where
  "nullableStringSchema description =
     [(''type'', GStr ''string''), (''description'', GStr description), (''nullable'', GBool True)]"

definition int64Schema :: gmap where
  "int64Schema = [(''type'', GStr ''integer''), (''format'', GStr ''int64'')]"

definition nullableInt64Schema :: gmap where
  "nullableInt64Schema = [(''type'', GStr ''integer''), (''format'', GStr ''int64''), (''nullable'', GBool True)]"

text \<open>The envelope around the data; without a schema for them they can be any object.\<close>

definition apiResponseSchema :: "gmap option \<Rightarrow> gmap" where
  "apiResponseSchema dataSchema =
     objectSchema [''code'', ''msg'', ''data'']
       [(''code'', GMap [(''type'', GStr ''integer''), (''example'', GInt KInt 0), (''description'', GStr ''code of the outcome, 0 for success'')]),
        (''msg'', GMap [(''type'', GStr ''string''), (''example'', GStr ''success''), (''description'', GStr ''message, fit to be shown'')]),
        (''data'', GMap (case dataSchema of Some s \<Rightarrow> s | None \<Rightarrow> nullableObjectSchema ''the data''))]"

definition jsonResponse :: "string \<Rightarrow> gmap \<Rightarrow> gmap" where
  "jsonResponse description schema =
     [(''description'', GStr description),
      (''content'', GMap [(''application/json'', GMap [(''schema'', GMap (apiResponseSchema (Some schema)))])])]"

definition jsonErrorResponse :: "string \<Rightarrow> gmap" where
  "jsonErrorResponse description =
     [(''description'', GStr description),
      (''content'', GMap [(''application/json'', GMap [(''schema'', GMap (refSchema ''APIErrorResponse''))])])]"

definition imageResponse :: "string \<Rightarrow> gmap" where
  "imageResponse description =
     [(''description'', GStr description),
      (''content'', GMap [(''image/jpeg'', GMap [(''schema'', GMap [(''type'', GStr ''string''), (''format'', GStr ''binary'')])])])]"

definition jsonRequestBody :: "gmap \<Rightarrow> gmap" where
  "jsonRequestBody schema =
     [(''required'', GBool True), (''content'', GMap [(''application/json'', GMap [(''schema'', GMap schema)])])]"

definition jsonOptionalRequestBody :: "gmap \<Rightarrow> gmap" where
  "jsonOptionalRequestBody schema =
     [(''required'', GBool False), (''content'', GMap [(''application/json'', GMap [(''schema'', GMap schema)])])]"

definition pathStringParam :: "string \<Rightarrow> string \<Rightarrow> gmap" where
  "pathStringParam name description =
     [(''name'', GStr name), (''in'', GStr ''path''), (''description'', GStr description), (''required'', GBool True),
      (''schema'', GMap [(''type'', GStr ''string'')])]"

definition queryStringParam :: "string \<Rightarrow> string \<Rightarrow> bool \<Rightarrow> gmap" where
  "queryStringParam name description required =
     [(''name'', GStr name), (''in'', GStr ''query''), (''description'', GStr description), (''required'', GBool required),
      (''schema'', GMap [(''type'', GStr ''string'')])]"

definition boolQueryParam :: "string \<Rightarrow> string \<Rightarrow> gmap" where
  "boolQueryParam name description =
     [(''name'', GStr name), (''in'', GStr ''query''), (''description'', GStr description), (''required'', GBool False),
      (''schema'', GMap [(''type'', GStr ''boolean'')])]"

definition defaulted :: "gmap \<Rightarrow> gmap" where
  "defaulted responses = AList.update ''default'' (GMap (jsonErrorResponse ''error'')) responses"

definition openAPIOperation :: "string list \<Rightarrow> string \<Rightarrow> gmap list \<Rightarrow> gmap option \<Rightarrow> gmap \<Rightarrow> gmap" where
  "openAPIOperation tags summary parameters requestBody responses =
     [(''tags'', GArr (map GStr tags)), (''summary'', GStr summary), (''responses'', GMap responses)]
     @ (if parameters = [] then [] else [(''parameters'', GMaps parameters)])
     @ (case requestBody of None \<Rightarrow> [] | Some b \<Rightarrow> [(''requestBody'', GMap b)])"

section \<open>Paths\<close>

definition path_health :: gmap where
  "path_health =
     [(''get'', GMap (openAPIOperation [''health''] ''state of the service'' [] None
          (defaulted [(''200'', GMap (jsonResponse ''the service is well'' (refSchema ''HealthResponse'')))])))]"

definition path_ready :: gmap where
  "path_ready =
     [(''get'', GMap (openAPIOperation [''health''] ''whether the service can handle requests'' [] None
           (defaulted [(''200'', GMap (jsonResponse ''the service is ready'' (refSchema ''ReadyResponse'')))])))]"

definition path_qr :: gmap where
  "path_qr =
     [(''post'', GMap (openAPIOperation [''qr''] ''create a QR login session'' [boolQueryParam ''as_base64'' ''whether to return the picture as a data URI too''] None
           (defaulted [(''200'', GMap (jsonResponse ''QR session created'' (refSchema ''QRCreateResponse'')))])))]"

definition path_qr_image :: gmap where
  "path_qr_image =
     [(''get'', GMap (openAPIOperation [''qr''] ''picture of the QR code'' [pathStringParam ''session_id'' ''id of the QR session''] None
           (defaulted [(''200'', GMap (imageResponse ''picture of the QR code''))])))]"

definition path_qr_poll :: gmap where
  "path_qr_poll =
     [(''get'', GMap (openAPIOperation [''qr''] ''poll the state of the login'' [pathStringParam ''session_id'' ''id of the QR session''] None
           (defaulted [(''200'', GMap (jsonResponse ''present state'' (refSchema ''QRPollResponse'')))])))]"

definition path_qr_confirm :: gmap where
  "path_qr_confirm =
     [(''post'', GMap (openAPIOperation [''qr''] ''confirm an authorized session and store the account'' [pathStringParam ''session_id'' ''id of the QR session''] None
           (defaulted [(''200'', GMap (jsonResponse ''the stored account'' (refSchema ''AccountPublic'')))])))]"

definition path_accounts :: gmap where
  "path_accounts =
     [(''get'', GMap (openAPIOperation [''accounts''] ''list of accounts'' [] None
          (defaulted [(''200'', GMap (jsonResponse ''the stored accounts'' (arraySchema (refSchema ''AccountPublic''))))]))),
       (''delete'', GMap (openAPIOperation [''accounts''] ''delete an account'' [queryStringParam ''ref'' ''id, UIN or openid of the account'' True] None
            (defaulted [(''200'', GMap (jsonResponse ''what was deleted'' (refSchema ''DeleteAccountResponse'')))])))]"

definition path_accounts_refresh :: gmap where
  "path_accounts_refresh =
     [(''post'', GMap (openAPIOperation [''accounts''] ''refresh accounts'' []
           (Some (jsonOptionalRequestBody (refSchema ''AccountRefRequest'')))
           (defaulted [(''200'', GMap (jsonResponse ''result; an array when ref is not given'' (refSchema ''RefreshResponse'')))])))]"

definition path_accounts_resync :: gmap where
  "path_accounts_resync =
     [(''post'', GMap (openAPIOperation [''accounts''] ''fetch profiles again'' []
           (Some (jsonOptionalRequestBody (refSchema ''AccountRefRequest'')))
           (defaulted [(''200'', GMap (jsonResponse ''the account; an array when ref is not given'' (refSchema ''ResyncResponse'')))])))]"

definition path_accounts_avatar :: gmap where
  "path_accounts_avatar =
     [(''get'', GMap (openAPIOperation [''accounts''] ''picture of an account'' [queryStringParam ''ref'' ''id, UIN or openid of the account'' True] None
           (defaulted [(''200'', GMap (imageResponse ''the picture'')),
            (''302'', GMap [(''description'', GStr ''redirection to the picture'')])])))]"

definition path_features :: gmap where
  "path_features =
     [(''get'', GMap (openAPIOperation [''calls''] ''list of features'' [boolQueryParam ''only_enabled'' ''enabled features only''] None
          (defaulted [(''200'', GMap (jsonResponse ''the features'' (arraySchema (refSchema ''FeatureDefinition''))))])))]"

definition path_activity_sign :: gmap where
  "path_activity_sign =
     [(''post'', GMap (openAPIOperation [''activity''] ''make signTimestamp, signNonce and sign of an activity request'' []
           (Some (jsonRequestBody (refSchema ''ActivitySignRequest'')))
           (defaulted [(''200'', GMap (jsonResponse ''the signature'' (refSchema ''ActivitySignResponse'')))])))]"

definition path_accounts_call :: gmap where
  "path_accounts_call =
     [(''post'', GMap (openAPIOperation [''calls''] ''call a feature of a mini program for an account'' [pathStringParam ''ref'' ''id, UIN or openid of the account'']
           (Some (jsonRequestBody (refSchema ''CallFeatureRequest'')))
           (defaulted [(''200'', GMap (jsonResponse ''result of the call'' (refSchema ''CallFeatureResponse'')))])))]"

definition path_wxapp_getCode :: gmap where
  "path_wxapp_getCode =
     [(''post'', GMap (openAPIOperation [''wxapp''] ''get the code of a mini program'' []
           (Some (jsonRequestBody (refSchema ''WxappRequest'')))
           (defaulted [(''200'', GMap (jsonResponse ''result of getCode'' (refSchema ''WxappResponse'')))])))]"

definition path_wxapp_getPhoneNumber :: gmap where
  "path_wxapp_getPhoneNumber =
     [(''post'', GMap (openAPIOperation [''wxapp''] ''get the phone number'' []
           (Some (jsonRequestBody (refSchema ''WxappRequest'')))
           (defaulted [(''200'', GMap (jsonResponse ''result of getPhoneNumber'' (refSchema ''WxappResponse'')))])))]"

definition path_wxapp_operateWxData :: gmap where
  "path_wxapp_operateWxData =
     [(''post'', GMap (openAPIOperation [''wxapp''] ''cloud function of a mini program'' []
           (Some (jsonRequestBody (refSchema ''OperateWXDataRequest'')))
           (defaulted [(''200'', GMap (jsonResponse ''result of operateWxData'' (refSchema ''WxappResponse'')))])))]"

definition path_wxapp_getHostSign :: gmap where
  "path_wxapp_getHostSign =
     [(''post'', GMap (openAPIOperation [''wxapp''] ''get the HostSign of verifyplugin'' []
           (Some (jsonRequestBody (refSchema ''HostSignRequest'')))
           (defaulted [(''200'', GMap (jsonResponse ''result of getHostSign'' (refSchema ''WxappResponse'')))])))]"

definition path_scripts :: gmap where
  "path_scripts =
     [(''get'', GMap (openAPIOperation [''scripts''] ''list of scripts and their state'' [] None
          (defaulted [(''200'', GMap (jsonResponse ''scripts and the runner'' (refSchema ''ScriptListResponse'')))]))),
       (''post'', GMap (openAPIOperation [''scripts''] ''upload a .py script (multipart/form-data field file)'' [boolQueryParam ''overwrite'' ''whether to replace a script of the same name'']
            (Some [(''required'', GBool True),
          (''content'', GMap [(''multipart/form-data'', GMap [(''schema'', GMap (refSchema ''ScriptUploadRequest''))])])]) (defaulted [(''200'', GMap (jsonResponse ''result of the upload'' (refSchema ''ScriptUploadResponse'')))])))]"

definition path_scripts_run :: gmap where
  "path_scripts_run =
     [(''post'', GMap (openAPIOperation [''scripts''] ''run a script now'' [pathStringParam ''name'' ''name of the script file, such as demo.py'']
           (Some (jsonRequestBody (refSchema ''ScriptRunRequest'')))
           (defaulted [(''200'', GMap (jsonResponse ''state of the script'' (refSchema ''ScriptInfo'')))])))]"

definition path_scripts_stop :: gmap where
  "path_scripts_stop =
     [(''post'', GMap (openAPIOperation [''scripts''] ''stop a running script'' [pathStringParam ''name'' ''name of the script file''] None
           (defaulted [(''200'', GMap (jsonResponse ''what was stopped'' (refSchema ''ScriptStopResponse'')))])))]"

definition path_scripts_logs :: gmap where
  "path_scripts_logs =
     [(''get'', GMap (openAPIOperation [''scripts''] ''read the log of a script'' [pathStringParam ''name'' ''name of the script file''] None
           (defaulted [(''200'', GMap (jsonResponse ''log and state'' (refSchema ''ScriptLogsResponse'')))])))]"

definition path_scripts_schedule :: gmap where
  "path_scripts_schedule =
     [(''put'', GMap (openAPIOperation [''scripts''] ''set a cron schedule (minute hour day month weekday)'' [pathStringParam ''name'' ''name of the script file'']
           (Some (jsonRequestBody (refSchema ''ScriptScheduleRequest'')))
           (defaulted [(''200'', GMap (jsonResponse ''state of the script with its schedule'' (refSchema ''ScriptInfo'')))]))),
       (''delete'', GMap (openAPIOperation [''scripts''] ''remove the schedule'' [pathStringParam ''name'' ''name of the script file''] None
            (defaulted [(''200'', GMap (jsonResponse ''what was removed'' (refSchema ''ScriptStopResponse'')))])))]"

definition path_scripts_one :: gmap where
  "path_scripts_one =
     [(''delete'', GMap (openAPIOperation [''scripts''] ''delete a script'' [pathStringParam ''name'' ''name of the script file''] None
           (defaulted [(''200'', GMap (jsonResponse ''what was deleted'' (refSchema ''ScriptStopResponse'')))])))]"

section \<open>Named schemas\<close>

definition schema_APIResponse :: gmap where
  "schema_APIResponse = objectSchema [''code'', ''msg'', ''data'']
        [(''code'', GMap [(''type'', GStr ''integer''),
          (''example'', GInt KInt 0),
          (''description'', GStr ''code of the outcome, 0 for success'')]),
         (''msg'', GMap [(''type'', GStr ''string''),
          (''example'', GStr ''success''),
          (''description'', GStr ''message, fit to be shown'')]),
         (''data'', GMap (nullableObjectSchema ''the data: an object, an array or null''))]"

definition schema_APIErrorResponse :: gmap where
  "schema_APIErrorResponse = objectSchema [''code'', ''msg'', ''data'']
        [(''code'', GMap [(''type'', GStr ''integer''),
          (''example'', GInt KInt 400),
          (''description'', GStr ''code of the error, not 0'')]),
         (''msg'', GMap [(''type'', GStr ''string''), (''example'', GStr ''ref is required'')]),
         (''data'', GMap (nullableObjectSchema ''null for errors''))]"

definition schema_HealthResponse :: gmap where
  "schema_HealthResponse = objectSchema [''ok''] [(''ok'', GMap [(''type'', GStr ''boolean'')])]"

definition schema_ReadyResponse :: gmap where
  "schema_ReadyResponse = objectSchema [''ready''] [(''ready'', GMap [(''type'', GStr ''boolean'')])]"

definition schema_QRCreateResponse :: gmap where
  "schema_QRCreateResponse = objectSchema [''session_id'', ''status'', ''image_url'']
        [(''session_id'', GMap [(''type'', GStr ''string'')]),
         (''status'', GMap [(''type'', GStr ''string''), (''example'', GStr ''pending'')]),
         (''image_url'', GMap [(''type'', GStr ''string''), (''example'', GStr ''/qr/{session_id}/image'')]),
         (''image_base64'', GMap (nullableStringSchema ''picture as a data URI when as_base64=true''))]"

definition schema_QRPollResponse :: gmap where
  "schema_QRPollResponse = objectSchema [''status''] [(''status'', GMap [(''type'', GStr ''string''),
          (''enum'', GArr (map GStr [''pending'', ''scanned'', ''authorized'', ''confirmed'', ''expired'', ''cancelled'', ''unknown'']))]),
         (''errcode'', GMap [(''type'', GStr ''integer''), (''nullable'', GBool True)])]"

definition schema_AccountPublic :: gmap where
  "schema_AccountPublic = objectSchema [''id'', ''openid'', ''created_at'', ''updated_at'']
        [(''id'', GMap (int64Schema)),
         (''openid'', GMap [(''type'', GStr ''string'')]),
         (''uin'', GMap (nullableInt64Schema)),
         (''alias'', GMap (nullableStringSchema ''alias of the account'')),
         (''nickname'', GMap (nullableStringSchema ''nickname of the account'')),
         (''avatar'', GMap (nullableStringSchema ''local path or remote URL of the picture'')),
         (''status'', GMap (nullableStringSchema ''state of the account'')),
         (''last_checked_at'', GMap (nullableInt64Schema)),
         (''created_at'', GMap (int64Schema)),
         (''updated_at'', GMap (int64Schema))]"

definition schema_RefreshResult :: gmap where
  "schema_RefreshResult = objectSchema [''id'', ''openid'', ''status''] [(''id'', GMap (int64Schema)),
         (''openid'', GMap [(''type'', GStr ''string'')]),
         (''uin'', GMap (nullableInt64Schema)),
         (''nickname'', GMap (nullableStringSchema ''nickname of the account'')),
         (''status'', GMap [(''type'', GStr ''string''), (''example'', GStr ''alive'')])]"

definition schema_DeleteAccountResponse :: gmap where
  "schema_DeleteAccountResponse = objectSchema [''deleted'', ''openid'']
        [(''deleted'', GMap (int64Schema)), (''openid'', GMap [(''type'', GStr ''string'')])]"

definition schema_AccountRefRequest :: gmap where
  "schema_AccountRefRequest = objectSchema [] [(''ref'', GMap [(''type'', GStr ''string''),
          (''description'', GStr ''id, UIN or openid of the account; all accounts when it is not given'')])]"

definition schema_RefreshResponse :: gmap where
  "schema_RefreshResponse = oneOfSchema [refSchema ''RefreshResult'', arraySchema (refSchema ''RefreshResult'')]"

definition schema_ResyncResponse :: gmap where
  "schema_ResyncResponse = oneOfSchema [refSchema ''AccountPublic'', arraySchema (refSchema ''AccountPublic'')]"

definition schema_WxappRequest :: gmap where
  "schema_WxappRequest = objectSchema [''ref'', ''app_id'']
        [(''ref'', GMap [(''type'', GStr ''string''), (''description'', GStr ''id, UIN or openid of the account'')]),
         (''app_id'', GMap [(''type'', GStr ''string'')])]"

definition schema_OperateWXDataRequest :: gmap where
  "schema_OperateWXDataRequest = objectSchema [''ref'', ''app_id'', ''payload'']
        [(''ref'', GMap [(''type'', GStr ''string''), (''description'', GStr ''id, UIN or openid of the account'')]),
         (''app_id'', GMap [(''type'', GStr ''string'')]),
         (''payload'', GMap (freeFormObjectSchema ''the whole operateWxData request as JSON''))]"

definition schema_HostSignRequest :: gmap where
  "schema_HostSignRequest = objectSchema [''ref'', ''app_id'', ''payload'']
        [(''ref'', GMap [(''type'', GStr ''string''), (''description'', GStr ''id, UIN or openid of the account'')]),
         (''app_id'', GMap [(''type'', GStr ''string''), (''description'', GStr ''AppID of the host program'')]),
         (''payload'', GMap (freeFormObjectSchema ''provider and inner_version, an array of plugins, or data as JSON''))]"

definition schema_CallFeatureRequest :: gmap where
  "schema_CallFeatureRequest = objectSchema [''feature'', ''app_id'']
        [(''feature'', GMap (oneOfSchema [[(''type'', GStr ''integer''), (''example'', GInt KInt 1004)], [(''type'', GStr ''string''), (''example'', GStr ''getHostSign'')]])),
         (''app_id'', GMap [(''type'', GStr ''string''), (''description'', GStr ''AppID of the mini program'')]),
         (''payload'', GMap (freeFormObjectSchema ''parameters; needed for operateWxData and getHostSign''))]"

definition schema_FeatureDefinition :: gmap where
  "schema_FeatureDefinition = objectSchema [''code'', ''name'', ''description'', ''enabled'']
        [(''code'', GMap [(''type'', GStr ''integer''), (''example'', GInt KInt 1004)]),
         (''name'', GMap [(''type'', GStr ''string''), (''example'', GStr ''getHostSign'')]),
         (''description'', GMap [(''type'', GStr ''string''), (''example'', GStr ''verifyplugin HostSign'')]),
         (''enabled'', GMap [(''type'', GStr ''boolean'')])]"

definition schema_ActivitySignRequest :: gmap where
  "schema_ActivitySignRequest = objectSchema [''sign_key'']
        [(''sign_key'', GMap [(''type'', GStr ''string''), (''description'', GStr ''signKey of the activity'')]),
         (''token'', GMap [(''type'', GStr ''string''), (''description'', GStr ''dt-user-token, used for a new nonce'')]),
         (''sign_timestamp'', GMap [(''type'', GStr ''string''),
          (''description'', GStr ''fixed time stamp in milliseconds; with sign_nonce it recomputes a sample'')]),
         (''sign_nonce'', GMap [(''type'', GStr ''string''), (''description'', GStr ''fixed nonce, together with sign_timestamp'')])]"

definition schema_ActivitySignResponse :: gmap where
  "schema_ActivitySignResponse = objectSchema [''signTimestamp'', ''signNonce'', ''sign'']
        [(''signTimestamp'', GMap [(''type'', GStr ''string'')]),
         (''signNonce'', GMap [(''type'', GStr ''string'')]),
         (''sign'', GMap [(''type'', GStr ''string'')])]"

definition schema_CallFeatureResponse :: gmap where
  "schema_CallFeatureResponse = objectSchema [''feature'', ''openid'', ''result'']
        [(''feature'', GMap [(''type'', GStr ''string'')]),
         (''openid'', GMap [(''type'', GStr ''string'')]),
         (''result'', GMap (freeFormObjectSchema ''result of the call''))]"

definition schema_WxappResponse :: gmap where
  "schema_WxappResponse = objectSchema [''openid'', ''result'']
        [(''openid'', GMap [(''type'', GStr ''string'')]),
         (''result'', GMap (freeFormObjectSchema ''result of the wxapp interface''))]"

definition schema_ScriptInfo :: gmap where
  "schema_ScriptInfo = objectSchema [''name'', ''size'', ''updated_at'']
        [(''name'', GMap [(''type'', GStr ''string''), (''example'', GStr ''demo.py'')]),
         (''size'', GMap (int64Schema)),
         (''updated_at'', GMap (int64Schema)),
         (''running'', GMap [(''type'', GStr ''boolean'')]),
         (''started_at'', GMap (nullableInt64Schema)),
         (''finished_at'', GMap (nullableInt64Schema)),
         (''exit_code'', GMap [(''type'', GStr ''integer''), (''nullable'', GBool True)]),
         (''last_error'', GMap (nullableStringSchema ''error of the last run'')),
         (''schedule'', GMap (nullableStringSchema ''cron expression'')),
         (''next_run_at'', GMap (nullableInt64Schema))]"

definition schema_ScriptListResponse :: gmap where
  "schema_ScriptListResponse = objectSchema [''scripts'']
        [(''scripts'', GMap (arraySchema (refSchema ''ScriptInfo''))),
         (''dir'', GMap [(''type'', GStr ''string''), (''description'', GStr ''directory of the scripts'')]),
         (''sdk_dir'', GMap [(''type'', GStr ''string''), (''description'', GStr ''directory of the SDK, put into PYTHONPATH'')]),
         (''server_url'', GMap [(''type'', GStr ''string''), (''description'', GStr ''YYB_SERVER of the scripts'')]),
         (''python'', GMap [(''type'', GStr ''string''), (''nullable'', GBool True)]),
         (''python_ok'', GMap [(''type'', GStr ''boolean'')])]"

definition schema_ScriptUploadRequest :: gmap where
  "schema_ScriptUploadRequest = objectSchema [''file'']
        [(''file'', GMap [(''type'', GStr ''string''), (''format'', GStr ''binary''), (''description'', GStr ''a *.py script'')])]"

definition schema_ScriptUploadResponse :: gmap where
  "schema_ScriptUploadResponse = objectSchema [''name'', ''size'']
        [(''name'', GMap [(''type'', GStr ''string'')]), (''size'', GMap [(''type'', GStr ''integer'')])]"

definition schema_ScriptScheduleRequest :: gmap where
  "schema_ScriptScheduleRequest = objectSchema [''cron''] [(''cron'', GMap [(''type'', GStr ''string''),
          (''example'', GStr ''32 16 * * *''),
          (''description'', GStr ''cron with 5 fields: minute hour day month weekday'')])]"

definition schema_ScriptRunRequest :: gmap where
  "schema_ScriptRunRequest = objectSchema [] [(''args'', GMap [(''type'', GStr ''string''),
          (''description'', GStr ''arguments of the script as in a shell, also in YYB_SCRIPT_ARGS'')])]"

definition schema_ScriptLogsResponse :: gmap where
  "schema_ScriptLogsResponse = objectSchema [''name'', ''content'', ''running'']
        [(''name'', GMap [(''type'', GStr ''string'')]),
         (''content'', GMap [(''type'', GStr ''string''), (''description'', GStr ''at most 256 KiB of the log'')]),
         (''running'', GMap [(''type'', GStr ''boolean'')]),
         (''started_at'', GMap (nullableInt64Schema)),
         (''finished_at'', GMap (nullableInt64Schema)),
         (''exit_code'', GMap [(''type'', GStr ''integer''), (''nullable'', GBool True)]),
         (''last_error'', GMap (nullableStringSchema ''error of the last run''))]"

definition schema_ScriptStopResponse :: gmap where
  "schema_ScriptStopResponse = objectSchema []
        [(''stopped'', GMap [(''type'', GStr ''string''), (''nullable'', GBool True)]),
         (''deleted'', GMap [(''type'', GStr ''string''), (''nullable'', GBool True)]),
         (''unscheduled'', GMap [(''type'', GStr ''string''), (''nullable'', GBool True)])]"

section \<open>The description\<close>

definition doc_head :: gmap where
  "doc_head =
     [(''openapi'', GStr ''3.0.3''),
      (''info'', GMap [(''title'', GStr ''YYB Go interface description''),
       (''description'', GStr ''API for WeChat QR logins, accounts and calls of the wxapp interface.''),
       (''version'', GStr ''1.0.0'')]),
      (''servers'', GMaps [[(''url'', GStr ''/'')]]),
      (''tags'', GMaps
        [[(''name'', GStr ''health''), (''description'', GStr ''health of the service'')],
         [(''name'', GStr ''qr''), (''description'', GStr ''WeChat QR login'')],
         [(''name'', GStr ''accounts''), (''description'', GStr ''stored WeChat accounts'')],
         [(''name'', GStr ''wxapp''), (''description'', GStr ''calls of the wxapp interface'')],
         [(''name'', GStr ''calls''), (''description'', GStr ''calls of mini programs by account and feature'')],
         [(''name'', GStr ''activity''), (''description'', GStr ''signatures of activity requests'')],
         [(''name'', GStr ''scripts''), (''description'', GStr ''user scripts in Python, run and scheduled'')]])]"

definition doc_paths :: gmap where
  "doc_paths =
     [(''/health'', GMap path_health),
      (''/ready'', GMap path_ready),
      (''/qr'', GMap path_qr),
      (''/qr/{session_id}/image'', GMap path_qr_image),
      (''/qr/{session_id}/poll'', GMap path_qr_poll),
      (''/qr/{session_id}/confirm'', GMap path_qr_confirm),
      (''/accounts'', GMap path_accounts),
      (''/accounts/refresh'', GMap path_accounts_refresh),
      (''/accounts/resync'', GMap path_accounts_resync),
      (''/accounts/avatar'', GMap path_accounts_avatar),
      (''/features'', GMap path_features),
      (''/activity/sign'', GMap path_activity_sign),
      (''/accounts/{ref}/call'', GMap path_accounts_call),
      (''/wxapp/getCode'', GMap path_wxapp_getCode),
      (''/wxapp/getPhoneNumber'', GMap path_wxapp_getPhoneNumber),
      (''/wxapp/operateWxData'', GMap path_wxapp_operateWxData),
      (''/wxapp/getHostSign'', GMap path_wxapp_getHostSign),
      (''/scripts'', GMap path_scripts),
      (''/scripts/{name}/run'', GMap path_scripts_run),
      (''/scripts/{name}/stop'', GMap path_scripts_stop),
      (''/scripts/{name}/logs'', GMap path_scripts_logs),
      (''/scripts/{name}/schedule'', GMap path_scripts_schedule),
      (''/scripts/{name}'', GMap path_scripts_one)]"

definition doc_schemas :: gmap where
  "doc_schemas =
     [(''APIResponse'', GMap schema_APIResponse),
      (''APIErrorResponse'', GMap schema_APIErrorResponse),
      (''HealthResponse'', GMap schema_HealthResponse),
      (''ReadyResponse'', GMap schema_ReadyResponse),
      (''QRCreateResponse'', GMap schema_QRCreateResponse),
      (''QRPollResponse'', GMap schema_QRPollResponse),
      (''AccountPublic'', GMap schema_AccountPublic),
      (''RefreshResult'', GMap schema_RefreshResult),
      (''DeleteAccountResponse'', GMap schema_DeleteAccountResponse),
      (''AccountRefRequest'', GMap schema_AccountRefRequest),
      (''RefreshResponse'', GMap schema_RefreshResponse),
      (''ResyncResponse'', GMap schema_ResyncResponse),
      (''WxappRequest'', GMap schema_WxappRequest),
      (''OperateWXDataRequest'', GMap schema_OperateWXDataRequest),
      (''HostSignRequest'', GMap schema_HostSignRequest),
      (''CallFeatureRequest'', GMap schema_CallFeatureRequest),
      (''FeatureDefinition'', GMap schema_FeatureDefinition),
      (''ActivitySignRequest'', GMap schema_ActivitySignRequest),
      (''ActivitySignResponse'', GMap schema_ActivitySignResponse),
      (''CallFeatureResponse'', GMap schema_CallFeatureResponse),
      (''WxappResponse'', GMap schema_WxappResponse),
      (''ScriptInfo'', GMap schema_ScriptInfo),
      (''ScriptListResponse'', GMap schema_ScriptListResponse),
      (''ScriptUploadRequest'', GMap schema_ScriptUploadRequest),
      (''ScriptUploadResponse'', GMap schema_ScriptUploadResponse),
      (''ScriptScheduleRequest'', GMap schema_ScriptScheduleRequest),
      (''ScriptRunRequest'', GMap schema_ScriptRunRequest),
      (''ScriptLogsResponse'', GMap schema_ScriptLogsResponse),
      (''ScriptStopResponse'', GMap schema_ScriptStopResponse)]"

definition newOpenAPISpec :: gmap where
  "newOpenAPISpec = doc_head @ [(''paths'', GMap doc_paths), (''components'', GMap [(''schemas'', GMap doc_schemas)])]"

end
