(* ===== verification/App_Handlers.thy ===== *)
theory App_Handlers
  imports Keepalive Activity_Sign Openapi
begin

text \<open>
  Model of the handlers of \<open>internal/httpapi/app.go\<close> and \<open>internal/httpapi/calls.go\<close>: QR
  logins, accounts, and the calls to mini programs. A handler takes the surroundings of one
  request and gives an answer; when it panics, gin answers for it.
\<close>

section \<open>The surroundings of a request\<close>

text \<open>
  Readings of the clock in nanoseconds, the text of an error of \<open>encoding/json\<close>, the error
  of the n-th statement, the network, random draws, and what the parts below meet.
\<close>

record app_env =
  ev_clock :: "nat \<Rightarrow> int"
  ev_json :: string
  ev_db :: "nat \<Rightarrow> go_error option"
  ev_web :: web
  ev_http :: http_client
  ev_raw :: "bytes go"
  ev_draw :: "nat \<Rightarrow> string \<times> string"
  ev_request_id :: string
  ev_fetch :: "nat \<Rightarrow> fetcher"
  ev_write :: "nat \<Rightarrow> written"
  ev_pool :: "nat \<Rightarrow> pool_env"
  ev_refresh :: "nat \<Rightarrow> refresh_env"
  ev_present :: "string \<Rightarrow> bool"
  ev_docs :: answer \<comment> \<open>of the Swagger handler\<close>

type_synonym handler = "app_env \<Rightarrow> request \<Rightarrow> (app, answer) act"

definition reply :: "gval \<Rightarrow> (app, answer) act" where
  "reply v = act_ret (writeJSON 200 v)"

definition refuse :: "int \<Rightarrow> string \<Rightarrow> (app, answer) act" where
  "refuse status msg = act_ret (writeError status msg)"

definition fail_with :: "app_env \<Rightarrow> int \<Rightarrow> go_error \<Rightarrow> (app, answer) act" where
  "fail_with env status e = refuse status (err_text (ev_json env) e)"

text \<open>The first two checks of many handlers: the path and the method.\<close>

definition only :: "string \<Rightarrow> string \<Rightarrow> request \<Rightarrow> (app, answer) act \<Rightarrow> (app, answer) act" where
  "only path method r k =
     (if rq_Path r \<noteq> path then refuse 404 ''not found''
      else if rq_Method r \<noteq> method then act_ret method_err else k)"

definition decoded ::
  "app_env \<Rightarrow> request \<Rightarrow> (string \<times> field_kind) list \<Rightarrow> (gmap \<Rightarrow> (app, answer) act) \<Rightarrow> (app, answer) act" where
  "decoded env r fs k =
     act_catch (act_lift (decodeOptionalJSON r fs)) (\<lambda>_. refuse 400 (''invalid JSON: '' @ ev_json env)) k"

definition opt_str :: "string option \<Rightarrow> gval" where
  "opt_str s = (case s of None \<Rightarrow> GNil | Some s \<Rightarrow> GStr s)"

definition opt_int :: "int option \<Rightarrow> gval" where
  "opt_int n = (case n of None \<Rightarrow> GNil | Some n \<Rightarrow> GInt KInt64 n)"

definition public_json :: "account_public \<Rightarrow> gval" where
  "public_json p = GMap
     [(''id'', GInt KInt64 (ap_ID p)), (''openid'', GStr (ap_OpenID p)), (''uin'', opt_int (ap_UIN p)),
      (''alias'', opt_str (ap_Alias p)), (''nickname'', opt_str (ap_Nickname p)), (''avatar'', opt_str (ap_Avatar p)),
      (''status'', opt_str (ap_Status p)), (''last_checked_at'', opt_int (ap_LastCheckedAt p)),
      (''created_at'', GInt KInt64 (ap_CreatedAt p)), (''updated_at'', GInt KInt64 (ap_UpdatedAt p))]"

section \<open>Pages\<close>

definition handleReady :: "answer" where
  "handleReady = writeJSON 200 (GMap [(''ready'', GBool True)])"

definition handleIndex :: handler where
  "handleIndex env r =
     only ''/'' ''GET'' r (act_bind (act_get (\<lambda>a. res_Templates (app_res a))) (\<lambda>t.
       act_ret (serveFileOrText (ev_present env) (path_Join [t, ''index.html'']) ''index'')))"

definition handleScan :: handler where
  "handleScan env r =
     (if rq_Method r \<noteq> ''GET'' then act_ret method_err
      else act_bind (act_get (\<lambda>a. res_Templates (app_res a))) (\<lambda>t.
        act_ret (serveFileOrText (ev_present env) (path_Join [t, ''scan.html'']) ''scan'')))"

definition handleApps :: handler where
  "handleApps env r =
     (if rq_Method r \<noteq> ''GET'' then act_ret method_err
      else act_bind (act_get (\<lambda>a. res_Templates (app_res a))) (\<lambda>t.
        act_ret (serveFileOrText (ev_present env) (path_Join [t, ''apps.html'']) ''apps'')))"

definition handleDocs :: handler where
  "handleDocs env r =
     (if rq_Method r \<noteq> ''GET'' then act_ret method_err
      else if rq_Path r = ''/docs/'' then act_ret (http_Redirect ''/docs/index.html'' 301)
      else act_ret (ev_docs env))"

definition handleOpenAPI :: handler where
  "handleOpenAPI env r =
     (if rq_Method r \<noteq> ''GET'' then act_ret method_err else act_ret (writeRawJSON 200 (GMap newOpenAPISpec)))"

section \<open>Logins by QR code\<close>

definition terminalQR :: "string \<Rightarrow> bool" where
  "terminalQR status \<longleftrightarrow> status = ''expired'' \<or> status = ''cancelled'' \<or> status = ''unknown''"

definition getQRSession :: "string \<Rightarrow> app \<Rightarrow> Session option" where
  "getQRSession i a = map_of (app_qr a) i"

definition remove_file :: "string \<Rightarrow> app \<Rightarrow> app" where
  "remove_file path a = a\<lparr>app_files := AList.delete path (app_files a)\<rparr>"

definition dropQRSession :: "string \<Rightarrow> app \<Rightarrow> app" where
  "dropQRSession i a = remove_file (qrPath (app_res a) i) (a\<lparr>app_qr := AList.delete i (app_qr a)\<rparr>)"

definition pruneQR :: "int \<Rightarrow> app \<Rightarrow> app" where
  "pruneQR now a =
     (let old = map fst (filter (\<lambda>(i, s). Age now s > ac_QRSessionTTL (app_cfg a)) (app_qr a)) in
      fold (\<lambda>i a. remove_file (qrPath (app_res a) i) a) old
        (a\<lparr>app_qr := filter (\<lambda>(i, s). i \<notin> set old) (app_qr a)\<rparr>))"

text \<open>The pictures are the files of the directory whose names end in \<open>.jpg\<close>.\<close>

definition qr_picture :: "resources \<Rightarrow> string \<Rightarrow> bool" where
  "qr_picture res f \<longleftrightarrow> prefix (res_QR res @ ''/'') f \<and> suffix ''.jpg'' f
     \<and> CHR ''/'' \<notin> set (drop (length (res_QR res) + 1) f)"

definition cleanupQR :: "string list \<Rightarrow> app \<Rightarrow> app" where
  "cleanupQR keep a =
     a\<lparr>app_files := filter (\<lambda>(f, _). \<not> (qr_picture (app_res a) f \<and> trimSuffix ''.jpg'' (path_Base f) \<notin> set keep)) (app_files a)\<rparr>"

definition write_picture :: "written \<Rightarrow> string \<Rightarrow> bytes \<Rightarrow> app \<Rightarrow> app" where
  "write_picture w path data a = a\<lparr>app_files := snd (write_file w path data (app_files a))\<rparr>"

definition handleQRRoot :: handler where
  "handleQRRoot env r =
     (if rq_Path r \<noteq> ''/qr'' then refuse 404 ''qr session not found''
      else if rq_Method r \<noteq> ''POST'' then act_ret method_err
      else
        act_bind (act_mod (pruneQR (ev_clock env 0))) (\<lambda>_.
        act_catch (act_lift (GetQRCodeImage (ev_web env) (ev_raw env) (ev_clock env 1))) (fail_with env 502) (\<lambda>(s, data).
        act_bind (act_mod (\<lambda>a. a\<lparr>app_qr := AList.update (q_ID s) s (app_qr a)\<rparr>)) (\<lambda>_.
        act_bind (act_get (\<lambda>a. map fst (app_qr a))) (\<lambda>keep.
        act_bind (act_mod (\<lambda>a. cleanupQR keep (write_picture (ev_write env 0) (qrPath (app_res a) (q_ID s)) data a))) (\<lambda>_.
        reply (GMap [(''session_id'', GStr (q_ID s)), (''status'', GStr (q_Status s)),
          (''image_url'', GStr (''/qr/'' @ q_ID s @ ''/image'')),
          (''image_base64'', if rq_Query r ''as_base64'' = ''true'' then GStr (DataURIJPEG data) else GNil)])))))))"

definition poll_json :: "PollResult \<Rightarrow> gval" where
  "poll_json p = GMap ([(''status'', GStr (pr_Status p))]
     @ (case pr_ErrCode p of None \<Rightarrow> [] | Some n \<Rightarrow> [(''errcode'', GInt KInt n)]))"

text \<open>A session is shared by all requests that name it: an action on it changes it in place.\<close>

definition on_session :: "string \<Rightarrow> Session \<Rightarrow> (Session, 'a) act \<Rightarrow> (app, 'a) act" where
  "on_session i s m a =
     (case m s of (g, s') \<Rightarrow> (g, if map_of (app_qr a) i = None then a else a\<lparr>app_qr := AList.update i s' (app_qr a)\<rparr>))"

definition storeFromScan :: "app_env \<Rightarrow> string \<Rightarrow> credentials \<Rightarrow> gmap option \<Rightarrow> (app, account) act" where
  "storeFromScan env loginBuffer creds userInfo =
     (let openid = c_OpenID creds; nick = pickNickname userInfo (c_Nickname creds) in
      act_bind (\<lambda>a. case resolveAvatar (ev_fetch env 0) (ev_write env 0) openid userInfo a of (v, a) \<Rightarrow> (Ok v, a)) (\<lambda>avatar.
      act_bind (\<lambda>a. case ev_db env 0 of
          Some e \<Rightarrow> (Err e, a)
        | None \<Rightarrow>
            (case UpsertAccount (secs (ev_clock env 3)) openid loginBuffer (stringPtrMaybe nick) (stringPtrMaybe nick)
               (stringPtrMaybe avatar) userInfo (Some (ToMap (secs (ev_clock env 2)) creds)) (Some ''alive'') (app_db a) of
               (g, d) \<Rightarrow> (g, set_db d a))) (\<lambda>acc.
      db_read (ev_db env 1) (\<lambda>_. Ok acc))))"

definition handleQR :: handler where
  "handleQR env r =
     (case split_on (CHR ''/'') (trimPrefix ''/qr/'' (rq_Path r)) of
        [sessionID, action] \<Rightarrow>
          if action = ''image'' then
            (if rq_Method r \<noteq> ''GET'' then act_ret method_err
             else act_bind (act_get (\<lambda>a. (qrPath (app_res a) sessionID, app_files a))) (\<lambda>(path, fs).
               if map_of fs path = None then refuse 404 ''qr session not found''
               else act_ret (plain_answer 200 (File path))))
          else if action = ''poll'' then
            (if rq_Method r \<noteq> ''GET'' then act_ret method_err
             else act_bind (act_get (getQRSession sessionID)) (\<lambda>o'.
               case o' of
                 None \<Rightarrow> refuse 404 ''qr session not found''
               | Some s \<Rightarrow>
                   act_catch (on_session sessionID s (PollQRCode (ev_web env) (ev_clock env 0 div 10 ^ 6)))
                     (fail_with env 502) (\<lambda>result.
                   act_bind (act_mod (\<lambda>a. if terminalQR (pr_Status result) then dropQRSession sessionID a else a)) (\<lambda>_.
                   reply (poll_json result)))))
          else if action = ''confirm'' then
            (if rq_Method r \<noteq> ''POST'' then act_ret method_err
             else act_bind (act_get (getQRSession sessionID)) (\<lambda>o'.
               case o' of
                 None \<Rightarrow> refuse 404 ''qr session not found''
               | Some s \<Rightarrow>
                   act_catch (on_session sessionID s
                       (GetLoginBuffer (ev_web env) (ev_http env) (ev_draw env 0) (secs (ev_clock env 0))))
                     (\<lambda>e. refuse 409 (''buffer not ready: '' @ err_text (ev_json env) e)) (\<lambda>(lb, creds).
                   act_bind (\<lambda>a. case FetchUserInfo (ev_http env) (fst (ev_draw env 1)) (snd (ev_draw env 1)) (ev_request_id env) creds of
                       Ok ui \<Rightarrow> (Ok ui, a) | Err e \<Rightarrow> (Ok None, a) | Panic \<Rightarrow> (Panic, a)) (\<lambda>userInfo.
                   act_catch (storeFromScan env lb creds userInfo) (fail_with env 500) (\<lambda>acc.
                   act_bind (act_mod (dropQRSession sessionID)) (\<lambda>_.
                   reply (public_json (Public acc))))))))
          else refuse 404 ''qr session not found''
      | _ \<Rightarrow> refuse 404 ''qr session not found'')"

section \<open>Accounts\<close>

definition resolveAccountRef :: "app_env \<Rightarrow> string \<Rightarrow> (account \<Rightarrow> (app, answer) act) \<Rightarrow> (app, answer) act" where
  "resolveAccountRef env ref k =
     (let ref = trimSpace ref in
      if ref = [] then refuse 400 ''ref is required''
      else act_catch (db_read (ev_db env 0) (ResolveAccount ref))
        (\<lambda>e. if e = ErrNoRows then refuse 404 (''account not found: '' @ ref) else fail_with env 500 e) k)"

definition resolveAccountFromQuery :: "app_env \<Rightarrow> request \<Rightarrow> (account \<Rightarrow> (app, answer) act) \<Rightarrow> (app, answer) act" where
  "resolveAccountFromQuery env r k =
     (let ref = trimSpace (rq_Query r ''ref'') in
      if ref = [] then refuse 400 ''ref query param is required'' else resolveAccountRef env ref k)"

definition handleAccountsRoot :: handler where
  "handleAccountsRoot env r =
     (if rq_Path r \<noteq> ''/accounts'' then refuse 404 ''not found''
      else if rq_Method r = ''GET'' then
        act_catch (db_read (ev_db env 0) (\<lambda>d. Ok (ListAccounts d))) (fail_with env 500) (\<lambda>accs.
        reply (GArr (map (public_json \<circ> Public) accs)))
      else if rq_Method r = ''DELETE'' then
        resolveAccountFromQuery env r (\<lambda>acc.
        act_catch (db_write (ev_db env 1) (DeleteAccount (a_ID acc))) (fail_with env 500) (\<lambda>_.
        reply (GMap [(''deleted'', GInt KInt64 (a_ID acc)), (''openid'', GStr (a_OpenID acc))])))
      else act_ret method_err)"

definition localAvatarCandidates :: "resources \<Rightarrow> string \<Rightarrow> string list" where
  "localAvatarCandidates res storedPath =
     (let p = trimSpace storedPath in
      if p = [] then []
      else
        let base = path_Base (map (\<lambda>c. if c = CHR 0x5C then CHR ''/'' else c) p) in
        if base = ''.'' \<or> base = ''/'' \<or> base = [] then [] else [path_Join [res_Avatars res, base]])"

definition serveAvatar :: "account \<Rightarrow> (app, answer) act" where
  "serveAvatar acc =
     act_bind (act_get (\<lambda>a. (app_res a, app_files a))) (\<lambda>(res, fs).
     case a_Avatar acc of
       None \<Rightarrow> refuse 404 ''no avatar''
     | Some v \<Rightarrow>
         (let avatar = trimSpace v in
          if v = [] then refuse 404 ''no avatar''
          else if prefix ''http://'' avatar \<or> prefix ''https://'' avatar then act_ret (http_Redirect avatar 302)
          else case filter (\<lambda>c. map_of fs c \<noteq> None) (localAvatarCandidates res avatar) of
            c # _ \<Rightarrow> act_ret (plain_answer 200 (File c))
          | [] \<Rightarrow> refuse 404 ''no avatar''))"

definition handleAccountAvatar :: handler where
  "handleAccountAvatar env r = only ''/accounts/avatar'' ''GET'' r (resolveAccountFromQuery env r serveAvatar)"

definition ref_fields :: "(string \<times> field_kind) list" where
  "ref_fields = [(''ref'', String_field)]"

definition refreshOut :: "account \<Rightarrow> string \<Rightarrow> gval" where
  "refreshOut acc status = GMap [(''id'', GInt KInt64 (a_ID acc)), (''openid'', GStr (a_OpenID acc)),
     (''uin'', opt_int (a_UIN acc)), (''nickname'', opt_str (a_Nickname acc)), (''status'', GStr status)]"

fun refresh_all :: "app_env \<Rightarrow> nat \<Rightarrow> account list \<Rightarrow> (app, gval list) act" where
  "refresh_all env n [] = act_ret []"
| "refresh_all env n (acc # accs) =
     act_bind (refreshLiveness (ev_refresh env n) acc) (\<lambda>status.
     act_bind (refresh_all env (Suc n) accs) (\<lambda>out. act_ret (refreshOut acc status # out)))"

definition refreshAll :: "app_env \<Rightarrow> (app, answer) act" where
  "refreshAll env =
     act_catch (db_read (ev_db env 0) (\<lambda>d. Ok (ListAccounts d))) (fail_with env 500) (\<lambda>accs.
     act_bind (refresh_all env 0 accs) (\<lambda>out. reply (GArr out)))"

definition handleAccountRefresh :: handler where
  "handleAccountRefresh env r =
     only ''/accounts/refresh'' ''POST'' r (decoded env r ref_fields (\<lambda>b.
     if str_field b ''ref'' = [] then refreshAll env
     else resolveAccountRef env (str_field b ''ref'') (\<lambda>acc.
       act_bind (refreshLiveness (ev_refresh env 0) acc) (\<lambda>status. reply (refreshOut acc status)))))"

text \<open>\<open>n\<close> counts the accounts that one request goes through.\<close>

definition resyncProfile :: "app_env \<Rightarrow> nat \<Rightarrow> account \<Rightarrow> (app, account) act" where
  "resyncProfile env n acc =
     (let nick = pickNickname (a_UserInfo acc) (deref (a_Nickname acc)) in
      act_bind (\<lambda>a. case resolveAvatar (ev_fetch env n) (ev_write env n) (a_OpenID acc) (a_UserInfo acc) a of (v, a) \<Rightarrow> (Ok v, a)) (\<lambda>v.
      let avatar = (if v = [] then deref (a_Avatar acc) else v) in
      act_bind (db_write (ev_db env (2 * n + 1)) (SetAccountProfile (secs (ev_clock env n)) (a_ID acc)
        (stringPtrMaybe nick) (stringPtrMaybe avatar) (a_UserInfo acc))) (\<lambda>_.
      db_read (ev_db env (2 * n + 2)) (GetAccount (a_ID acc)))))"

fun resync_all :: "app_env \<Rightarrow> nat \<Rightarrow> account list \<Rightarrow> (app, gval list) act" where
  "resync_all env n [] = act_ret []"
| "resync_all env n (acc # accs) =
     act_bind (resyncProfile env n acc) (\<lambda>updated.
     act_bind (resync_all env (Suc n) accs) (\<lambda>out. act_ret (public_json (Public updated) # out)))"

definition resyncAll :: "app_env \<Rightarrow> (app, answer) act" where
  "resyncAll env =
     act_catch (db_read (ev_db env 0) (\<lambda>d. Ok (ListAccounts d))) (fail_with env 500) (\<lambda>accs.
     act_catch (resync_all env 0 accs) (fail_with env 500) (\<lambda>out. reply (GArr out)))"

definition handleAccountResync :: handler where
  "handleAccountResync env r =
     only ''/accounts/resync'' ''POST'' r (decoded env r ref_fields (\<lambda>b.
     if str_field b ''ref'' = [] then resyncAll env
     else resolveAccountRef env (str_field b ''ref'') (\<lambda>acc.
       act_catch (resyncProfile env 0 acc) (fail_with env 500) (\<lambda>updated. reply (public_json (Public updated))))))"

section \<open>Calls to mini programs\<close>

text \<open>\<open>e\<close> gives the surroundings of the passes through the pool.\<close>

type_synonym wxappCall = "(nat \<Rightarrow> pool_env) \<Rightarrow> string \<Rightarrow> account \<Rightarrow> string \<Rightarrow> gmap option \<Rightarrow> (pool, gmap) act"

definition invokeGetCode :: wxappCall where
  "invokeGetCode e proxy acc appID payload = GetCode (e 0) (e 1) (e 2) (e 3) (a_LoginBuffer acc) appID (a_ID acc) proxy"

definition invokeGetPhoneNumber :: wxappCall where
  "invokeGetPhoneNumber e proxy acc appID payload = GetPhoneNumber (e 0) (e 1) (a_LoginBuffer acc) appID (a_ID acc) proxy"

definition invokeOperateWXData :: wxappCall where
  "invokeOperateWXData e proxy acc appID payload = OperateWXData (e 0) (e 1) (a_LoginBuffer acc) appID payload (a_ID acc) proxy"

definition invokeGetHostSign :: wxappCall where
  "invokeGetHostSign e proxy acc appID payload = GetHostSign (e 0) (e 1) (a_LoginBuffer acc) appID payload (a_ID acc) proxy"

text \<open>\<open>accountExpiredError\<close> is an outcome of its own.\<close>

datatype invoked = Result gmap | Account_expired string | Call_failed go_error

definition call_once :: "app_env \<Rightarrow> nat \<Rightarrow> account \<Rightarrow> string \<Rightarrow> gmap option \<Rightarrow> wxappCall \<Rightarrow> (app, gmap) act" where
  "call_once env n acc appID payload call =
     act_bind (act_get (\<lambda>a. ac_TCPProxy (app_cfg a))) (\<lambda>proxy.
     on_pool (call (\<lambda>i. ev_pool env (n + i)) proxy acc appID payload))"

definition refresh_and_call :: "app_env \<Rightarrow> account \<Rightarrow> string \<Rightarrow> gmap option \<Rightarrow> wxappCall \<Rightarrow> (app, invoked) act" where
  "refresh_and_call env acc appID payload call =
     act_bind (refreshAccount (ev_refresh env 0) acc True) (\<lambda>(status, renewed, err).
     if status \<noteq> ''alive'' then
       act_ret (if status = ''expired'' then Account_expired (a_OpenID acc)
                else Call_failed (Errorf (''refresh account credentials: ''
                  @ (case err of Some e \<Rightarrow> err_text (ev_json env) e | None \<Rightarrow> ''%!w(<nil>)''))))
     else
       act_bind (\<lambda>a. case db_read (ev_db env 3) (GetAccount (a_ID acc)) a of
           (Ok fresh, a) \<Rightarrow> (Ok fresh, a) | (Err e, a) \<Rightarrow> (Ok acc, a) | (Panic, a) \<Rightarrow> (Panic, a)) (\<lambda>acc.
       act_catch (call_once env 4 acc appID payload call) (\<lambda>e. act_ret (Call_failed e)) (\<lambda>res. act_ret (Result res))))"

definition invokeWXApp :: "app_env \<Rightarrow> account \<Rightarrow> string \<Rightarrow> gmap option \<Rightarrow> wxappCall \<Rightarrow> (app, invoked) act" where
  "invokeWXApp env acc appID payload call =
     act_bind (act_get (\<lambda>a. ac_TCPProxy (app_cfg a))) (\<lambda>proxy.
     act_catch (db_read (ev_db env 1) (GetSession (secs (ev_clock env 0)) (a_ID acc) proxy))
       (\<lambda>_. refresh_and_call env acc appID payload call) (\<lambda>_.
     act_catch (call_once env 0 acc appID payload call)
       (\<lambda>_. act_bind (act_mod (\<lambda>a. snd (db_write (ev_db env 2) (InvalidateSession (a_ID acc) proxy) a))) (\<lambda>_.
             refresh_and_call env acc appID payload call))
       (\<lambda>res. act_ret (Result res))))"

definition writeWXAppInvocationError :: "app_env \<Rightarrow> invoked \<Rightarrow> answer" where
  "writeWXAppInvocationError env err =
     (case err of
        Account_expired _ \<Rightarrow> writeError 409 ''account login_buffer expired (refresh failed); re-scan required''
      | Call_failed e \<Rightarrow> writeError 502 (''call failed: '' @ err_text (ev_json env) e)
      | Result _ \<Rightarrow> writeError 502 ''call failed: '')"

definition call_answer :: "app_env \<Rightarrow> (gmap \<Rightarrow> gval) \<Rightarrow> invoked \<Rightarrow> answer" where
  "call_answer env f res = (case res of Result m \<Rightarrow> writeJSON 200 (f m) | err \<Rightarrow> writeWXAppInvocationError env err)"

definition call_fields :: "(string \<times> field_kind) list" where
  "call_fields = [(''ref'', String_field), (''app_id'', String_field), (''payload'', Map_field)]"

definition payload_of :: "gmap \<Rightarrow> gmap option" where
  "payload_of b = (case gget b ''payload'' of GMap m \<Rightarrow> Some m | _ \<Rightarrow> None)"

definition callWXApp :: "app_env \<Rightarrow> request \<Rightarrow> bool \<Rightarrow> wxappCall \<Rightarrow> (app, answer) act" where
  "callWXApp env r requirePayload call =
     decoded env r call_fields (\<lambda>b.
     if str_field b ''ref'' = [] then refuse 400 ''ref is required''
     else if str_field b ''app_id'' = [] then refuse 400 ''app_id is required''
     else if requirePayload \<and> payload_of b = None then refuse 400 ''payload is required''
     else resolveAccountRef env (str_field b ''ref'') (\<lambda>acc.
       act_bind (invokeWXApp env acc (str_field b ''app_id'') (payload_of b) call) (\<lambda>res.
       act_ret (call_answer env (\<lambda>m. GMap [(''openid'', GStr (a_OpenID acc)), (''result'', GMap m)]) res))))"

definition acceptWXAppRoute :: "request \<Rightarrow> string \<Rightarrow> (app, answer) act \<Rightarrow> (app, answer) act" where
  "acceptWXAppRoute r path k = only path ''POST'' r k"

definition handleGetCode :: handler where
  "handleGetCode env r = acceptWXAppRoute r ''/wxapp/getCode'' (callWXApp env r False invokeGetCode)"

definition handleGetPhoneNumber :: handler where
  "handleGetPhoneNumber env r = acceptWXAppRoute r ''/wxapp/getPhoneNumber'' (callWXApp env r False invokeGetPhoneNumber)"

definition handleOperateWXData :: handler where
  "handleOperateWXData env r = acceptWXAppRoute r ''/wxapp/operateWxData'' (callWXApp env r True invokeOperateWXData)"

definition handleGetHostSign :: handler where
  "handleGetHostSign env r = acceptWXAppRoute r ''/wxapp/getHostSign'' (callWXApp env r True invokeGetHostSign)"

section \<open>Calls by feature\<close>

record callFeatureDefinition =
  cf_Code :: int
  cf_Name :: string
  cf_Description :: string
  cf_Enabled :: bool

definition callFeatureDefinitions :: "callFeatureDefinition list" where
  "callFeatureDefinitions =
     [\<lparr>cf_Code = 1001, cf_Name = ''getCode'', cf_Description = ''wx.login code'', cf_Enabled = True\<rparr>,
      \<lparr>cf_Code = 1002, cf_Name = ''getPhoneNumber'', cf_Description = ''phone number'', cf_Enabled = True\<rparr>,
      \<lparr>cf_Code = 1003, cf_Name = ''operateWxData'', cf_Description = ''proxy for cloud functions'', cf_Enabled = True\<rparr>,
      \<lparr>cf_Code = 1004, cf_Name = ''getHostSign'', cf_Description = ''verifyplugin HostSign'', cf_Enabled = True\<rparr>]"

definition feature_json :: "callFeatureDefinition \<Rightarrow> gval" where
  "feature_json f = GMap [(''code'', GInt KInt (cf_Code f)), (''name'', GStr (cf_Name f)),
     (''description'', GStr (cf_Description f)), (''enabled'', GBool (cf_Enabled f))]"

definition handleFeatures :: "request \<Rightarrow> answer" where
  "handleFeatures r =
     (if rq_Method r \<noteq> ''GET'' then method_err
      else
        let onlyEnabled = equalFold (trimSpace (rq_Query r ''only_enabled'')) ''true'' in
        writeJSON 200 (GArr (map feature_json (filter (\<lambda>f. \<not> (onlyEnabled \<and> \<not> cf_Enabled f)) callFeatureDefinitions))))"

definition path_err :: go_error where "path_err = Errorf ''path of the call is not valid''"
definition feature_err :: go_error where "feature_err = Errorf ''feature is not supported''"

definition accountCallRef :: "string \<Rightarrow> string go" where
  "accountCallRef path =
     (if \<not> prefix ''/accounts/'' path \<or> \<not> suffix ''/call'' path then Err path_err
      else
        let raw = trimSuffix ''/call'' (trimPrefix ''/accounts/'' path) in
        if raw = [] \<or> CHR ''/'' \<in> set raw then Err (Errorf ''ref is required'')
        else case PathUnescape raw of
          None \<Rightarrow> Err (Errorf ''ref is invalid'')
        | Some ref \<Rightarrow> if trimSpace ref = [] then Err (Errorf ''ref is invalid'') else Ok (trimSpace ref))"

text \<open>The number and the name that a feature gives; 0 and the empty text match nothing.\<close>

definition feature_key :: "gval \<Rightarrow> int \<times> string" where
  "feature_key v =
     (case v of
        GStr s \<Rightarrow> (case atoi (trimSpace s) of Some n \<Rightarrow> (n, []) | None \<Rightarrow> (0, trimSpace s))
      | GFloat q \<Rightarrow> (if q = of_int (float_to_int64 q) then float_to_int64 q else 0, [])
      | GNumber s \<Rightarrow> (case atoi s of Some n \<Rightarrow> (n, []) | None \<Rightarrow> (0, []))
      | GInt KInt n \<Rightarrow> (n, [])
      | GInt KInt64 n \<Rightarrow> (n, [])
      | _ \<Rightarrow> (0, []))"

definition resolveCallFeature :: "gval \<Rightarrow> callFeatureDefinition go" where
  "resolveCallFeature v =
     (let (code, name) = feature_key v in
      of_opt feature_err
        (find (\<lambda>c. (code \<noteq> 0 \<and> cf_Code c = code) \<or> (name \<noteq> [] \<and> equalFold (cf_Name c) name)) callFeatureDefinitions))"

definition callForFeature :: "string \<Rightarrow> wxappCall go" where
  "callForFeature name =
     (if name = ''getCode'' then Ok invokeGetCode
      else if name = ''getPhoneNumber'' then Ok invokeGetPhoneNumber
      else if name = ''operateWxData'' then Ok invokeOperateWXData
      else if name = ''getHostSign'' then Ok invokeGetHostSign
      else Err feature_err)"

definition feature_fields :: "(string \<times> field_kind) list" where
  "feature_fields = [(''feature'', Any_field), (''app_id'', String_field), (''payload'', Map_field)]"

definition handleAccountCall :: handler where
  "handleAccountCall env r =
     (if rq_Method r \<noteq> ''POST'' then act_ret method_err
      else
        act_catch (act_lift (accountCallRef (rq_Path r))) (fail_with env 400) (\<lambda>ref.
        decoded env r feature_fields (\<lambda>b.
        act_catch (act_lift (resolveCallFeature (gget b ''feature''))) (fail_with env 400) (\<lambda>feature.
        let appID = trimSpace (str_field b ''app_id'') in
        if appID = [] then refuse 400 ''app_id is required''
        else if (cf_Name feature = ''operateWxData'' \<or> cf_Name feature = ''getHostSign'') \<and> payload_of b = None
        then refuse 400 ''payload is required''
        else resolveAccountRef env ref (\<lambda>acc.
          act_catch (act_lift (callForFeature (cf_Name feature))) (fail_with env 400) (\<lambda>call.
          act_bind (invokeWXApp env acc appID (payload_of b) call) (\<lambda>res.
          act_ret (call_answer env (\<lambda>m. GMap [(''feature'', GStr (cf_Name feature)), (''openid'', GStr (a_OpenID acc)),
            (''result'', GMap m)]) res))))))))"

end
