(* ===== verification/Script_Handlers.thy ===== *)
theory Script_Handlers
  imports App_Handlers
begin

text \<open>
  Model of \<open>internal/httpapi/scripts.go\<close> and \<open>scripts_ws.go\<close>: the list of scripts, uploads,
  runs, logs and schedules, and the log of a script as frames of a websocket. The name of a
  script comes from the path. A text of an error stands for the format that it is made of.
\<close>

text \<open>The file of an upload: its name and declared size, and what opening and reading it give.\<close>

record upload =
  up_Filename :: string
  up_Size :: int
  up_data :: "bytes go go"

text \<open>
  What the goroutine that writes to a websocket can meet while it waits: the client goes, the
  run ends, or output is there. Before each of these the other parts of the service may have
  acted.
\<close>

datatype ws_event = Client_gone | Run_over | Log_ready

text \<open>
  \<open>sv_now\<close> is in seconds, as the runner has it. \<open>sv_accept\<close> is the answer of the websocket
  library to a request that it refuses; \<open>sv_send k\<close> tells whether the k-th frame goes out.
\<close>

record script_env =
  sv_os :: os_env
  sv_uni :: "nat \<Rightarrow> bool"
  sv_zone :: "int \<Rightarrow> int"
  sv_now :: int
  sv_json :: string
  sv_upload :: "upload go"
  sv_write :: written
  sv_accept :: "answer option"
  sv_send :: "nat \<Rightarrow> bool"
  sv_chan :: nat
  sv_between :: "runner \<Rightarrow> runner"
  sv_events :: "((app \<Rightarrow> app) \<times> ws_event) list"

type_synonym script_handler = "script_env \<Rightarrow> string \<Rightarrow> request \<Rightarrow> (app, answer) act"

definition refuse_with :: "script_env \<Rightarrow> int \<Rightarrow> go_error \<Rightarrow> (app, answer) act" where
  "refuse_with env status e = refuse status (err_text (sv_json env) e)"

definition maxScriptSize :: nat where "maxScriptSize = 2 ^ 20"
definition maxScriptLogBytes :: int where "maxScriptLogBytes = 256 * 2 ^ 10"
definition defaultLogLimit :: int where "defaultLogLimit = 256 * 2 ^ 10"

definition zero_script :: Script where
  "zero_script = \<lparr>sr_Name = [], sr_Size = 0, sr_UpdatedAt = 0, sr_Running = False, sr_StartedAt = 0, sr_FinishedAt = 0,
     sr_ExitCode = None, sr_LastError = [], sr_Schedule = [], sr_NextRunAt = 0\<rparr>"

text \<open>Fields marked \<open>omitempty\<close> are left out when they have their zero value.\<close>

definition script_json :: "Script \<Rightarrow> gval" where
  "script_json s =
     (let time = (\<lambda>k n. if n = 0 then [] else [(k, GInt KInt64 n)]);
          word = (\<lambda>k w. if w = [] then [] else [(k, GStr w)]) in
      GMap ([(''name'', GStr (sr_Name s)), (''size'', GInt KInt64 (sr_Size s)),
             (''updated_at'', GInt KInt64 (sr_UpdatedAt s)), (''running'', GBool (sr_Running s))]
        @ time ''started_at'' (sr_StartedAt s) @ time ''finished_at'' (sr_FinishedAt s)
        @ (case sr_ExitCode s of None \<Rightarrow> [] | Some n \<Rightarrow> [(''exit_code'', GInt KInt n)])
        @ word ''last_error'' (sr_LastError s) @ word ''schedule'' (sr_Schedule s)
        @ time ''next_run_at'' (sr_NextRunAt s)))"

definition status_of :: "script_env \<Rightarrow> string \<Rightarrow> (app, Script option) act" where
  "status_of env name = act_get (\<lambda>a. Status (sv_uni env) name (app_scripts a))"

definition reply_status :: "script_env \<Rightarrow> string \<Rightarrow> (app, answer) act" where
  "reply_status env name =
     act_bind (status_of env name) (\<lambda>s. reply (script_json (case s of Some s \<Rightarrow> s | None \<Rightarrow> zero_script)))"

section \<open>Requests\<close>

definition handleScriptList :: script_handler where
  "handleScriptList env name r =
     act_bind (act_get app_scripts) (\<lambda>s.
     act_bind (on_scripts (\<lambda>s. case Python (sv_os env) s of (p, s) \<Rightarrow> (Ok p, s))) (\<lambda>python.
     reply (GMap
       [(''scripts'', GArr (map script_json (List_scripts (sv_uni env) s))),
        (''dir'', GStr (rc_ScriptsDir (r_cfg s))), (''sdk_dir'', GStr (rc_SdkDir (r_cfg s))),
        (''server_url'', GStr (rc_ServerURL (r_cfg s))), (''python'', GStr python),
        (''python_ok'', GBool (python \<noteq> []))])))"

definition script_text :: string where "script_text = ''script larger than 1 MiB''"

text \<open>The file is written as far as the system lets it; a directory of that name is refused.\<close>

definition store_script :: "written \<Rightarrow> int \<Rightarrow> string \<Rightarrow> bytes \<Rightarrow> (runner, unit) act" where
  "store_script w now name data s =
     (let put = (\<lambda>n. s\<lparr>fs_scripts := AList.update name \<lparr>sf_dir = False, sf_Size = int n, sf_ModTime = now\<rparr> (fs_scripts s)\<rparr>);
          failed = Errorf ''write failed'' in
      case map_of (fs_scripts s) name of
        Some f \<Rightarrow>
          if sf_dir f then (Err failed, s)
          else (case w of Written \<Rightarrow> (Ok (), put (length data)) | Refused \<Rightarrow> (Err failed, s)
                  | Short n \<Rightarrow> (Err failed, put (min n (length data))))
      | None \<Rightarrow>
          (case w of Written \<Rightarrow> (Ok (), put (length data)) | Refused \<Rightarrow> (Err failed, s)
             | Short n \<Rightarrow> (Err failed, put (min n (length data)))))"

definition handleScriptUpload :: script_handler where
  "handleScriptUpload env _ r =
     act_catch (act_lift (sv_upload env)) (\<lambda>_. refuse 400 ''field file is missing'') (\<lambda>file.
     if up_Size file > int maxScriptSize then refuse 413 script_text
     else
       let name = path_Base (up_Filename file) in
       if \<not> suffix ''.py'' (toLower name) \<or> \<not> ValidName (sv_uni env) name then refuse 400 ''file name not allowed''
       else
         act_bind (act_get (\<lambda>a. map_of (fs_scripts (app_scripts a)) name)) (\<lambda>old.
         if old \<noteq> None \<and> rq_Query r ''overwrite'' \<noteq> ''1'' then refuse 409 ''script is there already''
         else
           act_catch (act_lift (up_data file)) (refuse_with env 400) (\<lambda>src.
           act_catch (act_lift src) (refuse_with env 400) (\<lambda>content.
           let data = take (maxScriptSize + 1) content in
           if length data > maxScriptSize then refuse 413 script_text
           else
             act_catch (act_lift (os_MkdirAll (sv_os env))) (refuse_with env 500) (\<lambda>_.
             act_catch (on_scripts (store_script (sv_write env) (sv_now env) name data)) (refuse_with env 500) (\<lambda>_.
             reply (GMap [(''name'', GStr name), (''size'', GInt KInt (int (length data)))])))))))"

text \<open>The body of a request; the arguments of a run reach only the command itself.\<close>

definition body_of :: "script_env \<Rightarrow> request \<Rightarrow> string \<Rightarrow> (string \<Rightarrow> (app, answer) act) \<Rightarrow> (app, answer) act" where
  "body_of env r field k =
     act_catch (act_lift (decodeOptionalJSON r [(field, String_field)]))
       (\<lambda>_. refuse 400 (''invalid JSON: '' @ sv_json env)) (\<lambda>b. k (str_field b field))"

definition handleScriptRun :: script_handler where
  "handleScriptRun env name r =
     body_of env r ''args'' (\<lambda>args.
     act_catch (on_scripts (RunArgs (sv_os env) (sv_uni env) (sv_now env) name)) (refuse_with env 409) (\<lambda>_.
     reply_status env name))"

definition handleScriptStop :: script_handler where
  "handleScriptStop env name r =
     act_catch (on_scripts (StopRun name)) (refuse_with env 409) (\<lambda>_. reply (GMap [(''stopped'', GStr name)]))"

text \<open>\<open>fmt.Sscanf\<close> with \<open>%d\<close>: blanks, a sign and decimal digits; what follows is not looked at.\<close>

definition scan_int :: "string \<Rightarrow> int option" where
  "scan_int s =
     (let t = trim_left space_encodings s; blanks = take (length s - length t) s;
          sign = (case t of c # _ \<Rightarrow> if c = CHR ''-'' \<or> c = CHR ''+'' then [c] else [] | [] \<Rightarrow> []);
          ds = takeWhile isDigitChar (drop (length sign) t) in
      if CHR 0x0A \<in> set blanks \<or> ds = [] then None
      else atoi (sign @ ds))"

definition log_limit :: "string \<Rightarrow> int" where
  "log_limit raw =
     (case scan_int raw of
        Some n \<Rightarrow> if 0 < n \<and> n \<le> maxScriptLogBytes then n else defaultLogLimit
      | None \<Rightarrow> defaultLogLimit)"

definition opt_num :: "int option \<Rightarrow> gval" where
  "opt_num n = (case n of None \<Rightarrow> GNil | Some n \<Rightarrow> GInt KInt n)"

definition run_fields :: "Script \<Rightarrow> gmap" where
  "run_fields s = [(''running'', GBool (sr_Running s)), (''started_at'', GInt KInt64 (sr_StartedAt s)),
     (''finished_at'', GInt KInt64 (sr_FinishedAt s)), (''exit_code'', opt_num (sr_ExitCode s)),
     (''last_error'', GStr (sr_LastError s))]"

definition handleScriptLogs :: script_handler where
  "handleScriptLogs env name r =
     act_catch (\<lambda>a. (Logs (sv_uni env) (sv_os env) name (log_limit (rq_Query r ''limit'')) (app_scripts a), a))
       (refuse_with env 404) (\<lambda>content.
     act_bind (status_of env name) (\<lambda>o'.
     case o' of
       None \<Rightarrow> refuse 404 (''script does not exist: '' @ name)
     | Some s \<Rightarrow> reply (GMap ([(''name'', GStr name), (''content'', GStr (string_of content))] @ run_fields s))))"

definition handleScriptSchedule :: script_handler where
  "handleScriptSchedule env name r =
     body_of env r ''cron'' (\<lambda>cron.
     act_catch (on_scripts (SetSchedule (sv_os env) (sv_uni env) (sv_zone env) (sv_now env) name (trimSpace cron)))
       (refuse_with env 400) (\<lambda>_. reply_status env name))"

definition handleScriptUnschedule :: script_handler where
  "handleScriptUnschedule env name r =
     act_catch (on_scripts (ClearSchedule (sv_os env) name)) (refuse_with env 500) (\<lambda>_.
     reply (GMap [(''unscheduled'', GStr name)]))"

definition handleScriptDelete :: script_handler where
  "handleScriptDelete env name r =
     act_catch (on_scripts (Delete (sv_os env) (sv_uni env) name)) (refuse_with env 404) (\<lambda>_.
     reply (GMap [(''deleted'', GStr name)]))"

section \<open>The log as a stream of frames\<close>

definition init_frame :: "bytes \<Rightarrow> gval" where
  "init_frame content = GMap [(''type'', GStr ''init''), (''content'', GStr (string_of content))]"

definition log_frame :: "bytes \<Rightarrow> gval" where
  "log_frame chunk = GMap [(''type'', GStr ''log''), (''data'', GStr (string_of chunk))]"

definition statusPayload :: "Script option \<Rightarrow> gval" where
  "statusPayload s = GMap ((''type'', GStr ''status'') # run_fields (case s of Some s \<Rightarrow> s | None \<Rightarrow> zero_script))"

definition on_stream :: "nat \<Rightarrow> (logStream \<Rightarrow> logStream) \<Rightarrow> app \<Rightarrow> app" where
  "on_stream i f a =
     (let s = app_scripts a in
      a\<lparr>app_scripts := s\<lparr>r_objs := (r_objs s)[i := (r_objs s ! i)\<lparr>rs_stream := f (rs_stream (r_objs s ! i))\<rparr>]\<rparr>\<rparr>)"

definition queue_of :: "nat \<Rightarrow> nat \<Rightarrow> app \<Rightarrow> bytes list" where
  "queue_of i ch a = (case map_of (rs_stream (r_objs (app_scripts a) ! i)) ch of Some q \<Rightarrow> q | None \<Rightarrow> [])"

text \<open>
  The loop, after \<open>k\<close> frames: an event that cannot happen yet, since the run goes on or
  nothing is there to be sent, is waited for. The frames are those that went out.
\<close>

fun log_loop ::
  "script_env \<Rightarrow> string \<Rightarrow> nat \<Rightarrow> nat \<Rightarrow> ((app \<Rightarrow> app) \<times> ws_event) list \<Rightarrow> app \<Rightarrow> gval list \<times> app" where
  "log_loop env name i k [] a = ([], a)"
| "log_loop env name i k ((m, ev) # es) a =
     (let a = m a in
      case ev of
        Client_gone \<Rightarrow> ([], a)
      | Run_over \<Rightarrow>
          if \<not> rs_finished (r_objs (app_scripts a) ! i) then log_loop env name i k es a
          else (if sv_send env k then [statusPayload (Status (sv_uni env) name (app_scripts a))] else [], a)
      | Log_ready \<Rightarrow>
          (case queue_of i (sv_chan env) a of
             [] \<Rightarrow> log_loop env name i k es a
           | chunk # rest \<Rightarrow>
               let a = on_stream i (AList.update (sv_chan env) rest) a in
               if sv_send env k
               then (case log_loop env name i (Suc k) es a of (fs, a) \<Rightarrow> (log_frame chunk # fs, a))
               else ([], a)))"

text \<open>The frames of a connection; the subscription ends with it.\<close>

definition stream_logs :: "script_env \<Rightarrow> string \<Rightarrow> (app, gval list) act" where
  "stream_logs env name =
     act_catch (on_scripts (Subscribe (sv_uni env) (sv_os env) (sv_chan env) (sv_between env) name))
       (\<lambda>e. act_ret (if sv_send env 0
          then [GMap [(''type'', GStr ''error''), (''message'', GStr (err_text (sv_json env) e))]] else []))
       (\<lambda>(content, run) a.
         let status = statusPayload (Status (sv_uni env) name (app_scripts a));
             leave = (\<lambda>a. case run of None \<Rightarrow> a | Some i \<Rightarrow> on_stream i (unsubscribe (sv_chan env)) a) in
         if \<not> sv_send env 0 then (Ok [], leave a)
         else if \<not> sv_send env 1 then (Ok [init_frame content], leave a)
         else (case run of
                 None \<Rightarrow> (Ok [init_frame content, status], a)
               | Some i \<Rightarrow>
                   (case log_loop env name i 2 (sv_events env) a of
                      (fs, a) \<Rightarrow> (Ok (init_frame content # status # fs), leave a))))"

text \<open>The answer of an accepted request has status 101 and carries the frames.\<close>

definition handleScriptLogsWS :: "script_env \<Rightarrow> request \<Rightarrow> (app, answer) act" where
  "handleScriptLogsWS env r =
     (let name = trimSuffix ''/logs/ws'' (trimPrefix ''/scripts/'' (rq_Path r)) in
      if \<not> ValidName (sv_uni env) name then refuse 400 (''script name not allowed: '' @ name)
      else case sv_accept env of
        Some an \<Rightarrow> act_ret an
      | None \<Rightarrow> act_bind (stream_logs env name) (\<lambda>fs. act_ret (plain_answer 101 (JSON (GArr fs)))))"

end
