(* ===== verification/Routes.thy ===== *)
theory Routes
  imports Script_Handlers
begin

text \<open>
  Model of \<open>App.Handler\<close> of \<open>internal/httpapi/app.go\<close>: which handler serves which method and
  path, the check before the protected ones, and what gin does when a handler panics.
\<close>

section \<open>The surroundings of the service\<close>

text \<open>
  \<open>se_unescape\<close> is what gin does to a cookie, \<open>se_empty\<close> whether gin lets a parameter of a
  path be empty, \<open>se_unrouted\<close> its own answer for a path without a route (it redirects when
  only a slash at the end differs), \<open>se_static\<close> the answer of the file server.
\<close>

record serve_env =
  se_app :: app_env
  se_script :: script_env
  se_clock :: "nat \<Rightarrow> int"
  se_token :: "bytes option"
  se_seeds :: "bytes go list"
  se_unescape :: "string \<Rightarrow> string"
  se_empty :: bool
  se_unrouted :: "answer option"
  se_static :: answer

definition on_auth :: "(auth \<Rightarrow> 'a \<times> auth) \<Rightarrow> (app, 'a) act" where
  "on_auth f a = (case f (app_auth a) of (x, u) \<Rightarrow> (Ok x, a\<lparr>app_auth := u\<rparr>))"

text \<open>
  What stands behind a route: the user that the check let through, and the parameter of the
  path. No answer means that the handler has not returned: random bytes were not enough.
\<close>

type_synonym endpoint = "serve_env \<Rightarrow> verdict \<Rightarrow> string \<Rightarrow> request \<Rightarrow> (app, answer option) act"

definition answers :: "(app, answer) act \<Rightarrow> (app, answer option) act" where
  "answers m = act_bind m (\<lambda>an. act_ret (Some an))"

definition by_app :: "handler \<Rightarrow> endpoint" where
  "by_app h env v name r = answers (h (se_app env) r)"

definition by_script :: "script_handler \<Rightarrow> endpoint" where
  "by_script h env v name r = answers (h (se_script env) name r)"

definition fixed :: "answer \<Rightarrow> endpoint" where
  "fixed an env v name r = act_ret (Some an)"

definition login_page :: endpoint where
  "login_page env v name r =
     answers (on_auth (handleLogin (ev_present (se_app env)) (se_clock env) (se_token env) r))"

definition logout_page :: endpoint where
  "logout_page env v name r = answers (on_auth (handleLogout r))"

definition static_files :: endpoint where
  "static_files env v name r = act_ret (Some (se_static env))"

definition auth_me :: endpoint where
  "auth_me env v name r = answers (act_get (\<lambda>a. handleAuthMe v r (app_auth a)))"

definition activity_sign :: endpoint where
  "activity_sign env v name r =
     (case handleActivitySign (se_clock env 0 div 10 ^ 6) (se_seeds env) r of
        None \<Rightarrow> act_ret None
      | Some g \<Rightarrow> answers (act_lift g))"

definition features :: endpoint where
  "features env v name r = act_ret (Some (handleFeatures r))"

definition script_socket :: endpoint where
  "script_socket env v name r = answers (handleScriptLogsWS (se_script env) r)"

section \<open>The table of routes\<close>

datatype segment = Lit string | Param | Rest

record route =
  rt_Methods :: "string list"
  rt_Path :: "segment list"
  rt_Endpoint :: endpoint

definition any_method :: "string list" where
  "any_method = [''GET'', ''POST'', ''PUT'', ''PATCH'', ''HEAD'', ''OPTIONS'', ''DELETE'', ''CONNECT'', ''TRACE'']"

definition on_path :: "string list \<Rightarrow> segment list \<Rightarrow> endpoint \<Rightarrow> route" where
  "on_path ms p e = \<lparr>rt_Methods = ms, rt_Path = p, rt_Endpoint = e\<rparr>"

definition public_routes :: "route list" where
  "public_routes =
     [on_path any_method [Lit ''login''] login_page,
      on_path [''POST''] [Lit ''logout''] logout_page,
      on_path [''GET''] [Lit ''health''] (fixed (writeJSON 200 (GMap [(''ok'', GBool True)]))),
      on_path [''GET''] [Lit ''ready''] (fixed handleReady),
      on_path [''GET''] [Lit ''static'', Rest] static_files,
      on_path any_method [Lit ''docs''] (fixed (http_Redirect ''/docs/index.html'' 301)),
      on_path any_method [Lit ''docs'', Rest] (by_app handleDocs),
      on_path any_method [Lit ''openapi.json''] (by_app handleOpenAPI)]"

definition protected_routes :: "route list" where
  "protected_routes =
     [on_path [''GET''] [Lit ''auth'', Lit ''me''] auth_me,
      on_path any_method [Lit []] (by_app handleIndex),
      on_path any_method [Lit ''scan''] (by_app handleScan),
      on_path any_method [Lit ''apps''] (by_app handleApps),
      on_path any_method [Lit ''qr''] (by_app handleQRRoot),
      on_path any_method [Lit ''qr'', Param, Lit ''image''] (by_app handleQR),
      on_path any_method [Lit ''qr'', Param, Lit ''poll''] (by_app handleQR),
      on_path any_method [Lit ''qr'', Param, Lit ''confirm''] (by_app handleQR),
      on_path any_method [Lit ''accounts''] (by_app handleAccountsRoot),
      on_path any_method [Lit ''accounts'', Lit ''avatar''] (by_app handleAccountAvatar),
      on_path any_method [Lit ''accounts'', Lit ''refresh''] (by_app handleAccountRefresh),
      on_path any_method [Lit ''accounts'', Lit ''resync''] (by_app handleAccountResync),
      on_path any_method [Lit ''accounts'', Param, Lit ''call''] (by_app handleAccountCall),
      on_path any_method [Lit ''features''] features,
      on_path any_method [Lit ''activity'', Lit ''sign''] activity_sign,
      on_path any_method [Lit ''wxapp'', Lit ''getCode''] (by_app handleGetCode),
      on_path any_method [Lit ''wxapp'', Lit ''getPhoneNumber''] (by_app handleGetPhoneNumber),
      on_path any_method [Lit ''wxapp'', Lit ''operateWxData''] (by_app handleOperateWXData),
      on_path any_method [Lit ''wxapp'', Lit ''getHostSign''] (by_app handleGetHostSign),
      on_path [''GET''] [Lit ''scripts''] (by_script handleScriptList),
      on_path [''POST''] [Lit ''scripts'', Lit ''upload''] (by_script handleScriptUpload),
      on_path [''POST''] [Lit ''scripts'', Param, Lit ''run''] (by_script handleScriptRun),
      on_path [''POST''] [Lit ''scripts'', Param, Lit ''stop''] (by_script handleScriptStop),
      on_path [''GET''] [Lit ''scripts'', Param, Lit ''logs''] (by_script handleScriptLogs),
      on_path [''GET''] [Lit ''scripts'', Param, Lit ''logs'', Lit ''ws''] script_socket,
      on_path [''PUT''] [Lit ''scripts'', Param, Lit ''schedule''] (by_script handleScriptSchedule),
      on_path [''DELETE''] [Lit ''scripts'', Param, Lit ''schedule''] (by_script handleScriptUnschedule),
      on_path [''DELETE''] [Lit ''scripts'', Param] (by_script handleScriptDelete)]"

text \<open>The parameters of a path that matches.\<close>

fun match_path :: "bool \<Rightarrow> segment list \<Rightarrow> string list \<Rightarrow> string list option" where
  "match_path e [] [] = Some []"
| "match_path e (Lit l # ps) (s # ss) = (if s = l then match_path e ps ss else None)"
| "match_path e (Param # ps) (s # ss) = (if s = [] \<and> \<not> e then None else map_option ((#) s) (match_path e ps ss))"
| "match_path e (Rest # ps) (s # ss) = Some []"
| "match_path e _ _ = None"

definition path_segments :: "string \<Rightarrow> string list option" where
  "path_segments p = (case p of c # s \<Rightarrow> if c = CHR ''/'' then Some (split_on (CHR ''/'') s) else None | [] \<Rightarrow> None)"

definition route_params :: "bool \<Rightarrow> request \<Rightarrow> route \<Rightarrow> string list option" where
  "route_params e r rt =
     (if rq_Method r \<notin> set (rt_Methods rt) then None
      else case path_segments (rq_Path r) of None \<Rightarrow> None | Some ss \<Rightarrow> match_path e (rt_Path rt) ss)"

definition route_of :: "bool \<Rightarrow> request \<Rightarrow> route list \<Rightarrow> route option" where
  "route_of e r rts = find (\<lambda>rt. route_params e r rt \<noteq> None) rts"

definition name_of :: "bool \<Rightarrow> request \<Rightarrow> route \<Rightarrow> string" where
  "name_of e r rt = (case route_params e r rt of Some (n # _) \<Rightarrow> n | _ \<Rightarrow> [])"

section \<open>A request\<close>

definition run_route :: "serve_env \<Rightarrow> verdict \<Rightarrow> request \<Rightarrow> route \<Rightarrow> (app, answer option) act" where
  "run_route env v r rt = rt_Endpoint rt env v (name_of (se_empty env) r rt) r"

definition guarded :: "serve_env \<Rightarrow> request \<Rightarrow> route \<Rightarrow> (app, answer option) act" where
  "guarded env r rt =
     act_bind (on_auth (requireBrowserSession (se_unescape env) (se_clock env 0) r)) (\<lambda>v.
     case v of Answer an \<Rightarrow> act_ret (Some an) | Pass u \<Rightarrow> run_route env v r rt)"

definition dispatch :: "serve_env \<Rightarrow> request \<Rightarrow> (app, answer option) act" where
  "dispatch env r =
     (case route_of (se_empty env) r public_routes of
        Some rt \<Rightarrow> run_route env (Pass None) r rt
      | None \<Rightarrow>
          (case route_of (se_empty env) r protected_routes of
             Some rt \<Rightarrow> guarded env r rt
           | None \<Rightarrow> act_ret (Some (case se_unrouted env of Some an \<Rightarrow> an | None \<Rightarrow> writeError 404 ''not found''))))"

text \<open>\<open>gin.Recovery\<close> turns a panic into an empty answer with status 500.\<close>

definition serve :: "serve_env \<Rightarrow> request \<Rightarrow> app \<Rightarrow> answer option \<times> app" where
  "serve env r a =
     (case dispatch env r a of
        (Ok an, a) \<Rightarrow> (an, a)
      | (_, a) \<Rightarrow> (Some (plain_answer 500 No_body), a))"

end
