(* ===== verification/Service_Props.thy ===== *)
theory Service_Props
  imports Routes Pool_Props Keepalive_Props Auth_Props
begin

text \<open>
  Correctness of the service as a whole: an invariant of all its parts that every request,
  every round and every command keeps, and what a request without a key or a session can do.
\<close>

section \<open>Parts of the state\<close>

text \<open>
  A part of a state: it is read and replaced. Actions on a part keep an invariant of the
  whole when they keep the invariant of the part.
\<close>

locale state_part =
  fixes read :: "'s \<Rightarrow> 'p" and put :: "'p \<Rightarrow> 's \<Rightarrow> 's" and on :: "('p, 'a) act \<Rightarrow> ('s, 'a) act"
  assumes read_put: "read (put p s) = p"
    and put_read: "put (read s) s = s"
    and put_put: "put p (put q s) = put p s"
    and on_part: "on m s = (case m (read s) of (g, p) \<Rightarrow> (g, put p s))"
begin

lemma on_result: "on m s = (g, t) \<longleftrightarrow> (\<exists>p. m (read s) = (g, p) \<and> t = put p s)"
  by (auto simp: on_part split: prod.splits)

lemma keeps_on:
  assumes "keeps J m" "\<And>s. I s \<Longrightarrow> J (read s)" "\<And>s p. I s \<Longrightarrow> J p \<Longrightarrow> I (put p s)"
  shows "keeps I (on m)"
proof (rule hoareI)
  fix s assume s: "I s"
  have "I t" if on: "on m s = (g, t)" for g t
  proof -
    obtain p where p: "m (read s) = (g, p)" "t = put p s" using on by (auto simp: on_result)
    have "J p" by (rule keepsD [OF assms(1) assms(2) [OF s] p(1)])
    with assms(3) s p(2) show ?thesis by blast
  qed
  then show "on m s = (Ok x, t) \<Longrightarrow> I t" "on m s = (Err e, t) \<Longrightarrow> I t" "on m s = (Panic, t) \<Longrightarrow> I t" for x e t
    by auto
qed

lemma on_frame: "on m s = (g, t) \<Longrightarrow> t = put (read t) s"
  by (auto simp: on_result read_put)

end

interpretation pool_part: state_part app_pool "\<lambda>p a. a\<lparr>app_pool := p\<rparr>" on_pool
  by unfold_locales (simp_all add: on_pool_def)

interpretation scripts_part: state_part app_scripts "\<lambda>s a. a\<lparr>app_scripts := s\<rparr>" on_scripts
  by unfold_locales (simp_all add: on_scripts_def)

interpretation auth_part: state_part app_auth "\<lambda>u a. a\<lparr>app_auth := u\<rparr>"
  "\<lambda>m a. case m (app_auth a) of (g, u) \<Rightarrow> (g, a\<lparr>app_auth := u\<rparr>)"
  by unfold_locales simp_all

section \<open>The invariant\<close>

definition service_ok :: "app \<Rightarrow> bool" where
  "service_ok a \<longleftrightarrow> db_ok (app_db a) \<and> p_loginSem (app_pool a) = 0 \<and> p_shortlinkSem (app_pool a) = 0
     \<and> runs_ok (app_scripts a) \<and> attempts_ok (app_auth a) \<and> au_SecretKey (app_auth a) = ac_SecretKey (app_cfg a)"

lemma service_ok_pool: "service_ok a \<Longrightarrow> pool_inv (p_cfg (app_pool a)) 0 0 (app_pool a)"
  by (simp add: service_ok_def pool_inv_def app_db_def)

lemma service_ok_updates:
  "pool_inv c 0 0 p \<Longrightarrow> service_ok a \<Longrightarrow> service_ok (a\<lparr>app_pool := p\<rparr>)"
  "runs_ok s \<Longrightarrow> service_ok a \<Longrightarrow> service_ok (a\<lparr>app_scripts := s\<rparr>)"
  "db_ok d \<Longrightarrow> service_ok a \<Longrightarrow> service_ok (set_db d a)"
  "service_ok (a\<lparr>app_files := fs\<rparr>) = service_ok a" "service_ok (a\<lparr>app_qr := q\<rparr>) = service_ok a"
  "service_ok (a\<lparr>app_locks := l\<rparr>) = service_ok a" "service_ok (a\<lparr>app_retry := rs\<rparr>) = service_ok a"
  by (simp_all add: service_ok_def pool_inv_def app_db_def set_db_def)

lemma keeps_pool:
  assumes "\<And>c. keeps (pool_inv c 0 0) m"
  shows "keeps service_ok (on_pool m)"
proof (rule hoareI)
  fix a assume a: "service_ok a"
  have "service_ok t" if on: "on_pool m a = (g, t)" for g t
  proof -
    obtain p where p: "m (app_pool a) = (g, p)" "t = a\<lparr>app_pool := p\<rparr>" using on by (auto simp: pool_part.on_result)
    have "pool_inv (p_cfg (app_pool a)) 0 0 p" by (rule keepsD [OF assms service_ok_pool [OF a] p(1)])
    with p(2) a service_ok_updates(1) show ?thesis by blast
  qed
  then show "on_pool m a = (Ok x, t) \<Longrightarrow> service_ok t" "on_pool m a = (Err e, t) \<Longrightarrow> service_ok t"
    "on_pool m a = (Panic, t) \<Longrightarrow> service_ok t" for x e t by auto
qed

lemma keeps_scripts: "keeps runs_ok m \<Longrightarrow> keeps service_ok (on_scripts m)"
  by (erule scripts_part.keeps_on) (auto simp: service_ok_updates service_ok_def)

lemma keeps_db_read: "keeps I (db_read fault q)"
  by (cases fault) (auto simp: hoare_def split: go.splits)

lemma keeps_db_write: "(\<And>d. db_ok d \<Longrightarrow> db_ok (f d)) \<Longrightarrow> keeps service_ok (db_write fault f)"
  by (cases fault) (auto simp: hoare_def service_ok_def set_db_def app_db_def)

lemma keeps_catch':
  "keeps I m \<Longrightarrow> (\<And>e. keeps I (h e)) \<Longrightarrow> (\<And>x. keeps I (k x)) \<Longrightarrow> keeps I (act_catch m h k)"
  by (rule keeps_catch [where V = "\<lambda>_. True"]) simp_all

lemma keeps_same: "(\<And>a. snd (m a) = a) \<Longrightarrow> keeps I m"
  by (rule hoareI) (metis snd_conv)+

lemma keeps_total: "(\<And>a. I a \<Longrightarrow> I (snd (m a))) \<Longrightarrow> keeps I m"
  by (rule hoareI) (metis snd_conv)+

lemma keeps_row: "(\<And>a. keeps (only_row i a) m) \<Longrightarrow> keeps service_ok m"
proof (rule hoareI)
  assume m: "\<And>a. keeps (only_row i a) m"
  fix a assume a: "service_ok a"
  have "service_ok t" if t: "m a = (g, t)" for g t
  proof -
    have "only_row i a t" by (rule keepsD [OF m only_row_refl t])
    moreover from this have t: "t = a\<lparr>app_pool := (app_pool a)\<lparr>p_db := app_db t\<rparr>, app_locks := app_locks t, app_files := app_files t\<rparr>"
      by (simp add: only_row_def)
    have "app_pool t = (app_pool a)\<lparr>p_db := app_db t\<rparr>" "app_scripts t = app_scripts a" "app_auth t = app_auth a"
      by (subst t, simp)+
    ultimately show ?thesis using a only_row_frame(4,7) [of i a t] by (simp add: service_ok_def)
  qed
  then show "m a = (Ok x, t) \<Longrightarrow> service_ok t" "m a = (Err e, t) \<Longrightarrow> service_ok t" "m a = (Panic, t) \<Longrightarrow> service_ok t"
    for x e t by auto
qed

lemma keeps_refresh: "keeps service_ok (refreshAccount env acc force)" "keeps service_ok (refreshLiveness env acc)"
proof -
  show r: "keeps service_ok (refreshAccount env acc force)" for force by (rule keeps_row [OF keeps_refreshAccount])
  show "keeps service_ok (refreshLiveness env acc)" unfolding refreshLiveness_def by (intro keeps_intros r)
qed

lemma service_answers:
  "keeps I (reply v)" "keeps I (refuse n s)" "keeps I (fail_with env n e)" "keeps I (refuse_with senv n e)"
  by (simp_all add: reply_def refuse_def fail_with_def refuse_with_def keeps_basic)

lemma keeps_only: "keeps I k \<Longrightarrow> keeps I (only p m r k)"
  by (simp add: only_def service_answers keeps_basic)

lemma keeps_decoded: "(\<And>b. keeps I (k b)) \<Longrightarrow> keeps I (decoded env r fs k)"
  by (simp add: decoded_def keeps_catch' keeps_basic service_answers)

lemmas service_intros = keeps_intros keeps_catch' keeps_db_read keeps_db_write keeps_pool keeps_scripts
  keeps_refresh service_answers keeps_only keeps_decoded

section \<open>Every request keeps it\<close>

lemma qr_updates_ok:
  "service_ok (remove_file f a) = service_ok a" "service_ok (write_picture w f d a) = service_ok a"
  "service_ok (cleanupQR keep a) = service_ok a" "service_ok (dropQRSession i a) = service_ok a"
  by (simp_all add: remove_file_def write_picture_def cleanupQR_def dropQRSession_def service_ok_updates)

lemma remove_files_ok: "service_ok (fold (\<lambda>i a. remove_file (g a i) a) xs a) = service_ok a"
  by (induction xs arbitrary: a) (simp_all add: qr_updates_ok)

lemma pruneQR_ok: "service_ok (pruneQR now a) = service_ok a"
  by (simp add: pruneQR_def Let_def remove_files_ok service_ok_updates)

lemma keeps_on_session: "keeps service_ok (on_session i s m)"
  by (cases "m s"; cases "fst (m s)") (auto simp: hoare_def on_session_def service_ok_updates)

lemma resolveAvatar_ok: "resolveAvatar f w o' ui a = (v, b) \<Longrightarrow> service_ok b = service_ok a"
  by (auto simp: resolveAvatar_def Let_def service_ok_updates split: if_splits prod.splits)

lemma keeps_resolveAvatar: "keeps service_ok (\<lambda>a. case resolveAvatar f w o' ui a of (v, a) \<Rightarrow> (Ok v, a))"
  by (auto simp: hoare_def resolveAvatar_ok split: prod.splits)

lemma keeps_upsert:
  "keeps service_ok (\<lambda>a. case fault of Some e \<Rightarrow> (Err e, a)
     | None \<Rightarrow> (case UpsertAccount now o' lb al ni av ui cr st (app_db a) of (g, d) \<Rightarrow> (g, set_db d a)))"
proof (rule hoareI)
  let ?m = "\<lambda>a. case fault of Some e \<Rightarrow> (Err e, a)
     | None \<Rightarrow> (case UpsertAccount now o' lb al ni av ui cr st (app_db a) of (g, d) \<Rightarrow> (g, set_db d a))"
  fix a assume a: "service_ok a"
  then have "db_ok d" if "UpsertAccount now o' lb al ni av ui cr st (app_db a) = (g, d)" for g d
    using that UpsertAccount_ok by (auto simp: service_ok_def)
  then show "?m a = (Ok x, t) \<Longrightarrow> service_ok t" "?m a = (Err e, t) \<Longrightarrow> service_ok t" "?m a = (Panic, t) \<Longrightarrow> service_ok t" for x e t
    using a by (auto simp: service_ok_updates split: option.splits prod.splits)
qed

lemma keeps_storeFromScan: "keeps service_ok (storeFromScan env lb creds ui)"
  unfolding storeFromScan_def Let_def by (intro service_intros keeps_resolveAvatar keeps_upsert)

lemma keeps_handleQRRoot: "keeps service_ok (handleQRRoot env r)"
  unfolding handleQRRoot_def by (intro service_intros) (simp_all add: pruneQR_ok qr_updates_ok service_ok_updates)

lemma keeps_fetch:
  "keeps I (\<lambda>a. case g of Ok ui \<Rightarrow> (Ok ui, a) | Err e \<Rightarrow> (Ok None, a) | Panic \<Rightarrow> (Panic, a))"
  by (cases g) (auto simp: hoare_def)

lemma keeps_case_list: "keeps I f \<Longrightarrow> (\<And>x xs. keeps I (g x xs)) \<Longrightarrow> keeps I (case l of [] \<Rightarrow> f | x # xs \<Rightarrow> g x xs)"
  by (cases l) auto

lemma keeps_handleQR: "keeps service_ok (handleQR env r)"
  unfolding handleQR_def Let_def
  by (intro service_intros keeps_case_list keeps_on_session keeps_fetch keeps_storeFromScan) (simp_all add: qr_updates_ok)

lemma keeps_resolve:
  "(\<And>acc. keeps I (k acc)) \<Longrightarrow> keeps I (resolveAccountRef env ref k)"
  "(\<And>acc. keeps I (k acc)) \<Longrightarrow> keeps I (resolveAccountFromQuery env r k)"
  by (simp_all add: resolveAccountFromQuery_def resolveAccountRef_def Let_def service_answers keeps_catch' keeps_db_read)

lemma keeps_handleAccountsRoot: "keeps service_ok (handleAccountsRoot env r)"
  unfolding handleAccountsRoot_def by (intro service_intros keeps_resolve DeleteAccount_ok)

lemma keeps_serveAvatar: "keeps I (serveAvatar acc)"
  unfolding serveAvatar_def Let_def by (intro service_intros keeps_case_list)

lemma keeps_refresh_all: "keeps service_ok (refresh_all env n accs)"
  by (induction accs arbitrary: n) (simp_all, (intro service_intros | assumption)+)

lemma keeps_resyncProfile: "keeps service_ok (resyncProfile env n acc)"
  unfolding resyncProfile_def Let_def by (intro service_intros keeps_resolveAvatar SetAccount_ok)

lemma keeps_resync_all: "keeps service_ok (resync_all env n accs)"
  by (induction accs arbitrary: n) (simp_all, (intro service_intros keeps_resyncProfile | assumption)+)

lemma keeps_account_handlers:
  "keeps service_ok (handleAccountAvatar env r)" "keeps service_ok (handleAccountRefresh env r)"
  "keeps service_ok (handleAccountResync env r)"
  unfolding handleAccountAvatar_def handleAccountRefresh_def handleAccountResync_def refreshAll_def resyncAll_def
  by (intro service_intros keeps_resolve keeps_serveAvatar keeps_refresh_all keeps_resync_all keeps_resyncProfile)+

lemma calls_keep:
  "keeps (pool_inv c a b) (GetCode e1 e2 e3 e4 lb app i px)" "keeps (pool_inv c a b) (GetPhoneNumber e1 e2 lb app i px)"
  "keeps (pool_inv c a b) (GetHostSign e1 e2 lb app pl i px)" "keeps (pool_inv c a b) (OperateWXData e1 e2 lb app pl i px)"
  unfolding GetCode_def GetPhoneNumber_def GetHostSign_def OperateWXData_def
  by (intro keeps_intros keeps_run keeps_calls; auto)+

text \<open>The four calls; only these come from the table of features.\<close>

definition wx_calls :: "wxappCall set" where
  "wx_calls = {invokeGetCode, invokeGetPhoneNumber, invokeOperateWXData, invokeGetHostSign}"

lemma wx_calls_keep: "call \<in> wx_calls \<Longrightarrow> keeps (pool_inv c a b) (call e px acc app pl)"
  by (auto simp: wx_calls_def invokeGetCode_def invokeGetPhoneNumber_def invokeOperateWXData_def invokeGetHostSign_def calls_keep)

lemma callForFeature_calls: "callForFeature name = Ok call \<Longrightarrow> call \<in> wx_calls"
  by (auto simp: callForFeature_def wx_calls_def split: if_splits)

lemma keeps_call_once: "call \<in> wx_calls \<Longrightarrow> keeps service_ok (call_once env n acc app pl call)"
  unfolding call_once_def by (intro service_intros wx_calls_keep)

lemma keeps_again:
  "keeps service_ok (\<lambda>a. case db_read f q a of (Ok x, a) \<Rightarrow> (Ok x, a) | (Err e, a) \<Rightarrow> (Ok y, a) | (Panic, a) \<Rightarrow> (Panic, a))"
  by (cases f) (auto simp: hoare_def split: go.splits)

lemma keeps_refresh_and_call:
  assumes "call \<in> wx_calls"
  shows "keeps service_ok (refresh_and_call env acc app pl call)"
  unfolding refresh_and_call_def by (intro service_intros keeps_again keeps_call_once [OF assms])

lemma keeps_invokeWXApp:
  assumes "call \<in> wx_calls"
  shows "keeps service_ok (invokeWXApp env acc app pl call)"
proof -
  have inv: "service_ok (snd (db_write f (InvalidateSession i px) a))" if "service_ok a" for f i px a
    using keepsD [OF keeps_db_write [OF InvalidateSession_ok] that prod.collapse [symmetric]] .
  show ?thesis unfolding invokeWXApp_def
    by (intro service_intros keeps_refresh_and_call [OF assms] keeps_call_once [OF assms] inv)
qed

lemma keeps_callWXApp: "call \<in> wx_calls \<Longrightarrow> keeps service_ok (callWXApp env r b call)"
  unfolding callWXApp_def by (intro service_intros keeps_resolve keeps_invokeWXApp)

lemma keeps_wx_handlers:
  "keeps service_ok (handleGetCode env r)" "keeps service_ok (handleGetPhoneNumber env r)"
  "keeps service_ok (handleOperateWXData env r)" "keeps service_ok (handleGetHostSign env r)"
  unfolding handleGetCode_def handleGetPhoneNumber_def handleOperateWXData_def handleGetHostSign_def acceptWXAppRoute_def
  by (intro keeps_only keeps_callWXApp; simp add: wx_calls_def)+

lemma keeps_handleAccountCall: "keeps service_ok (handleAccountCall env r)"
  unfolding handleAccountCall_def Let_def
  by (intro service_intros keeps_resolve keeps_invokeWXApp
      keeps_catch [where m = "act_lift (callForFeature name)" and V = "\<lambda>call. call \<in> wx_calls" for name])
    (auto intro: callForFeature_calls)

lemma keeps_pages:
  "keeps I (handleIndex env r)" "keeps I (handleScan env r)" "keeps I (handleApps env r)"
  "keeps I (handleDocs env r)" "keeps I (handleOpenAPI env r)"
  unfolding handleIndex_def handleScan_def handleApps_def handleDocs_def handleOpenAPI_def
  by (intro keeps_intros keeps_only)+

section \<open>Scripts\<close>

lemma keeps_runs: "(\<And>r. runs_ok r \<Longrightarrow> runs_ok (snd (m r))) \<Longrightarrow> keeps runs_ok m"
  by (rule hoareI) (metis snd_conv)+

lemma runner_calls:
  "keeps runs_ok (RunArgs os uni now name)" "keeps runs_ok (StopRun name)" "keeps runs_ok (ClearSchedule os name)"
  "keeps runs_ok (SetSchedule os uni zone now name cron)" "keeps runs_ok (Delete os uni name)"
  by (intro keeps_runs RunArgs_ok runs_kept_ok [OF StopRun_kept] runs_kept_ok [OF ClearSchedule_kept]
      runs_kept_ok [OF SetSchedule_kept] runs_kept_ok [OF Delete_kept]; assumption)+

lemma runs_ok_same: "r_runs s = r_runs r \<Longrightarrow> r_objs s = r_objs r \<Longrightarrow> runs_ok s = runs_ok r"
  by (simp add: runs_ok_def)

lemma python_call: "keeps runs_ok (\<lambda>s. case Python os s of (p, s) \<Rightarrow> (Ok p, s))"
  by (auto simp: hoare_def dest: Python_runs runs_ok_same split: prod.splits)

lemma store_script_call: "keeps runs_ok (store_script w now name data)"
  by (rule keeps_runs) (auto simp: store_script_def Let_def runs_ok_def split: option.splits written.splits)

lemma keeps_status_of: "keeps I (status_of env name)" "keeps I (reply_status env name)"
  unfolding reply_status_def status_of_def by (intro service_intros)+

lemma keeps_body_of: "(\<And>s. keeps I (k s)) \<Longrightarrow> keeps I (body_of env r field k)"
  unfolding body_of_def by (intro service_intros)

lemma keeps_script_handlers:
  "keeps service_ok (handleScriptList env name r)" "keeps service_ok (handleScriptUpload env name r)"
  "keeps service_ok (handleScriptRun env name r)" "keeps service_ok (handleScriptStop env name r)"
  "keeps service_ok (handleScriptSchedule env name r)" "keeps service_ok (handleScriptUnschedule env name r)"
  "keeps service_ok (handleScriptDelete env name r)"
  unfolding handleScriptList_def handleScriptUpload_def handleScriptRun_def handleScriptStop_def
    handleScriptSchedule_def handleScriptUnschedule_def handleScriptDelete_def Let_def
  by (intro service_intros python_call store_script_call runner_calls keeps_status_of keeps_body_of)+

lemma keeps_handleScriptLogs: "keeps service_ok (handleScriptLogs env name r)"
  unfolding handleScriptLogs_def
  by (intro service_intros keeps_status_of) (auto simp: hoare_def split: go.splits)

lemma on_stream_ok: "service_ok a \<Longrightarrow> service_ok (on_stream i f a)"
  using runs_kept_ok [OF runs_kept_update]
  by (auto simp: on_stream_def Let_def intro!: service_ok_updates(2)) (simp add: service_ok_def)

definition quiet_script :: "script_env \<Rightarrow> bool" where
  "quiet_script env \<longleftrightarrow> (\<forall>s. runs_ok s \<longrightarrow> runs_ok (sv_between env s))
     \<and> (\<forall>(m, ev) \<in> set (sv_events env). \<forall>a. service_ok a \<longrightarrow> service_ok (m a))"

lemma log_loop_ok:
  assumes "\<And>m ev a. (m, ev) \<in> set es \<Longrightarrow> service_ok a \<Longrightarrow> service_ok (m a)" "service_ok a"
  shows "service_ok (snd (log_loop env name i k es a))"
  using assms
proof (induction env name i k es a rule: log_loop.induct)
  case (2 env name i k m ev es a)
  have m: "service_ok (m a)" using "2.prems" by auto
  have rest: "\<And>m ev a. (m, ev) \<in> set es \<Longrightarrow> service_ok a \<Longrightarrow> service_ok (m a)" using "2.prems"(1) by auto
  show ?case
  proof (cases ev)
    case Run_over
    with "2.IH"(1) m rest show ?thesis by (simp add: Let_def)
  next
    case Log_ready
    show ?thesis
    proof (cases "queue_of i (sv_chan env) (m a)")
      case Nil
      with "2.IH"(2) Log_ready m rest show ?thesis by (simp add: Let_def)
    next
      case (Cons c cs)
      with "2.IH"(3) Log_ready on_stream_ok [OF m] rest show ?thesis by (simp add: Let_def case_prod_beta)
    qed
  qed (use m in simp)
qed simp

lemma Subscribe_call:
  assumes "\<And>s. runs_ok s \<Longrightarrow> runs_ok (between s)"
  shows "keeps runs_ok (Subscribe uni os ch between name)"
proof (rule keeps_runs)
  fix r assume r: "runs_ok r"
  have upd: "runs_ok (r\<lparr>r_objs := (r_objs r)[i := (r_objs r ! i)\<lparr>rs_stream := s\<rparr>]\<rparr>)" if "runs_ok r" for r i s
    by (rule runs_kept_ok [OF runs_kept_update that]) simp
  show "runs_ok (snd (Subscribe uni os ch between name r))"
    using r by (auto simp: Subscribe_def Let_def upd assms split: option.split go.split)
qed

lemma keeps_stream_logs:
  assumes "quiet_script env"
  shows "keeps service_ok (stream_logs env name)"
  unfolding stream_logs_def
proof (rule keeps_catch')
  show "keeps service_ok (on_scripts (Subscribe (sv_uni env) (sv_os env) (sv_chan env) (sv_between env) name))"
    using assms by (intro keeps_scripts Subscribe_call) (simp add: quiet_script_def)
  fix x :: "bytes \<times> nat option"
  obtain content run where x: "x = (content, run)" by (cases x)
  have ok: "service_ok (snd (log_loop env name i 2 (sv_events env) a))" if "service_ok a" for i a
    using assms that by (intro log_loop_ok) (auto simp: quiet_script_def)
  show "keeps service_ok (case x of (content, run) \<Rightarrow> \<lambda>a.
         let status = statusPayload (Status (sv_uni env) name (app_scripts a));
             leave = (\<lambda>a. case run of None \<Rightarrow> a | Some i \<Rightarrow> on_stream i (unsubscribe (sv_chan env)) a) in
         if \<not> sv_send env 0 then (Ok [], leave a)
         else if \<not> sv_send env 1 then (Ok [init_frame content], leave a)
         else (case run of
                 None \<Rightarrow> (Ok [init_frame content, status], a)
               | Some i \<Rightarrow>
                   (case log_loop env name i 2 (sv_events env) a of
                      (fs, a) \<Rightarrow> (Ok (init_frame content # status # fs), leave a))))"
  proof (cases run)
    case None
    then show ?thesis by (simp add: x hoare_def Let_def)
  next
    case (Some i)
    then show ?thesis using ok [of _ i]
      by (auto simp: x hoare_def Let_def on_stream_ok split: prod.split) (metis on_stream_ok snd_conv)
  qed
qed (intro service_intros)

lemma keeps_handleScriptLogsWS: "quiet_script env \<Longrightarrow> keeps service_ok (handleScriptLogsWS env r)"
  unfolding handleScriptLogsWS_def Let_def by (intro service_intros keeps_stream_logs)

section \<open>Access control and the table of routes\<close>

lemma keeps_auth:
  assumes "\<And>u. attempts_ok u \<Longrightarrow> attempts_ok (snd (f u)) \<and> au_SecretKey (snd (f u)) = au_SecretKey u"
  shows "keeps service_ok (on_auth f)"
proof (rule hoareI)
  fix a assume "service_ok a"
  with assms [of "app_auth a"]
  show "on_auth f a = (Ok x, t) \<Longrightarrow> service_ok t" "on_auth f a = (Err e, t) \<Longrightarrow> service_ok t" "on_auth f a = (Panic, t) \<Longrightarrow> service_ok t"
    for x e t by (auto simp: on_auth_def service_ok_def split: prod.splits)
qed

lemma auth_key:
  "au_SecretKey (snd (handleLogin present clk raw r u)) = au_SecretKey u"
  "au_SecretKey (snd (handleLogout r u)) = au_SecretKey u"
  "au_SecretKey (snd (requireBrowserSession unescape now r u)) = au_SecretKey u"
  using handleLogin_key [OF prod.collapse [symmetric]]
  by (simp_all add: handleLogout_def requireBrowserSession_def userBySessionToken_def deleteSessionToken_def Let_def split: option.split)

lemma keeps_access:
  "keeps service_ok (on_auth (handleLogin present clk raw r))" "keeps service_ok (on_auth (handleLogout r))"
  "keeps service_ok (on_auth (requireBrowserSession unescape now r))"
  by (intro keeps_auth conjI auth_key; rule auth_step_attempts; auto intro: auth_step.intros)+

lemma keeps_answers: "keeps I m \<Longrightarrow> keeps I (answers m)"
  unfolding answers_def by (intro keeps_intros)

lemma keeps_by_app: "(\<And>env r. keeps I (h env r)) \<Longrightarrow> keeps I (by_app h env v name r)"
  by (simp add: by_app_def keeps_answers)

lemma keeps_by_script: "(\<And>env name r. keeps I (h env name r)) \<Longrightarrow> keeps I (by_script h env v name r)"
  by (simp add: by_script_def keeps_answers)

lemmas keeps_endpoints = keeps_pages keeps_handleQRRoot keeps_handleQR keeps_handleAccountsRoot keeps_account_handlers
  keeps_wx_handlers keeps_handleAccountCall keeps_script_handlers keeps_handleScriptLogs keeps_access

lemma public_keeps:
  assumes "rt \<in> set public_routes"
  shows "keeps service_ok (rt_Endpoint rt env v name r)"
  using assms
  by (auto simp: public_routes_def on_path_def fixed_def login_page_def logout_page_def static_files_def
      intro!: keeps_basic keeps_by_app keeps_answers keeps_endpoints)

lemma protected_keeps:
  assumes "rt \<in> set protected_routes" "quiet_script (se_script env)"
  shows "keeps service_ok (rt_Endpoint rt env v name r)"
proof -
  have sign: "keeps service_ok (activity_sign env v name r)"
    by (auto simp: activity_sign_def intro!: keeps_basic keeps_answers split: option.split)
  show ?thesis
    using assms(1)
    by (auto simp: protected_routes_def on_path_def auth_me_def features_def script_socket_def sign
        intro!: keeps_basic keeps_by_app keeps_by_script keeps_answers keeps_endpoints keeps_handleScriptLogsWS [OF assms(2)])
qed

lemma route_of_in: "route_of e r rts = Some rt \<Longrightarrow> rt \<in> set rts"
  by (auto simp: route_of_def find_Some_iff)

lemma keeps_dispatch:
  assumes "quiet_script (se_script env)"
  shows "keeps service_ok (dispatch env r)"
proof -
  have pub: "keeps service_ok (run_route env v r rt)" if "route_of (se_empty env) r public_routes = Some rt" for v rt
    unfolding run_route_def by (rule public_keeps [OF route_of_in [OF that]])
  have prot: "keeps service_ok (guarded env r rt)" if "route_of (se_empty env) r protected_routes = Some rt" for rt
    unfolding guarded_def run_route_def
    by (intro keeps_bind keeps_access) (simp add: keeps_basic protected_keeps [OF route_of_in [OF that] assms] split: verdict.split)
  show ?thesis by (simp add: dispatch_def keeps_basic pub prot split: option.split)
qed

lemma serve_ok: "quiet_script (se_script env) \<Longrightarrow> service_ok a \<Longrightarrow> service_ok (snd (serve env r a))"
  using keepsD [OF keeps_dispatch, of env a r] by (auto simp: serve_def split: prod.splits go.splits)

section \<open>The running service\<close>

text \<open>
  What happens to a service: requests, rounds of the keep-alive loop, the check at the start,
  and what the runner does by itself (turns of the scheduler, output and ends of commands).
  Each takes the state as a whole, so that what overlaps in time comes one after the other
  here; only a websocket stays open while others act, which \<open>sv_between\<close> and
  \<open>sv_events\<close> say.
\<close>

inductive service_step :: "app \<Rightarrow> app \<Rightarrow> bool" where
  request: "(\<And>s. (runner_step (sv_os (se_script env)) (sv_uni (se_script env)) (sv_zone (se_script env)))\<^sup>*\<^sup>* s
      (sv_between (se_script env) s)) \<Longrightarrow>
    (\<And>m ev b. (m, ev) \<in> set (sv_events (se_script env)) \<Longrightarrow> service_step\<^sup>*\<^sup>* b (m b)) \<Longrightarrow>
    service_step a (snd (serve env r a))"
| round: "service_step a (snd (refreshDueAccounts env a))"
| startup: "service_step a (snd (RefreshAccountsOnStartup fault env del a))"
| scripts: "runner_step os uni zone (app_scripts a) s \<Longrightarrow> service_step a (a\<lparr>app_scripts := s\<rparr>)"

text \<open>Everything that can come of a start on a database that is in order.\<close>

inductive service_reachable :: "app \<Rightarrow> bool" where
  start: "NewApp st uni cfg = Ok a \<Longrightarrow> db_ok (app_db a) \<Longrightarrow> service_reachable a"
| step: "service_reachable a \<Longrightarrow> service_step a b \<Longrightarrow> service_reachable b"

inductive_simps service_reachable_iff: "service_reachable b"

lemma keeps_keep_accounts: "keeps service_ok (keep_accounts env n accs)"
proof (induction accs arbitrary: n)
  case (Cons acc accs)
  have w: "keeps service_ok (keep_worker env n acc)" for n
    unfolding keep_worker_def
    by (intro service_intros) (simp_all add: setKeepAliveRetry_def clearKeepAliveRetry_def service_ok_updates)
  have skip: "service_ok b = service_ok a" if "keepAliveShouldSkip acc now a = (x, b)" for now a x b
    using that by (auto simp: keepAliveShouldSkip_def clearKeepAliveRetry_def service_ok_updates split: if_splits option.splits)
  note go = keepsD [OF Cons.IH]
  have worker: "keeps service_ok (act_bind (keep_worker env n acc) (\<lambda>_. keep_accounts env (Suc n) accs))"
    by (intro keeps_bind w Cons.IH)
  show ?case
  proof (rule keeps_total)
    fix a assume a: "service_ok a"
    obtain x b where k: "keepAliveShouldSkip acc (ke_clock env n) a = (x, b)"
      by (cases "keepAliveShouldSkip acc (ke_clock env n) a")
    with a skip have b: "service_ok b" by blast
    show "service_ok (snd (keep_accounts env n (acc # accs) a))"
      using a b go [OF _ prod.collapse [symmetric]] keepsD [OF worker b prod.collapse [symmetric]] by (simp add: k)
  qed
qed (simp add: hoare_def)

lemma keeps_startup_accounts: "keeps service_ok (startup_accounts env del n accs)"
proof (induction accs arbitrary: n)
  case (Cons acc accs)
  have del: "service_ok (snd (db_write f (DeleteAccount i) a))" if "service_ok a" for f i a
    using keepsD [OF keeps_db_write [OF DeleteAccount_ok] that prod.collapse [symmetric]] .
  have rest: "keeps service_ok (\<lambda>a. if s \<noteq> ''expired'' then startup_accounts env del (Suc n) accs a
      else startup_accounts env del (Suc n) accs (snd (db_write (del n) (DeleteAccount (a_ID acc)) a)))" for s
    by (rule keeps_total) (simp add: keepsD [OF Cons.IH _ prod.collapse [symmetric]] keepsD [OF Cons.IH del prod.collapse [symmetric]])
  have "keeps service_ok (act_bind (refreshLiveness (env n) acc) (\<lambda>s a. if s \<noteq> ''expired'' then startup_accounts env del (Suc n) accs a
      else startup_accounts env del (Suc n) accs (snd (db_write (del n) (DeleteAccount (a_ID acc)) a))))"
    by (intro keeps_bind keeps_refresh rest)
  then show ?case by (simp add: hoare_def)
qed (simp add: hoare_def)

lemma rounds_ok:
  "service_ok a \<Longrightarrow> service_ok (snd (refreshDueAccounts env a))"
  "service_ok a \<Longrightarrow> service_ok (snd (RefreshAccountsOnStartup fault env' del a))"
proof -
  have "keeps service_ok (refreshDueAccounts env)" "keeps service_ok (RefreshAccountsOnStartup fault env' del)"
    unfolding refreshDueAccounts_def RefreshAccountsOnStartup_def
    by (intro service_intros keeps_keep_accounts keeps_startup_accounts)+
  then show "service_ok a \<Longrightarrow> service_ok (snd (refreshDueAccounts env a))"
    "service_ok a \<Longrightarrow> service_ok (snd (RefreshAccountsOnStartup fault env' del a))"
    using keepsD prod.collapse by metis+
qed

lemma service_step_ok: "service_step a b \<Longrightarrow> service_ok a \<Longrightarrow> service_ok b"
proof (induction rule: service_step.induct)
  case (request env a r)
  have m: "service_ok (m b)" if "(m, ev) \<in> set (sv_events (se_script env))" "service_ok b" for m ev b
    using request(2) [OF that(1), of b] that(2) by (induction rule: rtranclp_induct) auto
  have "quiet_script (se_script env)"
    using runner_steps_ok [OF request(1)] m by (auto simp: quiet_script_def)
  with request show ?case by (simp add: serve_ok)
next
  case (scripts os uni zone a s)
  then show ?case using runner_step_ok by (auto simp: service_ok_def intro: service_ok_updates(2))
qed (simp_all add: rounds_ok)

lemma NewApp_ok:
  assumes "NewApp st uni cfg = Ok a" "db_ok (app_db a)"
  shows "service_ok a"
  using assms
  by (auto simp: NewApp_def Let_def NewPool_def service_ok_def attempts_ok_def started_ok app_db_def go_bind_Ok_iff
      split: if_splits)


end
