(* ===== verification/Service_Safety.thy ===== *)
theory Service_Safety
  imports Service_Props
begin

text \<open>
  What the outside can do to the service: which route a request takes, what a request without
  a key or a session changes, and which files are given out.
\<close>

section \<open>At most one route\<close>

text \<open>Two patterns that no path matches both.\<close>

fun apart :: "segment list \<Rightarrow> segment list \<Rightarrow> bool" where
  "apart [] [] = False"
| "apart (x # p) (y # q) =
     (if x = Rest \<or> y = Rest then False
      else (x \<noteq> y \<and> x \<noteq> Param \<and> y \<noteq> Param) \<or> apart p q)"
| "apart _ _ = True"

lemma match_path_ends:
  "match_path e [] ss = None \<longleftrightarrow> ss \<noteq> []" "match_path e (x # p) [] = None"
  by (cases ss; simp) (cases x; simp)

lemma apart_match: "apart p q \<Longrightarrow> match_path e p ss \<noteq> None \<Longrightarrow> match_path e q ss = None"
proof (induction p q arbitrary: ss rule: apart.induct)
  case (2 x p y q)
  then show ?case by (cases ss; cases x; cases y) (auto split: if_splits)
qed (auto simp: match_path_ends)

definition all_routes :: "route list" where
  "all_routes = public_routes @ protected_routes"

definition shape_of :: "route \<Rightarrow> string list \<times> segment list" where
  "shape_of rt = (rt_Methods rt, rt_Path rt)"

definition shapes_apart :: "string list \<times> segment list \<Rightarrow> string list \<times> segment list \<Rightarrow> bool" where
  "shapes_apart x y \<longleftrightarrow> apart (snd x) (snd y) \<or> list_all (\<lambda>m. m \<notin> set (fst y)) (fst x)"

lemma table_apart: "sorted_wrt shapes_apart (map shape_of all_routes)"
  by code_simp

lemma routes_once:
  assumes "i < length all_routes" "j < length all_routes" "i < j"
    and "route_params e r (all_routes ! i) \<noteq> None"
  shows "route_params e r (all_routes ! j) = None"
proof -
  have "shapes_apart (shape_of (all_routes ! i)) (shape_of (all_routes ! j))"
    using sorted_wrt_nth_less [OF table_apart, of i j] assms(1-3) by simp
  with assms(4) apart_match [of "rt_Path (all_routes ! i)" "rt_Path (all_routes ! j)" e] show ?thesis
    by (auto simp: shapes_apart_def shape_of_def route_params_def list_all_iff split: if_splits option.splits)
qed

text \<open>
  C17: No request fits two routes: which handler serves it does not depend on the order in which
  routes are entered or looked up, and no protected handler can be reached past the check
  through a public route.
\<close>

theorem routes_unambiguous:
  assumes "i < length all_routes" "j < length all_routes"
    and "route_params e r (all_routes ! i) \<noteq> None" "route_params e r (all_routes ! j) \<noteq> None"
  shows "i = j"
  using routes_once [of i j e r] routes_once [of j i e r] assms by (cases i j rule: linorder_cases) auto

section \<open>Requests without a key or a session\<close>

text \<open>From \<open>a\<close> to \<open>b\<close> only the access control has changed, and not its key.\<close>

definition auth_only :: "app \<Rightarrow> app \<Rightarrow> bool" where
  "auth_only a b \<longleftrightarrow> b = a\<lparr>app_auth := app_auth b\<rparr> \<and> au_SecretKey (app_auth b) = au_SecretKey (app_auth a)"

lemma auth_only_refl: "auth_only a a"
  by (simp add: auth_only_def)

lemma keeps_auth_only:
  assumes "\<And>u. au_SecretKey (snd (f u)) = au_SecretKey u"
  shows "keeps (auth_only a) (on_auth f)"
proof (rule keeps_total)
  fix b assume b: "auth_only a b"
  obtain x u where f: "f (app_auth b) = (x, u)" by (cases "f (app_auth b)")
  with b assms [of "app_auth b"] show "auth_only a (snd (on_auth f b))"
    by (auto simp: auth_only_def on_auth_def intro: app.equality) (metis app.surjective app.update_convs(5))
qed

lemma public_auth_only:
  assumes "rt \<in> set public_routes"
  shows "keeps (auth_only a) (rt_Endpoint rt env v name r)"
  using assms
  by (auto simp: public_routes_def on_path_def fixed_def login_page_def logout_page_def static_files_def
      intro!: keeps_basic keeps_by_app keeps_answers keeps_pages keeps_auth_only auth_key)

text \<open>The request carries neither the key nor the token of a live session.\<close>

definition stranger :: "serve_env \<Rightarrow> request \<Rightarrow> app \<Rightarrow> bool" where
  "stranger env r a \<longleftrightarrow> authEnabled (app_auth a) \<and> trimSpace (rq_Header r secretKeyHeader) \<noteq> au_SecretKey (app_auth a)
     \<and> (case rq_Cookie r sessionCookie of None \<Rightarrow> True
        | Some v \<Rightarrow> \<not> valid_session (se_clock env 0) (se_unescape env v) (app_auth a))"

lemma stranger_refused:
  assumes "stranger env r a"
  shows "\<exists>u. requireBrowserSession (se_unescape env) (se_clock env 0) r (app_auth a)
    = (Answer (with_cookie (clearSessionCookie (au_CookieSecure (app_auth a)))
        (if isAPIRequest (rq_Path r) then writeError 401 ''please log in first''
         else http_Redirect (''/login?next='' @ QueryEscape (rq_RequestURI r)) 303)), u)"
  using assms
  by (auto simp: stranger_def requireBrowserSession_def userBySessionToken_def deleteSessionToken_def valid_session_def Let_def
      split: option.split)

text \<open>
  C2: A request that carries neither the secret key nor the token of a live session changes
  nothing of the service but its login state, whatever its method and path: no account, no
  session with the remote service, no script, no file. On a protected route it is answered
  with status 401 or sent to the login page, without any data.
\<close>

theorem stranger_changes_nothing:
  assumes "stranger env r a" "serve env r a = (o', b)"
  shows "b = a\<lparr>app_auth := app_auth b\<rparr> \<and> au_SecretKey (app_auth b) = au_SecretKey (app_auth a)
    \<and> (route_of (se_empty env) r public_routes = None \<and> route_of (se_empty env) r protected_routes \<noteq> None \<longrightarrow>
        (\<exists>an. o' = Some an \<and> (an_Status an = 401 \<and> an_Body an = JSON (apiEnvelope 401 ''please log in first'' GNil)
           \<or> an_Status an = 303 \<and> an_Body an = No_body)))"
proof -
  obtain u where g: "requireBrowserSession (se_unescape env) (se_clock env 0) r (app_auth a)
    = (Answer (with_cookie (clearSessionCookie (au_CookieSecure (app_auth a)))
        (if isAPIRequest (rq_Path r) then writeError 401 ''please log in first''
         else http_Redirect (''/login?next='' @ QueryEscape (rq_RequestURI r)) 303)), u)" (is "_ = (Answer ?an, u)")
    using stranger_refused [OF assms(1)] by blast
  have key: "au_SecretKey u = au_SecretKey (app_auth a)"
    using auth_key(3) [of "se_unescape env" "se_clock env 0" r "app_auth a"] g by simp
  have guarded: "guarded env r rt a = (Ok (Some ?an), a\<lparr>app_auth := u\<rparr>)" for rt
    by (simp add: guarded_def on_auth_def g act_bind_def)
  have body: "an_Status ?an = 401 \<and> an_Body ?an = JSON (apiEnvelope 401 ''please log in first'' GNil)
      \<or> an_Status ?an = 303 \<and> an_Body ?an = No_body"
    by (simp add: with_cookie_def writeError_def writeRawJSON_def plain_answer_def http_Redirect_def)
  show ?thesis
  proof (cases "route_of (se_empty env) r public_routes")
    case (Some rt)
    obtain g t where d: "dispatch env r a = (g, t)" by (cases "dispatch env r a")
    with Some have "run_route env (Pass None) r rt a = (g, t)" by (simp add: dispatch_def)
    then have "auth_only a t"
      using keepsD [OF public_auth_only [OF route_of_in [OF Some]] auth_only_refl] by (auto simp: run_route_def)
    with d assms(2) Some show ?thesis by (cases g) (auto simp: serve_def auth_only_def)
  next
    case None
    then show ?thesis using assms(2) key guarded body
      by (cases "route_of (se_empty env) r protected_routes") (auto simp: serve_def dispatch_def)
  qed
qed

end
