(* ===== verification/Handler_Props.thy ===== *)
theory Handler_Props
  imports Service_Safety
begin

text \<open>
  Which answers a handler can give, whatever the state: a calculus that follows the handler to
  its answers, the interface of answer classes that take in all errors, and from it which files
  are given out.
\<close>

section \<open>Files that are given out\<close>

text \<open>The path names an element of the directory itself.\<close>

definition file_in :: "string \<Rightarrow> string \<Rightarrow> bool" where
  "file_in dir f \<longleftrightarrow> (\<exists>n. plain_element n \<and> f =
     (if path_Clean dir = ''.'' then n else if path_Clean dir = ''/'' then ''/'' @ n else path_Clean dir @ CHR ''/'' # n))"

lemma file_in_Join: "plain_element n \<Longrightarrow> dir \<noteq> [] \<Longrightarrow> file_in dir (path_Join [dir, n])"
  by (auto simp: file_in_def path_Join_file)

definition yields :: "('a \<Rightarrow> bool) \<Rightarrow> ('s, 'a) act \<Rightarrow> bool" where
  "yields Q m \<longleftrightarrow> (\<forall>s x t. m s = (Ok x, t) \<longrightarrow> Q x)"

lemma yieldsD: "yields Q m \<Longrightarrow> m s = (Ok x, t) \<Longrightarrow> Q x"
  unfolding yields_def by blast

lemma yields_bind: "(\<And>x. yields Q (k x)) \<Longrightarrow> yields Q (act_bind m k)"
  unfolding yields_def by (metis act_bind_OkE)

lemma yields_catch: "(\<And>e. yields Q (h e)) \<Longrightarrow> (\<And>x. yields Q (k x)) \<Longrightarrow> yields Q (act_catch m h k)"
  unfolding yields_def act_catch_def by (auto split: prod.splits go.splits)

lemma yields_basic: "Q x \<Longrightarrow> yields Q (act_ret x)"
  by (simp add: yields_def)

lemma yields_if: "(b \<Longrightarrow> yields Q m) \<Longrightarrow> (\<not> b \<Longrightarrow> yields Q n) \<Longrightarrow> yields Q (if b then m else n)"
  by simp

lemma yields_cases:
  "(\<And>x y. yields Q (f x y)) \<Longrightarrow> yields Q (case p of (x, y) \<Rightarrow> f x y)"
  "yields Q n \<Longrightarrow> (\<And>x. yields Q (g x)) \<Longrightarrow> yields Q (case o' of None \<Rightarrow> n | Some x \<Rightarrow> g x)"
  "yields Q n \<Longrightarrow> (\<And>x xs. yields Q (h x xs)) \<Longrightarrow> yields Q (case l of [] \<Rightarrow> n | x # xs \<Rightarrow> h x xs)"
  by (auto split: prod.split option.split list.split)

text \<open>Answers that are no file.\<close>

definition no_file :: "answer \<Rightarrow> bool" where
  "no_file an \<longleftrightarrow> (\<forall>f. an_Body an \<noteq> File f)"

lemma no_file_json [simp]:
  "no_file (writeJSON n v)" "no_file (writeRawJSON n v)" "no_file (writeError n s)" "no_file method_err"
  "no_file (http_Redirect u n)" "no_file (with_cookie c an) = no_file an" "no_file (call_answer env f res)"
  by (auto simp: no_file_def writeJSON_def writeRawJSON_def writeError_def method_err_def plain_answer_def http_Redirect_def
      with_cookie_def call_answer_def writeWXAppInvocationError_def split: invoked.split)

text \<open>
  A class of answers that takes in all errors: the checks that handlers begin with stay
  inside it.
\<close>

locale error_answers =
  fixes Q :: "answer \<Rightarrow> bool"
  assumes errors: "400 \<le> n \<Longrightarrow> Q (writeError n s)"
begin

lemma yields_refuse: "400 \<le> n \<Longrightarrow> yields Q (refuse n s)"
  by (simp add: refuse_def yields_basic errors)

lemma yields_fail: "400 \<le> n \<Longrightarrow> yields Q (fail_with env n e)" "400 \<le> n \<Longrightarrow> yields Q (refuse_with senv n e)"
  by (simp_all add: fail_with_def refuse_with_def yields_refuse)

lemma yields_method: "yields Q (act_ret method_err)"
  by (simp add: method_err_def yields_basic errors)

lemma yields_only: "yields Q k \<Longrightarrow> yields Q (only p m r k)"
  by (simp add: only_def yields_refuse yields_method)

lemma yields_decoded: "(\<And>b. yields Q (k b)) \<Longrightarrow> yields Q (decoded env r fs k)"
  by (simp add: decoded_def yields_catch yields_refuse)

lemma yields_body: "(\<And>b. yields Q (k b)) \<Longrightarrow> yields Q (body_of senv r field k)"
  by (simp add: body_of_def yields_catch yields_refuse)

lemma yields_resolve:
  "(\<And>acc. yields Q (k acc)) \<Longrightarrow> yields Q (resolveAccountRef env ref k)"
  "(\<And>acc. yields Q (k acc)) \<Longrightarrow> yields Q (resolveAccountFromQuery env r k)"
  by (simp_all add: resolveAccountFromQuery_def resolveAccountRef_def Let_def yields_refuse yields_fail yields_catch)

lemma yields_call: "(\<And>m. res = Result m \<Longrightarrow> Q (writeJSON 200 (f m))) \<Longrightarrow> yields Q (act_ret (call_answer env f res))"
  by (cases res) (simp_all add: call_answer_def writeWXAppInvocationError_def yields_basic errors)

lemmas checks = yields_refuse yields_fail yields_method yields_only yields_decoded yields_body yields_resolve yields_call

end

interpretation nf: error_answers no_file
  by unfold_locales simp

lemma yields_reply: "Q (writeJSON 200 v) \<Longrightarrow> yields Q (reply v)"
  by (simp add: reply_def yields_basic)

lemmas yields_steps = yields_if yields_catch yields_bind yields_cases yields_reply

lemmas yields_intros = yields_steps nf.checks yields_basic no_file_json

lemma yields_app:
  "yields no_file (handleQRRoot env r)" "yields no_file (handleAccountsRoot env r)" "yields no_file (handleAccountRefresh env r)"
  "yields no_file (handleAccountResync env r)" "yields no_file (handleGetCode env r)" "yields no_file (handleGetPhoneNumber env r)"
  "yields no_file (handleOperateWXData env r)" "yields no_file (handleGetHostSign env r)" "yields no_file (handleAccountCall env r)"
  "yields no_file (handleOpenAPI env r)"
  unfolding handleQRRoot_def handleAccountsRoot_def handleAccountRefresh_def handleAccountResync_def handleGetCode_def
    handleGetPhoneNumber_def handleOperateWXData_def handleGetHostSign_def handleAccountCall_def handleOpenAPI_def
    acceptWXAppRoute_def callWXApp_def refreshAll_def resyncAll_def Let_def
  by (intro yields_intros; simp)+

lemma yields_scripts:
  "yields no_file (handleScriptList env name r)" "yields no_file (handleScriptUpload env name r)"
  "yields no_file (handleScriptRun env name r)" "yields no_file (handleScriptStop env name r)"
  "yields no_file (handleScriptLogs env name r)" "yields no_file (handleScriptSchedule env name r)"
  "yields no_file (handleScriptUnschedule env name r)" "yields no_file (handleScriptDelete env name r)"
  unfolding handleScriptList_def handleScriptUpload_def handleScriptRun_def handleScriptStop_def handleScriptLogs_def
    handleScriptSchedule_def handleScriptUnschedule_def handleScriptDelete_def reply_status_def Let_def
  by (intro yields_intros; simp)+

text \<open>The directories of which files are given out; in two of them only files that are there.\<close>

definition served :: "app \<Rightarrow> string \<Rightarrow> bool" where
  "served a f \<longleftrightarrow> file_in (res_Templates (app_res a)) f \<or> file_in (au_Templates (app_auth a)) f
     \<or> ((file_in (res_QR (app_res a)) f \<or> file_in (res_Avatars (app_res a)) f) \<and> map_of (app_files a) f \<noteq> None)"

definition dirs_given :: "app \<Rightarrow> bool" where
  "dirs_given a \<longleftrightarrow> res_Templates (app_res a) \<noteq> [] \<and> au_Templates (app_auth a) \<noteq> [] \<and> res_QR (app_res a) \<noteq> []
     \<and> res_Avatars (app_res a) \<noteq> [] \<and> map_of (app_files a) (path_Join [res_Avatars (app_res a), ''..'']) = None"

lemma no_file_bodies [simp]:
  "an_Body (writeJSON n v) \<noteq> File f" "an_Body (writeError n s) \<noteq> File f" "an_Body method_err \<noteq> File f" "an_Body (http_Redirect u n) \<noteq> File f"
  "an_Body (writeRawJSON n v) \<noteq> File f"
  using no_file_json unfolding no_file_def by blast+

lemma page_served:
  assumes "dirs_given a"
  shows "handleIndex env r a = (Ok an, t) \<Longrightarrow> an_Body an = File f \<Longrightarrow> served a f"
    "handleScan env r a = (Ok an, t) \<Longrightarrow> an_Body an = File f \<Longrightarrow> served a f"
    "handleApps env r a = (Ok an, t) \<Longrightarrow> an_Body an = File f \<Longrightarrow> served a f"
    "an_Body (fst (handleLogin present clk raw r (app_auth a))) = File f \<Longrightarrow> served a f"
proof -
  have p: "plain_element ''index.html''" "plain_element ''scan.html''" "plain_element ''apps.html''" "plain_element ''login.html''"
    by (simp_all add: plain_element_def)
  have t: "file_in (res_Templates (app_res a)) (path_Join [res_Templates (app_res a), n])"
    "file_in (au_Templates (app_auth a)) (path_Join [au_Templates (app_auth a), n])" if "plain_element n" for n
    using assms file_in_Join [OF that] by (auto simp: dirs_given_def)
  show "handleIndex env r a = (Ok an, t) \<Longrightarrow> an_Body an = File f \<Longrightarrow> served a f"
    "handleScan env r a = (Ok an, t) \<Longrightarrow> an_Body an = File f \<Longrightarrow> served a f"
    "handleApps env r a = (Ok an, t) \<Longrightarrow> an_Body an = File f \<Longrightarrow> served a f"
    using t(1) [OF p(1)] t(1) [OF p(2)] t(1) [OF p(3)]
    by (auto simp: handleIndex_def handleScan_def handleApps_def only_def refuse_def served_def serveFileOrText_def plain_answer_def
        split: if_splits)
  have au: "userBySessionToken now tok (app_auth a) = (u, b) \<Longrightarrow> au_Templates b = au_Templates (app_auth a)" for now tok u b
    by (auto simp: userBySessionToken_def deleteSessionToken_def split: option.splits if_splits)
  show "an_Body (fst (handleLogin present clk raw r (app_auth a))) = File f \<Longrightarrow> served a f"
    using t(2) [OF p(4)] au
    by (auto simp: handleLogin_def Let_def with_cookie_def served_def serveFileOrText_def plain_answer_def
        split: if_splits option.splits prod.splits go.splits)
qed

lemma qr_plain: "CHR ''/'' \<notin> set i \<Longrightarrow> plain_element (i @ ''.jpg'')"
  by (cases i) (auto simp: plain_element_def append_eq_Cons_conv)

lemma yields_no_image:
  assumes "\<And>i. split_on (CHR ''/'') (trimPrefix ''/qr/'' (rq_Path r)) \<noteq> [i, ''image'']"
  shows "yields no_file (handleQR env r)"
proof -
  let ?ps = "split_on (CHR ''/'') (trimPrefix ''/qr/'' (rq_Path r))"
  consider i act where "?ps = [i, act]" "act \<noteq> ''image''" | "\<forall>i act. ?ps \<noteq> [i, act]" using assms by blast
  then show ?thesis
  proof cases
    case 1
    then show ?thesis unfolding handleQR_def by (simp del: split_on.simps) (intro conjI impI yields_intros; simp)
  next
    case 2
    then have "handleQR env r = refuse 404 ''qr session not found''"
      unfolding handleQR_def by (auto split: list.split)
    then show ?thesis by (simp add: nf.yields_refuse)
  qed
qed

lemma qr_served:
  assumes "dirs_given a" "handleQR env r a = (Ok an, t)" "an_Body an = File f"
  shows "served a f"
proof -
  obtain i where i: "split_on (CHR ''/'') (trimPrefix ''/qr/'' (rq_Path r)) = [i, ''image'']"
    using yieldsD [OF yields_no_image assms(2)] assms(3) by (auto simp: no_file_def)
  have "CHR ''/'' \<notin> set i" using split_on_no_sep [of i "CHR ''/''" "trimPrefix ''/qr/'' (rq_Path r)"] i by simp
  then have "file_in (res_QR (app_res a)) (qrPath (app_res a) i)"
    unfolding qrPath_def using assms(1) by (intro file_in_Join qr_plain) (simp_all add: dirs_given_def)
  with assms(2,3) show ?thesis
    by (auto simp: handleQR_def i refuse_def plain_answer_def served_def split: if_splits)
qed

lemma base_elements: "path_Base p \<noteq> ''.'' \<Longrightarrow> path_Base p \<noteq> ''/'' \<Longrightarrow> CHR ''/'' \<notin> set (path_Base p) \<and> path_Base p \<noteq> []"
proof (intro conjI)
  let ?q = "rev (dropWhile (\<lambda>c. c = CHR ''/'') (rev p))"
  assume b: "path_Base p \<noteq> ''.''" "path_Base p \<noteq> ''/''"
  then have p: "p \<noteq> []" "?q \<noteq> []" by (auto simp: path_Base_def Let_def split: if_splits)
  then have e: "path_Base p = rev (takeWhile (\<lambda>c. c \<noteq> CHR ''/'') (rev ?q))"
    unfolding path_Base_def Let_def by (simp only: p if_False simp_thms)
  then show "CHR ''/'' \<notin> set (path_Base p)" by (auto dest: set_takeWhileD)
  obtain c cs where "dropWhile (\<lambda>c. c = CHR ''/'') (rev p) = c # cs" "c \<noteq> CHR ''/''"
    using p(2) hd_dropWhile [of "\<lambda>c. c = CHR ''/''" "rev p"] by (cases "dropWhile (\<lambda>c. c = CHR ''/'') (rev p)") auto
  then show "path_Base p \<noteq> []" using e by simp
qed

lemma avatar_served:
  assumes "dirs_given a" "handleAccountAvatar env r a = (Ok an, t)" "an_Body an = File f"
  shows "served a f"
proof -
  have db: "snd (db_read x q a) = a" for x and q :: "db \<Rightarrow> 'b go" by (cases x) simp_all
  obtain acc where s: "serveAvatar acc a = (Ok an, t)"
    using assms(2,3) db [of "ev_db env 0"]
    by (auto simp: handleAccountAvatar_def only_def refuse_def resolveAccountFromQuery_def resolveAccountRef_def Let_def
        act_catch_def fail_with_def db_read_def split: if_splits go.splits option.splits prod.splits)
  from s assms(3) obtain v c where c: "c \<in> set (localAvatarCandidates (app_res a) v)" "map_of (app_files a) c \<noteq> None" "c = f"
    by (auto simp: serveAvatar_def refuse_def Let_def plain_answer_def filter_eq_Cons_iff split: option.splits if_splits list.splits)
      (metis in_set_conv_decomp)
  let ?b = "path_Base (map (\<lambda>c. if c = CHR 0x5C then CHR ''/'' else c) (trimSpace v))"
  from c have f: "f = path_Join [res_Avatars (app_res a), ?b]" and b: "?b \<noteq> ''.''" "?b \<noteq> ''/''"
    by (auto simp: localAvatarCandidates_def Let_def split: if_splits)
  moreover have "?b \<noteq> ''..''" using c(2,3) f assms(1) by (auto simp: dirs_given_def)
  ultimately have "plain_element ?b" using base_elements [of "map (\<lambda>c. if c = CHR 0x5C then CHR ''/'' else c) (trimSpace v)"]
    by (simp add: plain_element_def)
  then have "file_in (res_Avatars (app_res a)) f" unfolding f using assms(1) by (intro file_in_Join) (simp_all add: dirs_given_def)
  with c(2,3) show ?thesis by (simp add: served_def)
qed

text \<open>What other software answers is no file of the service.\<close>

definition outside_answers :: "serve_env \<Rightarrow> bool" where
  "outside_answers env \<longleftrightarrow> no_file (se_static env) \<and> no_file (ev_docs (se_app env))
     \<and> (case sv_accept (se_script env) of None \<Rightarrow> True | Some an \<Rightarrow> no_file an)
     \<and> (case se_unrouted env of None \<Rightarrow> True | Some an \<Rightarrow> no_file an)"

lemma answers_Ok: "answers m s = (Ok o', t) \<longleftrightarrow> (\<exists>an. m s = (Ok an, t) \<and> o' = Some an)"
  by (cases "m s"; cases "fst (m s)") (auto simp: answers_def act_bind_def)

lemma on_auth_Ok: "on_auth f a = (Ok x, t) \<longleftrightarrow> fst (f (app_auth a)) = x \<and> t = a\<lparr>app_auth := snd (f (app_auth a))\<rparr>"
  by (auto simp: on_auth_def split: prod.splits)

lemma yields_socket: "outside_answers env \<Longrightarrow> yields no_file (handleScriptLogsWS (se_script env) r)"
  unfolding handleScriptLogsWS_def Let_def outside_answers_def
  by (auto intro!: yields_intros simp: no_file_def plain_answer_def split: option.splits)

lemma handleSign_no_file: "handleActivitySign n bs r = Some (Ok an) \<Longrightarrow> no_file an"
  by (auto simp: handleActivitySign_def Let_def split: if_splits go.splits) (metis go.exhaust no_file_json(1,3))

lemma public_served:
  assumes "dirs_given a" "outside_answers env" "rt \<in> set public_routes"
    and "rt_Endpoint rt env v name r a = (Ok (Some an), t)" "an_Body an = File f"
  shows "served a f"
proof -
  have docs: "yields no_file (handleDocs (se_app env) r)"
    unfolding handleDocs_def using assms(2) by (intro yields_intros) (simp_all add: outside_answers_def)
  have logout: "no_file (fst (handleLogout r u))" for u
    by (simp add: handleLogout_def Let_def split: option.split)
  have ready: "no_file handleReady" by (simp add: handleReady_def)
  have static: "no_file (se_static env)" using assms(2) by (simp add: outside_answers_def)
  show ?thesis
    using assms(3-5) page_served(4) [OF assms(1)] yieldsD [OF docs] yieldsD [OF yields_app(10)] logout ready static
    by (fastforce simp: public_routes_def on_path_def fixed_def login_page_def logout_page_def static_files_def by_app_def
        answers_Ok on_auth_Ok no_file_def)
qed

lemma protected_served:
  assumes "dirs_given a" "outside_answers env" "rt \<in> set protected_routes"
    and "rt_Endpoint rt env v name r a = (Ok (Some an), t)" "an_Body an = File f"
  shows "served a f"
proof -
  have me: "no_file (handleAuthMe v r u)" for u by (simp add: handleAuthMe_def split: option.split)
  have ft: "no_file (handleFeatures r)" by (simp add: handleFeatures_def Let_def)
  have none: "\<not> no_file an" using assms(5) by (simp add: no_file_def)
  note files = page_served(1-3) [OF assms(1) _ assms(5)] qr_served [OF assms(1) _ assms(5)] avatar_served [OF assms(1) _ assms(5)]
  note others = yields_app [THEN yieldsD] yields_scripts [THEN yieldsD] yieldsD [OF yields_socket [OF assms(2)]]
  show ?thesis
    using assms(3,4) none
    by (auto simp: protected_routes_def on_path_def by_app_def by_script_def auth_me_def features_def activity_sign_def
        script_socket_def answers_Ok me ft split: option.splits intro: files dest: others handleSign_no_file)
qed

lemma guard_no_file:
  "requireBrowserSession unescape now r u = (v, u') \<Longrightarrow> (case v of Pass _ \<Rightarrow> True | Answer an \<Rightarrow> no_file an)"
  by (auto simp: requireBrowserSession_def Let_def split: if_splits option.splits prod.splits)


end
