(* ===== verification/Handler_Flows.thy ===== *)
theory Handler_Flows
  imports Handler_Props
begin

text \<open>
  What single handlers achieve: a scan becomes an account, an expired account is not called,
  an upload changes one script only, and a websocket shows the log as it is written.
\<close>

section \<open>From a scan to an account\<close>

lemma on_session_Ok: "on_session i s m a = (Ok x, t) \<longleftrightarrow>
    fst (m s) = Ok x \<and> t = (if map_of (app_qr a) i = None then a else a\<lparr>app_qr := AList.update i (snd (m s)) (app_qr a)\<rparr>)"
  by (cases "m s") (auto simp: on_session_def)

lemma resolveAvatar_frame:
  "resolveAvatar f w o' ui a = (v, b) \<Longrightarrow> b = a\<lparr>app_files := app_files b\<rparr>"
  by (auto simp: resolveAvatar_def Let_def split: if_splits prod.splits)

lemma catch_cases:
  assumes "act_catch m h k s = (Ok y, u)"
  obtains x t where "m s = (Ok x, t)" "k x t = (Ok y, u)" | e t where "m s = (Err e, t)" "h e t = (Ok y, u)"
  using assms by (cases "m s"; cases "fst (m s)") auto

lemma bind_cases:
  assumes "act_bind m k s = (Ok y, u)"
  obtains x t where "m s = (Ok x, t)" "k x t = (Ok y, u)"
  using assms by (cases "m s"; cases "fst (m s)") (auto simp: act_bind_def)

lemma storeFromScan_facts:
  assumes "storeFromScan env lb creds ui a = (Ok acc, b)" "db_ok (app_db a)"
  shows "GetAccountByOpenID (c_OpenID creds) (app_db b) = Ok acc" "a_LoginBuffer acc = lb" "a_Status acc = Some ''alive''"
    "a_Credentials acc = json_column (Some (ToMap (secs (ev_clock env 2)) creds))"
    "\<And>l. l \<noteq> c_OpenID creds \<Longrightarrow> GetAccountByOpenID l (app_db b) = GetAccountByOpenID l (app_db a)"
    "sessions (app_db b) = sessions (app_db a)" "app_qr b = app_qr a" "app_res b = app_res a"
proof -
  obtain v c where v: "resolveAvatar (ev_fetch env 0) (ev_write env 0) (c_OpenID creds) ui a = (v, c)"
    by (cases "resolveAvatar (ev_fetch env 0) (ev_write env 0) (c_OpenID creds) ui a")
  have c: "app_db c = app_db a" "app_qr c = app_qr a" "app_res c = app_res a" by (subst resolveAvatar_frame [OF v], simp)+
  let ?n = "stringPtrMaybe (pickNickname ui (c_Nickname creds))"
  obtain g d where u: "UpsertAccount (secs (ev_clock env 3)) (c_OpenID creds) lb ?n ?n (stringPtrMaybe v) ui
      (Some (ToMap (secs (ev_clock env 2)) creds)) (Some ''alive'') (app_db c) = (g, d)" by fastforce
  have "g = Ok acc \<and> b = set_db d c"
    using assms(1) u by (cases "ev_db env 0"; cases "ev_db env 1"; cases g) (auto simp: storeFromScan_def v Let_def act_bind_def)
  with UpsertAccount_facts [OF _ u] assms(2) c
  show "GetAccountByOpenID (c_OpenID creds) (app_db b) = Ok acc" "a_LoginBuffer acc = lb" "a_Status acc = Some ''alive''"
    "a_Credentials acc = json_column (Some (ToMap (secs (ev_clock env 2)) creds))"
    "\<And>l. l \<noteq> c_OpenID creds \<Longrightarrow> GetAccountByOpenID l (app_db b) = GetAccountByOpenID l (app_db a)"
    "sessions (app_db b) = sessions (app_db a)" "app_qr b = app_qr a" "app_res b = app_res a" by auto
qed

definition confirms :: "request \<Rightarrow> string \<Rightarrow> bool" where
  "confirms r i \<longleftrightarrow> rq_Method r = ''POST'' \<and> split_on (CHR ''/'') (trimPrefix ''/qr/'' (rq_Path r)) = [i, ''confirm'']"

lemma status_200 [simp]:
  "an_Status (writeJSON n v) = n" "an_Status (writeError n s) = n" "an_Status method_err = 405"
  by (simp_all add: writeJSON_def writeRawJSON_def writeError_def plain_answer_def method_err_def)


section \<open>Accounts that have expired\<close>

text \<open>
  C19: An account whose row says that it has expired is not called, nor is the remote service
  asked to renew it: unless a session with the service is still live, the request ends with
  that outcome, and nothing has changed but a lock.
\<close>

theorem expired_not_called:
  assumes "ev_db env = (\<lambda>_. None)" "re_db (ev_refresh env 0) = (\<lambda>_. None)"
    and "GetAccount (a_ID acc) (app_db a) = Ok row" "accountStatus row = ''expired''"
    and "\<not> is_ok (GetSession (secs (ev_clock env 0)) (a_ID acc) (ac_TCPProxy (app_cfg a)) (app_db a))"
  shows "\<exists>l. invokeWXApp env acc appID payload call a = (Ok (Account_expired (a_OpenID acc)), a\<lparr>app_locks := l\<rparr>)"
proof -
  obtain e where e: "GetSession (secs (ev_clock env 0)) (a_ID acc) (ac_TCPProxy (app_cfg a)) (app_db a) = Err e"
    using assms(5) by (cases "GetSession (secs (ev_clock env 0)) (a_ID acc) (ac_TCPProxy (app_cfg a)) (app_db a)") (auto simp: GetSession_def)
  show ?thesis using assms(1-4) e
    by (intro exI [of _ "snd (refreshLockFor (a_ID acc) (app_locks a))"])
      (simp add: invokeWXApp_def refresh_and_call_def refreshAccount_def refresh_row_def act_bind_def act_catch_def)
qed

section \<open>Uploads\<close>

lemma lift_Ok: "act_lift g s = (Ok x, t) \<longleftrightarrow> g = Ok x \<and> t = s"
  by (cases g) (auto simp: act_lift_def)

lemma on_scripts_Ok: "on_scripts m a = (Ok x, b) \<longleftrightarrow> (\<exists>s. m (app_scripts a) = (Ok x, s) \<and> b = a\<lparr>app_scripts := s\<rparr>)"
  by (auto simp: on_scripts_def split: prod.splits)


section \<open>Logs\<close>

text \<open>The content that the log request gives out has at most 256 KiB, whatever limit is asked for.\<close>

theorem log_content_bounded:
  assumes "handleScriptLogs env name r a = (Ok an, b)" "an_Status an = 200"
  shows "\<exists>content m. an_Body an = JSON (apiEnvelope 0 ''success'' (GMap ((''name'', GStr name) # (''content'', GStr content) # m)))
    \<and> length content \<le> 262144"
proof -
  have lim: "0 < log_limit raw" "log_limit raw \<le> 262144" for raw
    by (auto simp: log_limit_def defaultLogLimit_def maxScriptLogBytes_def split: option.split)
  have tail: "length c \<le> 262144" if "Logs uni os nm (log_limit raw) s = Ok c" for uni os nm raw s c
    using that lim [of raw] by (auto simp: Logs_def go_bind_Ok_iff split: if_splits option.splits)
  obtain c m where "an = writeJSON 200 (GMap ((''name'', GStr name) # (''content'', GStr (string_of c)) # m))"
    "Logs (sv_uni env) (sv_os env) name (log_limit (rq_Query r ''limit'')) (app_scripts a) = Ok c"
    using assms
    by (cases "Logs (sv_uni env) (sv_os env) name (log_limit (rq_Query r ''limit'')) (app_scripts a)")
      (auto simp: handleScriptLogs_def act_catch_def refuse_def refuse_with_def status_of_def reply_def split: option.splits)
  with tail show ?thesis by (auto simp: writeJSON_def writeRawJSON_def plain_answer_def string_of_def)
qed

section \<open>The log on a websocket\<close>

definition write_log :: "string \<Rightarrow> nat \<Rightarrow> bytes \<Rightarrow> app \<Rightarrow> app" where
  "write_log name i p a = a\<lparr>app_scripts := command_write (length p) name i p (app_scripts a)\<rparr>"

text \<open>The run \<open>i\<close> goes on, its subscriber has nothing waiting, and the log is \<open>b\<close>.\<close>

definition following :: "script_env \<Rightarrow> string \<Rightarrow> nat \<Rightarrow> bytes \<Rightarrow> app \<Rightarrow> bool" where
  "following env name i b a \<longleftrightarrow>
     (let s = app_scripts a in
      i < length (r_objs s) \<and> map_of (rs_stream (r_objs s ! i)) (sv_chan env) = Some []
      \<and> map_of (fs_logs s) name = Some b)"

lemma map_of_publish: "map_of (publish p s) ch = map_option (\<lambda>q. if length q < chan_cap then q @ [p] else q) (map_of s ch)"
  by (induction s) (auto simp: publish_def)

lemma following_write:
  assumes "following env name i b a" "p \<noteq> []"
  shows "queue_of i (sv_chan env) (write_log name i p a) = [p]"
    "following env name i (b @ p) (on_stream i (AList.update (sv_chan env) []) (write_log name i p a))"
    "rs_finished (r_objs (app_scripts (write_log name i p a)) ! j) = rs_finished (r_objs (app_scripts a) ! j)"
  using assms
  by (auto simp: following_def Let_def write_log_def command_write_def broadcast_Write_def queue_of_def on_stream_def
      map_of_publish chan_cap_def update_conv' nth_list_update split: prod.splits)

lemma log_loop_follows:
  assumes "following env name i b a" "[] \<notin> set ps" "\<And>k. sv_send env k"
  shows "\<exists>c. log_loop env name i k (map (\<lambda>p. (write_log name i p, Log_ready)) ps @ es) a
      = (map log_frame ps @ fst (log_loop env name i (k + length ps) es c), snd (log_loop env name i (k + length ps) es c))
    \<and> following env name i (b @ concat ps) c"
  using assms(1,2)
proof (induction ps arbitrary: a b k)
  case (Cons p ps)
  let ?a = "on_stream i (AList.update (sv_chan env) []) (write_log name i p a)"
  have f: "following env name i (b @ p) ?a" and q: "queue_of i (sv_chan env) (write_log name i p a) = [p]"
    using following_write [OF Cons.prems(1), of p] Cons.prems(2) by auto
  from Cons.IH [OF f, of "Suc k"] Cons.prems(2) obtain c where c:
    "log_loop env name i (Suc k) (map (\<lambda>p. (write_log name i p, Log_ready)) ps @ es) ?a
      = (map log_frame ps @ fst (log_loop env name i (Suc k + length ps) es c), snd (log_loop env name i (Suc k + length ps) es c))"
    "following env name i ((b @ p) @ concat ps) c" by auto
  show ?case using c assms(3) q by (intro exI [of _ c]) (simp add: Let_def)
qed (auto intro!: exI)


text \<open>When the end of the run is noticed first, the output that is still waiting is never sent.\<close>

lemma stream_drops_tail:
  assumes "rs_finished (r_objs (app_scripts (m a)) ! i)" "queue_of i (sv_chan env) (m a) = chunk # rest" "sv_send env k"
  shows "log_loop env name i k [(m, Run_over)] a = ([statusPayload (Status (sv_uni env) name (app_scripts (m a)))], m a)"
  using assms by (simp add: Let_def)

end
