(* ===== verification/Service_Samples.thy ===== *)
theory Service_Samples
  imports Handler_Flows
begin

text \<open>
  A small service and requests to it, on which the theorems about the service are applied.
\<close>

definition ask :: "string \<Rightarrow> string \<Rightarrow> request" where
  "ask method path = \<lparr>rq_Method = method, rq_Path = path, rq_RequestURI = path, rq_Query = (\<lambda>_. []),
     rq_Header = (\<lambda>_. []), rq_Cookie = (\<lambda>_. None), rq_Body = [], rq_RemoteAddr = ''10.0.0.1:80''\<rparr>"

definition quiet_app_env :: app_env where
  "quiet_app_env = \<lparr>ev_clock = (\<lambda>_. 0), ev_json = [], ev_db = (\<lambda>_. None), ev_web = sample_web, ev_http = (\<lambda>_. Err ErrNoRows),
     ev_raw = Ok [1], ev_draw = (\<lambda>_. (''1'', ''2'')), ev_request_id = ''r'', ev_fetch = (\<lambda>_ _. Err ErrNoRows), ev_write = (\<lambda>_. Written),
     ev_pool = (\<lambda>_. sample_env [] 0), ev_refresh = (\<lambda>_. sample_refresh (\<lambda>_. Err ErrNoRows)), ev_present = (\<lambda>_. True),
     ev_docs = writeError 404 ''not found''\<rparr>"

definition quiet_script_env :: script_env where
  "quiet_script_env = \<lparr>sv_os = sample_os, sv_uni = no_uni, sv_zone = (\<lambda>_. 0), sv_now = 7, sv_json = [],
     sv_upload = Ok \<lparr>up_Filename = ''a.py'', up_Size = 1, up_data = Ok (Ok [1])\<rparr>, sv_write = Written, sv_accept = None,
     sv_send = (\<lambda>_. True), sv_chan = 0, sv_between = (\<lambda>s. s), sv_events = []\<rparr>"

definition quiet_env :: serve_env where
  "quiet_env = \<lparr>se_app = quiet_app_env, se_script = quiet_script_env, se_clock = (\<lambda>_. 0), se_token = Some [1], se_seeds = [],
     se_unescape = (\<lambda>s. s), se_empty = False, se_unrouted = None, se_static = writeError 404 ''not found''\<rparr>"

lemma quiet_fields [simp]:
  "ev_db quiet_app_env = (\<lambda>_. None)" "ev_clock quiet_app_env = (\<lambda>_. 0)" "ev_present quiet_app_env = (\<lambda>_. True)"
  "ev_refresh quiet_app_env = (\<lambda>_. sample_refresh (\<lambda>_. Err ErrNoRows))" "ev_http quiet_app_env = (\<lambda>_. Err ErrNoRows)"
  "ev_fetch quiet_app_env = (\<lambda>_ _. Err ErrNoRows)" "ev_write quiet_app_env = (\<lambda>_. Written)"
  "se_app quiet_env = quiet_app_env" "se_script quiet_env = quiet_script_env" "se_clock quiet_env = (\<lambda>_. 0)"
  "se_unescape quiet_env = (\<lambda>s. s)" "se_empty quiet_env = False" "se_unrouted quiet_env = None"
  "sv_between quiet_script_env = (\<lambda>s. s)" "sv_events quiet_script_env = []" "sv_uni quiet_script_env = no_uni"
  "sv_os quiet_script_env = sample_os"
  "rq_Method (ask m p) = m" "rq_Path (ask m p) = p" "rq_Cookie (ask m p) = (\<lambda>_. None)" "rq_Header (ask m p) = (\<lambda>_. [])"
  "rq_Query (ask m p) = (\<lambda>_. [])"
  by (simp_all add: quiet_app_env_def quiet_script_env_def quiet_env_def ask_def)

text \<open>A service right after its start, and after one request.\<close>

definition first_start :: app_start where
  "first_start = \<lparr>st_mkdir = (\<lambda>_. Ok ()), st_open = (\<lambda>_. Ok (sample_db [])), st_cwd = Ok ''/'', st_scripts = [], st_sched = None, st_files = []\<rparr>"


theorem routes_unambiguous_witness:
  "\<exists>!j. j < length all_routes \<and> route_params False (ask ''GET'' ''/scan'') (all_routes ! j) \<noteq> None"
proof (rule ex1I [of _ 10])
  show ten: "10 < length all_routes \<and> route_params False (ask ''GET'' ''/scan'') (all_routes ! 10) \<noteq> None"
    by (simp add: all_routes_def public_routes_def protected_routes_def on_path_def route_params_def any_method_def path_segments_def)
  fix j assume "j < length all_routes \<and> route_params False (ask ''GET'' ''/scan'') (all_routes ! j) \<noteq> None"
  then show "j = 10" using routes_unambiguous [of j 10 False "ask ''GET'' ''/scan''"] ten by blast
qed

lemma sample_stranger: "stranger quiet_env (ask ''GET'' ''/accounts'') (sample_app [sample_row])"
  by (simp add: stranger_def sample_app_def authEnabled_def trimSpace_nil)

theorem stranger_changes_nothing_witness:
  "app_pool (snd (serve quiet_env (ask ''GET'' ''/accounts'') (sample_app [sample_row]))) = app_pool (sample_app [sample_row])"
  using stranger_changes_nothing [OF sample_stranger prod.collapse [symmetric]]
  by (metis (no_types, lifting) app.simps(3) app.update_convs(5) app.select_convs(3) app.surjective)


definition scanned :: Session where
  "scanned = sample_session\<lparr>q_LoginBuffer := ''B'', q_Credentials := Some (CredentialsFromMap [(''openid'', GStr ''o'')])\<rparr>"

lemma scan_stored:
  assumes "db_ok (app_db a)" "ev_db env = (\<lambda>_. None)"
  shows "\<exists>acc b. storeFromScan env lb c None a = (Ok acc, b)"
proof -
  have av: "resolveAvatar f w k None a = ([], a)" for f w k
    by (simp add: resolveAvatar_def pickAvatarURL_def info_map_def gget_def stringFromAny_def)
  obtain g d' where u: "UpsertAccount (secs (ev_clock env 3)) (c_OpenID c) lb (stringPtrMaybe (pickNickname None (c_Nickname c)))
      (stringPtrMaybe (pickNickname None (c_Nickname c))) (stringPtrMaybe []) None
      (Some (ToMap (secs (ev_clock env 2)) c)) (Some ''alive'') (app_db a) = (g, d')" by fastforce
  from UpsertAccount_facts(1) [OF _ u] assms obtain x where "g = Ok x" by auto
  with assms u show ?thesis by (simp add: storeFromScan_def av Let_def act_bind_def)
qed


definition expired_row :: account where
  "expired_row = sample_row\<lparr>a_Status := Some ''expired''\<rparr>"

theorem expired_not_called_witness:
  "\<exists>l. invokeWXApp quiet_app_env expired_row ''wx1'' None invokeGetCode (sample_app [expired_row])
     = (Ok (Account_expired ''o''), sample_app [expired_row]\<lparr>app_locks := l\<rparr>)"
proof -
  have "a_ID expired_row = 1" "accountStatus expired_row = ''expired''" "a_OpenID expired_row = ''o''"
    by (simp_all add: expired_row_def accountStatus_def sample_row_def)
  moreover have "\<not> is_ok (GetSession now 1 px (app_db (sample_app [expired_row])))" for now px
    by (simp add: GetSession_def sample_db_def)
  ultimately show ?thesis
    using expired_not_called [of quiet_app_env expired_row "sample_app [expired_row]" expired_row "''wx1''" None invokeGetCode]
    by (simp add: sample_GetAccount)
qed


definition scripted :: app where
  "scripted = (sample_app [])\<lparr>app_scripts := sample_runner\<rparr>"

theorem log_content_bounded_witness:
  "\<exists>an content m. fst (handleScriptLogs quiet_script_env ''a.py'' (ask ''GET'' ''/scripts/a.py/logs'') scripted) = Ok an
     \<and> an_Body an = JSON (apiEnvelope 0 ''success'' (GMap ((''name'', GStr ''a.py'') # (''content'', GStr content) # m)))
     \<and> length content \<le> 262144"
proof -
  have fs: "fs_scripts sample_runner = [(''a.py'', \<lparr>sf_dir = False, sf_Size = 1, sf_ModTime = 0\<rparr>)]"
    by (simp add: sample_runner_def Start_def loadSchedules_def new_runner_def)
  have "suffix ''.py'' ''a.py''" by code_simp
  then have "\<exists>x. Status no_uni ''a.py'' sample_runner = Some x"
    by (simp add: Status_def List_scripts_def fs sample_name script_entry_def Let_def run_of_def)
  then have "\<exists>an b. handleScriptLogs quiet_script_env ''a.py'' (ask ''GET'' ''/scripts/a.py/logs'') scripted = (Ok an, b) \<and> an_Status an = 200"
    by (auto simp: handleScriptLogs_def scripted_def Logs_def sample_name act_catch_def status_of_def reply_def)
  then obtain an b where h: "handleScriptLogs quiet_script_env ''a.py'' (ask ''GET'' ''/scripts/a.py/logs'') scripted = (Ok an, b)" "an_Status an = 200"
    by blast
  from log_content_bounded [OF h] h(1) show ?thesis by auto
qed

definition streamed :: app where
  "streamed = scripted\<lparr>app_scripts := snd (RunArgs sample_os no_uni 5 ''a.py'' sample_runner)\<rparr>"


end
