(* ===== verification/Openapi_Props.thy ===== *)
theory Openapi_Props
  imports Service_Samples
begin

text \<open>
  What the description of the API promises: its references lead somewhere, its operations have
  routes, and the answers of the handlers have the shape that it gives.
\<close>

section \<open>References\<close>

text \<open>The names that a description refers to.\<close>

fun refs :: "gval \<Rightarrow> string list" where
  "refs (GMap m) = concat (map (\<lambda>(k, v). (case v of GStr s \<Rightarrow> if k = ''$ref'' then [s] else [] | _ \<Rightarrow> refs v)) m)"
| "refs (GMaps ms) = concat (map (\<lambda>m. concat (map (\<lambda>(k, v). (case v of GStr s \<Rightarrow> if k = ''$ref'' then [s] else [] | _ \<Rightarrow> refs v)) m)) ms)"
| "refs (GArr vs) = concat (map refs vs)"
| "refs _ = []"

lemma refs_closed:
  "list_all (\<lambda>r. prefix ''#/components/schemas/'' r \<and> drop (length ''#/components/schemas/'') r \<in> set (map fst doc_schemas))
     (refs (GMap newOpenAPISpec))"
  by code_simp

section \<open>Values of a schema\<close>

text \<open>
  Whether a value has the shape of a schema: of a schema that is named, of exactly one of
  several, null where that is allowed, or of a type. \<open>S\<close> are the named schemas; the first
  argument bounds the nesting.
\<close>

fun conforms :: "nat \<Rightarrow> gmap \<Rightarrow> gmap \<Rightarrow> gval \<Rightarrow> bool" where
  "conforms 0 S s v = False"
| "conforms (Suc n) S s v =
     (if ghas s ''$ref'' then
        (case gget s ''$ref'' of
           GStr r \<Rightarrow> (case gget S (drop (length ''#/components/schemas/'') r) of GMap t \<Rightarrow> conforms n S t v | _ \<Rightarrow> False)
         | _ \<Rightarrow> False)
      else if ghas s ''oneOf'' then
        (case gget s ''oneOf'' of GMaps ts \<Rightarrow> length (filter (\<lambda>t. conforms n S t v) ts) = 1 | _ \<Rightarrow> False)
      else
        (case v of
           GNil \<Rightarrow> gget s ''nullable'' = GBool True
         | GBool _ \<Rightarrow> gget s ''type'' = GStr ''boolean''
         | GInt _ _ \<Rightarrow> gget s ''type'' = GStr ''integer''
         | GStr x \<Rightarrow> gget s ''type'' = GStr ''string'' \<and> (case gget s ''enum'' of GArr es \<Rightarrow> GStr x \<in> set es | _ \<Rightarrow> True)
         | GArr vs \<Rightarrow> gget s ''type'' = GStr ''array''
             \<and> (case gget s ''items'' of GMap t \<Rightarrow> list_all (conforms n S t) vs | _ \<Rightarrow> False)
         | GMap m \<Rightarrow> gget s ''type'' = GStr ''object''
             \<and> (case gget s ''required'' of GArr ks \<Rightarrow> list_all (\<lambda>k. case k of GStr k \<Rightarrow> ghas m k | _ \<Rightarrow> False) ks | _ \<Rightarrow> True)
             \<and> (case gget s ''properties'' of
                  GMap ps \<Rightarrow> list_all (\<lambda>(k, t). case map_of m k of None \<Rightarrow> True
                    | Some x \<Rightarrow> (case t of GMap t \<Rightarrow> conforms n S t x | _ \<Rightarrow> False)) ps
                | _ \<Rightarrow> True)
         | _ \<Rightarrow> False))"

text \<open>The operations, and the schemas of their answers.\<close>

fun submap :: "gmap \<Rightarrow> string list \<Rightarrow> gmap option" where
  "submap m [] = Some m"
| "submap m (k # ks) = (case gget m k of GMap t \<Rightarrow> submap t ks | _ \<Rightarrow> None)"

definition operations :: "(string \<times> string) list" where
  "operations =
     (case gget newOpenAPISpec ''paths'' of
        GMap ps \<Rightarrow> concat (map (\<lambda>(p, t). case t of GMap ms \<Rightarrow> map (\<lambda>(m, _). (m, p)) ms | _ \<Rightarrow> []) ps)
      | _ \<Rightarrow> [])"

definition response_schema :: "string \<Rightarrow> string \<Rightarrow> string \<Rightarrow> gmap option" where
  "response_schema m p status =
     submap newOpenAPISpec [''paths'', p, m, ''responses'', status, ''content'', ''application/json'', ''schema'']"

definition verb :: "string \<Rightarrow> string" where
  "verb m = (if m = ''get'' then ''GET'' else if m = ''post'' then ''POST'' else if m = ''put'' then ''PUT'' else ''DELETE'')"

text \<open>A path of the description as a pattern.\<close>

definition doc_segments :: "string \<Rightarrow> segment list" where
  "doc_segments p = map (\<lambda>s. if prefix ''{'' s then Param else Lit s) (split_on (CHR ''/'') (drop 1 p))"

lemma operations_list:
  "operations =
     [(''get'', ''/health''), (''get'', ''/ready''), (''post'', ''/qr''), (''get'', ''/qr/{session_id}/image''),
      (''get'', ''/qr/{session_id}/poll''), (''post'', ''/qr/{session_id}/confirm''), (''get'', ''/accounts''),
      (''delete'', ''/accounts''), (''post'', ''/accounts/refresh''), (''post'', ''/accounts/resync''),
      (''get'', ''/accounts/avatar''), (''get'', ''/features''), (''post'', ''/activity/sign''),
      (''post'', ''/accounts/{ref}/call''), (''post'', ''/wxapp/getCode''), (''post'', ''/wxapp/getPhoneNumber''),
      (''post'', ''/wxapp/operateWxData''), (''post'', ''/wxapp/getHostSign''), (''get'', ''/scripts''), (''post'', ''/scripts''),
      (''post'', ''/scripts/{name}/run''), (''post'', ''/scripts/{name}/stop''), (''get'', ''/scripts/{name}/logs''),
      (''put'', ''/scripts/{name}/schedule''), (''delete'', ''/scripts/{name}/schedule''), (''delete'', ''/scripts/{name}'')]"
  by code_simp

section \<open>Routes of the operations\<close>

text \<open>The description puts the upload at a path where no route takes it.\<close>

lemma upload_not_routed:
  "list_all (\<lambda>(ms, q). apart (doc_segments ''/scripts'') q \<or> ''POST'' \<notin> set ms) (map shape_of all_routes)"
  by code_simp

section \<open>How the building blocks read\<close>

declare conforms.simps [simp del]

lemmas conforms_cases = conforms.simps(2) ghas_def gget_def

lemma conforms_ref:
  "gget S name = GMap t \<Longrightarrow> conforms (Suc n) S (refSchema name) v = conforms n S t v"
  by (simp add: refSchema_def conforms_cases)

lemma conforms_object:
  "conforms (Suc n) S (objectSchema rq ps) (GMap m) \<longleftrightarrow>
     list_all (ghas m) rq \<and> list_all (\<lambda>(k, t). case map_of m k of None \<Rightarrow> True
       | Some x \<Rightarrow> (case t of GMap t \<Rightarrow> conforms n S t x | _ \<Rightarrow> False)) ps"
  by (cases "rq = []") (auto simp: objectSchema_def conforms_cases list_all_iff)

lemma conforms_array:
  "conforms (Suc n) S (arraySchema t) (GArr vs) \<longleftrightarrow> list_all (conforms n S t) vs"
  by (simp add: arraySchema_def conforms_cases)

lemma conforms_oneOf:
  "conforms (Suc n) S (oneOfSchema ts) v \<longleftrightarrow> length (filter (\<lambda>t. conforms n S t v) ts) = 1"
  by (simp add: oneOfSchema_def conforms_cases)

lemma conforms_scalar [simp]:
  "conforms (Suc n) S int64Schema (GInt k i)"
  "conforms (Suc n) S nullableInt64Schema (GInt k i)" "conforms (Suc n) S nullableInt64Schema GNil"
  "conforms (Suc n) S (nullableStringSchema d) (GStr s)" "conforms (Suc n) S (nullableStringSchema d) GNil"
  "conforms (Suc n) S (freeFormObjectSchema d) (GMap m)" "conforms (Suc n) S (nullableObjectSchema d) GNil"
  "conforms (Suc n) S [(''type'', GStr ''string'')] (GStr s)"
  "conforms (Suc n) S [(''type'', GStr ''string''), (''example'', e)] (GStr s)"
  "conforms (Suc n) S [(''type'', GStr ''string''), (''description'', e)] (GStr s)"
  "conforms (Suc n) S [(''type'', GStr ''string''), (''nullable'', e)] (GStr s)"
  "conforms (Suc n) S [(''type'', GStr ''boolean'')] (GBool b)"
  "conforms (Suc n) S [(''type'', GStr ''integer'')] (GInt k i)"
  "conforms (Suc n) S [(''type'', GStr ''integer''), (''example'', e)] (GInt k i)"
  "conforms (Suc n) S [(''type'', GStr ''integer''), (''nullable'', e)] (GInt k i)"
  "conforms (Suc n) S [(''type'', GStr ''integer''), (''nullable'', GBool True)] GNil"
  "conforms (Suc n) S [(''type'', GStr ''integer''), (''example'', e), (''description'', d')] (GInt k i)"
  "conforms (Suc n) S [(''type'', GStr ''string''), (''example'', e), (''description'', d')] (GStr s)"
  by (simp_all add: int64Schema_def nullableInt64Schema_def nullableStringSchema_def freeFormObjectSchema_def nullableObjectSchema_def
      conforms_cases)

lemma conforms_enum [simp]:
  "conforms (Suc n) S [(''type'', GStr ''string''), (''enum'', GArr es)] (GStr s) \<longleftrightarrow> GStr s \<in> set es"
  by (simp add: conforms_cases)

lemma conforms_opt [simp]:
  "conforms (Suc n) S nullableInt64Schema (opt_int i)" "conforms (Suc n) S (nullableStringSchema d) (opt_str s)"
  "conforms (Suc n) S [(''type'', GStr ''integer''), (''nullable'', GBool True)] (opt_num i)"
  by (simp_all add: opt_int_def opt_str_def opt_num_def split: option.split)

lemma conforms_envelope:
  "conforms (Suc (Suc n)) S (apiResponseSchema (Some s)) (apiEnvelope 0 ''success'' v) \<longleftrightarrow> conforms (Suc n) S s v"
  by (simp add: apiResponseSchema_def apiEnvelope_def conforms_object ghas_def)

lemma conforms_named:
  "conforms (Suc n) doc_schemas (refSchema name) v =
     (case map_of doc_schemas name of Some (GMap t) \<Rightarrow> conforms n doc_schemas t v | _ \<Rightarrow> False)"
  by (simp add: refSchema_def conforms_cases split: option.split)

lemma named_schemas [simp]:
  "map_of doc_schemas ''APIErrorResponse'' = Some (GMap schema_APIErrorResponse)"
  "map_of doc_schemas ''HealthResponse'' = Some (GMap schema_HealthResponse)"
  "map_of doc_schemas ''ReadyResponse'' = Some (GMap schema_ReadyResponse)"
  "map_of doc_schemas ''QRCreateResponse'' = Some (GMap schema_QRCreateResponse)"
  "map_of doc_schemas ''QRPollResponse'' = Some (GMap schema_QRPollResponse)"
  "map_of doc_schemas ''AccountPublic'' = Some (GMap schema_AccountPublic)"
  "map_of doc_schemas ''RefreshResult'' = Some (GMap schema_RefreshResult)"
  "map_of doc_schemas ''DeleteAccountResponse'' = Some (GMap schema_DeleteAccountResponse)"
  "map_of doc_schemas ''RefreshResponse'' = Some (GMap schema_RefreshResponse)"
  "map_of doc_schemas ''ResyncResponse'' = Some (GMap schema_ResyncResponse)"
  "map_of doc_schemas ''FeatureDefinition'' = Some (GMap schema_FeatureDefinition)"
  "map_of doc_schemas ''ActivitySignResponse'' = Some (GMap schema_ActivitySignResponse)"
  "map_of doc_schemas ''CallFeatureResponse'' = Some (GMap schema_CallFeatureResponse)"
  "map_of doc_schemas ''WxappResponse'' = Some (GMap schema_WxappResponse)"
  "map_of doc_schemas ''ScriptInfo'' = Some (GMap schema_ScriptInfo)"
  "map_of doc_schemas ''ScriptListResponse'' = Some (GMap schema_ScriptListResponse)"
  "map_of doc_schemas ''ScriptLogsResponse'' = Some (GMap schema_ScriptLogsResponse)"
  "map_of doc_schemas ''ScriptStopResponse'' = Some (GMap schema_ScriptStopResponse)"
  by (simp_all add: doc_schemas_def)

lemmas object_schemas = schema_APIErrorResponse_def schema_HealthResponse_def schema_ReadyResponse_def schema_QRCreateResponse_def
  schema_QRPollResponse_def schema_AccountPublic_def schema_RefreshResult_def schema_DeleteAccountResponse_def
  schema_FeatureDefinition_def schema_ActivitySignResponse_def schema_CallFeatureResponse_def schema_WxappResponse_def
  schema_ScriptInfo_def schema_ScriptListResponse_def schema_ScriptLogsResponse_def schema_ScriptStopResponse_def

lemmas small_schemas = conforms_named object_schemas conforms_object ghas_def

lemma named_conform [simp]:
  "conforms (Suc (Suc (Suc n))) doc_schemas (refSchema ''APIErrorResponse'') (apiEnvelope c s GNil)"
  "conforms (Suc (Suc (Suc n))) doc_schemas (refSchema ''AccountPublic'') (public_json p)"
  "conforms (Suc (Suc (Suc n))) doc_schemas (refSchema ''RefreshResult'') (refreshOut acc st)"
  "conforms (Suc (Suc (Suc n))) doc_schemas (refSchema ''FeatureDefinition'') (feature_json f)"
  "conforms (Suc (Suc (Suc n))) doc_schemas (refSchema ''ScriptInfo'') (script_json sc)"
  by (simp_all add: small_schemas public_json_def refreshOut_def feature_json_def script_json_def apiEnvelope_def Let_def
      split: option.split)

text \<open>One account or all of them.\<close>

lemma object_no_array [simp]: "\<not> conforms n S (objectSchema rq ps) (GArr vs)"
  by (cases n) (simp_all add: conforms.simps ghas_def gget_def objectSchema_def)

lemma no_array [simp]:
  "\<not> conforms n doc_schemas (refSchema ''AccountPublic'') (GArr vs)" "\<not> conforms n doc_schemas (refSchema ''RefreshResult'') (GArr vs)"
  by (cases n; simp add: conforms_named schema_AccountPublic_def schema_RefreshResult_def conforms.simps(1))+

lemma array_no_object [simp]:
  "\<not> conforms n S (arraySchema t) (public_json p)" "\<not> conforms n S (arraySchema t) (refreshOut acc st)"
  by (cases n; simp add: conforms.simps ghas_def gget_def arraySchema_def public_json_def refreshOut_def)+

section \<open>Answers of the handlers\<close>

text \<open>An answer in JSON has the shape that is documented: of the success, or of an error.\<close>

definition documented :: "gmap option \<Rightarrow> answer \<Rightarrow> bool" where
  "documented s an \<longleftrightarrow> (\<forall>v. an_Body an = JSON v \<longrightarrow>
     (if an_Status an = 200 then (case s of Some s \<Rightarrow> conforms 8 doc_schemas s v | None \<Rightarrow> False)
      else 400 \<le> an_Status an \<and> conforms 8 doc_schemas (refSchema ''APIErrorResponse'') v))"

lemma eight: "(8 :: nat) = Suc (Suc (Suc (Suc (Suc (Suc (Suc (Suc 0)))))))"
  by simp

interpretation dc: error_answers "documented s" for s
  by unfold_locales (simp add: documented_def writeError_def writeRawJSON_def plain_answer_def eight)

definition data_of :: "gmap \<Rightarrow> gmap option" where
  "data_of s = Some (apiResponseSchema (Some s))"

lemma documented_reply [simp]:
  "documented (data_of s) (writeJSON 200 v) \<longleftrightarrow> conforms (Suc (Suc (Suc (Suc (Suc (Suc (Suc 0))))))) doc_schemas s v"
  by (simp add: documented_def data_of_def writeJSON_def writeRawJSON_def plain_answer_def eight conforms_envelope)

lemma documented_plain [simp]:
  "documented s method_err" "documented s (http_Redirect u n)" "documented s (plain_answer n (File f))" "documented s (with_cookie c an) = documented s an"
  by (simp_all add: dc.errors method_err_def) (simp_all add: documented_def http_Redirect_def plain_answer_def with_cookie_def)

lemma yields_known: "yields P m \<Longrightarrow> (\<And>x. P x \<Longrightarrow> yields Q (k x)) \<Longrightarrow> yields Q (act_bind m k)"
  unfolding yields_def by (metis act_bind_OkE)

lemma yields_known_catch:
  "yields P m \<Longrightarrow> (\<And>e. yields Q (h e)) \<Longrightarrow> (\<And>x. P x \<Longrightarrow> yields Q (k x)) \<Longrightarrow> yields Q (act_catch m h k)"
  unfolding yields_def act_catch_def by (fastforce split: prod.splits go.splits)

lemmas doc_intros = yields_steps dc.checks yields_basic documented_plain


lemma doc_qr_root: "yields (documented (data_of (refSchema ''QRCreateResponse''))) (handleQRRoot env r)"
  unfolding handleQRRoot_def by (intro doc_intros) (simp_all add: small_schemas)

definition poll_states :: "string list" where
  "poll_states = [''pending'', ''scanned'', ''authorized'', ''confirmed'', ''expired'', ''cancelled'', ''unknown'']"

lemma poll_state: "yields (\<lambda>p. pr_Status p \<in> set poll_states) (PollQRCode web now_ms)"
  unfolding yields_def PollQRCode_def poll_answer_def poll_states_def
  by (auto simp: Let_def split: if_splits prod.splits go.splits)

lemma poll_conforms:
  "pr_Status p \<in> set poll_states \<Longrightarrow> conforms (Suc (Suc (Suc n))) doc_schemas (refSchema ''QRPollResponse'') (poll_json p)"
  by (auto simp: small_schemas poll_json_def poll_states_def split: option.split)

lemma on_session_yields: "yields P m \<Longrightarrow> yields P (on_session i s m)"
  by (fastforce simp: yields_def on_session_def split: prod.splits)

lemma doc_poll:
  assumes "split_on (CHR ''/'') (trimPrefix ''/qr/'' (rq_Path r)) = [i, ''poll'']"
  shows "yields (documented (data_of (refSchema ''QRPollResponse''))) (handleQR env r)"
  unfolding handleQR_def assms
  by (simp del: split_on.simps) (intro conjI impI yields_known_catch [OF on_session_yields [OF poll_state]] doc_intros; simp add: poll_conforms)

lemma doc_confirm:
  assumes "split_on (CHR ''/'') (trimPrefix ''/qr/'' (rq_Path r)) = [i, ''confirm'']"
  shows "yields (documented (data_of (refSchema ''AccountPublic''))) (handleQR env r)"
  unfolding handleQR_def assms
  by (simp del: split_on.simps) (intro conjI impI doc_intros; simp)

lemma doc_image:
  assumes "split_on (CHR ''/'') (trimPrefix ''/qr/'' (rq_Path r)) = [i, ''image'']"
  shows "yields (documented None) (handleQR env r)"
  unfolding handleQR_def assms
  by (simp del: split_on.simps) (intro conjI impI doc_intros; simp)

lemma doc_accounts:
  "rq_Method r = ''GET'' \<Longrightarrow> yields (documented (data_of (arraySchema (refSchema ''AccountPublic'')))) (handleAccountsRoot env r)"
  unfolding handleAccountsRoot_def by (simp; intro conjI impI doc_intros; simp add: conforms_array list_all_iff)

lemma doc_account_deleted:
  "rq_Method r = ''DELETE'' \<Longrightarrow> yields (documented (data_of (refSchema ''DeleteAccountResponse''))) (handleAccountsRoot env r)"
  unfolding handleAccountsRoot_def by (simp; intro conjI impI doc_intros; simp add: small_schemas)

definition all_named :: "string \<Rightarrow> gval list \<Rightarrow> bool" where
  "all_named name vs \<longleftrightarrow> (\<forall>v \<in> set vs. \<forall>n. conforms (Suc (Suc (Suc n))) doc_schemas (refSchema name) v)"

lemma all_named_Nil: "yields (all_named name) (act_ret [])"
  by (simp add: yields_basic all_named_def)

lemma all_named_Cons:
  "yields (all_named name) m \<Longrightarrow> (\<And>n. conforms (Suc (Suc (Suc n))) doc_schemas (refSchema name) v) \<Longrightarrow>
     yields (all_named name) (act_bind m (\<lambda>vs. act_ret (v # vs)))"
  by (rule yields_known [where P = "all_named name"]) (auto intro!: yields_basic simp: all_named_def)

lemma refresh_all_named: "yields (all_named ''RefreshResult'') (refresh_all env k accs)"
  by (induction accs arbitrary: k) (simp_all add: all_named_Nil yields_bind all_named_Cons)

lemma resync_all_named: "yields (all_named ''AccountPublic'') (resync_all env k accs)"
  by (induction accs arbitrary: k) (simp_all add: all_named_Nil yields_bind all_named_Cons)

lemma one_or_all:
  "conforms (Suc (Suc (Suc (Suc (Suc (Suc (Suc n))))))) doc_schemas (refSchema ''RefreshResponse'') (refreshOut acc st)"
  "conforms (Suc (Suc (Suc (Suc (Suc (Suc (Suc n))))))) doc_schemas (refSchema ''ResyncResponse'') (public_json p)"
  "all_named ''RefreshResult'' vs \<Longrightarrow>
     conforms (Suc (Suc (Suc (Suc (Suc (Suc (Suc n))))))) doc_schemas (refSchema ''RefreshResponse'') (GArr vs)"
  "all_named ''AccountPublic'' vs \<Longrightarrow>
     conforms (Suc (Suc (Suc (Suc (Suc (Suc (Suc n))))))) doc_schemas (refSchema ''ResyncResponse'') (GArr vs)"
  by (simp_all add: conforms_named [of _ "''RefreshResponse''"] conforms_named [of _ "''ResyncResponse''"] schema_RefreshResponse_def
      schema_ResyncResponse_def conforms_oneOf conforms_array all_named_def list_all_iff)

lemma doc_refresh: "yields (documented (data_of (refSchema ''RefreshResponse''))) (handleAccountRefresh env r)"
  unfolding handleAccountRefresh_def refreshAll_def
  by (intro yields_known [OF refresh_all_named] doc_intros) (simp_all add: one_or_all)

lemma doc_resync: "yields (documented (data_of (refSchema ''ResyncResponse''))) (handleAccountResync env r)"
  unfolding handleAccountResync_def resyncAll_def
  by (intro yields_known_catch [OF resync_all_named] doc_intros) (simp_all add: one_or_all)

lemma doc_avatar: "yields (documented None) (handleAccountAvatar env r)"
  unfolding handleAccountAvatar_def serveAvatar_def Let_def by (intro doc_intros; simp)

lemma call_conforms [simp]:
  "conforms (Suc (Suc (Suc n))) doc_schemas (refSchema ''WxappResponse'') (GMap [(''openid'', GStr x), (''result'', GMap m)])"
  "conforms (Suc (Suc (Suc n))) doc_schemas (refSchema ''CallFeatureResponse'')
     (GMap [(''feature'', GStr f), (''openid'', GStr x), (''result'', GMap m)])"
  by (simp_all add: small_schemas)

lemma doc_wxapp:
  "yields (documented (data_of (refSchema ''WxappResponse''))) (handleGetCode env r)"
  "yields (documented (data_of (refSchema ''WxappResponse''))) (handleGetPhoneNumber env r)"
  "yields (documented (data_of (refSchema ''WxappResponse''))) (handleOperateWXData env r)"
  "yields (documented (data_of (refSchema ''WxappResponse''))) (handleGetHostSign env r)"
  unfolding handleGetCode_def handleGetPhoneNumber_def handleOperateWXData_def handleGetHostSign_def acceptWXAppRoute_def callWXApp_def
  by (intro doc_intros; simp)+

lemma doc_call: "yields (documented (data_of (refSchema ''CallFeatureResponse''))) (handleAccountCall env r)"
  unfolding handleAccountCall_def Let_def by (intro doc_intros; simp)

lemma doc_features: "documented (data_of (arraySchema (refSchema ''FeatureDefinition''))) (handleFeatures r)"
  by (simp add: handleFeatures_def Let_def conforms_array list_all_iff)

lemma sign_conforms [simp]: "conforms (Suc (Suc (Suc n))) doc_schemas (refSchema ''ActivitySignResponse'') (sign_json x)"
  by (simp add: small_schemas sign_json_def)

lemma sign_answers:
  assumes "\<And>x. Q (writeJSON 200 (sign_json x))" "\<And>t. Q (writeError 400 t)" "Q method_err"
    and "handleActivitySign n bs r = Some (Ok an)"
  shows "Q an"
proof -
  have res: "Q an" if "(case res of Ok s \<Rightarrow> Ok (writeJSON 200 (sign_json s)) | Err e \<Rightarrow> Ok (writeError 400 (err_text [] e)) | Panic \<Rightarrow> Panic) = Ok an" for res
    using that assms(1,2) by (auto split: go.splits)
  show ?thesis
    using assms(2-4) by (cases "decodeOptionalJSON r sign_fields") (auto simp: handleActivitySign_def Let_def split: if_splits dest!: res)
qed

lemma doc_sign:
  "handleActivitySign n bs r = Some (Ok an) \<Longrightarrow> documented (data_of (refSchema ''ActivitySignResponse'')) an"
  by (erule sign_answers [rotated 3]) (simp_all add: dc.errors)

lemma health_conforms [simp]:
  "conforms (Suc (Suc (Suc n))) doc_schemas (refSchema ''HealthResponse'') (GMap [(''ok'', GBool True)])"
  "documented (data_of (refSchema ''ReadyResponse'')) handleReady"
  by (simp_all add: handleReady_def small_schemas)

lemma doc_reply_status: "yields (documented (data_of (refSchema ''ScriptInfo''))) (reply_status env name)"
  unfolding reply_status_def by (intro doc_intros; simp)

lemma doc_script_info:
  "yields (documented (data_of (refSchema ''ScriptInfo''))) (handleScriptRun env name r)"
  "yields (documented (data_of (refSchema ''ScriptInfo''))) (handleScriptSchedule env name r)"
  unfolding handleScriptRun_def handleScriptSchedule_def by (intro doc_intros doc_reply_status; simp)+

lemma doc_script_list: "yields (documented (data_of (refSchema ''ScriptListResponse''))) (handleScriptList env name r)"
  unfolding handleScriptList_def
  by (intro doc_intros) (simp add: conforms_named [of _ "''ScriptListResponse''"] schema_ScriptListResponse_def conforms_object ghas_def conforms_array list_all_iff)

lemma doc_script_logs: "yields (documented (data_of (refSchema ''ScriptLogsResponse''))) (handleScriptLogs env name r)"
  unfolding handleScriptLogs_def run_fields_def by (intro doc_intros; simp add: small_schemas)

lemma doc_script_stop:
  "yields (documented (data_of (refSchema ''ScriptStopResponse''))) (handleScriptStop env name r)"
  "yields (documented (data_of (refSchema ''ScriptStopResponse''))) (handleScriptUnschedule env name r)"
  "yields (documented (data_of (refSchema ''ScriptStopResponse''))) (handleScriptDelete env name r)"
  unfolding handleScriptStop_def handleScriptUnschedule_def handleScriptDelete_def by (intro doc_intros; simp add: small_schemas)+

section \<open>The operations and their handlers\<close>

lemma submap_paths: "submap newOpenAPISpec (''paths'' # ks) = submap doc_paths ks"
  by (simp add: newOpenAPISpec_def doc_head_def gget_def)

lemma operation_success:
  "submap (openAPIOperation ts su ps b (defaulted ((''200'', GMap t) # rest))) (''responses'' # ''200'' # ks) = submap t ks"
  by (simp add: openAPIOperation_def defaulted_def gget_def)

lemma operation_default:
  "submap (openAPIOperation ts su ps b (defaulted [(''200'', t)])) (''responses'' # ''default'' # [''content'', ''application/json'', ''schema''])
     = Some (refSchema ''APIErrorResponse'')"
  "submap (openAPIOperation ts su ps b (defaulted [(''200'', t), (''302'', u)])) (''responses'' # ''default'' # [''content'', ''application/json'', ''schema''])
     = Some (refSchema ''APIErrorResponse'')"
  by (simp_all add: openAPIOperation_def defaulted_def jsonErrorResponse_def gget_def)

lemma success_schemas:
  "submap (jsonResponse d s) [''content'', ''application/json'', ''schema''] = data_of s"
  "submap (imageResponse d) [''content'', ''application/json'', ''schema''] = None"
  by (simp_all add: jsonResponse_def imageResponse_def gget_def data_of_def)

text \<open>The operations with the schema of their success and the route that serves them.\<close>

definition described :: "(string \<times> string \<times> gmap option \<times> route) list" where
  "described =
     [(''get'', ''/health'', data_of (refSchema ''HealthResponse''),
         on_path [''GET''] [Lit ''health''] (fixed (writeJSON 200 (GMap [(''ok'', GBool True)])))),
      (''get'', ''/ready'', data_of (refSchema ''ReadyResponse''), on_path [''GET''] [Lit ''ready''] (fixed handleReady)),
      (''post'', ''/qr'', data_of (refSchema ''QRCreateResponse''), on_path any_method [Lit ''qr''] (by_app handleQRRoot)),
      (''get'', ''/qr/{session_id}/image'', None, on_path any_method [Lit ''qr'', Param, Lit ''image''] (by_app handleQR)),
      (''get'', ''/qr/{session_id}/poll'', data_of (refSchema ''QRPollResponse''),
         on_path any_method [Lit ''qr'', Param, Lit ''poll''] (by_app handleQR)),
      (''post'', ''/qr/{session_id}/confirm'', data_of (refSchema ''AccountPublic''),
         on_path any_method [Lit ''qr'', Param, Lit ''confirm''] (by_app handleQR)),
      (''get'', ''/accounts'', data_of (arraySchema (refSchema ''AccountPublic'')), on_path any_method [Lit ''accounts''] (by_app handleAccountsRoot)),
      (''delete'', ''/accounts'', data_of (refSchema ''DeleteAccountResponse''), on_path any_method [Lit ''accounts''] (by_app handleAccountsRoot)),
      (''post'', ''/accounts/refresh'', data_of (refSchema ''RefreshResponse''),
         on_path any_method [Lit ''accounts'', Lit ''refresh''] (by_app handleAccountRefresh)),
      (''post'', ''/accounts/resync'', data_of (refSchema ''ResyncResponse''),
         on_path any_method [Lit ''accounts'', Lit ''resync''] (by_app handleAccountResync)),
      (''get'', ''/accounts/avatar'', None, on_path any_method [Lit ''accounts'', Lit ''avatar''] (by_app handleAccountAvatar)),
      (''get'', ''/features'', data_of (arraySchema (refSchema ''FeatureDefinition'')), on_path any_method [Lit ''features''] features),
      (''post'', ''/activity/sign'', data_of (refSchema ''ActivitySignResponse''), on_path any_method [Lit ''activity'', Lit ''sign''] activity_sign),
      (''post'', ''/accounts/{ref}/call'', data_of (refSchema ''CallFeatureResponse''),
         on_path any_method [Lit ''accounts'', Param, Lit ''call''] (by_app handleAccountCall)),
      (''post'', ''/wxapp/getCode'', data_of (refSchema ''WxappResponse''), on_path any_method [Lit ''wxapp'', Lit ''getCode''] (by_app handleGetCode)),
      (''post'', ''/wxapp/getPhoneNumber'', data_of (refSchema ''WxappResponse''),
         on_path any_method [Lit ''wxapp'', Lit ''getPhoneNumber''] (by_app handleGetPhoneNumber)),
      (''post'', ''/wxapp/operateWxData'', data_of (refSchema ''WxappResponse''),
         on_path any_method [Lit ''wxapp'', Lit ''operateWxData''] (by_app handleOperateWXData)),
      (''post'', ''/wxapp/getHostSign'', data_of (refSchema ''WxappResponse''),
         on_path any_method [Lit ''wxapp'', Lit ''getHostSign''] (by_app handleGetHostSign)),
      (''get'', ''/scripts'', data_of (refSchema ''ScriptListResponse''), on_path [''GET''] [Lit ''scripts''] (by_script handleScriptList)),
      (''post'', ''/scripts/{name}/run'', data_of (refSchema ''ScriptInfo''),
         on_path [''POST''] [Lit ''scripts'', Param, Lit ''run''] (by_script handleScriptRun)),
      (''post'', ''/scripts/{name}/stop'', data_of (refSchema ''ScriptStopResponse''),
         on_path [''POST''] [Lit ''scripts'', Param, Lit ''stop''] (by_script handleScriptStop)),
      (''get'', ''/scripts/{name}/logs'', data_of (refSchema ''ScriptLogsResponse''),
         on_path [''GET''] [Lit ''scripts'', Param, Lit ''logs''] (by_script handleScriptLogs)),
      (''put'', ''/scripts/{name}/schedule'', data_of (refSchema ''ScriptInfo''),
         on_path [''PUT''] [Lit ''scripts'', Param, Lit ''schedule''] (by_script handleScriptSchedule)),
      (''delete'', ''/scripts/{name}/schedule'', data_of (refSchema ''ScriptStopResponse''),
         on_path [''DELETE''] [Lit ''scripts'', Param, Lit ''schedule''] (by_script handleScriptUnschedule)),
      (''delete'', ''/scripts/{name}'', data_of (refSchema ''ScriptStopResponse''),
         on_path [''DELETE''] [Lit ''scripts'', Param] (by_script handleScriptDelete))]"

lemma named_paths [simp]:
  "submap doc_paths (''/health'' # ks) = submap path_health ks" "submap doc_paths (''/ready'' # ks) = submap path_ready ks" "submap doc_paths (''/qr'' # ks) = submap path_qr ks"
  "submap doc_paths (''/qr/{session_id}/image'' # ks) = submap path_qr_image ks" "submap doc_paths (''/qr/{session_id}/poll'' # ks) = submap path_qr_poll ks"
  "submap doc_paths (''/qr/{session_id}/confirm'' # ks) = submap path_qr_confirm ks" "submap doc_paths (''/accounts'' # ks) = submap path_accounts ks"
  "submap doc_paths (''/accounts/refresh'' # ks) = submap path_accounts_refresh ks" "submap doc_paths (''/accounts/resync'' # ks) = submap path_accounts_resync ks"
  "submap doc_paths (''/accounts/avatar'' # ks) = submap path_accounts_avatar ks" "submap doc_paths (''/features'' # ks) = submap path_features ks"
  "submap doc_paths (''/activity/sign'' # ks) = submap path_activity_sign ks" "submap doc_paths (''/accounts/{ref}/call'' # ks) = submap path_accounts_call ks"
  "submap doc_paths (''/wxapp/getCode'' # ks) = submap path_wxapp_getCode ks" "submap doc_paths (''/wxapp/getPhoneNumber'' # ks) = submap path_wxapp_getPhoneNumber ks"
  "submap doc_paths (''/wxapp/operateWxData'' # ks) = submap path_wxapp_operateWxData ks" "submap doc_paths (''/wxapp/getHostSign'' # ks) = submap path_wxapp_getHostSign ks"
  "submap doc_paths (''/scripts'' # ks) = submap path_scripts ks" "submap doc_paths (''/scripts/{name}/run'' # ks) = submap path_scripts_run ks"
  "submap doc_paths (''/scripts/{name}/stop'' # ks) = submap path_scripts_stop ks" "submap doc_paths (''/scripts/{name}/logs'' # ks) = submap path_scripts_logs ks"
  "submap doc_paths (''/scripts/{name}/schedule'' # ks) = submap path_scripts_schedule ks" "submap doc_paths (''/scripts/{name}'' # ks) = submap path_scripts_one ks"
  by (simp_all add: doc_paths_def gget_def)

lemmas path_defs = path_health_def path_ready_def path_qr_def path_qr_image_def path_qr_poll_def path_qr_confirm_def
  path_accounts_def path_accounts_refresh_def path_accounts_resync_def path_accounts_avatar_def path_features_def
  path_activity_sign_def path_accounts_call_def path_wxapp_getCode_def path_wxapp_getPhoneNumber_def
  path_wxapp_operateWxData_def path_wxapp_getHostSign_def path_scripts_def path_scripts_run_def path_scripts_stop_def
  path_scripts_logs_def path_scripts_schedule_def path_scripts_one_def

lemma path_method:
  "submap ((m, GMap op) # rest) (m # ks) = submap op ks"
  "m \<noteq> m' \<Longrightarrow> submap ((m, GMap op) # rest) (m' # ks) = submap rest (m' # ks)"
  by (simp_all add: gget_def)

lemma described_schema: "(m, p, s, rt) \<in> set described \<Longrightarrow> response_schema m p ''200'' = s"
proof -
  have "list_all (\<lambda>(m, p, s, rt). submap doc_paths [p, m, ''responses'', ''200'', ''content'', ''application/json'', ''schema''] = s) described"
    by (simp add: described_def path_defs path_method operation_success success_schemas del: submap.simps(2))
  then show "(m, p, s, rt) \<in> set described \<Longrightarrow> response_schema m p ''200'' = s"
    by (auto simp: response_schema_def submap_paths list_all_iff simp del: submap.simps(2))
qed

lemma described_default: "(m, p, s, rt) \<in> set described \<Longrightarrow> response_schema m p ''default'' = Some (refSchema ''APIErrorResponse'')"
proof -
  have "list_all (\<lambda>(m, p, s, rt). submap doc_paths [p, m, ''responses'', ''default'', ''content'', ''application/json'', ''schema'']
      = Some (refSchema ''APIErrorResponse'')) described"
    by (simp add: described_def path_defs path_method operation_default del: submap.simps(2))
  then show "(m, p, s, rt) \<in> set described \<Longrightarrow> response_schema m p ''default'' = Some (refSchema ''APIErrorResponse'')"
    by (auto simp: response_schema_def submap_paths list_all_iff simp del: submap.simps(2))
qed

lemma described_pattern: "(m, p, s, rt) \<in> set described \<Longrightarrow> rt_Path rt = doc_segments p \<and> verb m \<in> set (rt_Methods rt)"
proof -
  have "list_all (\<lambda>(m, p, s, rt). rt_Path rt = doc_segments p \<and> verb m \<in> set (rt_Methods rt)) described"
    by (simp add: described_def on_path_def doc_segments_def verb_def any_method_def)
  then show "(m, p, s, rt) \<in> set described \<Longrightarrow> rt_Path rt = doc_segments p \<and> verb m \<in> set (rt_Methods rt)"
    by (auto simp: list_all_iff)
qed

lemma described_routes: "(m, p, s, rt) \<in> set described \<Longrightarrow> rt \<in> set all_routes"
proof -
  have "list_all (\<lambda>(m, p, s, rt). rt \<in> set all_routes) described"
    by (simp add: described_def all_routes_def public_routes_def protected_routes_def on_path_def)
  then show "(m, p, s, rt) \<in> set described \<Longrightarrow> rt \<in> set all_routes"
    by (auto simp: list_all_iff)
qed

lemma split_on_two: "split_on c s = x # y # ys \<Longrightarrow> \<exists>t. s = x @ c # t \<and> split_on c t = y # ys"
  by (induction s arbitrary: x) (auto split: list.splits if_splits)

lemma qr_parts:
  assumes "path_segments p = Some ss" "match_path e [Lit ''qr'', Param, Lit act] ss \<noteq> None"
  shows "\<exists>i. split_on (CHR ''/'') (trimPrefix ''/qr/'' p) = [i, act]"
proof -
  obtain s where p: "p = CHR ''/'' # s" "split_on (CHR ''/'') s = ss"
    using assms(1) by (auto simp: path_segments_def split: list.splits if_splits)
  obtain i where "ss = [''qr'', i, act]"
    using assms(2) by (cases ss; cases "tl ss"; cases "tl (tl ss)"; cases "tl (tl (tl ss))") (auto split: if_splits)
  with p(2) obtain t where "s = ''qr'' @ CHR ''/'' # t" "split_on (CHR ''/'') t = [i, act]" by (metis split_on_two)
  with p(1) show ?thesis by (simp add: trimPrefix_def)
qed

lemma operations_described:
  assumes "(m, p) \<in> set operations" "(m, p) \<noteq> (''post'', ''/scripts'')"
  shows "\<exists>s rt. (m, p, s, rt) \<in> set described"
proof -
  have "map (\<lambda>(m, p, s, rt). (m, p)) described = remove1 (''post'', ''/scripts'') operations"
    by (simp add: operations_list described_def)
  moreover have "(m, p) \<in> set (remove1 (''post'', ''/scripts'') operations)"
    using assms by (rule in_set_remove1 [THEN iffD2, rotated])
  ultimately have "(m, p) \<in> set (map (\<lambda>(m, p, s, rt). (m, p)) described)" by (simp only:)
  then show ?thesis by auto
qed

lemma doc_qr:
  assumes "handleQR env r a = (Ok an, t)" "route_params e r \<lparr>rt_Methods = ms, rt_Path = [Lit ''qr'', Param, Lit act], rt_Endpoint = h\<rparr> = Some y"
  shows "act = ''image'' \<Longrightarrow> documented None an"
    "act = ''poll'' \<Longrightarrow> documented (data_of (refSchema ''QRPollResponse'')) an"
    "act = ''confirm'' \<Longrightarrow> documented (data_of (refSchema ''AccountPublic'')) an"
proof -
  obtain ss where "path_segments (rq_Path r) = Some ss" "match_path e [Lit ''qr'', Param, Lit act] ss \<noteq> None"
    using assms(2) by (auto simp: route_params_def split: if_splits option.splits)
  then obtain i where "split_on (CHR ''/'') (trimPrefix ''/qr/'' (rq_Path r)) = [i, act]" using qr_parts by blast
  then show "act = ''image'' \<Longrightarrow> documented None an"
    "act = ''poll'' \<Longrightarrow> documented (data_of (refSchema ''QRPollResponse'')) an"
    "act = ''confirm'' \<Longrightarrow> documented (data_of (refSchema ''AccountPublic'')) an"
    using doc_image doc_poll doc_confirm assms(1) by (blast dest: yieldsD)+
qed

lemma described_conform:
  assumes "(m, p, s, rt) \<in> set described" "rq_Method r = verb m" "route_params e r rt \<noteq> None"
    and "rt_Endpoint rt env v name r a = (Ok (Some an), t)"
  shows "documented s an"
proof -
  note others = doc_qr_root doc_refresh doc_resync doc_avatar doc_wxapp doc_call doc_script_info doc_script_list doc_script_logs doc_script_stop
    doc_accounts doc_account_deleted
  show ?thesis
    using assms
    apply (auto simp: described_def on_path_def by_app_def by_script_def fixed_def features_def activity_sign_def answers_Ok verb_def
        doc_features split: option.splits
        dest: others [THEN yieldsD] doc_sign)
      apply (rule doc_qr, assumption, assumption, rule refl)+
    done
qed

lemma routes_same:
  assumes "x \<in> set all_routes" "y \<in> set all_routes" "route_params e r x \<noteq> None" "route_params e r y \<noteq> None"
  shows "x = y"
proof -
  obtain i j where i: "i < length all_routes" "x = all_routes ! i" and j: "j < length all_routes" "y = all_routes ! j"
    using assms(1,2) by (metis in_set_conv_nth)
  then have "i = j" using routes_once [of i j e r] routes_once [of j i e r] assms(3,4) by (cases i j rule: linorder_cases) auto
  with i j show ?thesis by simp
qed

lemma route_of_cases:
  "route_of e r rts = Some rt \<Longrightarrow> rt \<in> set rts \<and> route_params e r rt \<noteq> None"
  "route_of e r rts = None \<Longrightarrow> rt \<in> set rts \<Longrightarrow> route_params e r rt = None"
  by (auto simp: route_of_def find_Some_iff find_None_iff)

lemma guard_documented:
  "requireBrowserSession unescape now r u = (v, u') \<Longrightarrow> (case v of Pass _ \<Rightarrow> True | Answer an \<Rightarrow> documented s an)"
  by (auto simp: requireBrowserSession_def Let_def dc.errors split: if_splits option.splits prod.splits)

lemma dispatch_documented:
  assumes "(m, p, s, rt) \<in> set described" "rq_Method r = verb m" "route_params (se_empty env) r rt \<noteq> None"
    and "dispatch env r a = (Ok (Some an), t)"
  shows "documented s an"
proof (cases "route_of (se_empty env) r public_routes")
  case (Some rt')
  then have "rt' = rt" using routes_same [OF _ described_routes [OF assms(1)] _ assms(3)] route_of_cases(1) [OF Some]
    by (auto simp: all_routes_def)
  with Some assms(4) described_conform [OF assms(1-3)] show ?thesis by (simp add: dispatch_def run_route_def)
next
  case None
  then have "rt \<in> set protected_routes"
    using described_routes [OF assms(1)] route_of_cases(2) [OF None] assms(3) by (auto simp: all_routes_def)
  then obtain rt' where rt': "route_of (se_empty env) r protected_routes = Some rt'"
    using route_of_cases(2) assms(3) by (cases "route_of (se_empty env) r protected_routes") auto
  then have "rt' = rt" using routes_same [OF _ described_routes [OF assms(1)] _ assms(3)] route_of_cases(1) [OF rt']
    by (auto simp: all_routes_def)
  with None rt' assms(4) have g: "guarded env r rt a = (Ok (Some an), t)" by (simp add: dispatch_def)
  obtain v u where v: "requireBrowserSession (se_unescape env) (se_clock env 0) r (app_auth a) = (v, u)"
    by (cases "requireBrowserSession (se_unescape env) (se_clock env 0) r (app_auth a)")
  show ?thesis
    using g guard_documented [OF v, of s] described_conform [OF assms(1-3)]
    by (auto simp: guarded_def on_auth_def v act_bind_def run_route_def split: verdict.splits)
qed

text \<open>
  C11: The description of the API is true of the answers: whatever becomes of a request for an
  operation that it describes (other than the upload, which has no route there), an answer in
  JSON has status 200 and the schema that is given for it, with the envelope, all required
  fields and the states that are listed, or it has an error status and the schema of an error.
\<close>

theorem api_answers_conform:
  assumes "(m, p) \<in> set operations" "(m, p) \<noteq> (''post'', ''/scripts'')"
    and "rq_Method r = verb m" "path_segments (rq_Path r) = Some ss" "match_path (se_empty env) (doc_segments p) ss \<noteq> None"
    and "serve env r a = (Some an, b)" "an_Body an = JSON v"
  shows "if an_Status an = 200 then \<exists>s. response_schema m p ''200'' = Some s \<and> conforms 8 doc_schemas s v
    else 400 \<le> an_Status an \<and> (\<exists>s. response_schema m p ''default'' = Some s \<and> conforms 8 doc_schemas s v)"
proof -
  obtain s rt where d: "(m, p, s, rt) \<in> set described" using operations_described [OF assms(1,2)] by blast
  have "route_params (se_empty env) r rt \<noteq> None"
    using described_pattern [OF d] assms(3-5) by (simp add: route_params_def)
  moreover obtain t where "dispatch env r a = (Ok (Some an), t)"
    using assms(6,7) by (auto simp: serve_def plain_answer_def split: prod.splits go.splits)
  ultimately have "documented s an" using dispatch_documented [OF d assms(3)] by blast
  then show ?thesis
    using assms(7) described_schema [OF d] described_default [OF d] by (auto simp: documented_def split: option.splits)
qed

theorem api_answers_conform_witness:
  "\<exists>an v s. fst (serve quiet_env (ask ''GET'' ''/health'') (sample_app [])) = Some an \<and> an_Body an = JSON v \<and> an_Status an = 200
     \<and> response_schema ''get'' ''/health'' ''200'' = Some s \<and> conforms 8 doc_schemas s v"
proof -
  let ?an = "writeJSON 200 (GMap [(''ok'', GBool True)])"
  have "rq_Method (ask ''GET'' ''/health'') = verb ''get''" "path_segments (rq_Path (ask ''GET'' ''/health'')) = Some [''health'']"
    "match_path (se_empty quiet_env) (doc_segments ''/health'') [''health''] \<noteq> None"
    by (simp_all add: verb_def path_segments_def doc_segments_def)
  moreover have "(''get'', ''/health'') \<in> set operations" by (simp add: operations_list)
  moreover have s: "serve quiet_env (ask ''GET'' ''/health'') (sample_app []) = (Some ?an, sample_app [])"
    by (simp add: serve_def dispatch_def route_of_def public_routes_def on_path_def route_params_def any_method_def path_segments_def
        run_route_def fixed_def)
  moreover have b: "an_Status ?an = 200 \<and> an_Body ?an = JSON (apiEnvelope 0 ''success'' (GMap [(''ok'', GBool True)]))"
    by (simp add: writeJSON_def writeRawJSON_def plain_answer_def)
  ultimately have "\<exists>s. response_schema ''get'' ''/health'' ''200'' = Some s
      \<and> conforms 8 doc_schemas s (apiEnvelope 0 ''success'' (GMap [(''ok'', GBool True)]))"
    using api_answers_conform [of "''get''" "''/health''" "ask ''GET'' ''/health''" "[''health'']" quiet_env "sample_app []" ?an] by simp
  with s b show ?thesis by auto
qed

end
