(* ===== verification/Spec2Isabelle.thy ===== *)
theory Spec2Isabelle
  imports Mmtls_Handshake Shortlink Hostsign Loginbuffer Transport Pool_Concurrency Runner_Props Auth_Props Qr_Props Keepalive_Props
    Activity_Sign Service_Config_Props Openapi_Props
begin

text \<open>
  Verification of yyb_go, a service in Go that keeps WeChat accounts: it logs accounts in by QR
  code, renews their credentials, calls mini programs on their behalf over the MMTLS protocol,
  and runs Python scripts of the user, all behind a console with a secret key.

  \<^bold>\<open>The program and how its parts interact.\<close> \<open>cmd/yyb-go/main.go\<close> finds and reads the
  configuration and starts the application of \<open>internal/httpapi\<close>. That application owns the
  database (\<open>internal/store\<close>), the pool of sessions with the remote service
  (\<open>internal/protocol\<close>), the script runner (\<open>internal/scriptrunner\<close>), the QR sessions
  (\<open>internal/qr\<close>) and the console sessions (\<open>auth.go\<close>). A request passes the table of routes
  and the check of \<open>auth.go\<close> to a handler. Handlers for calls ask the database for a session
  row; when there is none they refresh the credentials (\<open>keepalive.go\<close>, \<open>loginbuffer.go\<close>)
  and let the pool log in (\<open>ilink.go\<close> over \<open>mmtls_client.go\<close>, to targets that \<open>newdns.go\<close>
  found, through the proxy of \<open>transport.go\<close>) and call (\<open>shortlink.go\<close>).

  \<^bold>\<open>Theories.\<close> Each theory names its Go file in its first lines; definitions keep the names of
  the Go functions, and fields of a struct carry a short prefix.

  \<^item> What the program uses of Go itself: \<open>Go_Prelude\<close> (results, bytes, words), \<open>Go_State\<close>
    (methods that change their receiver, with triples that carry invariants), \<open>Go_Strings\<close>,
    \<open>Go_Values\<close>, \<open>Go_Json\<close>, \<open>Go_Fmt\<close>, \<open>Go_Time\<close>, \<open>Go_Path\<close>, \<open>Go_Net\<close>, \<open>Go_Http\<close> and
    \<open>Go_Crypto\<close> (executable SHA-256, HMAC, MD5, AES-GCM and P-256, with the interfaces
    \<open>mac32\<close> and \<open>aead\<close> that they are shown to meet).
  \<^item> Wire formats: \<open>Proto_Bytes\<close> and \<open>Proto_Map\<close> (\<open>bytes.go\<close>).
  \<^item> MMTLS: \<open>Mmtls_Protocol\<close> (records and messages), \<open>Mmtls_Crypto\<close> (keys), \<open>Mmtls_Client\<close>
    (the state machine), \<open>Mmtls_Handshake\<close> (nonces, authentication, completion).
  \<^item> Login and calls: \<open>Ilink\<close>, \<open>Ilink_Props\<close>, \<open>Shortlink\<close>, \<open>Hostsign\<close>, \<open>Transport\<close>, \<open>Newdns\<close>,
    \<open>Loginbuffer\<close>.
  \<^item> The pool: \<open>Pool\<close>, \<open>Pool_Props\<close>, and \<open>Pool_Concurrency\<close> with the goroutines that run its
    central method at once.
  \<^item> The database: \<open>Store\<close>, tables as lists of rows and SQL statements as functions, with the
    interface \<open>session_store\<close>.
  \<^item> The script runner: \<open>Cron\<close>, \<open>Runner\<close>, \<open>Runner_Props\<close>.
  \<^item> The application: \<open>Auth\<close> and \<open>Auth_Props\<close>, \<open>Qr\<close> and \<open>Qr_Props\<close>, \<open>App_State\<close>, \<open>Keepalive\<close>
    and \<open>Keepalive_Props\<close>, \<open>Activity_Sign\<close>, \<open>Openapi\<close>, \<open>App_Handlers\<close>, \<open>Script_Handlers\<close>,
    \<open>Routes\<close>, \<open>Service_Config\<close> and \<open>Service_Config_Props\<close>.
  \<^item> The service as a whole: \<open>Service_Props\<close> (the invariant of every reachable state, built on
    the interface \<open>state_part\<close> for the parts of the state), \<open>Service_Safety\<close> (routes, strangers),
    \<open>Handler_Props\<close> (files that are given out; the interface \<open>error_answers\<close>),
    \<open>Handler_Flows\<close> (what single handlers achieve),
    \<open>Service_Samples\<close> (a small service on which these theorems are applied) and \<open>Openapi_Props\<close>
    (the answers of the handlers have the schemas of the description that \<open>openapi.go\<close> gives out).

  \<^bold>\<open>How the code is represented.\<close> A Go function that returns a value and an error gives
  \<open>Ok\<close>, \<open>Err\<close> or \<open>Panic\<close>; a run-time panic is a value like the others, so that a theorem that
  says \<open>Ok\<close> excludes it. A method with a receiver takes and returns the receiver, also when it
  fails. Integers of a fixed width are words, or integers with their wrap-around written out; an
  \<open>any\<close> is a value of \<open>gval\<close>. Mutexes that only guard one method at a time need no model in
  sequential theories; where their order matters (the pool) they are part of the state. What the
  program cannot determine is an argument: readings of the clock, random draws, chunks that the
  network delivers, answers of HTTP servers, decisions of the operating system, the text of an
  error of \<open>encoding/json\<close>, and interference of other goroutines where a Go function waits.

  \<^bold>\<open>What the lemmas show.\<close> Each theory of definitions is followed by its facts: round trips of the
  encoders, invariants (\<open>db_ok\<close>, \<open>runs_ok\<close>, \<open>attempts_ok\<close>, \<open>qr_inv\<close>, the sequence numbers of a
  connection) with one lemma for each operation that keeps them, and what the operation gives on
  each branch. Step relations (\<open>client_step\<close>, \<open>db_step\<close>, \<open>pool_step\<close>, \<open>runner_step\<close>, \<open>auth_step\<close>,
  \<open>qr_step\<close>, \<open>go_step\<close>, \<open>service_step\<close>) say which calls other code can make, and invariants are
  shown for all states that they reach. The theorems marked with a number are the properties of
  the program; each with hypotheses has a witness that applies it to concrete values.

  \<^bold>\<open>Bounds and fuel.\<close> Loops over buffers are structural or have a measure. The JSON parser takes
  as fuel twice the length of the text plus two: every value and every element or member consumes
  at least one character. The reader of proxy headers is bounded by the number of bytes that the
  script of reads holds, of which each line takes at least one. The search for the configuration climbs at
  most as many directories as the path has characters. The cron search is bounded by the code
  itself (366 days of minutes). The check of a value
  against a schema takes the depth 8, which is enough for the deepest schema (an envelope around one object or an
  array of them, each behind a reference). Elsewhere loops end by their own measure and carry no fuel.

  \<^bold>\<open>Texts.\<close> Messages that are Chinese in the source are given in English, and an error made by
  \<open>fmt.Errorf\<close> may stand as its format; only texts that the code inspects (what makes a failure
  definitive) are kept exactly, as UTF-8 bytes where they are Chinese.

  \<^bold>\<open>Not modelled.\<close> \<open>fallback_html.go\<close> holds three constant HTML pages; the HTML, JavaScript and
  Python files are not Go. gin, the websocket library, the Swagger handler, SQLite and
  \<open>net/http\<close> are outside: what they answer is an argument of the definitions that use them. The
  start and end of goroutines, the HTTP server and the signals in \<open>main.run\<close>, log output, file
  permissions, and the opening of the database file have no logic of their own and are left out.
  Contexts appear as the errors that they make calls return. The handlers run one at a time in
  \<open>serve\<close>; interleavings are modelled for the pool (\<open>Pool_Concurrency\<close>), for runs and their
  commands (\<open>runner_step\<close>) and for the websocket (events between frames).
\<close>

end
